(* ===== verification/NutPrelude.thy ===== *)
theory NutPrelude
  imports Main "HOL-Library.Word" "HOL-Library.List_Lexorder"
begin

text \<open>
  Shared vocabulary of the development: C strings as character lists, the C library
  routines the daemons rely on (ctype tests, case-insensitive comparison, strtol, atoi,
  snprintf into a fixed buffer), snprintfcat() of common/common.c, integers at their C
  width, and the generic lemmas that the component theories share.

  A C string is the list of its bytes before the terminating NUL.  A HOL char is one
  byte.  A fixed-size buffer of n bytes holds at most n - 1 characters and the NUL.
\<close>

named_theorems buf_bounds \<open>length bounds of formatted buffers\<close>
named_theorems ci_simps \<open>rewriting of case-insensitive comparison to keys\<close>

section \<open>Bytes and character classes\<close>

type_synonym cstr = "char list"

abbreviation byte_of :: "char \<Rightarrow> nat" where
  "byte_of c \<equiv> of_char c"

text \<open>A plain char widened to int: signed, as on the platforms NUT is built for.\<close>

definition schar :: "char \<Rightarrow> int" where
  "schar c = (if byte_of c < 128 then int (byte_of c) else int (byte_of c) - 256)"

definition isspace :: "char \<Rightarrow> bool" where
  "isspace c \<longleftrightarrow> (9 \<le> byte_of c \<and> byte_of c \<le> 13) \<or> byte_of c = 32"

definition isdigit :: "char \<Rightarrow> bool" where
  "isdigit c \<longleftrightarrow> 48 \<le> byte_of c \<and> byte_of c \<le> 57"

definition c_tolower :: "char \<Rightarrow> char" where
  "c_tolower c = (if 65 \<le> byte_of c \<and> byte_of c \<le> 90 then char_of (byte_of c + 32) else c)"

text \<open>The bytes that parseconf accepts into a word: Space up to DEL.\<close>

definition word_char :: "char \<Rightarrow> bool" where
  "word_char c \<longleftrightarrow> 32 \<le> byte_of c \<and> byte_of c \<le> 127"

abbreviation NL :: char where
  "NL \<equiv> CHR 0x0A"

abbreviation QUOTE :: char where
  "QUOTE \<equiv> CHR 0x22"

abbreviation BSLASH :: char where
  "BSLASH \<equiv> CHR 0x5C"

abbreviation HASH :: char where
  "HASH \<equiv> CHR 0x23"

lemma byte_of_le: "byte_of c \<le> 255"
  using nat_of_char_less_256 [of c] by linarith

lemma byte_eq_iff: "(byte_of c = byte_of d) = (c = d)"
  by simp

lemma char_of_schar:
  assumes "0 \<le> schar c"
  shows "char_of (nat (schar c)) = c"
proof -
  have "byte_of c < 128"
    using assms byte_of_le [of c] by (auto simp: schar_def split: if_splits)
  then show ?thesis by (simp add: schar_def)
qed

lemma schar_inj: "(schar c = schar d) = (c = d)"
proof
  assume "schar c = schar d"
  then have "byte_of c = byte_of d"
    using byte_of_le [of c] byte_of_le [of d]
    by (auto simp: schar_def split: if_splits)
  then show "c = d" by simp
qed simp

lemma word_char_schar: "word_char c \<longleftrightarrow> 32 \<le> schar c \<and> schar c \<le> 127"
  using byte_of_le [of c] by (auto simp: word_char_def schar_def)

section \<open>Case-insensitive comparison\<close>

text \<open>
  strcasecmp(): the sign of the first difference of the lower-cased unsigned bytes.
\<close>

fun strcasecmp :: "cstr \<Rightarrow> cstr \<Rightarrow> int" where
  "strcasecmp [] [] = 0"
| "strcasecmp [] (b # bs) = -1"
| "strcasecmp (a # as) [] = 1"
| "strcasecmp (a # as) (b # bs) =
     (if c_tolower a = c_tolower b then strcasecmp as bs
      else int (byte_of (c_tolower a)) - int (byte_of (c_tolower b)))"

definition strncasecmp :: "cstr \<Rightarrow> cstr \<Rightarrow> nat \<Rightarrow> int" where
  "strncasecmp a b n = strcasecmp (take n a) (take n b)"

text \<open>strncmp(a, b, n) == 0.\<close>

definition strneq :: "cstr \<Rightarrow> cstr \<Rightarrow> nat \<Rightarrow> bool" where
  "strneq a b n \<longleftrightarrow> take n a = take n b"

text \<open>The comparison key: two strings compare as their keys do lexicographically.\<close>

definition ci_key :: "cstr \<Rightarrow> nat list" where
  "ci_key s = map (\<lambda>c. byte_of (c_tolower c)) s"

lemma ci_key_simps [simp]:
  "ci_key [] = []"
  "ci_key (c # s) = byte_of (c_tolower c) # ci_key s"
  by (simp_all add: ci_key_def)

lemma strcasecmp_eq_0 [ci_simps]: "strcasecmp a b = 0 \<longleftrightarrow> ci_key a = ci_key b"
  by (induction a b rule: strcasecmp.induct) auto

lemma strcasecmp_neg [ci_simps]: "strcasecmp a b < 0 \<longleftrightarrow> ci_key a < ci_key b"
  by (induction a b rule: strcasecmp.induct) (auto simp: byte_eq_iff)

lemma strcasecmp_pos [ci_simps]: "0 < strcasecmp a b \<longleftrightarrow> ci_key b < ci_key a"
proof -
  have "0 < strcasecmp a b \<longleftrightarrow> \<not> strcasecmp a b < 0 \<and> strcasecmp a b \<noteq> 0"
    by linarith
  also have "\<dots> \<longleftrightarrow> ci_key b < ci_key a"
    unfolding strcasecmp_neg strcasecmp_eq_0 by (metis linorder_less_linear order_less_asym)
  finally show ?thesis .
qed

lemma strcasecmp_refl [simp]: "strcasecmp a a = 0"
  by (simp add: strcasecmp_eq_0)

lemma strcasecmp_sym_0: "strcasecmp a b = 0 \<longleftrightarrow> strcasecmp b a = 0"
  by (auto simp: strcasecmp_eq_0)

section \<open>Integers at their C width\<close>

definition c_int :: "int \<Rightarrow> int" where
  "c_int x = sint (word_of_int x :: 32 word)"

definition LONG_MAX :: int where
  "LONG_MAX = 2 ^ 63 - 1"

definition LONG_MIN :: int where
  "LONG_MIN = - (2 ^ 63)"

definition INT_MAX :: int where
  "INT_MAX = 2 ^ 31 - 1"

definition INT_MIN :: int where
  "INT_MIN = - (2 ^ 31)"

definition ULONG_MAX :: int where
  "ULONG_MAX = 2 ^ 64 - 1"

lemma c_int_id: "INT_MIN \<le> x \<Longrightarrow> x \<le> INT_MAX \<Longrightarrow> c_int x = x"
  by (simp add: c_int_def INT_MIN_def INT_MAX_def sint_sbintrunc' signed_take_bit_int_eq_self)

lemma c_int_range: "INT_MIN \<le> c_int x \<and> c_int x \<le> INT_MAX"
  using sint_range_size [of "word_of_int x :: 32 word"]
  by (simp add: c_int_def INT_MIN_def INT_MAX_def word_size)

section \<open>Number scanning: strtol, strtoul, atoi\<close>

datatype errno = EOK | EINVAL | ERANGE

definition digit_val :: "char \<Rightarrow> nat" where
  "digit_val c =
     (if isdigit c then byte_of c - 48
      else if 97 \<le> byte_of (c_tolower c) \<and> byte_of (c_tolower c) \<le> 122
      then byte_of (c_tolower c) - 87 else 36)"

definition digits_value :: "nat \<Rightarrow> cstr \<Rightarrow> nat" where
  "digits_value b ds = foldl (\<lambda>a c. a * b + digit_val c) 0 ds"

definition scan_sign :: "cstr \<Rightarrow> bool \<times> cstr" where
  "scan_sign s = (case s of [] \<Rightarrow> (False, [])
     | c # r \<Rightarrow> if c = CHR ''-'' then (True, r) else if c = CHR ''+'' then (False, r) else (False, s))"

text \<open>The base prefix: 0x for bases 0 and 16 when a hexadecimal digit follows; 0 for base 0.\<close>

definition scan_base :: "nat \<Rightarrow> cstr \<Rightarrow> nat \<times> cstr" where
  "scan_base base s =
     (if (base = 0 \<or> base = 16) \<and> 3 \<le> length s \<and> s ! 0 = CHR ''0''
          \<and> c_tolower (s ! 1) = CHR ''x'' \<and> digit_val (s ! 2) < 16
      then (16, drop 2 s)
      else if base = 0 then (if s \<noteq> [] \<and> hd s = CHR ''0'' then 8 else 10, s)
      else (base, s))"

text \<open>
  The common scanner: (negative, magnitude, rest), or None when no digit was found (the
  end pointer is then the start of the string).
\<close>

definition scan_num :: "cstr \<Rightarrow> nat \<Rightarrow> (bool \<times> nat \<times> cstr) option" where
  "scan_num s base =
     (let (neg, s2) = scan_sign (dropWhile isspace s);
          (b, s3) = scan_base base s2;
          ds = takeWhile (\<lambda>c. digit_val c < b) s3
      in if ds = [] then None
         else Some (neg, digits_value b ds, dropWhile (\<lambda>c. digit_val c < b) s3))"

definition valid_base :: "nat \<Rightarrow> bool" where
  "valid_base base \<longleftrightarrow> base = 0 \<or> (2 \<le> base \<and> base \<le> 36)"

definition strtol :: "cstr \<Rightarrow> nat \<Rightarrow> int \<times> cstr \<times> errno" where
  "strtol s base =
     (if \<not> valid_base base then (0, s, EINVAL)
      else case scan_num s base of
        None \<Rightarrow> (0, s, EOK)
      | Some (neg, m, rest) \<Rightarrow>
          (let v = (if neg then - int m else int m)
           in if LONG_MAX < v then (LONG_MAX, rest, ERANGE)
              else if v < LONG_MIN then (LONG_MIN, rest, ERANGE)
              else (v, rest, EOK)))"

definition strtoul :: "cstr \<Rightarrow> nat \<Rightarrow> int \<times> cstr \<times> errno" where
  "strtoul s base =
     (if \<not> valid_base base then (0, s, EINVAL)
      else case scan_num s base of
        None \<Rightarrow> (0, s, EOK)
      | Some (neg, m, rest) \<Rightarrow>
          (if ULONG_MAX < int m then (ULONG_MAX, rest, ERANGE)
           else (if neg then (- int m) mod 2 ^ 64 else int m, rest, EOK)))"

definition atol :: "cstr \<Rightarrow> int" where
  "atol s = fst (strtol s 10)"

definition atoi :: "cstr \<Rightarrow> int" where
  "atoi s = c_int (atol s)"

lemma strtol_range: "LONG_MIN \<le> fst (strtol s base) \<and> fst (strtol s base) \<le> LONG_MAX"
  by (auto simp: strtol_def Let_def LONG_MIN_def LONG_MAX_def split: option.splits)

lemma atoi_range: "INT_MIN \<le> atoi s \<and> atoi s \<le> INT_MAX"
  by (simp add: atoi_def c_int_range)

section \<open>Decimal output\<close>

fun show_nat :: "nat \<Rightarrow> cstr" where
  "show_nat n = (if n < 10 then [char_of (48 + n)]
     else show_nat (n div 10) @ [char_of (48 + n mod 10)])"

declare show_nat.simps [simp del]

definition show_int :: "int \<Rightarrow> cstr" where
  "show_int i = (if i < 0 then CHR ''-'' # show_nat (nat (- i)) else show_nat (nat i))"

lemma isdigit_char_of: "n < (10::nat) \<Longrightarrow> isdigit (char_of (48 + n))"
  by (simp add: isdigit_def)

lemma show_nat_digits: "c \<in> set (show_nat n) \<Longrightarrow> isdigit c"
proof (induction n rule: show_nat.induct)
  case (1 n)
  then show ?case
    by (auto simp: show_nat.simps [of n] isdigit_def split: if_splits)
qed

lemma show_nat_not_Nil [simp]: "show_nat n \<noteq> []"
  by (subst show_nat.simps) simp

lemma digits_value_append:
  "digits_value b (xs @ [c]) = digits_value b xs * b + digit_val c"
  by (simp add: digits_value_def)

lemma digit_val_char_of: "n < 10 \<Longrightarrow> digit_val (char_of (48 + n)) = n"
  by (simp add: digit_val_def isdigit_def)

lemma digits_value_show_nat: "digits_value 10 (show_nat n) = n"
proof (induction n rule: show_nat.induct)
  case (1 n)
  show ?case
  proof (cases "n < 10")
    case True
    then show ?thesis
      by (subst show_nat.simps) (simp add: digits_value_def digit_val_char_of)
  next
    case False
    then have "digits_value 10 (show_nat n) = n div 10 * 10 + n mod 10"
      using "1.IH" by (subst show_nat.simps) (simp add: digits_value_append digit_val_char_of)
    then show ?thesis by simp
  qed
qed

section \<open>Formatting into a fixed buffer\<close>

text \<open>snprintf(buf, size, ...) where the complete output would be s.\<close>

definition snprintf :: "nat \<Rightarrow> cstr \<Rightarrow> cstr" where
  "snprintf sz s = take (sz - 1) s"

text \<open>
  snprintfcat(dst, size, ...): vsnprintfcat() decrements size before it computes the room
  that is left, so the result holds at most size - 2 characters unless dst was longer.
\<close>

definition snprintfcat :: "cstr \<Rightarrow> nat \<Rightarrow> cstr \<Rightarrow> cstr" where
  "snprintfcat dst bufsize s =
     (let len = length dst; sz = bufsize - 1
      in if sz < len then dst else dst @ take (sz - len - 1) s)"

lemma length_snprintf [buf_bounds]: "0 < sz \<Longrightarrow> length (snprintf sz s) < sz"
  by (simp add: snprintf_def)

lemma length_snprintfcat [buf_bounds]:
  "length dst < sz \<Longrightarrow> length (snprintfcat dst sz s) < sz"
  by (auto simp: snprintfcat_def Let_def)

lemma snprintf_fits: "length s < sz \<Longrightarrow> snprintf sz s = s"
  by (simp add: snprintf_def)

lemma snprintfcat_fits: "length dst + length s + 2 \<le> sz \<Longrightarrow> snprintfcat dst sz s = dst @ s"
  by (auto simp: snprintfcat_def Let_def)

section \<open>Lists as linked lists\<close>

text \<open>Index of the first element that satisfies a test: the pointer a search loop stops at.\<close>

fun find_idx :: "('a \<Rightarrow> bool) \<Rightarrow> 'a list \<Rightarrow> nat option" where
  "find_idx p [] = None"
| "find_idx p (x # xs) = (if p x then Some 0 else map_option Suc (find_idx p xs))"

lemma find_idx_Some:
  "find_idx p xs = Some i \<Longrightarrow> i < length xs \<and> p (xs ! i) \<and> (\<forall>j<i. \<not> p (xs ! j))"
proof (induction xs arbitrary: i)
  case (Cons x xs)
  then show ?case
    by (auto simp: nth_Cons less_Suc_eq_0_disj split: if_splits nat.splits)
qed simp

lemma find_idx_None: "find_idx p xs = None \<longleftrightarrow> (\<forall>x\<in>set xs. \<not> p x)"
  by (induction xs) auto

lemma find_idx_cong_update:
  assumes "i < length xs" "p y = p (xs ! i)"
  shows "find_idx p (xs[i := y]) = find_idx p xs"
  using assms
proof (induction xs arbitrary: i)
  case (Cons x xs)
  then show ?case by (cases i) auto
qed simp

text \<open>Unlinking the node at an index.\<close>

definition remove_nth :: "nat \<Rightarrow> 'a list \<Rightarrow> 'a list" where
  "remove_nth i xs = take i xs @ drop (Suc i) xs"

lemma remove_nth_simps [simp]:
  "remove_nth i [] = []"
  "remove_nth 0 (x # xs) = xs"
  "remove_nth (Suc i) (x # xs) = x # remove_nth i xs"
  by (simp_all add: remove_nth_def)

lemma length_remove_nth: "i < length xs \<Longrightarrow> length (remove_nth i xs) = length xs - 1"
  by (simp add: remove_nth_def)

lemma set_remove_nth_subset: "set (remove_nth i xs) \<subseteq> set xs"
  by (auto simp: remove_nth_def dest: in_set_takeD in_set_dropD)

lemma filter_remove_nth:
  "i < length xs \<Longrightarrow>
   length (filter p (remove_nth i xs)) = length (filter p xs) - (if p (xs ! i) then 1 else 0)"
proof (induction xs arbitrary: i)
  case (Cons x xs)
  show ?case
  proof (cases i)
    case 0
    then show ?thesis by simp
  next
    case (Suc k)
    then have k: "k < length xs" using Cons.prems by simp
    have "p (xs ! k) \<Longrightarrow> 0 < length (filter p xs)"
      using k by (metis filter_empty_conv length_greater_0_conv nth_mem)
    then show ?thesis using Cons.IH [OF k] Suc by auto
  qed
qed simp

lemma filter_update_count:
  "i < length xs \<Longrightarrow>
   length (filter p (xs[i := y])) + (if p (xs ! i) then 1 else 0)
     = length (filter p xs) + (if p y then 1 else 0)"
proof (induction xs arbitrary: i)
  case (Cons x xs)
  then show ?case by (cases i) auto
qed simp

end
