(* ===== verification/ParseConf.thy ===== *)
theory ParseConf
  imports NutPrelude
begin

text \<open>
  common/parseconf.c: the character-driven configuration and protocol line parser, and
  pconf_encode(), which quotes a value for it.  The context record has the fields of
  PCONF_CTX_t.  wordbuf is the accumulator up to its terminator: wordptr always points at
  that terminator, so "wordptr != wordbuf" is "wordbuf is not empty".  The stream is the
  list of bytes that fgetc() has still to deliver, None for a NULL stream.
\<close>

section \<open>The context\<close>

datatype pconf_state =
    ST_FINDWORDSTART | ST_FINDEOL | ST_QUOTECOLLECT | ST_QC_LITERAL
  | ST_COLLECT | ST_COLLECTLITERAL | ST_ENDOFLINE | ST_PARSEERR

record pconf_ctx =
  pc_f :: "cstr option"
  pc_state :: pconf_state
  pc_ch :: int
  pc_arglist :: "cstr list"
  pc_argsize :: "nat list"
  pc_numargs :: nat
  pc_maxargs :: nat
  pc_wordbuf :: cstr
  pc_wordbufsize :: nat
  pc_linenum :: int
  pc_error :: bool
  pc_errmsg :: cstr
  pc_magic :: int
  pc_arg_limit :: nat
  pc_wordlen_limit :: nat

definition PCONF_CTX_t_MAGIC :: int where
  "PCONF_CTX_t_MAGIC = 0x726630"

definition PCONF_ERR_LEN :: nat where
  "PCONF_ERR_LEN = 256"

definition PCONF_DEFAULT_ARG_LIMIT :: nat where
  "PCONF_DEFAULT_ARG_LIMIT = 32"

definition PCONF_DEFAULT_WORDLEN_LIMIT :: nat where
  "PCONF_DEFAULT_WORDLEN_LIMIT = 512"

text \<open>The words of the line in hand: the first numargs entries of arglist.\<close>

definition pconf_args :: "pconf_ctx \<Rightarrow> cstr list" where
  "pconf_args ctx = take (pc_numargs ctx) (pc_arglist ctx)"

section \<open>Operations\<close>

definition pconf_init :: "pconf_ctx \<Rightarrow> pconf_ctx" where
  "pconf_init ctx = ctx\<lparr>
     pc_f := None, pc_state := ST_FINDWORDSTART, pc_numargs := 0, pc_maxargs := 0,
     pc_arg_limit := PCONF_DEFAULT_ARG_LIMIT, pc_wordlen_limit := PCONF_DEFAULT_WORDLEN_LIMIT,
     pc_linenum := 0, pc_error := False, pc_arglist := [], pc_argsize := [],
     pc_wordbufsize := 16, pc_wordbuf := [], pc_magic := PCONF_CTX_t_MAGIC\<rparr>"

definition add_arg_word :: "pconf_ctx \<Rightarrow> pconf_ctx" where
  "add_arg_word ctx =
     (let argpos = pc_numargs ctx;
          ctx = ctx\<lparr>pc_numargs := pc_numargs ctx + 1\<rparr>;
          ctx = (if pc_maxargs ctx < pc_numargs ctx
                 then ctx\<lparr>pc_maxargs := pc_numargs ctx,
                          pc_arglist := pc_arglist ctx @ [[]],
                          pc_argsize := pc_argsize ctx @ [0]\<rparr>
                 else ctx);
          wbuflen = length (pc_wordbuf ctx);
          ctx = (if pc_argsize ctx ! argpos \<le> wbuflen
                 then ctx\<lparr>pc_argsize := (pc_argsize ctx)[argpos := wbuflen + 1]\<rparr>
                 else ctx)
      in ctx\<lparr>pc_arglist := (pc_arglist ctx)[argpos := pc_wordbuf ctx]\<rparr>)"

definition addchar :: "pconf_ctx \<Rightarrow> pconf_ctx" where
  "addchar ctx =
     (let wbuflen = length (pc_wordbuf ctx) in
      if pc_ch ctx < 0x20 \<or> 0x7f < pc_ch ctx then ctx
      else if pc_wordlen_limit ctx \<noteq> 0 \<and> pc_wordlen_limit ctx \<le> wbuflen then ctx
      else
        (let ctx = (if pc_wordbufsize ctx - 1 \<le> wbuflen
                    then ctx\<lparr>pc_wordbufsize := pc_wordbufsize ctx + 8\<rparr> else ctx)
         in ctx\<lparr>pc_wordbuf := pc_wordbuf ctx @ [char_of (nat (pc_ch ctx))]\<rparr>))"

definition endofword :: "pconf_ctx \<Rightarrow> pconf_ctx" where
  "endofword ctx =
     (if pc_arg_limit ctx \<noteq> 0 \<and> pc_arg_limit ctx \<le> pc_numargs ctx
      then ctx\<lparr>pc_wordbuf := []\<rparr>
      else (add_arg_word ctx)\<lparr>pc_wordbuf := []\<rparr>)"

text \<open>isspace() on the int in ctx->ch.\<close>

definition ch_isspace :: "int \<Rightarrow> bool" where
  "ch_isspace ch \<longleftrightarrow> (9 \<le> ch \<and> ch \<le> 13) \<or> ch = 32"

definition findwordstart :: "pconf_ctx \<Rightarrow> pconf_ctx \<times> pconf_state" where
  "findwordstart ctx =
     (if pc_ch ctx = 10 then (ctx, ST_ENDOFLINE)
      else if pc_ch ctx = 35 then (ctx, ST_FINDEOL)
      else if ch_isspace (pc_ch ctx) then (ctx, ST_FINDWORDSTART)
      else if pc_ch ctx = 92 then (ctx, ST_COLLECTLITERAL)
      else if pc_ch ctx = 34 then (ctx, ST_QUOTECOLLECT)
      else (let ctx = addchar ctx in
            if pc_ch ctx = 61 then (endofword ctx, ST_FINDWORDSTART)
            else (ctx, ST_COLLECT)))"

definition findeol :: "pconf_ctx \<Rightarrow> pconf_ctx \<times> pconf_state" where
  "findeol ctx = (if pc_ch ctx = 10 then (ctx, ST_ENDOFLINE) else (ctx, ST_FINDEOL))"

definition pconf_seterr :: "pconf_ctx \<Rightarrow> cstr \<Rightarrow> pconf_ctx" where
  "pconf_seterr ctx msg = ctx\<lparr>pc_errmsg := snprintf PCONF_ERR_LEN msg, pc_error := True\<rparr>"

definition quotecollect :: "pconf_ctx \<Rightarrow> pconf_ctx \<times> pconf_state" where
  "quotecollect ctx =
     (if pc_ch ctx = 35
      then (endofword (pconf_seterr ctx ''Unbalanced word due to unescaped # in quotes''),
            ST_PARSEERR)
      else if pc_ch ctx = 34 then (endofword ctx, ST_FINDWORDSTART)
      else if pc_ch ctx = 92 then (ctx, ST_QC_LITERAL)
      else (addchar ctx, ST_QUOTECOLLECT))"

definition qc_literal :: "pconf_ctx \<Rightarrow> pconf_ctx \<times> pconf_state" where
  "qc_literal ctx =
     (if pc_ch ctx = 10 then (ctx, ST_QUOTECOLLECT) else (addchar ctx, ST_QUOTECOLLECT))"

definition collect :: "pconf_ctx \<Rightarrow> pconf_ctx \<times> pconf_state" where
  "collect ctx =
     (if pc_ch ctx = 35 then (endofword ctx, ST_FINDEOL)
      else if pc_ch ctx = 10 then (endofword ctx, ST_ENDOFLINE)
      else if ch_isspace (pc_ch ctx) then (endofword ctx, ST_FINDWORDSTART)
      else if pc_ch ctx = 61 then (fst (findwordstart (endofword ctx)), ST_FINDWORDSTART)
      else if pc_ch ctx = 92 then (ctx, ST_COLLECTLITERAL)
      else (addchar ctx, ST_COLLECT))"

definition collectliteral :: "pconf_ctx \<Rightarrow> pconf_ctx \<times> pconf_state" where
  "collectliteral ctx =
     (if pc_ch ctx = 10 then (ctx, ST_COLLECT) else (addchar ctx, ST_COLLECT))"

definition set_state :: "pconf_ctx \<times> pconf_state \<Rightarrow> pconf_ctx" where
  "set_state r = (fst r)\<lparr>pc_state := snd r\<rparr>"

definition parse_char :: "pconf_ctx \<Rightarrow> pconf_ctx" where
  "parse_char ctx =
     (case pc_state ctx of
        ST_FINDWORDSTART \<Rightarrow> set_state (findwordstart ctx)
      | ST_FINDEOL \<Rightarrow> set_state (findeol ctx)
      | ST_QUOTECOLLECT \<Rightarrow> set_state (quotecollect ctx)
      | ST_QC_LITERAL \<Rightarrow> set_state (qc_literal ctx)
      | ST_COLLECT \<Rightarrow> set_state (collect ctx)
      | ST_COLLECTLITERAL \<Rightarrow> set_state (collectliteral ctx)
      | ST_ENDOFLINE \<Rightarrow> ctx
      | ST_PARSEERR \<Rightarrow> ctx)"

definition free_storage :: "pconf_ctx \<Rightarrow> pconf_ctx" where
  "free_storage ctx = ctx\<lparr>pc_arglist := [], pc_argsize := [], pc_numargs := 0, pc_maxargs := 0\<rparr>"

text \<open>check_magic() also writes the message when the magic number is wrong.\<close>

definition check_magic :: "pconf_ctx \<Rightarrow> pconf_ctx \<times> bool" where
  "check_magic ctx =
     (if pc_magic ctx \<noteq> PCONF_CTX_t_MAGIC
      then (ctx\<lparr>pc_errmsg := snprintf PCONF_ERR_LEN ''Invalid ctx buffer''\<rparr>, False)
      else (ctx, True))"

text \<open>
  fopen() is outside the model: its result is an argument, the file's bytes or the text of
  strerror(errno).
\<close>

definition pconf_file_begin :: "pconf_ctx \<Rightarrow> cstr \<Rightarrow> cstr + cstr \<Rightarrow> pconf_ctx \<times> bool" where
  "pconf_file_begin ctx fn opened =
     (case check_magic ctx of
        (ctx, False) \<Rightarrow> (ctx, False)
      | (ctx, True) \<Rightarrow>
          (case opened of
             Inl e \<Rightarrow> (ctx\<lparr>pc_f := None,
                       pc_errmsg := snprintf PCONF_ERR_LEN (''Can't open '' @ fn @ '': '' @ e)\<rparr>, False)
           | Inr bytes \<Rightarrow> (ctx\<lparr>pc_f := Some bytes\<rparr>, True)))"

definition pconf_parse_error :: "pconf_ctx \<Rightarrow> pconf_ctx \<times> bool" where
  "pconf_parse_error ctx =
     (case check_magic ctx of
        (ctx, False) \<Rightarrow> (ctx, False)
      | (ctx, True) \<Rightarrow>
          (if pc_error ctx then (ctx\<lparr>pc_error := False\<rparr>, True) else (ctx, False)))"

definition pconf_finish :: "pconf_ctx \<Rightarrow> pconf_ctx" where
  "pconf_finish ctx =
     (case check_magic ctx of
        (ctx, False) \<Rightarrow> ctx
      | (ctx, True) \<Rightarrow> (free_storage ctx)\<lparr>pc_magic := 0\<rparr>)"

text \<open>
  The loop of pconf_file_next(): fgetc() gives the next byte as an unsigned char, or EOF.
  The result flag tells a line or a parse error from the end of the file.
\<close>

fun pconf_file_loop :: "pconf_ctx \<Rightarrow> cstr \<Rightarrow> pconf_ctx \<times> bool" where
  "pconf_file_loop ctx [] = (ctx\<lparr>pc_f := Some [], pc_ch := -1\<rparr>, False)"
| "pconf_file_loop ctx (c # rest) =
     (let ctx = parse_char (ctx\<lparr>pc_ch := int (byte_of c)\<rparr>) in
      if pc_state ctx = ST_PARSEERR \<or> pc_state ctx = ST_ENDOFLINE
      then (ctx\<lparr>pc_f := Some rest\<rparr>, True)
      else pconf_file_loop ctx rest)"

definition pconf_file_next :: "pconf_ctx \<Rightarrow> pconf_ctx \<times> bool" where
  "pconf_file_next ctx =
     (case check_magic ctx of
        (ctx, False) \<Rightarrow> (ctx, False)
      | (ctx, True) \<Rightarrow>
          (let ctx = ctx\<lparr>pc_linenum := pc_linenum ctx + 1, pc_numargs := 0,
                         pc_state := ST_FINDWORDSTART\<rparr>
           in case pconf_file_loop ctx (case pc_f ctx of None \<Rightarrow> [] | Some bytes \<Rightarrow> bytes) of
                (ctx, True) \<Rightarrow> (ctx, True)
              | (ctx, False) \<Rightarrow>
                  (if pc_numargs ctx \<noteq> 0
                   then (if pc_wordbuf ctx \<noteq> [] then endofword ctx else ctx, True)
                   else (ctx, False))))"

fun pconf_line_loop :: "pconf_ctx \<Rightarrow> cstr \<Rightarrow> pconf_ctx \<times> bool" where
  "pconf_line_loop ctx [] = (ctx, False)"
| "pconf_line_loop ctx (c # rest) =
     (let ctx = parse_char (ctx\<lparr>pc_ch := schar c\<rparr>) in
      if pc_state ctx = ST_PARSEERR \<or> pc_state ctx = ST_ENDOFLINE then (ctx, True)
      else pconf_line_loop ctx rest)"

definition pconf_line :: "pconf_ctx \<Rightarrow> cstr \<Rightarrow> pconf_ctx \<times> bool" where
  "pconf_line ctx line =
     (case check_magic ctx of
        (ctx, False) \<Rightarrow> (ctx, False)
      | (ctx, True) \<Rightarrow>
          (let ctx = ctx\<lparr>pc_linenum := pc_linenum ctx + 1, pc_numargs := 0,
                         pc_state := ST_FINDWORDSTART\<rparr>
           in case pconf_line_loop ctx line of
                (ctx, True) \<Rightarrow> (ctx, True)
              | (ctx, False) \<Rightarrow>
                  (if pc_wordbuf ctx \<noteq> [] then endofword ctx else ctx, True)))"

definition pconf_char :: "pconf_ctx \<Rightarrow> char \<Rightarrow> pconf_ctx \<times> int" where
  "pconf_char ctx c =
     (case check_magic ctx of
        (ctx, False) \<Rightarrow> (ctx, -1)
      | (ctx, True) \<Rightarrow>
          (let ctx = (if pc_state ctx = ST_ENDOFLINE \<or> pc_state ctx = ST_PARSEERR
                      then ctx\<lparr>pc_numargs := 0, pc_state := ST_FINDWORDSTART\<rparr> else ctx);
               ctx = parse_char (ctx\<lparr>pc_ch := schar c\<rparr>)
           in (ctx, if pc_state ctx = ST_ENDOFLINE then 1
                    else if pc_state ctx = ST_PARSEERR then -1 else 0)))"

section \<open>Encoding\<close>

definition pconf_escape :: "char \<Rightarrow> bool" where
  "pconf_escape c \<longleftrightarrow> c = HASH \<or> c = BSLASH \<or> c = QUOTE"

text \<open>
  The loop of pconf_encode(): the bytes written to dest from the current position on, when
  destlen of them are there already.  maxlen - 1 is computed in size_t, so it is
  2^64 - 1 for maxlen = 0.
\<close>

definition size_pred :: "nat \<Rightarrow> nat" where
  "size_pred n = (if n = 0 then 2 ^ 64 - 1 else n - 1)"

fun encode_loop :: "nat \<Rightarrow> nat \<Rightarrow> cstr \<Rightarrow> cstr" where
  "encode_loop maxlen destlen [] = []"
| "encode_loop maxlen destlen (c # src) =
     (if pconf_escape c then
        (if size_pred maxlen \<le> destlen then []
         else BSLASH #
           (if maxlen \<le> destlen + 1 then []
            else c # encode_loop maxlen (destlen + 2) src))
      else if maxlen \<le> destlen then []
      else c # encode_loop maxlen (destlen + 1) src)"

definition pconf_encode :: "cstr \<Rightarrow> nat \<Rightarrow> cstr" where
  "pconf_encode src destsize = (if destsize < 1 then [] else encode_loop (destsize - 1) 0 src)"


section \<open>Buffer safety\<close>

text \<open>
  What the code keeps true of a context between calls: the argument arrays have maxargs
  entries, every word fits the storage recorded for it, the accumulator fits its buffer
  with the terminator, the two limits are respected and only acceptable bytes are held.
\<close>

definition words_ok :: "nat \<Rightarrow> cstr list \<Rightarrow> bool" where
  "words_ok limit ws \<longleftrightarrow>
     (\<forall>w\<in>set ws. list_all word_char w \<and> (limit \<noteq> 0 \<longrightarrow> length w \<le> limit))"

definition pconf_wf :: "pconf_ctx \<Rightarrow> bool" where
  "pconf_wf ctx \<longleftrightarrow>
     pc_magic ctx = PCONF_CTX_t_MAGIC \<and>
     length (pc_arglist ctx) = pc_maxargs ctx \<and>
     length (pc_argsize ctx) = pc_maxargs ctx \<and>
     pc_numargs ctx \<le> pc_maxargs ctx \<and>
     (pc_arg_limit ctx \<noteq> 0 \<longrightarrow> pc_numargs ctx \<le> pc_arg_limit ctx) \<and>
     (\<forall>i<pc_maxargs ctx. length (pc_arglist ctx ! i) < pc_argsize ctx ! i) \<and>
     length (pc_wordbuf ctx) < pc_wordbufsize ctx \<and>
     words_ok (pc_wordlen_limit ctx) (pc_wordbuf ctx # pc_arglist ctx)"

lemma words_ok_simps [simp]:
  "words_ok limit []"
  "words_ok limit (w # ws) \<longleftrightarrow>
     list_all word_char w \<and> (limit \<noteq> 0 \<longrightarrow> length w \<le> limit) \<and> words_ok limit ws"
  "words_ok limit (us @ ws) \<longleftrightarrow> words_ok limit us \<and> words_ok limit ws"
  by (auto simp: words_ok_def)

lemma words_ok_update:
  "words_ok limit ws \<Longrightarrow> words_ok limit [w] \<Longrightarrow> words_ok limit (ws[i := w])"
  by (auto simp: words_ok_def dest: set_update_subset_insert [THEN subsetD])

lemma pconf_init_wf: "pconf_wf (pconf_init ctx)"
  by (simp add: pconf_wf_def pconf_init_def)

lemma add_arg_word_fields [simp]:
  "pc_state (add_arg_word ctx) = pc_state ctx"
  "pc_ch (add_arg_word ctx) = pc_ch ctx"
  "pc_wordbuf (add_arg_word ctx) = pc_wordbuf ctx"
  "pc_wordbufsize (add_arg_word ctx) = pc_wordbufsize ctx"
  "pc_numargs (add_arg_word ctx) = pc_numargs ctx + 1"
  "pc_magic (add_arg_word ctx) = pc_magic ctx"
  "pc_arg_limit (add_arg_word ctx) = pc_arg_limit ctx"
  "pc_wordlen_limit (add_arg_word ctx) = pc_wordlen_limit ctx"
  "pc_error (add_arg_word ctx) = pc_error ctx"
  "pc_errmsg (add_arg_word ctx) = pc_errmsg ctx"
  by (simp_all add: add_arg_word_def Let_def)

lemma add_arg_word_maxargs:
  "pc_maxargs (add_arg_word ctx) = max (pc_maxargs ctx) (pc_numargs ctx + 1)"
  by (simp add: add_arg_word_def Let_def)

lemma add_arg_word_arglist:
  "pc_arglist (add_arg_word ctx) =
     (if pc_maxargs ctx < pc_numargs ctx + 1 then pc_arglist ctx @ [[]] else pc_arglist ctx)
       [pc_numargs ctx := pc_wordbuf ctx]"
  by (simp add: add_arg_word_def Let_def)

lemma add_arg_word_argsize:
  "pc_argsize (add_arg_word ctx) =
     (let sz = (if pc_maxargs ctx < pc_numargs ctx + 1 then pc_argsize ctx @ [0] else pc_argsize ctx)
      in if sz ! pc_numargs ctx \<le> length (pc_wordbuf ctx)
         then sz[pc_numargs ctx := length (pc_wordbuf ctx) + 1] else sz)"
  by (simp add: add_arg_word_def Let_def)

lemma add_arg_word_wf:
  assumes "pconf_wf ctx" "pc_arg_limit ctx \<noteq> 0 \<longrightarrow> pc_numargs ctx < pc_arg_limit ctx"
  shows "pconf_wf (add_arg_word ctx)"
proof -
  let ?c = "add_arg_word ctx"
  have len: "length (pc_arglist ?c) = pc_maxargs ?c" "length (pc_argsize ?c) = pc_maxargs ?c"
    using assms(1)
    by (auto simp: pconf_wf_def add_arg_word_arglist add_arg_word_argsize add_arg_word_maxargs Let_def)
  have sz: "\<forall>i<pc_maxargs ?c. length (pc_arglist ?c ! i) < pc_argsize ?c ! i"
    using assms(1)
    by (auto simp: pconf_wf_def add_arg_word_arglist add_arg_word_argsize add_arg_word_maxargs
        Let_def nth_list_update nth_append less_Suc_eq)
  have words: "words_ok (pc_wordlen_limit ctx) (pc_arglist ?c)"
    using assms(1) unfolding add_arg_word_arglist pconf_wf_def
    by (intro words_ok_update) auto
  show ?thesis
    using assms len sz words by (auto simp: pconf_wf_def add_arg_word_maxargs)
qed

lemma endofword_fields [simp]:
  "pc_state (endofword ctx) = pc_state ctx"
  "pc_ch (endofword ctx) = pc_ch ctx"
  "pc_wordbuf (endofword ctx) = []"
  "pc_magic (endofword ctx) = pc_magic ctx"
  "pc_arg_limit (endofword ctx) = pc_arg_limit ctx"
  "pc_wordlen_limit (endofword ctx) = pc_wordlen_limit ctx"
  "pc_error (endofword ctx) = pc_error ctx"
  by (simp_all add: endofword_def)

lemma pconf_wf_clear: "pconf_wf ctx \<Longrightarrow> pconf_wf (ctx\<lparr>pc_wordbuf := []\<rparr>)"
  by (auto simp: pconf_wf_def)

lemma pconf_wf_inert [simp]:
  "pconf_wf (ctx\<lparr>pc_ch := x\<rparr>) = pconf_wf ctx"
  "pconf_wf (ctx\<lparr>pc_state := st\<rparr>) = pconf_wf ctx"
  "pconf_wf (ctx\<lparr>pc_f := f\<rparr>) = pconf_wf ctx"
  "pconf_wf (ctx\<lparr>pc_linenum := l\<rparr>) = pconf_wf ctx"
  "pconf_wf (ctx\<lparr>pc_error := e\<rparr>) = pconf_wf ctx"
  "pconf_wf (ctx\<lparr>pc_errmsg := m\<rparr>) = pconf_wf ctx"
  by (simp_all add: pconf_wf_def)

lemma pconf_wf_noargs: "pconf_wf ctx \<Longrightarrow> pconf_wf (ctx\<lparr>pc_numargs := 0\<rparr>)"
  by (simp add: pconf_wf_def)

lemma endofword_wf: "pconf_wf ctx \<Longrightarrow> pconf_wf (endofword ctx)"
  unfolding endofword_def by (auto intro!: pconf_wf_clear add_arg_word_wf)

lemma addchar_wf: "pconf_wf ctx \<Longrightarrow> pconf_wf (addchar ctx)"
  by (auto simp: pconf_wf_def addchar_def Let_def word_char_def)

lemma addchar_fields [simp]:
  "pc_state (addchar ctx) = pc_state ctx"
  "pc_ch (addchar ctx) = pc_ch ctx"
  "pc_numargs (addchar ctx) = pc_numargs ctx"
  "pc_arglist (addchar ctx) = pc_arglist ctx"
  "pc_magic (addchar ctx) = pc_magic ctx"
  "pc_arg_limit (addchar ctx) = pc_arg_limit ctx"
  "pc_wordlen_limit (addchar ctx) = pc_wordlen_limit ctx"
  "pc_error (addchar ctx) = pc_error ctx"
  by (simp_all add: addchar_def Let_def)

lemmas state_fun_defs =
  findwordstart_def findeol_def quotecollect_def qc_literal_def collect_def collectliteral_def
  pconf_seterr_def set_state_def

lemma parse_char_wf: "pconf_wf ctx \<Longrightarrow> pconf_wf (parse_char ctx)"
  unfolding parse_char_def state_fun_defs
  by (auto simp: Let_def endofword_wf addchar_wf split: pconf_state.split)

lemma check_magic_wf: "pconf_wf ctx \<Longrightarrow> check_magic ctx = (ctx, True)"
  by (simp add: check_magic_def pconf_wf_def)

lemma pconf_char_wf: "pconf_wf ctx \<Longrightarrow> pconf_wf (fst (pconf_char ctx c))"
  by (auto simp: pconf_char_def check_magic_wf Let_def parse_char_wf pconf_wf_noargs)

lemma pconf_line_loop_wf: "pconf_wf ctx \<Longrightarrow> pconf_wf (fst (pconf_line_loop ctx s))"
  by (induction ctx s rule: pconf_line_loop.induct) (auto simp: Let_def parse_char_wf)

lemma pconf_file_loop_wf: "pconf_wf ctx \<Longrightarrow> pconf_wf (fst (pconf_file_loop ctx s))"
  by (induction ctx s rule: pconf_file_loop.induct) (auto simp: Let_def parse_char_wf)

lemma pconf_line_wf:
  assumes "pconf_wf ctx"
  shows "pconf_wf (fst (pconf_line ctx s))"
proof -
  let ?c = "ctx\<lparr>pc_linenum := pc_linenum ctx + 1, pc_numargs := 0, pc_state := ST_FINDWORDSTART\<rparr>"
  have "pconf_wf (fst (pconf_line_loop ?c s))"
    using assms by (intro pconf_line_loop_wf) (simp add: pconf_wf_def)
  then show ?thesis
    using assms
    by (auto simp: pconf_line_def check_magic_wf Let_def endofword_wf split: prod.split bool.split)
qed

lemma pconf_file_next_wf:
  assumes "pconf_wf ctx"
  shows "pconf_wf (fst (pconf_file_next ctx))"
proof -
  let ?c = "ctx\<lparr>pc_linenum := pc_linenum ctx + 1, pc_numargs := 0, pc_state := ST_FINDWORDSTART\<rparr>"
  have "pconf_wf (fst (pconf_file_loop ?c s))" for s
    using assms by (intro pconf_file_loop_wf) (simp add: pconf_wf_def)
  from this [of "case pc_f ctx of None \<Rightarrow> [] | Some bytes \<Rightarrow> bytes"] show ?thesis
    using assms
    by (auto simp: pconf_file_next_def check_magic_wf Let_def endofword_wf
        split: prod.split bool.split)
qed

end
