(* ===== verification/LineSpec.thy ===== *)
theory LineSpec
  imports ParseConf
begin

text \<open>
  The contract of the line parser: an abstract tokenizer without buffers, the refinement
  of the parseconf context to it, and the round trip between pconf_encode() and the
  parser.  The locale line_reader is what the daemons rely on when one writes a line of
  words and the other reads it byte by byte.
\<close>

section \<open>The abstract tokenizer\<close>

type_synonym tok = "pconf_state \<times> cstr list \<times> cstr"

definition tok_char :: "nat \<Rightarrow> cstr \<Rightarrow> char \<Rightarrow> cstr" where
  "tok_char wl cur c =
     (if \<not> word_char c \<or> (wl \<noteq> 0 \<and> wl \<le> length cur) then cur else cur @ [c])"

definition tok_word :: "nat \<Rightarrow> cstr list \<Rightarrow> cstr \<Rightarrow> cstr list" where
  "tok_word al ws cur = (if al \<noteq> 0 \<and> al \<le> length ws then ws else ws @ [cur])"

definition tok_trans :: "nat \<Rightarrow> nat \<Rightarrow> tok \<Rightarrow> char \<Rightarrow> tok" where
  "tok_trans al wl t c = (case t of (st, ws, cur) \<Rightarrow>
     (case st of
        ST_FINDWORDSTART \<Rightarrow>
          (if c = NL then (ST_ENDOFLINE, ws, cur)
           else if c = HASH then (ST_FINDEOL, ws, cur)
           else if isspace c then (ST_FINDWORDSTART, ws, cur)
           else if c = BSLASH then (ST_COLLECTLITERAL, ws, cur)
           else if c = QUOTE then (ST_QUOTECOLLECT, ws, cur)
           else if c = CHR ''='' then (ST_FINDWORDSTART, tok_word al ws (tok_char wl cur c), [])
           else (ST_COLLECT, ws, tok_char wl cur c))
      | ST_FINDEOL \<Rightarrow> (if c = NL then ST_ENDOFLINE else ST_FINDEOL, ws, cur)
      | ST_QUOTECOLLECT \<Rightarrow>
          (if c = HASH then (ST_PARSEERR, tok_word al ws cur, [])
           else if c = QUOTE then (ST_FINDWORDSTART, tok_word al ws cur, [])
           else if c = BSLASH then (ST_QC_LITERAL, ws, cur)
           else (ST_QUOTECOLLECT, ws, tok_char wl cur c))
      | ST_QC_LITERAL \<Rightarrow> (ST_QUOTECOLLECT, ws, if c = NL then cur else tok_char wl cur c)
      | ST_COLLECT \<Rightarrow>
          (if c = HASH then (ST_FINDEOL, tok_word al ws cur, [])
           else if c = NL then (ST_ENDOFLINE, tok_word al ws cur, [])
           else if isspace c then (ST_FINDWORDSTART, tok_word al ws cur, [])
           else if c = CHR ''='' then
             (ST_FINDWORDSTART, tok_word al (tok_word al ws cur) (tok_char wl [] c), [])
           else if c = BSLASH then (ST_COLLECTLITERAL, ws, cur)
           else (ST_COLLECT, ws, tok_char wl cur c))
      | ST_COLLECTLITERAL \<Rightarrow> (ST_COLLECT, ws, if c = NL then cur else tok_char wl cur c)
      | ST_ENDOFLINE \<Rightarrow> (st, ws, cur)
      | ST_PARSEERR \<Rightarrow> (st, ws, cur)))"

definition tok_ended :: "pconf_state \<Rightarrow> bool" where
  "tok_ended st \<longleftrightarrow> st = ST_ENDOFLINE \<or> st = ST_PARSEERR"

definition tok_step :: "nat \<Rightarrow> nat \<Rightarrow> tok \<Rightarrow> char \<Rightarrow> tok" where
  "tok_step al wl t c = (case t of (st, ws, cur) \<Rightarrow>
     tok_trans al wl (if tok_ended st then (ST_FINDWORDSTART, [], cur) else (st, ws, cur)) c)"

section \<open>The context refines the tokenizer\<close>

definition tok_abs :: "pconf_ctx \<Rightarrow> tok" where
  "tok_abs ctx = (pc_state ctx, pconf_args ctx, pc_wordbuf ctx)"

text \<open>The int that a byte becomes: sign-extended by pconf_char(), unsigned from fgetc().\<close>

definition ch_of :: "char \<Rightarrow> int \<Rightarrow> bool" where
  "ch_of c ch \<longleftrightarrow> ch = schar c \<or> ch = int (byte_of c)"

lemma ch_of_eq:
  assumes "ch_of c ch" "byte_of d < 128"
  shows "ch = int (byte_of d) \<longleftrightarrow> c = d"
proof -
  have "ch = int (byte_of d) \<longleftrightarrow> byte_of c = byte_of d"
    using assms byte_of_le [of c] by (auto simp: ch_of_def schar_def split: if_splits)
  then show ?thesis by simp
qed

lemma ch_of_isspace: "ch_of c ch \<Longrightarrow> ch_isspace ch \<longleftrightarrow> isspace c"
  using byte_of_le [of c] by (auto simp: ch_of_def ch_isspace_def isspace_def schar_def split: if_splits)

lemma ch_of_word_char: "ch_of c ch \<Longrightarrow> (ch < 0x20 \<or> 0x7f < ch) \<longleftrightarrow> \<not> word_char c"
  using byte_of_le [of c] by (auto simp: ch_of_def word_char_def schar_def split: if_splits)

lemma ch_of_special:
  assumes "ch_of c ch"
  shows "ch = 10 \<longleftrightarrow> c = NL" and "ch = 35 \<longleftrightarrow> c = HASH" and "ch = 34 \<longleftrightarrow> c = QUOTE"
    and "ch = 92 \<longleftrightarrow> c = BSLASH" and "ch = 61 \<longleftrightarrow> c = CHR ''=''"
  using ch_of_eq [OF assms, of NL] ch_of_eq [OF assms, of HASH] ch_of_eq [OF assms, of QUOTE]
    ch_of_eq [OF assms, of BSLASH] ch_of_eq [OF assms, of "CHR ''=''"]
  by simp_all

lemmas ch_of_simps = ch_of_special ch_of_isspace ch_of_word_char

lemma ch_of_char: "ch_of c ch \<Longrightarrow> word_char c \<Longrightarrow> char_of (nat ch) = c"
  by (auto simp: ch_of_def word_char_def schar_def)

lemma add_arg_word_args:
  "pconf_wf ctx \<Longrightarrow> pconf_args (add_arg_word ctx) = pconf_args ctx @ [pc_wordbuf ctx]"
  by (auto simp: pconf_args_def add_arg_word_arglist pconf_wf_def take_Suc_conv_app_nth)

lemma endofword_abs:
  assumes "pconf_wf ctx"
  shows "pconf_args (endofword ctx) = tok_word (pc_arg_limit ctx) (pconf_args ctx) (pc_wordbuf ctx)"
proof -
  have "length (pconf_args ctx) = pc_numargs ctx"
    using assms by (simp add: pconf_args_def pconf_wf_def)
  moreover have "pconf_args (c\<lparr>pc_wordbuf := w\<rparr>) = pconf_args c" for c w
    by (simp add: pconf_args_def)
  ultimately show ?thesis
    using add_arg_word_args [OF assms] by (auto simp: endofword_def tok_word_def)
qed

lemma addchar_abs:
  assumes "ch_of c (pc_ch ctx)"
  shows "pc_wordbuf (addchar ctx) = tok_char (pc_wordlen_limit ctx) (pc_wordbuf ctx) c"
    and "pconf_args (addchar ctx) = pconf_args ctx"
  using ch_of_word_char [OF assms] ch_of_char [OF assms]
  by (auto simp: addchar_def tok_char_def Let_def pconf_args_def)

lemma pconf_args_inert [simp]:
  "pconf_args (ctx\<lparr>pc_state := st\<rparr>) = pconf_args ctx"
  "pconf_args (ctx\<lparr>pc_ch := x\<rparr>) = pconf_args ctx"
  "pconf_args (ctx\<lparr>pc_error := e\<rparr>) = pconf_args ctx"
  "pconf_args (ctx\<lparr>pc_errmsg := m\<rparr>) = pconf_args ctx"
  "pconf_args (ctx\<lparr>pc_f := f\<rparr>) = pconf_args ctx"
  "pconf_args (ctx\<lparr>pc_numargs := 0\<rparr>) = []"
  by (simp_all add: pconf_args_def)

lemma parse_char_abs:
  assumes wf: "pconf_wf ctx" and ch: "ch_of c (pc_ch ctx)"
  shows "tok_abs (parse_char ctx) =
    tok_trans (pc_arg_limit ctx) (pc_wordlen_limit ctx) (tok_abs ctx) c"
proof -
  have ew: "ch_of c (pc_ch (endofword ctx))" using ch by simp
  note simps = parse_char_def state_fun_defs tok_abs_def tok_trans_def Let_def
    ch_of_simps [OF ch] addchar_abs [OF ch] endofword_abs [OF wf]
    endofword_abs [OF addchar_wf [OF wf]]
    endofword_abs [OF addchar_wf [OF endofword_wf [OF wf]]] addchar_abs [OF ew]
  have err: "pconf_args (endofword (ctx\<lparr>pc_errmsg := m, pc_error := e\<rparr>)) =
      tok_word (pc_arg_limit ctx) (pconf_args ctx) (pc_wordbuf ctx)" for m e
    using endofword_abs [of "ctx\<lparr>pc_errmsg := m, pc_error := e\<rparr>"] wf
    by (simp add: pconf_args_def)
  have chars: "\<not> isspace (CHR ''='')" "word_char (CHR ''='')" "CHR ''='' \<noteq> NL"
    by (simp_all add: isspace_def word_char_def)
  show ?thesis
    by (cases "pc_state ctx") (simp_all add: simps err chars)
qed

text \<open>pconf_char() on a well-formed context is one step of the tokenizer.\<close>

lemma pconf_char_abs:
  assumes "pconf_wf ctx"
  shows "tok_abs (fst (pconf_char ctx c)) =
    tok_step (pc_arg_limit ctx) (pc_wordlen_limit ctx) (tok_abs ctx) c"
proof (cases "tok_ended (pc_state ctx)")
  case True
  let ?c = "ctx\<lparr>pc_numargs := 0, pc_state := ST_FINDWORDSTART, pc_ch := schar c\<rparr>"
  have "pconf_wf ?c"
    using assms by (simp add: pconf_wf_noargs)
  then have "tok_abs (parse_char ?c) =
      tok_trans (pc_arg_limit ctx) (pc_wordlen_limit ctx) (ST_FINDWORDSTART, [], pc_wordbuf ctx) c"
    using parse_char_abs [of ?c c] by (simp add: ch_of_def tok_abs_def)
  then show ?thesis
    using True assms
    by (auto simp: pconf_char_def check_magic_wf Let_def tok_step_def tok_ended_def tok_abs_def)
next
  case False
  have "tok_abs (parse_char (ctx\<lparr>pc_ch := schar c\<rparr>)) =
      tok_trans (pc_arg_limit ctx) (pc_wordlen_limit ctx) (tok_abs ctx) c"
    using parse_char_abs [of "ctx\<lparr>pc_ch := schar c\<rparr>" c] assms
    by (simp add: ch_of_def tok_abs_def)
  then show ?thesis
    using False assms
    by (auto simp: pconf_char_def check_magic_wf Let_def tok_step_def tok_ended_def tok_abs_def)
qed

lemma parse_char_limits [simp]:
  "pc_arg_limit (parse_char ctx) = pc_arg_limit ctx"
  "pc_wordlen_limit (parse_char ctx) = pc_wordlen_limit ctx"
  unfolding parse_char_def state_fun_defs
  by (auto simp: Let_def split: pconf_state.split)

lemma pconf_char_limits [simp]:
  "pc_arg_limit (fst (pconf_char ctx c)) = pc_arg_limit ctx"
  "pc_wordlen_limit (fst (pconf_char ctx c)) = pc_wordlen_limit ctx"
  by (auto simp: pconf_char_def check_magic_def Let_def)


section \<open>Encoding: the complete escape and its truncation\<close>

definition escape :: "cstr \<Rightarrow> cstr" where
  "escape s = concat (map (\<lambda>c. if pconf_escape c then [BSLASH, c] else [c]) s)"

lemma escape_simps [simp]:
  "escape [] = []"
  "escape (c # s) = (if pconf_escape c then [BSLASH, c] else [c]) @ escape s"
  by (simp_all add: escape_def)

lemma length_escape: "length s \<le> length (escape s) \<and> length (escape s) \<le> 2 * length s"
  by (induction s) auto

lemma encode_loop_prefix:
  "0 < m \<Longrightarrow> d \<le> m \<Longrightarrow>
   \<exists>k\<le>length src. encode_loop m d src = escape (take k src) \<and> d + length (escape (take k src)) \<le> m"
proof (induction src arbitrary: d)
  case (Cons c src)
  have stop: "\<exists>k\<le>length (c # src). [] = escape (take k (c # src)) \<and>
      d + length (escape (take k (c # src))) \<le> m"
    using Cons.prems by (intro exI [of _ 0]) simp
  have go: "\<exists>k\<le>length (c # src). esc @ encode_loop m (d + length esc) src = escape (take k (c # src)) \<and>
      d + length (escape (take k (c # src))) \<le> m"
    if fits: "d + length esc \<le> m" and esc: "esc = (if pconf_escape c then [BSLASH, c] else [c])" for esc
  proof -
    obtain k where "k \<le> length src" "encode_loop m (d + length esc) src = escape (take k src)"
      "d + length esc + length (escape (take k src)) \<le> m"
      using Cons.IH [OF Cons.prems(1) fits] by blast
    then show ?thesis using esc by (intro exI [of _ "Suc k"]) auto
  qed
  show ?case
    using stop go [of "[BSLASH, c]"] go [of "[c]"] Cons.prems
    by (auto simp: size_pred_def)
qed simp

lemma encode_loop_complete:
  "d + length (escape src) \<le> m \<Longrightarrow> encode_loop m d src = escape src"
proof (induction src arbitrary: d)
  case (Cons c src)
  then show ?case
    by (cases "pconf_escape c") (auto simp: size_pred_def)
qed simp

lemma pconf_encode_fits: "length (escape s) < n \<Longrightarrow> pconf_encode s n = escape s"
  by (auto simp: pconf_encode_def encode_loop_complete)

section \<open>Items of a line and their tokens\<close>

text \<open>
  A line as the daemons write it: bare words (verbs, names) and quoted values, separated
  by single spaces and ended by a newline.
\<close>

datatype item = Bare cstr | Quoted cstr

fun item_word :: "item \<Rightarrow> cstr" where
  "item_word (Bare w) = w"
| "item_word (Quoted w) = w"

fun item_text :: "item \<Rightarrow> cstr" where
  "item_text (Bare w) = w"
| "item_text (Quoted w) = QUOTE # escape w @ [QUOTE]"

fun line_text :: "item list \<Rightarrow> cstr" where
  "line_text [] = [NL]"
| "line_text [i] = item_text i @ [NL]"
| "line_text (i # is) = item_text i @ CHR '' '' # line_text is"

definition bare_char :: "char \<Rightarrow> bool" where
  "bare_char c \<longleftrightarrow> word_char c \<and> \<not> isspace c \<and> \<not> pconf_escape c \<and> c \<noteq> CHR ''=''"

definition item_ok :: "nat \<Rightarrow> item \<Rightarrow> bool" where
  "item_ok wl i \<longleftrightarrow> length (item_word i) \<le> wl \<and>
     (case i of Bare w \<Rightarrow> w \<noteq> [] \<and> list_all bare_char w | Quoted w \<Rightarrow> list_all word_char w)"

lemma special_chars [simp]:
  "\<not> isspace QUOTE" "\<not> isspace HASH" "\<not> isspace BSLASH" "\<not> isspace (CHR ''='')"
  "isspace NL" "isspace (CHR '' '')" "\<not> word_char NL"
  by (simp_all add: isspace_def word_char_def)

definition tok_run :: "nat \<Rightarrow> nat \<Rightarrow> tok \<Rightarrow> cstr \<Rightarrow> tok" where
  "tok_run al wl t s = foldl (tok_step al wl) t s"

lemma tok_run_simps [simp]:
  "tok_run al wl t [] = t"
  "tok_run al wl t (c # s) = tok_run al wl (tok_step al wl t c) s"
  "tok_run al wl t (s @ s') = tok_run al wl (tok_run al wl t s) s'"
  by (simp_all add: tok_run_def)

lemma tok_collect_bare:
  "list_all bare_char w \<Longrightarrow> length (cur @ w) \<le> wl \<Longrightarrow>
   tok_run al wl (ST_COLLECT, ws, cur) w = (ST_COLLECT, ws, cur @ w)"
proof (induction w arbitrary: cur)
  case (Cons c w)
  then have "tok_step al wl (ST_COLLECT, ws, cur) c = (ST_COLLECT, ws, cur @ [c])"
    by (auto simp: tok_step_def tok_trans_def tok_ended_def tok_char_def bare_char_def pconf_escape_def)
  with Cons show ?case by simp
qed simp

lemma tok_collect_quoted:
  "list_all word_char w \<Longrightarrow> length (cur @ w) \<le> wl \<Longrightarrow>
   tok_run al wl (ST_QUOTECOLLECT, ws, cur) (escape w) = (ST_QUOTECOLLECT, ws, cur @ w)"
proof (induction w arbitrary: cur)
  case (Cons c w)
  then have "tok_run al wl (ST_QUOTECOLLECT, ws, cur) (if pconf_escape c then [BSLASH, c] else [c])
      = (ST_QUOTECOLLECT, ws, cur @ [c])"
    by (auto simp: tok_step_def tok_trans_def tok_ended_def tok_char_def pconf_escape_def)
  with Cons show ?case by simp
qed simp

text \<open>An item followed by the separator or by the newline commits one word.\<close>

lemma tok_item:
  assumes "item_ok wl i" "al = 0 \<or> length ws < al" "sep = CHR '' '' \<or> sep = NL"
  shows "tok_run al wl (ST_FINDWORDSTART, ws, []) (item_text i @ [sep]) =
    (if sep = NL then ST_ENDOFLINE else ST_FINDWORDSTART, ws @ [item_word i], [])"
proof (cases i)
  case (Bare w)
  then obtain c r where w: "w = c # r" "bare_char c" "list_all bare_char r" "length w \<le> wl"
    using assms(1) by (cases w) (auto simp: item_ok_def)
  have "tok_step al wl (ST_FINDWORDSTART, ws, []) c = (ST_COLLECT, ws, [c])"
    using w by (auto simp: tok_step_def tok_trans_def tok_ended_def tok_char_def bare_char_def
        pconf_escape_def)
  moreover have "tok_run al wl (ST_COLLECT, ws, [c]) r = (ST_COLLECT, ws, w)"
    using tok_collect_bare [of r "[c]"] w by simp
  moreover have "tok_step al wl (ST_COLLECT, ws, w) sep =
      (if sep = NL then ST_ENDOFLINE else ST_FINDWORDSTART, ws @ [w], [])"
    using assms(2,3) by (auto simp: tok_step_def tok_trans_def tok_ended_def tok_word_def)
  ultimately show ?thesis using w Bare by simp
next
  case (Quoted w)
  then have "tok_run al wl (ST_QUOTECOLLECT, ws, []) (escape w) = (ST_QUOTECOLLECT, ws, w)"
    using assms(1) tok_collect_quoted [of w "[]"] by (simp add: item_ok_def)
  moreover have "tok_step al wl (ST_FINDWORDSTART, ws, []) QUOTE = (ST_QUOTECOLLECT, ws, [])"
    by (simp add: tok_step_def tok_trans_def tok_ended_def)
  moreover have "tok_step al wl (ST_QUOTECOLLECT, ws, w) QUOTE = (ST_FINDWORDSTART, ws @ [w], [])"
    using assms(2) by (auto simp: tok_step_def tok_trans_def tok_ended_def tok_word_def)
  moreover have "tok_step al wl (ST_FINDWORDSTART, ws @ [w], []) sep =
      (if sep = NL then ST_ENDOFLINE else ST_FINDWORDSTART, ws @ [w], [])"
    using assms(3) by (auto simp: tok_step_def tok_trans_def tok_ended_def)
  ultimately show ?thesis using Quoted by simp
qed

lemma tok_line:
  assumes "list_all (item_ok wl) is" "al = 0 \<or> length ws + length is \<le> al"
  shows "tok_run al wl (ST_FINDWORDSTART, ws, []) (line_text is) =
    (ST_ENDOFLINE, ws @ map item_word is, [])"
  using assms
proof (induction "is" arbitrary: ws rule: line_text.induct)
  case 1
  then show ?case by (simp add: tok_step_def tok_trans_def tok_ended_def)
next
  case (2 i)
  then show ?case using tok_item [of wl i al ws NL] by auto
next
  case (3 i v va)
  have "tok_run al wl (ST_FINDWORDSTART, ws, []) (item_text i @ [CHR '' '']) =
      (ST_FINDWORDSTART, ws @ [item_word i], [])"
    using 3 tok_item [of wl i al ws "CHR '' ''"] by auto
  then show ?case using "3.IH" [of "ws @ [item_word i]"] "3.prems" by simp
qed


section \<open>No line ends before its newline\<close>

fun tok_busy :: "nat \<Rightarrow> nat \<Rightarrow> tok \<Rightarrow> cstr \<Rightarrow> bool" where
  "tok_busy al wl t [] = True"
| "tok_busy al wl t (c # s) =
     (\<not> tok_ended (fst (tok_step al wl t c)) \<and> tok_busy al wl (tok_step al wl t c) s)"

lemma tok_busy_append [simp]:
  "tok_busy al wl t (s @ s') \<longleftrightarrow> tok_busy al wl t s \<and> tok_busy al wl (tok_run al wl t s) s'"
  by (induction s arbitrary: t) auto

lemma tok_trans_ended:
  "tok_ended (fst (tok_trans al wl (st, ws, cur) c)) \<Longrightarrow> \<not> tok_ended st \<Longrightarrow>
   c = NL \<or> (c = HASH \<and> st = ST_QUOTECOLLECT)"
  by (cases st) (auto simp: tok_trans_def tok_ended_def split: if_splits)

lemma tok_step_ended:
  "tok_ended (fst (tok_step al wl (st, ws, cur) c)) \<Longrightarrow> \<not> tok_ended st \<Longrightarrow>
   c = NL \<or> (c = HASH \<and> st = ST_QUOTECOLLECT)"
  by (auto simp: tok_step_def dest: tok_trans_ended)

lemma tok_busy_bare:
  "list_all bare_char w \<Longrightarrow> \<not> tok_ended st \<Longrightarrow> tok_busy al wl (st, ws, cur) w"
proof (induction w arbitrary: st ws cur)
  case (Cons c w)
  obtain st' ws' cur' where t: "tok_step al wl (st, ws, cur) c = (st', ws', cur')"
    by (cases "tok_step al wl (st, ws, cur) c") auto
  have "\<not> tok_ended st'"
    using tok_step_ended [of al wl st ws cur c] Cons.prems t
    by (auto simp: bare_char_def pconf_escape_def)
  then show ?case using Cons t by simp
qed simp

lemma tok_busy_quoted:
  "list_all word_char w \<Longrightarrow> tok_busy al wl (ST_QUOTECOLLECT, ws, cur) (escape w)"
proof (induction w arbitrary: cur)
  case (Cons c w)
  have "tok_busy al wl (ST_QUOTECOLLECT, ws, cur) (if pconf_escape c then [BSLASH, c] else [c]) \<and>
      (\<exists>cur'. tok_run al wl (ST_QUOTECOLLECT, ws, cur) (if pconf_escape c then [BSLASH, c] else [c])
        = (ST_QUOTECOLLECT, ws, cur'))"
    by (auto simp: tok_step_def tok_trans_def tok_ended_def pconf_escape_def)
  then show ?case using Cons by auto
qed simp

lemma tok_busy_item:
  assumes "item_ok wl i" "al = 0 \<or> length ws < al"
  shows "tok_busy al wl (ST_FINDWORDSTART, ws, []) (item_text i)"
proof (cases i)
  case (Bare w)
  then show ?thesis using assms by (auto simp: item_ok_def tok_ended_def intro!: tok_busy_bare)
next
  case (Quoted w)
  then have w: "list_all word_char w" "length w \<le> wl"
    using assms by (auto simp: item_ok_def)
  have open_q: "tok_step al wl (ST_FINDWORDSTART, ws, []) QUOTE = (ST_QUOTECOLLECT, ws, [])"
    by (simp add: tok_step_def tok_trans_def tok_ended_def)
  have body: "tok_run al wl (ST_QUOTECOLLECT, ws, []) (escape w) = (ST_QUOTECOLLECT, ws, w)"
    using tok_collect_quoted [of w "[]" wl al ws] w by simp
  have close_q: "tok_step al wl (ST_QUOTECOLLECT, ws, w) QUOTE = (ST_FINDWORDSTART, tok_word al ws w, [])"
    by (simp add: tok_step_def tok_trans_def tok_ended_def)
  show ?thesis
    using Quoted w tok_busy_quoted [of w] by (simp add: open_q body close_q tok_ended_def)
qed

lemma tok_busy_line:
  assumes "list_all (item_ok wl) is" "al = 0 \<or> length ws + length is \<le> al"
  shows "\<exists>body. line_text is = body @ [NL] \<and> tok_busy al wl (ST_FINDWORDSTART, ws, []) body"
  using assms
proof (induction "is" arbitrary: ws rule: line_text.induct)
  case 1
  then show ?case by simp
next
  case (2 i)
  then show ?case using tok_busy_item [of wl i al ws] by auto
next
  case (3 i v va)
  have run: "tok_run al wl (ST_FINDWORDSTART, ws, []) (item_text i @ [CHR '' '']) =
      (ST_FINDWORDSTART, ws @ [item_word i], [])"
    using 3 tok_item [of wl i al ws "CHR '' ''"] by auto
  have busy: "tok_busy al wl (ST_FINDWORDSTART, ws, []) (item_text i @ [CHR '' ''])"
    using 3 tok_busy_item [of wl i al ws] run by (auto simp: tok_ended_def)
  obtain body where "line_text (v # va) = body @ [NL]"
    "tok_busy al wl (ST_FINDWORDSTART, ws @ [item_word i], []) body"
    using "3.IH" [of "ws @ [item_word i]"] "3.prems" by auto
  then show ?case
    using run busy by (intro exI [of _ "item_text i @ CHR '' '' # body"]) auto
qed

section \<open>Reading a line byte by byte\<close>

text \<open>
  upsd reads drivers and clients, and drivers read upsd, with the same loop: every byte
  goes to pconf_char(); a complete line is handed to the handler, a parse error leaves the
  loop with the rest of the buffer unread.  The locale line_scanner states what such a
  loop needs from its state, with the rest of the loop after a line as a parameter; in
  line_reader the loop simply goes on, and the handler leaves the parser context alone.
\<close>

definition line_start :: "pconf_ctx \<Rightarrow> bool" where
  "line_start ctx \<longleftrightarrow> pconf_wf ctx \<and> pc_wordbuf ctx = [] \<and>
     (tok_ended (pc_state ctx) \<or> pc_state ctx = ST_FINDWORDSTART \<and> pc_numargs ctx = 0)"

definition same_limits :: "pconf_ctx \<Rightarrow> pconf_ctx \<Rightarrow> bool" where
  "same_limits a b \<longleftrightarrow> pc_arg_limit a = pc_arg_limit b \<and> pc_wordlen_limit a = pc_wordlen_limit b"

definition line_fits :: "pconf_ctx \<Rightarrow> item list \<Rightarrow> bool" where
  "line_fits ctx is \<longleftrightarrow> list_all (item_ok (pc_wordlen_limit ctx)) is \<and>
     (pc_arg_limit ctx = 0 \<or> length is \<le> pc_arg_limit ctx) \<and> is \<noteq> []"

lemma pconf_char_result:
  "pconf_wf ctx \<Longrightarrow> snd (pconf_char ctx c) =
     (let st = pc_state (fst (pconf_char ctx c)) in
      if st = ST_ENDOFLINE then 1 else if st = ST_PARSEERR then -1 else 0)"
  by (auto simp: pconf_char_def check_magic_wf Let_def)

locale line_scanner =
  fixes ctx_of :: "'s \<Rightarrow> pconf_ctx"
    and put_ctx :: "pconf_ctx \<Rightarrow> 's \<Rightarrow> 's"
    and on_line :: "'s \<Rightarrow> cstr \<Rightarrow> 'r"
    and read_loop :: "'s \<Rightarrow> cstr \<Rightarrow> 'r"
    and ok :: "'s \<Rightarrow> bool"
  assumes loop_more: "ok s \<Longrightarrow> pconf_char (ctx_of s) c = (ctx, 0) \<Longrightarrow>
      read_loop s (c # cs) = read_loop (put_ctx ctx s) cs"
    and loop_end: "ok s \<Longrightarrow> pconf_char (ctx_of s) c = (ctx, 1) \<Longrightarrow>
      read_loop s (c # cs) = on_line (put_ctx ctx s) cs"
    and ctx_put: "ok s \<Longrightarrow> ctx_of (put_ctx ctx s) = ctx"
    and put_put: "ok s \<Longrightarrow> put_ctx a (put_ctx b s) = put_ctx a s"
    and put_same: "ok s \<Longrightarrow> put_ctx (ctx_of s) s = s"
    and ok_put: "ok s \<Longrightarrow> ok (put_ctx ctx s)"
begin

text \<open>Bytes that complete no line only advance the context.\<close>

lemma loop_busy:
  assumes "ok s" "pconf_wf (ctx_of s)"
    "tok_busy (pc_arg_limit (ctx_of s)) (pc_wordlen_limit (ctx_of s)) (tok_abs (ctx_of s)) body"
  shows "\<exists>ctx. read_loop s (body @ rest) = read_loop (put_ctx ctx s) rest \<and> pconf_wf ctx \<and>
    same_limits ctx (ctx_of s) \<and>
    tok_abs ctx = tok_run (pc_arg_limit (ctx_of s)) (pc_wordlen_limit (ctx_of s)) (tok_abs (ctx_of s)) body"
  using assms
proof (induction body arbitrary: s)
  case Nil
  then show ?case
    by (intro exI [of _ "ctx_of s"]) (simp add: put_same same_limits_def)
next
  case (Cons c body)
  let ?al = "pc_arg_limit (ctx_of s)" and ?wl = "pc_wordlen_limit (ctx_of s)"
  define d where "d = fst (pconf_char (ctx_of s) c)"
  have d: "pconf_wf d" "tok_abs d = tok_step ?al ?wl (tok_abs (ctx_of s)) c"
    "pc_arg_limit d = ?al" "pc_wordlen_limit d = ?wl"
    using Cons.prems(2) by (simp_all add: d_def pconf_char_wf pconf_char_abs)
  have "\<not> tok_ended (pc_state d)"
    using Cons.prems(3) d(2) by (simp add: tok_abs_def split: prod.splits) (metis fst_conv)
  then have "pconf_char (ctx_of s) c = (d, 0)"
    using pconf_char_result [OF Cons.prems(2), of c]
    by (auto simp: d_def tok_ended_def Let_def prod_eq_iff)
  then have step: "read_loop s ((c # body) @ rest) = read_loop (put_ctx d s) (body @ rest)"
    using Cons.prems(1) by (simp add: loop_more)
  have "\<exists>ctx. read_loop (put_ctx d s) (body @ rest) = read_loop (put_ctx ctx (put_ctx d s)) rest \<and>
      pconf_wf ctx \<and> same_limits ctx d \<and> tok_abs ctx = tok_run ?al ?wl (tok_abs d) body"
    using Cons.IH [of "put_ctx d s"] Cons.prems d by (simp add: ctx_put ok_put)
  then show ?case
    using step Cons.prems(1) d by (auto simp: put_put same_limits_def)
qed

text \<open>A line of items reaches the handler once, with exactly its words as arguments.\<close>

lemma loop_line:
  assumes "ok s" "line_start (ctx_of s)" "line_fits (ctx_of s) is"
  shows "\<exists>ctx. read_loop s (line_text is @ rest) = on_line (put_ctx ctx s) rest \<and>
    line_start ctx \<and> same_limits ctx (ctx_of s) \<and> pconf_args ctx = map item_word is"
proof -
  let ?al = "pc_arg_limit (ctx_of s)" and ?wl = "pc_wordlen_limit (ctx_of s)"
  have wf: "pconf_wf (ctx_of s)" using assms(2) by (simp add: line_start_def)
  have items: "list_all (item_ok ?wl) is" "?al = 0 \<or> length ([]::cstr list) + length is \<le> ?al"
    using assms(3) by (auto simp: line_fits_def)
  obtain body where body: "line_text is = body @ [NL]"
    "tok_busy ?al ?wl (ST_FINDWORDSTART, [], []) body"
    using tok_busy_line [OF items] by auto
  have start: "tok_step ?al ?wl (tok_abs (ctx_of s)) c = tok_step ?al ?wl (ST_FINDWORDSTART, [], []) c"
    for c
    using assms(2) by (auto simp: line_start_def tok_step_def tok_abs_def tok_ended_def pconf_args_def)
  have busy: "tok_busy ?al ?wl (tok_abs (ctx_of s)) body"
    using body(2) start by (cases body) auto
  have run: "tok_run ?al ?wl (tok_abs (ctx_of s)) (body @ [NL]) = (ST_ENDOFLINE, map item_word is, [])"
    using tok_line [OF items] start by (cases body) (auto simp flip: body(1), auto simp: body(1))
  obtain d where d: "read_loop s (body @ NL # rest) = read_loop (put_ctx d s) (NL # rest)"
    "pconf_wf d" "same_limits d (ctx_of s)" "tok_abs d = tok_run ?al ?wl (tok_abs (ctx_of s)) body"
    using loop_busy [OF assms(1) wf busy, of "NL # rest"] by blast
  define e where "e = fst (pconf_char d NL)"
  have abs_e: "tok_abs e = (ST_ENDOFLINE, map item_word is, [])"
    using run d(2-4) by (simp add: e_def pconf_char_abs same_limits_def)
  then have "pconf_char d NL = (e, 1)"
    using pconf_char_result [OF d(2), of NL] by (auto simp: e_def tok_abs_def Let_def prod_eq_iff)
  then have "read_loop (put_ctx d s) (NL # rest) = on_line (put_ctx e s) rest"
    using assms(1) loop_end [of "put_ctx d s" NL e rest] by (simp add: ctx_put put_put ok_put)
  moreover have "line_start e" "same_limits e (ctx_of s)" "pconf_args e = map item_word is"
    using abs_e d(2,3) pconf_char_wf [OF d(2)]
    by (auto simp: line_start_def tok_abs_def tok_ended_def e_def same_limits_def)
  ultimately show ?thesis using d(1) body(1) by auto
qed

end

text \<open>The loops of upsd: the handler returns to the loop, whatever it answers.\<close>

locale line_reader =
  fixes ctx_of :: "'s \<Rightarrow> pconf_ctx"
    and put_ctx :: "pconf_ctx \<Rightarrow> 's \<Rightarrow> 's"
    and handle :: "'s \<Rightarrow> 's"
    and read_loop :: "'s \<Rightarrow> cstr \<Rightarrow> 's"
    and ok :: "'s \<Rightarrow> bool"
  assumes loop_Nil: "read_loop s [] = s"
    and loop_Cons: "read_loop s (c # cs) =
      (case pconf_char (ctx_of s) c of (ctx, r) \<Rightarrow>
         if r = 1 then read_loop (handle (put_ctx ctx s)) cs
         else if r = 0 then read_loop (put_ctx ctx s) cs
         else put_ctx ctx s)"
    and ctx_put: "ok s \<Longrightarrow> ctx_of (put_ctx ctx s) = ctx"
    and put_put: "ok s \<Longrightarrow> put_ctx a (put_ctx b s) = put_ctx a s"
    and put_same: "ok s \<Longrightarrow> put_ctx (ctx_of s) s = s"
    and ok_put: "ok s \<Longrightarrow> ok (put_ctx ctx s)"
    and ctx_handle: "ok s \<Longrightarrow> ctx_of (handle s) = ctx_of s"
    and ok_handle: "ok s \<Longrightarrow> ok (handle s)"

text \<open>Such a loop goes on reading after the handler.\<close>

sublocale line_reader \<subseteq> scan: line_scanner ctx_of put_ctx "\<lambda>s cs. read_loop (handle s) cs" read_loop ok
  by unfold_locales (auto simp: loop_Cons ctx_put put_put put_same ok_put)

context line_reader begin

text \<open>Whatever the bytes, the context stays well formed.\<close>

lemma loop_wf:
  "ok s \<Longrightarrow> pconf_wf (ctx_of s) \<Longrightarrow> ok (read_loop s bytes) \<and> pconf_wf (ctx_of (read_loop s bytes))"
proof (induction bytes arbitrary: s)
  case (Cons c cs)
  have "pconf_wf (fst (pconf_char (ctx_of s) c))"
    by (rule pconf_char_wf [OF Cons.prems(2)])
  then show ?case
    using Cons.prems(1) Cons.IH [of "put_ctx (fst (pconf_char (ctx_of s) c)) s"]
      Cons.IH [of "handle (put_ctx (fst (pconf_char (ctx_of s) c)) s)"]
    by (auto simp: loop_Cons ctx_put ok_put ctx_handle ok_handle split: prod.split)
qed (simp add: loop_Nil)

end

end
