(* ===== verification/ConfFile.thy ===== *)
theory ConfFile
  imports LineSpec
begin

text \<open>
  Reading a whole configuration file: the loop "while (pconf_file_next(&ctx))" that
  upsd.conf, ups.conf, upsd.users and cmdvartab share.  The handler gets None for a line
  with a parse error and Some of the words otherwise.  The loop stops because every line
  takes at least one byte from the stream.
\<close>

definition stream_len :: "pconf_ctx \<Rightarrow> nat" where
  "stream_len ctx = (case pc_f ctx of None \<Rightarrow> 0 | Some bytes \<Rightarrow> length bytes)"

lemma file_loop_shorter:
  "snd (pconf_file_loop ctx s) \<Longrightarrow> stream_len (fst (pconf_file_loop ctx s)) < length s"
  by (induction ctx s rule: pconf_file_loop.induct)
    (auto simp: Let_def stream_len_def split: if_splits)

lemma file_loop_eof:
  "\<not> snd (pconf_file_loop ctx s) \<Longrightarrow> pc_f (fst (pconf_file_loop ctx s)) = Some []"
  by (induction ctx s rule: pconf_file_loop.induct) (auto simp: Let_def split: if_splits)

lemma file_loop_Nil_numargs [simp]: "pc_numargs (fst (pconf_file_loop ctx [])) = pc_numargs ctx"
  by simp

lemma endofword_f [simp]: "pc_f (endofword ctx) = pc_f ctx"
  by (simp add: endofword_def add_arg_word_def Let_def)

lemma stream_len_check_magic [simp]: "stream_len (fst (check_magic ctx)) = stream_len ctx"
  by (simp add: check_magic_def stream_len_def)

lemma file_next_shorter:
  assumes "pconf_file_next ctx = (ctx', True)"
  shows "stream_len ctx' < stream_len ctx"
proof -
  let ?s = "case pc_f ctx of None \<Rightarrow> [] | Some bytes \<Rightarrow> bytes"
  let ?c = "ctx\<lparr>pc_linenum := pc_linenum ctx + 1, pc_numargs := 0, pc_state := ST_FINDWORDSTART\<rparr>"
  have magic: "check_magic ctx = (ctx, True)"
    using assms by (auto simp: pconf_file_next_def check_magic_def split: if_splits)
  have len: "stream_len ctx = length ?s"
    by (simp add: stream_len_def split: option.split)
  show ?thesis
  proof (cases "snd (pconf_file_loop ?c ?s)")
    case True
    then have "ctx' = fst (pconf_file_loop ?c ?s)"
      using assms magic by (auto simp: pconf_file_next_def Let_def split: prod.splits bool.splits)
    then show ?thesis using file_loop_shorter [OF True] len by simp
  next
    case False
    then have num: "pc_numargs (fst (pconf_file_loop ?c ?s)) \<noteq> 0"
      and ctx': "ctx' = (let c = fst (pconf_file_loop ?c ?s) in
        if pc_wordbuf c \<noteq> [] then endofword c else c)"
      using assms magic
      by (auto simp: pconf_file_next_def Let_def split: prod.splits bool.splits if_splits)
    have "stream_len ctx' = 0"
      using file_loop_eof [OF False] ctx' by (auto simp: stream_len_def Let_def)
    moreover have "?s \<noteq> []"
      using num by auto
    ultimately show ?thesis using len by (cases ?s) auto
  qed
qed

lemma parse_error_stream [simp]: "stream_len (fst (pconf_parse_error ctx)) = stream_len ctx"
  by (auto simp: pconf_parse_error_def check_magic_def stream_len_def)

lemma next_line_shorter:
  assumes "pconf_file_next ctx = (c1, True)" "pconf_parse_error c1 = (c2, b)"
  shows "stream_len c2 < stream_len ctx"
  using file_next_shorter [OF assms(1)] parse_error_stream [of c1] assms(2) by simp

function pconf_file_iter ::
  "(cstr list option \<Rightarrow> 's \<Rightarrow> 's) \<Rightarrow> pconf_ctx \<Rightarrow> 's \<Rightarrow> pconf_ctx \<times> 's" where
  "pconf_file_iter h ctx s =
     (case pconf_file_next ctx of
        (ctx, False) \<Rightarrow> (ctx, s)
      | (ctx, True) \<Rightarrow>
          (case pconf_parse_error ctx of
             (ctx, True) \<Rightarrow> pconf_file_iter h ctx (h None s)
           | (ctx, False) \<Rightarrow> pconf_file_iter h ctx (h (Some (pconf_args ctx)) s)))"
  by pat_completeness auto
termination
  by (relation "measure (\<lambda>(h, ctx, s). stream_len ctx)")
    (auto intro: next_line_shorter [OF sym sym])

declare pconf_file_iter.simps [simp del]

text \<open>An invariant of the handler is an invariant of the loop.\<close>

lemma pconf_file_iter_inv:
  assumes "\<And>l s. P s \<Longrightarrow> P (h l s)" "P s"
  shows "P (snd (pconf_file_iter h ctx s))"
  using assms
proof (induction h ctx s rule: pconf_file_iter.induct)
  case (1 h ctx s)
  then show ?case
    by (subst pconf_file_iter.simps) (auto split: prod.split bool.split)
qed

end
