(* ===== verification/ParseProps.thy ===== *)
theory ParseProps
  imports ConfFile
begin

text \<open>The properties of the line parser and of pconf_encode(), with their witnesses.\<close>

text \<open>A fresh context that has been given a sequence of bytes.\<close>

definition pconf_feed :: "pconf_ctx \<Rightarrow> cstr \<Rightarrow> pconf_ctx" where
  "pconf_feed ctx bytes = foldl (\<lambda>ctx c. fst (pconf_char ctx c)) ctx bytes"

definition blank_ctx :: pconf_ctx where
  "blank_ctx = \<lparr>pc_f = None, pc_state = ST_FINDWORDSTART, pc_ch = 0, pc_arglist = [], pc_argsize = [],
     pc_numargs = 0, pc_maxargs = 0, pc_wordbuf = [], pc_wordbufsize = 0, pc_linenum = 0,
     pc_error = False, pc_errmsg = [], pc_magic = 0, pc_arg_limit = 0, pc_wordlen_limit = 0\<rparr>"

lemma pconf_feed_wf:
  "pconf_wf ctx \<Longrightarrow> pconf_wf (pconf_feed ctx bytes) \<and> same_limits (pconf_feed ctx bytes) ctx"
  unfolding pconf_feed_def
  by (induction bytes arbitrary: ctx) (auto simp: same_limits_def pconf_char_wf)

lemma pconf_feed_abs:
  "pconf_wf ctx \<Longrightarrow> tok_abs (pconf_feed ctx bytes) =
     tok_run (pc_arg_limit ctx) (pc_wordlen_limit ctx) (tok_abs ctx) bytes"
  unfolding pconf_feed_def
  by (induction bytes arbitrary: ctx) (simp_all add: pconf_char_wf pconf_char_abs)

lemma pconf_init_limits [simp]:
  "pc_arg_limit (pconf_init ctx) = PCONF_DEFAULT_ARG_LIMIT"
  "pc_wordlen_limit (pconf_init ctx) = PCONF_DEFAULT_WORDLEN_LIMIT"
  "tok_abs (pconf_init ctx) = (ST_FINDWORDSTART, [], [])"
  by (simp_all add: pconf_init_def tok_abs_def pconf_args_def)

lemma tok_run_line:
  assumes "list_all (item_ok PCONF_DEFAULT_WORDLEN_LIMIT) is" "length is \<le> PCONF_DEFAULT_ARG_LIMIT"
  shows "tok_abs (pconf_feed (pconf_init ctx) (line_text is)) = (ST_ENDOFLINE, map item_word is, [])"
  using tok_line [OF assms(1), of PCONF_DEFAULT_ARG_LIMIT "[]"] assms(2)
  by (simp add: pconf_feed_abs pconf_init_wf)

section \<open>Safety\<close>

text \<open>C4. Whatever bytes a peer sends, the parser holds at most 32 words of at most 512
  printable bytes, and every word and the accumulator, with their terminators, fit the
  storage the context records for them.\<close>

theorem parser_stays_in_bounds:
  "let ctx' = pconf_feed (pconf_init ctx) bytes in
     length (pconf_args ctx') \<le> PCONF_DEFAULT_ARG_LIMIT \<and>
     (\<forall>i<pc_numargs ctx'. length (pc_arglist ctx' ! i) < pc_argsize ctx' ! i \<and>
        length (pc_arglist ctx' ! i) \<le> PCONF_DEFAULT_WORDLEN_LIMIT \<and>
        list_all word_char (pc_arglist ctx' ! i)) \<and>
     length (pc_wordbuf ctx') < pc_wordbufsize ctx'"
proof -
  define c where "c = pconf_feed (pconf_init ctx) bytes"
  have wf: "pconf_wf c" and lim: "pc_arg_limit c = PCONF_DEFAULT_ARG_LIMIT"
    "pc_wordlen_limit c = PCONF_DEFAULT_WORDLEN_LIMIT"
    using pconf_feed_wf [OF pconf_init_wf, of ctx bytes] by (simp_all add: c_def same_limits_def)
  have pos: "PCONF_DEFAULT_ARG_LIMIT \<noteq> 0" "PCONF_DEFAULT_WORDLEN_LIMIT \<noteq> 0"
    by (simp_all add: PCONF_DEFAULT_ARG_LIMIT_def PCONF_DEFAULT_WORDLEN_LIMIT_def)
  have "\<forall>w\<in>set (pc_arglist c). length w \<le> PCONF_DEFAULT_WORDLEN_LIMIT \<and> list_all word_char w"
    using wf lim pos by (auto simp: pconf_wf_def words_ok_def)
  then show ?thesis
    using wf lim pos unfolding Let_def c_def [symmetric]
    by (auto simp: pconf_wf_def pconf_args_def)
qed

lemma parser_stays_in_bounds_witness:
  "length (pc_wordbuf (pconf_feed (pconf_init blank_ctx) ''SET VAR'')) <
     pc_wordbufsize (pconf_feed (pconf_init blank_ctx) ''SET VAR'')"
  using parser_stays_in_bounds [of blank_ctx "''SET VAR''"] by (simp add: Let_def)

text \<open>C3. Byte by byte, the buffers, flags and callbacks of parseconf.c implement the abstract
  tokenizer: after any input the state, the words and the partial word are those that the
  tokenizer computes.\<close>

theorem parser_refines_tokenizer:
  "tok_abs (pconf_feed (pconf_init ctx) bytes) =
     tok_run PCONF_DEFAULT_ARG_LIMIT PCONF_DEFAULT_WORDLEN_LIMIT (ST_FINDWORDSTART, [], []) bytes"
  by (simp add: pconf_feed_abs pconf_init_wf)

section \<open>Round trips\<close>

text \<open>C5. A line of bare and quoted items as the daemons write it is read back as exactly its
  words, and pconf_char() reports the line at its newline.\<close>

theorem line_is_read_back:
  assumes "list_all (item_ok PCONF_DEFAULT_WORDLEN_LIMIT) is" "length is \<le> PCONF_DEFAULT_ARG_LIMIT"
    "line_text is = body @ [NL]"
  shows "pconf_args (pconf_feed (pconf_init ctx) (line_text is)) = map item_word is \<and>
    snd (pconf_char (pconf_feed (pconf_init ctx) body) NL) = 1"
proof -
  let ?c = "pconf_feed (pconf_init ctx) body"
  have full: "tok_abs (pconf_feed (pconf_init ctx) (line_text is)) = (ST_ENDOFLINE, map item_word is, [])"
    by (rule tok_run_line [OF assms(1,2)])
  have step: "pconf_feed (pconf_init ctx) (line_text is) = fst (pconf_char ?c NL)"
    by (simp add: pconf_feed_def assms(3))
  have "pconf_wf ?c" using pconf_feed_wf [OF pconf_init_wf] by blast
  then show ?thesis
    using full step pconf_char_result [of ?c NL] by (simp add: tok_abs_def Let_def)
qed

lemma line_is_read_back_witness:
  "pconf_args (pconf_feed (pconf_init blank_ctx) (line_text [Bare ''SET'', Quoted [CHR ''a'', QUOTE]])) =
     [''SET'', [CHR ''a'', QUOTE]]"
proof -
  have "list_all (item_ok PCONF_DEFAULT_WORDLEN_LIMIT) [Bare ''SET'', Quoted [CHR ''a'', QUOTE]]"
    by (simp add: item_ok_def bare_char_def word_char_def isspace_def pconf_escape_def
        PCONF_DEFAULT_WORDLEN_LIMIT_def)
  moreover have "length [Bare ''SET'', Quoted [CHR ''a'', QUOTE]] \<le> PCONF_DEFAULT_ARG_LIMIT"
    by (simp add: PCONF_DEFAULT_ARG_LIMIT_def)
  moreover have "line_text [Bare ''SET'', Quoted [CHR ''a'', QUOTE]] =
      (''SET '' @ [QUOTE, CHR ''a'', BSLASH, QUOTE, QUOTE]) @ [NL]"
    by (simp add: pconf_escape_def)
  ultimately show ?thesis
    using line_is_read_back [of "[Bare ''SET'', Quoted [CHR ''a'', QUOTE]]"
        "''SET '' @ [QUOTE, CHR ''a'', BSLASH, QUOTE, QUOTE]" blank_ctx] by simp
qed

text \<open>A value that pconf_encode() has room for comes back unchanged when the encoded form
  is parsed between double quotes.\<close>

theorem encode_parse_round_trip:
  assumes "list_all word_char w" "length w \<le> PCONF_DEFAULT_WORDLEN_LIMIT" "length (escape w) < n"
  shows "pconf_args (pconf_feed (pconf_init ctx) (QUOTE # pconf_encode w n @ [QUOTE, NL])) = [w]"
  using tok_run_line [of "[Quoted w]" ctx] assms
  by (simp add: pconf_encode_fits item_ok_def PCONF_DEFAULT_ARG_LIMIT_def tok_abs_def)

lemma encode_parse_round_trip_witness:
  "pconf_args (pconf_feed (pconf_init blank_ctx) (QUOTE # pconf_encode [HASH, CHR ''1''] 9 @ [QUOTE, NL])) =
     [[HASH, CHR ''1'']]"
proof -
  have "list_all word_char [HASH, CHR ''1'']" by (simp add: word_char_def)
  moreover have "length [HASH, CHR ''1''] \<le> PCONF_DEFAULT_WORDLEN_LIMIT"
    by (simp add: PCONF_DEFAULT_WORDLEN_LIMIT_def)
  moreover have "length (escape [HASH, CHR ''1'']) < 9" by (simp add: pconf_escape_def)
  ultimately show ?thesis by (rule encode_parse_round_trip)
qed

text \<open>In a buffer of two bytes or more pconf_encode() writes, with room for the terminator,
  the complete escape of a prefix of the value: a truncation never splits an escape.\<close>

theorem encode_truncates_cleanly:
  assumes "2 \<le> n"
  shows "\<exists>k\<le>length s. pconf_encode s n = escape (take k s) \<and> length (pconf_encode s n) < n"
  using encode_loop_prefix [of "n - 1" 0 s] assms by (auto simp: pconf_encode_def)

lemma encode_truncates_cleanly_witness:
  "\<exists>k\<le>length [QUOTE, QUOTE]. pconf_encode [QUOTE, QUOTE] 4 = escape (take k [QUOTE, QUOTE]) \<and>
     length (pconf_encode [QUOTE, QUOTE] 4) < 4"
  by (rule encode_truncates_cleanly) simp

text \<open>In a buffer of one byte the computation of maxlen - 1 wraps around: a value that
  starts with a character to escape fills the byte that the terminator needs.\<close>

theorem encode_one_byte_buffer:
  assumes "pconf_escape c"
  shows "pconf_encode (c # s) 1 = [BSLASH]"
  using assms by (simp add: pconf_encode_def size_pred_def)

lemma encode_one_byte_buffer_witness: "pconf_encode [HASH] 1 = [BSLASH]"
  by (rule encode_one_byte_buffer) (simp add: pconf_escape_def)

section \<open>Configuration files\<close>

text \<open>The loop over a configuration file ends: every line that pconf_file_next() reports,
  well formed or not, has taken at least one byte from the stream.\<close>

theorem config_line_takes_input:
  assumes "pconf_file_next ctx = (ctx', True)"
  shows "stream_len ctx' < stream_len ctx"
  by (rule file_next_shorter [OF assms])

lemma config_line_takes_input_witness:
  "stream_len (fst (pconf_file_next ((pconf_init blank_ctx)\<lparr>pc_f := Some ''a b''\<rparr>))) < 3"
proof -
  let ?ctx = "(pconf_init blank_ctx)\<lparr>pc_f := Some ''a b''\<rparr>"
  have "snd (pconf_file_next ?ctx)" by code_simp
  then have "stream_len (fst (pconf_file_next ?ctx)) < stream_len ?ctx"
    using config_line_takes_input [of ?ctx "fst (pconf_file_next ?ctx)"] by (cases "pconf_file_next ?ctx") simp
  then show ?thesis by (simp add: stream_len_def)
qed

text \<open>The last line of a file without a final newline is lost when it consists of one bare
  word: the end of file reports a line only if a word has been completed before.\<close>

theorem unterminated_word_is_dropped:
  assumes "pc_magic ctx = PCONF_CTX_t_MAGIC" "pc_f ctx = Some w" "pc_wordbuf ctx = []" "list_all bare_char w"
  shows "\<not> snd (pconf_file_next ctx)"
proof -
  have run: "\<not> snd (pconf_file_loop c s) \<and> pc_numargs (fst (pconf_file_loop c s)) = pc_numargs c"
    if "list_all bare_char s" "pc_state c = ST_COLLECT \<or> pc_state c = ST_FINDWORDSTART" for c s
    using that
  proof (induction s arbitrary: c)
    case (Cons x s)
    let ?c = "parse_char (c\<lparr>pc_ch := int (byte_of x)\<rparr>)"
    have x: "ch_of x (int (byte_of x))" by (simp add: ch_of_def)
    have "x \<noteq> NL" "x \<noteq> HASH" "x \<noteq> QUOTE" "x \<noteq> BSLASH" "x \<noteq> CHR ''=''"
      using Cons.prems(1) by (auto simp: bare_char_def pconf_escape_def)
    then have codes: "byte_of x \<noteq> 10" "byte_of x \<noteq> 35" "byte_of x \<noteq> 34" "byte_of x \<noteq> 92" "byte_of x \<noteq> 61"
      using ch_of_special [OF x] by simp_all
    have "pc_state ?c = ST_COLLECT \<and> pc_numargs ?c = pc_numargs c"
      using Cons.prems
      by (auto simp: parse_char_def state_fun_defs ch_of_isspace [OF x] codes bare_char_def Let_def)
    then show ?case using Cons.IH [of ?c] Cons.prems by (simp add: Let_def)
  qed simp
  let ?c = "ctx\<lparr>pc_linenum := pc_linenum ctx + 1, pc_numargs := 0, pc_state := ST_FINDWORDSTART\<rparr>"
  show ?thesis
    using run [OF assms(4), of ?c] assms(1,2)
    by (auto simp: pconf_file_next_def check_magic_def Let_def split: prod.split bool.split)
qed

lemma unterminated_word_is_dropped_witness:
  "\<not> snd (pconf_file_next ((pconf_init blank_ctx)\<lparr>pc_f := Some ''word''\<rparr>))"
proof -
  have "list_all bare_char ''word''" by code_simp
  then show ?thesis
    using unterminated_word_is_dropped [of "(pconf_init blank_ctx)\<lparr>pc_f := Some ''word''\<rparr>" "''word''"]
    by (simp add: pconf_init_def)
qed

end
