(* ===== verification/StateTree.thy ===== *)
theory StateTree
  imports LineSpec "HOL-Library.Tree"
begin

unbundle bit_operations_syntax

text \<open>
  common/state.c: the tree of variables of a device (st_tree_t), its enumerations and
  ranges, and the sorted list of instant commands.  A tree is a binary tree of node
  records, NULL is Leaf; a list of enum, range or command cells is a HOL list.  An
  operation on "st_tree_t **nptr" returns the new tree with its int result.  The clock is
  an argument, in nanoseconds: the value state_get_timestamp() stores.
\<close>

section \<open>Data\<close>

definition ST_MAX_VALUE_LEN :: nat where
  "ST_MAX_VALUE_LEN = 256"

definition ST_FLAG_RW :: "32 word" where
  "ST_FLAG_RW = 0x0001"

definition ST_FLAG_STRING :: "32 word" where
  "ST_FLAG_STRING = 0x0002"

definition ST_FLAG_NUMBER :: "32 word" where
  "ST_FLAG_NUMBER = 0x0004"

definition ST_FLAG_IMMUTABLE :: "32 word" where
  "ST_FLAG_IMMUTABLE = 0x0008"

definition has_flag :: "32 word \<Rightarrow> 32 word \<Rightarrow> bool" where
  "has_flag flags f \<longleftrightarrow> flags AND f \<noteq> 0"

record st_node =
  n_var :: cstr
  n_val :: cstr
  n_raw :: cstr
  n_rawsize :: nat
  n_safe :: cstr
  n_safesize :: nat
  n_flags :: "32 word"
  n_aux :: int
  n_lastset :: int
  n_enum_list :: "cstr list"
  n_range_list :: "(int \<times> int) list"

type_synonym st_tree = "st_node tree"

section \<open>Nodes\<close>

definition val_escape :: "st_node \<Rightarrow> st_node" where
  "val_escape node =
     (let etmp = pconf_encode (n_raw node) ST_MAX_VALUE_LEN in
      if n_raw node = etmp then node\<lparr>n_val := n_raw node\<rparr>
      else
        (let node = (if n_safesize node < length etmp + 1
                     then node\<lparr>n_safesize := length etmp + 1\<rparr> else node);
             node = node\<lparr>n_safe := snprintf (n_safesize node) etmp\<rparr>
         in node\<lparr>n_val := n_safe node\<rparr>))"

definition st_tree_node_refresh_timestamp :: "int \<Rightarrow> st_node \<Rightarrow> st_node" where
  "st_tree_node_refresh_timestamp now node = node\<lparr>n_lastset := now\<rparr>"

definition st_tree_node_compare_timestamp :: "st_node option \<Rightarrow> int option \<Rightarrow> int" where
  "st_tree_node_compare_timestamp node cutoff =
     (case node of None \<Rightarrow> -2
      | Some n \<Rightarrow> (case cutoff of None \<Rightarrow> -3
         | Some c \<Rightarrow> (if n_lastset n - c < 0 then -1 else if 0 < n_lastset n - c then 1 else 0)))"

definition new_node :: "int \<Rightarrow> cstr \<Rightarrow> cstr \<Rightarrow> st_node" where
  "new_node now var val =
     val_escape (st_tree_node_refresh_timestamp now
       \<lparr>n_var = var, n_val = [], n_raw = val, n_rawsize = length val + 1, n_safe = [],
        n_safesize = 0, n_flags = 0, n_aux = 0, n_lastset = 0, n_enum_list = [],
        n_range_list = []\<rparr>)"

section \<open>The tree\<close>

fun state_tree_find :: "st_tree \<Rightarrow> cstr \<Rightarrow> st_node option" where
  "state_tree_find Leaf var = None"
| "state_tree_find (Node l node r) var =
     (if 0 < strcasecmp (n_var node) var then state_tree_find l var
      else if strcasecmp (n_var node) var < 0 then state_tree_find r var
      else Some node)"

text \<open>Writing through the pointer that state_tree_find() returned.\<close>

fun state_tree_write :: "cstr \<Rightarrow> (st_node \<Rightarrow> st_node) \<Rightarrow> st_tree \<Rightarrow> st_tree" where
  "state_tree_write var f Leaf = Leaf"
| "state_tree_write var f (Node l node r) =
     (if 0 < strcasecmp (n_var node) var then Node (state_tree_write var f l) node r
      else if strcasecmp (n_var node) var < 0 then Node l node (state_tree_write var f r)
      else Node l (f node) r)"

text \<open>st_tree_node_add(nptr, sptr): hang a whole subtree below nptr; a duplicate is dropped.\<close>

fun st_tree_node_add :: "st_tree \<Rightarrow> st_tree \<Rightarrow> st_tree" where
  "st_tree_node_add t Leaf = t"
| "st_tree_node_add Leaf (Node sl snode sr) = Node sl snode sr"
| "st_tree_node_add (Node l node r) (Node sl snode sr) =
     (if 0 < strcasecmp (n_var node) (n_var snode)
      then Node (st_tree_node_add l (Node sl snode sr)) node r
      else if strcasecmp (n_var node) (n_var snode) < 0
      then Node l node (st_tree_node_add r (Node sl snode sr))
      else Node l node r)"

fun state_delinfo :: "st_tree \<Rightarrow> cstr \<Rightarrow> st_tree \<times> int" where
  "state_delinfo Leaf var = (Leaf, 0)"
| "state_delinfo (Node l node r) var =
     (if 0 < strcasecmp (n_var node) var then
        (case state_delinfo l var of (l', ret) \<Rightarrow> (Node l' node r, ret))
      else if strcasecmp (n_var node) var < 0 then
        (case state_delinfo r var of (r', ret) \<Rightarrow> (Node l node r', ret))
      else if has_flag (n_flags node) ST_FLAG_IMMUTABLE then (Node l node r, 0)
      else (st_tree_node_add r l, 1))"

fun state_delinfo_olderthan :: "st_tree \<Rightarrow> cstr \<Rightarrow> int option \<Rightarrow> st_tree \<times> int" where
  "state_delinfo_olderthan Leaf var cutoff = (Leaf, 0)"
| "state_delinfo_olderthan (Node l node r) var cutoff =
     (if 0 < strcasecmp (n_var node) var then
        (case state_delinfo_olderthan l var cutoff of (l', ret) \<Rightarrow> (Node l' node r, ret))
      else if strcasecmp (n_var node) var < 0 then
        (case state_delinfo_olderthan r var cutoff of (r', ret) \<Rightarrow> (Node l node r', ret))
      else if has_flag (n_flags node) ST_FLAG_IMMUTABLE then (Node l node r, 0)
      else if 0 \<le> st_tree_node_compare_timestamp (Some node) cutoff then (Node l node r, 0)
      else (st_tree_node_add r l, 1))"

fun state_setinfo :: "int \<Rightarrow> st_tree \<Rightarrow> cstr \<Rightarrow> cstr \<Rightarrow> st_tree \<times> int" where
  "state_setinfo now Leaf var val = (Node Leaf (new_node now var val) Leaf, 1)"
| "state_setinfo now (Node l node r) var val =
     (if 0 < strcasecmp (n_var node) var then
        (case state_setinfo now l var val of (l', ret) \<Rightarrow> (Node l' node r, ret))
      else if strcasecmp (n_var node) var < 0 then
        (case state_setinfo now r var val of (r', ret) \<Rightarrow> (Node l node r', ret))
      else
        (let node = st_tree_node_refresh_timestamp now node in
         if strcasecmp (n_raw node) val = 0 then (Node l node r, 0)
         else if has_flag (n_flags node) ST_FLAG_IMMUTABLE then (Node l node r, 0)
         else
           (let node = (if n_rawsize node < length val + 1
                        then node\<lparr>n_rawsize := length val + 1\<rparr> else node);
                node = node\<lparr>n_raw := snprintf (n_rawsize node) val\<rparr>
            in (Node l (val_escape node) r, 1))))"

section \<open>Enumerations, ranges, auxiliary data and flags\<close>

definition st_tree_enum_add :: "cstr list \<Rightarrow> cstr \<Rightarrow> cstr list \<times> int" where
  "st_tree_enum_add lst enc = (if enc \<in> set lst then (lst, 0) else (lst @ [enc], 1))"

definition state_addenum :: "int \<Rightarrow> st_tree \<Rightarrow> cstr \<Rightarrow> cstr \<Rightarrow> st_tree \<times> int" where
  "state_addenum now root var val =
     (case state_tree_find root var of
        None \<Rightarrow> (root, 0)
      | Some node \<Rightarrow>
          (case st_tree_enum_add (n_enum_list node) (pconf_encode val ST_MAX_VALUE_LEN) of
             (lst, ret) \<Rightarrow>
               (state_tree_write var
                  (\<lambda>n. (st_tree_node_refresh_timestamp now n)\<lparr>n_enum_list := lst\<rparr>) root, ret)))"

text \<open>The loop goes on only while both ends differ.\<close>

definition range_hit :: "int \<Rightarrow> int \<Rightarrow> int \<times> int \<Rightarrow> bool" where
  "range_hit mn mx r \<longleftrightarrow> \<not> (fst r \<noteq> mn \<and> snd r \<noteq> mx)"

definition st_tree_range_add :: "(int \<times> int) list \<Rightarrow> int \<Rightarrow> int \<Rightarrow> (int \<times> int) list \<times> int" where
  "st_tree_range_add lst mn mx =
     (if list_ex (range_hit mn mx) lst then (lst, 0) else (lst @ [(mn, mx)], 1))"

definition state_addrange :: "int \<Rightarrow> st_tree \<Rightarrow> cstr \<Rightarrow> int \<Rightarrow> int \<Rightarrow> st_tree \<times> int" where
  "state_addrange now root var mn mx =
     (if mx < mn then (root, 0)
      else case state_tree_find root var of
        None \<Rightarrow> (root, 0)
      | Some node \<Rightarrow>
          (case st_tree_range_add (n_range_list node) mn mx of
             (lst, ret) \<Rightarrow>
               (state_tree_write var
                  (\<lambda>n. (st_tree_node_refresh_timestamp now n)\<lparr>n_range_list := lst\<rparr>) root, ret)))"

definition state_setaux :: "int \<Rightarrow> st_tree \<Rightarrow> cstr \<Rightarrow> cstr \<Rightarrow> st_tree \<times> int" where
  "state_setaux now root var auxs =
     (case state_tree_find root var of
        None \<Rightarrow> (root, -1)
      | Some node \<Rightarrow>
          (let aux = fst (strtol auxs 10) in
           if n_aux node = aux
           then (state_tree_write var (st_tree_node_refresh_timestamp now) root, 0)
           else (state_tree_write var
                  (\<lambda>n. (st_tree_node_refresh_timestamp now n)\<lparr>n_aux := aux\<rparr>) root, 1)))"

definition state_getinfo :: "st_tree \<Rightarrow> cstr \<Rightarrow> cstr option" where
  "state_getinfo root var = map_option n_val (state_tree_find root var)"

definition state_getflags :: "st_tree \<Rightarrow> cstr \<Rightarrow> 32 word" where
  "state_getflags root var =
     (case state_tree_find root var of None \<Rightarrow> -1 | Some node \<Rightarrow> n_flags node)"

definition state_getaux :: "st_tree \<Rightarrow> cstr \<Rightarrow> int" where
  "state_getaux root var =
     (case state_tree_find root var of None \<Rightarrow> -1 | Some node \<Rightarrow> n_aux node)"

definition state_getenumlist :: "st_tree \<Rightarrow> cstr \<Rightarrow> cstr list" where
  "state_getenumlist root var =
     (case state_tree_find root var of None \<Rightarrow> [] | Some node \<Rightarrow> n_enum_list node)"

definition state_getrangelist :: "st_tree \<Rightarrow> cstr \<Rightarrow> (int \<times> int) list" where
  "state_getrangelist root var =
     (case state_tree_find root var of None \<Rightarrow> [] | Some node \<Rightarrow> n_range_list node)"

fun flags_of_words :: "cstr list \<Rightarrow> 32 word \<Rightarrow> 32 word" where
  "flags_of_words [] flags = flags"
| "flags_of_words (f # fs) flags =
     flags_of_words fs
       (if strcasecmp f ''RW'' = 0 then flags OR ST_FLAG_RW
        else if strcasecmp f ''STRING'' = 0 then flags OR ST_FLAG_STRING
        else if strcasecmp f ''NUMBER'' = 0 then flags OR ST_FLAG_NUMBER
        else flags)"

definition state_setflags :: "int \<Rightarrow> st_tree \<Rightarrow> cstr \<Rightarrow> cstr list \<Rightarrow> st_tree" where
  "state_setflags now root var flag =
     (case state_tree_find root var of
        None \<Rightarrow> root
      | Some node \<Rightarrow>
          state_tree_write var
            (\<lambda>n. (st_tree_node_refresh_timestamp now n)\<lparr>n_flags := flags_of_words flag 0\<rparr>) root)"

fun st_tree_del_enum :: "cstr list \<Rightarrow> cstr \<Rightarrow> cstr list \<times> int" where
  "st_tree_del_enum [] val = ([], 0)"
| "st_tree_del_enum (e # es) val =
     (if strcasecmp e val \<noteq> 0 then
        (case st_tree_del_enum es val of (es', ret) \<Rightarrow> (e # es', ret))
      else (es, 1))"

definition state_delenum :: "int \<Rightarrow> st_tree \<Rightarrow> cstr \<Rightarrow> cstr \<Rightarrow> st_tree \<times> int" where
  "state_delenum now root var val =
     (case state_tree_find root var of
        None \<Rightarrow> (root, 0)
      | Some node \<Rightarrow>
          (case st_tree_del_enum (n_enum_list node) val of (lst, ret) \<Rightarrow>
             (state_tree_write var
                (\<lambda>n. (st_tree_node_refresh_timestamp now n)\<lparr>n_enum_list := lst\<rparr>) root, ret)))"

fun st_tree_del_range :: "(int \<times> int) list \<Rightarrow> int \<Rightarrow> int \<Rightarrow> (int \<times> int) list \<times> int" where
  "st_tree_del_range [] mn mx = ([], 0)"
| "st_tree_del_range (r # rs) mn mx =
     (if \<not> range_hit mn mx r then
        (case st_tree_del_range rs mn mx of (rs', ret) \<Rightarrow> (r # rs', ret))
      else (rs, 1))"

definition state_delrange :: "int \<Rightarrow> st_tree \<Rightarrow> cstr \<Rightarrow> int \<Rightarrow> int \<Rightarrow> st_tree \<times> int" where
  "state_delrange now root var mn mx =
     (case state_tree_find root var of
        None \<Rightarrow> (root, 0)
      | Some node \<Rightarrow>
          (case st_tree_del_range (n_range_list node) mn mx of (lst, ret) \<Rightarrow>
             (state_tree_write var
                (\<lambda>n. (st_tree_node_refresh_timestamp now n)\<lparr>n_range_list := lst\<rparr>) root, ret)))"

text \<open>state_infofree() and state_cmdfree() release everything; callers then store NULL.\<close>

definition state_infofree :: "st_tree \<Rightarrow> st_tree" where
  "state_infofree node = Leaf"

definition state_cmdfree :: "cstr list \<Rightarrow> cstr list" where
  "state_cmdfree lst = []"

section \<open>The command list\<close>

fun state_addcmd :: "cstr list \<Rightarrow> cstr \<Rightarrow> cstr list \<times> int" where
  "state_addcmd [] cmd = ([cmd], 1)"
| "state_addcmd (c # cs) cmd =
     (if 0 < strcasecmp c cmd then (cmd # c # cs, 1)
      else if strcasecmp c cmd < 0 then
        (case state_addcmd cs cmd of (cs', ret) \<Rightarrow> (c # cs', ret))
      else (c # cs, 0))"

fun state_delcmd :: "cstr list \<Rightarrow> cstr \<Rightarrow> cstr list \<times> int" where
  "state_delcmd [] cmd = ([], 0)"
| "state_delcmd (c # cs) cmd =
     (if 0 < strcasecmp c cmd then (c # cs, 0)
      else if strcasecmp c cmd < 0 then
        (case state_delcmd cs cmd of (cs', ret) \<Rightarrow> (c # cs', ret))
      else (cs, 1))"


section \<open>Lookup after every operation\<close>

abbreviation vkey :: "st_node \<Rightarrow> nat list" where
  "vkey n \<equiv> ci_key (n_var n)"

text \<open>What state_setinfo() does to the node it finds.\<close>

definition setinfo_node :: "int \<Rightarrow> cstr \<Rightarrow> st_node \<Rightarrow> st_node" where
  "setinfo_node now val node =
     (let node = st_tree_node_refresh_timestamp now node in
      if strcasecmp (n_raw node) val = 0 \<or> has_flag (n_flags node) ST_FLAG_IMMUTABLE then node
      else val_escape (node\<lparr>n_rawsize := max (n_rawsize node) (length val + 1), n_raw := val\<rparr>))"

lemma val_escape_fields [simp]:
  "n_var (val_escape n) = n_var n" "n_raw (val_escape n) = n_raw n"
  "n_rawsize (val_escape n) = n_rawsize n" "n_flags (val_escape n) = n_flags n"
  "n_aux (val_escape n) = n_aux n" "n_lastset (val_escape n) = n_lastset n"
  "n_enum_list (val_escape n) = n_enum_list n" "n_range_list (val_escape n) = n_range_list n"
  by (simp_all add: val_escape_def Let_def)

lemma setinfo_node_fields [simp]:
  "n_var (setinfo_node now val n) = n_var n" "n_flags (setinfo_node now val n) = n_flags n"
  "n_aux (setinfo_node now val n) = n_aux n" "n_lastset (setinfo_node now val n) = now"
  "n_enum_list (setinfo_node now val n) = n_enum_list n"
  "n_range_list (setinfo_node now val n) = n_range_list n"
  by (simp_all add: setinfo_node_def Let_def st_tree_node_refresh_timestamp_def)

lemma new_node_fields [simp]:
  "n_var (new_node now var val) = var" "n_raw (new_node now var val) = val"
  "n_flags (new_node now var val) = 0" "n_aux (new_node now var val) = 0"
  "n_lastset (new_node now var val) = now" "n_enum_list (new_node now var val) = []"
  "n_range_list (new_node now var val) = []"
  by (simp_all add: new_node_def st_tree_node_refresh_timestamp_def)

lemma find_key: "state_tree_find t var = Some n \<Longrightarrow> vkey n = ci_key var"
proof (induction t)
  case (Node l x r)
  then show ?case by (auto simp: ci_simps split: if_splits)
qed simp

lemma find_cong_key: "ci_key v = ci_key w \<Longrightarrow> state_tree_find t v = state_tree_find t w"
  by (induction t) (simp_all add: ci_simps)

lemma find_in_set: "state_tree_find t var = Some n \<Longrightarrow> n \<in> set_tree t"
  by (induction t) (auto split: if_splits)

lemma find_write:
  assumes "\<And>n. n_var (f n) = n_var n"
  shows "state_tree_find (state_tree_write var f t) v =
    (if ci_key v = ci_key var then map_option f (state_tree_find t v) else state_tree_find t v)"
proof (induction t)
  case (Node l x r)
  then show ?case by (auto simp: ci_simps assms)
qed simp

lemma state_setinfo_node:
  "state_setinfo now (Node l node r) var val =
     (if ci_key var < vkey node then
        (Node (fst (state_setinfo now l var val)) node r, snd (state_setinfo now l var val))
      else if vkey node < ci_key var then
        (Node l node (fst (state_setinfo now r var val)), snd (state_setinfo now r var val))
      else (Node l (setinfo_node now val node) r,
        if ci_key (n_raw node) = ci_key val \<or> has_flag (n_flags node) ST_FLAG_IMMUTABLE
        then 0 else 1))"
proof -
  have sz: "snprintf m val = val" if "length val + 1 \<le> m" for m
    using that by (simp add: snprintf_fits)
  show ?thesis
    by (auto simp: ci_simps setinfo_node_def Let_def st_tree_node_refresh_timestamp_def sz max_def
        split: prod.split)
qed

lemma find_setinfo:
  "state_tree_find (fst (state_setinfo now t var val)) v =
     (if ci_key v = ci_key var
      then Some (case state_tree_find t var of None \<Rightarrow> new_node now var val
                 | Some n \<Rightarrow> setinfo_node now val n)
      else state_tree_find t v)"
proof (induction t)
  case Leaf
  then show ?case by (auto simp: ci_simps)
next
  case (Node l x r)
  show ?case
    using Node by (auto simp: state_setinfo_node ci_simps simp del: state_setinfo.simps)
qed

section \<open>The search-tree invariant\<close>

definition st_bst :: "st_tree \<Rightarrow> bool" where
  "st_bst t = bst_wrt (\<lambda>a b. vkey a < vkey b) t"

lemma st_bst_simps [simp]:
  "st_bst Leaf"
  "st_bst (Node l n r) \<longleftrightarrow> st_bst l \<and> st_bst r \<and>
     (\<forall>x\<in>set_tree l. vkey x < vkey n) \<and> (\<forall>x\<in>set_tree r. vkey n < vkey x)"
  by (auto simp: st_bst_def)

lemma find_iff:
  "st_bst t \<Longrightarrow> state_tree_find t v = Some n \<longleftrightarrow> n \<in> set_tree t \<and> vkey n = ci_key v"
proof (induction t)
  case (Node l x r)
  then show ?case
    by (auto simp: ci_simps dest: order_less_asym)
qed simp

lemma find_None_iff: "st_bst t \<Longrightarrow> state_tree_find t v = None \<longleftrightarrow> (\<forall>n\<in>set_tree t. vkey n \<noteq> ci_key v)"
  by (metis find_iff not_Some_eq)

lemma set_write:
  "set_tree (state_tree_write var f t) \<subseteq> set_tree t \<union> f ` {n \<in> set_tree t. vkey n = ci_key var}"
proof (induction t)
  case (Node l x r)
  then show ?case by (auto simp: ci_simps)
qed simp

lemma keys_write:
  assumes "\<And>n. n_var (f n) = n_var n"
  shows "vkey ` set_tree (state_tree_write var f t) = vkey ` set_tree t"
proof (induction t)
  case (Node l x r)
  then show ?case by (simp add: assms image_Un)
qed simp

lemma bst_keys:
  "st_bst (Node l n r) \<longleftrightarrow> st_bst l \<and> st_bst r \<and>
     (\<forall>k\<in>vkey ` set_tree l. k < vkey n) \<and> (\<forall>k\<in>vkey ` set_tree r. vkey n < k)"
  by auto

lemma bst_write:
  assumes "\<And>n. n_var (f n) = n_var n" "st_bst t"
  shows "st_bst (state_tree_write var f t)"
  using assms(2)
proof (induction t)
  case (Node l x r)
  then show ?case
    by (simp add: bst_keys keys_write [OF assms(1)] assms(1) del: st_bst_simps(2) ball_simps)
qed simp

lemma keys_setinfo:
  "vkey ` set_tree (fst (state_setinfo now t var val)) = insert (ci_key var) (vkey ` set_tree t)"
proof (induction t)
  case (Node l x r)
  then show ?case
    by (auto simp: state_setinfo_node image_Un simp del: state_setinfo.simps)
qed simp

lemma bst_setinfo: "st_bst t \<Longrightarrow> st_bst (fst (state_setinfo now t var val))"
proof (induction t)
  case (Node l x r)
  then show ?case
    by (auto simp: state_setinfo_node bst_keys keys_setinfo
        simp del: state_setinfo.simps st_bst_simps(2) ball_simps)
qed simp

lemma node_add:
  assumes "st_bst t" "st_bst s" "\<forall>x\<in>set_tree s. \<forall>y\<in>set_tree t. vkey x < vkey y"
  shows "st_bst (st_tree_node_add t s) \<and> set_tree (st_tree_node_add t s) = set_tree t \<union> set_tree s"
  using assms
proof (induction t s rule: st_tree_node_add.induct)
  case (3 l node r sl snode sr)
  then have "vkey snode < vkey node" by auto
  then show ?case
    using 3 by (auto simp: ci_simps)
qed auto

definition deletable :: "st_node \<Rightarrow> bool" where
  "deletable n \<longleftrightarrow> \<not> has_flag (n_flags n) ST_FLAG_IMMUTABLE"

lemma delinfo_set:
  assumes "st_bst t"
  shows "st_bst (fst (state_delinfo t var)) \<and>
    set_tree (fst (state_delinfo t var)) = {n \<in> set_tree t. \<not> (vkey n = ci_key var \<and> deletable n)}"
  using assms
proof (induction t)
  case (Node l x r)
  have apart: "\<forall>y\<in>set_tree l. \<forall>z\<in>set_tree r. vkey y < vkey z"
    using Node.prems by (auto intro: order_less_trans)
  have hang: "st_bst (st_tree_node_add r l) \<and> set_tree (st_tree_node_add r l) = set_tree r \<union> set_tree l"
    using node_add [of r l] Node.prems apart by auto
  consider "ci_key var < vkey x" | "vkey x < ci_key var" | "vkey x = ci_key var"
    by (metis linorder_less_linear)
  then show ?case
  proof cases
    case 1
    then have "\<forall>y\<in>set_tree r. vkey y \<noteq> ci_key var" using Node.prems by force
    then show ?thesis using 1 Node by (auto simp: ci_simps split: prod.split)
  next
    case 2
    then have "\<forall>y\<in>set_tree l. vkey y \<noteq> ci_key var" using Node.prems by force
    then show ?thesis using 2 Node by (auto simp: ci_simps split: prod.split)
  next
    case 3
    then have "\<forall>y\<in>set_tree l \<union> set_tree r. vkey y \<noteq> ci_key var" using Node.prems by force
    then show ?thesis using 3 Node.prems hang by (auto simp: ci_simps deletable_def)
  qed
qed simp

lemma delinfo_olderthan_cases:
  "state_delinfo_olderthan t var cutoff =
     (case state_tree_find t var of
        None \<Rightarrow> (t, 0)
      | Some n \<Rightarrow> (if 0 \<le> st_tree_node_compare_timestamp (Some n) cutoff then (t, 0)
                   else state_delinfo t var))"
proof (induction t)
  case (Node l x r)
  then show ?case by (auto split: prod.splits option.splits if_splits)
qed simp

lemma delinfo_ret:
  "snd (state_delinfo t var) =
     (case state_tree_find t var of None \<Rightarrow> 0 | Some n \<Rightarrow> if deletable n then 1 else 0)"
proof (induction t)
  case (Node l x r)
  then show ?case by (auto simp: deletable_def split: prod.splits)
qed simp

lemma find_delinfo:
  assumes "st_bst t"
  shows "state_tree_find (fst (state_delinfo t var)) v =
    (case state_tree_find t v of None \<Rightarrow> None
     | Some n \<Rightarrow> if ci_key v = ci_key var \<and> deletable n then None else Some n)"
proof -
  have iff: "state_tree_find (fst (state_delinfo t var)) v = Some n \<longleftrightarrow>
      state_tree_find t v = Some n \<and> \<not> (ci_key v = ci_key var \<and> deletable n)" for n
    using delinfo_set [OF assms] by (simp add: find_iff assms) auto
  show ?thesis
    by (cases "state_tree_find t v"; cases "state_tree_find (fst (state_delinfo t var)) v")
      (use iff in auto)
qed


section \<open>Well-formed nodes and trees\<close>

text \<open>
  A node is well formed when val is the (possibly truncated) escaped form of raw and the
  two buffers hold their strings with the terminator.
\<close>

definition node_wf :: "st_node \<Rightarrow> bool" where
  "node_wf n \<longleftrightarrow> n_val n = pconf_encode (n_raw n) ST_MAX_VALUE_LEN \<and>
     length (n_raw n) < n_rawsize n \<and> length (n_safe n) \<le> n_safesize n - 1"

definition tree_wf :: "st_tree \<Rightarrow> bool" where
  "tree_wf t \<longleftrightarrow> st_bst t \<and> (\<forall>n\<in>set_tree t. node_wf n)"

lemma node_wf_escape:
  assumes "length (n_raw n) < n_rawsize n" "length (n_safe n) \<le> n_safesize n - 1"
  shows "node_wf (val_escape n)"
  using assms by (auto simp: node_wf_def val_escape_def Let_def snprintf_fits snprintf_def)

lemma new_node_wf: "node_wf (new_node now var val)"
  unfolding new_node_def by (rule node_wf_escape) (simp_all add: st_tree_node_refresh_timestamp_def)

lemma setinfo_node_wf:
  assumes "node_wf n"
  shows "node_wf (setinfo_node now val n)"
proof -
  let ?n = "st_tree_node_refresh_timestamp now n"
  have "node_wf ?n"
    using assms by (simp add: node_wf_def st_tree_node_refresh_timestamp_def)
  moreover have "node_wf (val_escape (?n\<lparr>n_rawsize := max (n_rawsize ?n) (length val + 1), n_raw := val\<rparr>))"
    using assms by (intro node_wf_escape) (auto simp: node_wf_def st_tree_node_refresh_timestamp_def)
  ultimately show ?thesis by (simp add: setinfo_node_def Let_def)
qed

lemma set_setinfo:
  "set_tree (fst (state_setinfo now t var val)) \<subseteq>
     set_tree t \<union> setinfo_node now val ` set_tree t \<union> {new_node now var val}"
proof (induction t)
  case (Node l x r)
  then show ?case by (auto simp: state_setinfo_node simp del: state_setinfo.simps)
qed simp

lemma setinfo_wf: "tree_wf t \<Longrightarrow> tree_wf (fst (state_setinfo now t var val))"
  using set_setinfo [of now t var val]
  by (auto simp: tree_wf_def bst_setinfo dest!: subsetD intro: setinfo_node_wf new_node_wf)

lemma write_wf:
  assumes "\<And>n. n_var (f n) = n_var n" "\<And>n. node_wf n \<Longrightarrow> node_wf (f n)" "tree_wf t"
  shows "tree_wf (state_tree_write var f t)"
  using assms set_write [of var f t] by (auto simp: tree_wf_def bst_write dest!: subsetD)

lemma delinfo_wf: "tree_wf t \<Longrightarrow> tree_wf (fst (state_delinfo t var))"
  using delinfo_set [of t var] by (auto simp: tree_wf_def)

section \<open>The operations as steps\<close>

text \<open>
  One step of the life of a tree: one call of an operation of state.c on it.  What upsd
  and the drivers do to a tree is a sequence of such steps.
\<close>

inductive tree_step :: "st_tree \<Rightarrow> st_tree \<Rightarrow> bool" where
  setinfo: "tree_step t (fst (state_setinfo now t var val))"
| addenum: "tree_step t (fst (state_addenum now t var val))"
| addrange: "tree_step t (fst (state_addrange now t var mn mx))"
| setaux: "tree_step t (fst (state_setaux now t var auxs))"
| setflags: "tree_step t (state_setflags now t var flag)"
| delinfo: "tree_step t (fst (state_delinfo t var))"
| delinfo_olderthan: "tree_step t (fst (state_delinfo_olderthan t var cutoff))"
| delenum: "tree_step t (fst (state_delenum now t var val))"
| delrange: "tree_step t (fst (state_delrange now t var mn mx))"

text \<open>
  Every operation but setinfo, setflags and the deletions writes through the found node
  without touching its name, its value or its flags.
\<close>

definition keeps_value :: "(st_node \<Rightarrow> st_node) \<Rightarrow> bool" where
  "keeps_value f \<longleftrightarrow> (\<forall>n. n_var (f n) = n_var n \<and> n_val (f n) = n_val n \<and> n_raw (f n) = n_raw n \<and>
     n_flags (f n) = n_flags n \<and> (node_wf n \<longrightarrow> node_wf (f n)))"

definition value_frame :: "cstr \<Rightarrow> st_tree \<Rightarrow> st_tree \<Rightarrow> bool" where
  "value_frame var t t' \<longleftrightarrow> (\<exists>f. keeps_value f \<and> t' = state_tree_write var f t)"

lemma write_id [simp]: "state_tree_write var (\<lambda>n. n) t = t"
  by (induction t) auto

lemma value_frame_refl [simp]: "value_frame var t t"
  unfolding value_frame_def by (intro exI [of _ "\<lambda>n. n"]) (simp add: keeps_value_def)

lemma value_frame_write: "keeps_value f \<Longrightarrow> value_frame var t (state_tree_write var f t)"
  by (auto simp: value_frame_def)

lemma keeps_value_updates [simp]:
  "keeps_value (st_tree_node_refresh_timestamp now)"
  "keeps_value (\<lambda>n. (st_tree_node_refresh_timestamp now n)\<lparr>n_enum_list := es\<rparr>)"
  "keeps_value (\<lambda>n. (st_tree_node_refresh_timestamp now n)\<lparr>n_range_list := rs\<rparr>)"
  "keeps_value (\<lambda>n. (st_tree_node_refresh_timestamp now n)\<lparr>n_aux := x\<rparr>)"
  by (simp_all add: keeps_value_def st_tree_node_refresh_timestamp_def node_wf_def)

lemma value_frame_ops:
  "value_frame var t (fst (state_addenum now t var val))"
  "value_frame var t (fst (state_delenum now t var val))"
  "value_frame var t (fst (state_addrange now t var mn mx))"
  "value_frame var t (fst (state_delrange now t var mn mx))"
  "value_frame var t (fst (state_setaux now t var auxs))"
  unfolding state_addenum_def state_delenum_def state_addrange_def state_delrange_def
    state_setaux_def
  by (auto simp: value_frame_write Let_def split: option.split prod.split)

lemma value_frame_wf: "value_frame var t t' \<Longrightarrow> tree_wf t \<Longrightarrow> tree_wf t'"
  by (auto simp: value_frame_def keeps_value_def intro!: write_wf)

lemma value_frame_find:
  "value_frame var t t' \<Longrightarrow>
   map_option (\<lambda>n. (n_var n, n_val n, n_raw n, n_flags n)) (state_tree_find t' v) =
   map_option (\<lambda>n. (n_var n, n_val n, n_raw n, n_flags n)) (state_tree_find t v)"
  by (auto simp: value_frame_def keeps_value_def find_write option.map_comp o_def)

lemma setflags_wf: "tree_wf t \<Longrightarrow> tree_wf (state_setflags now t var flag)"
  unfolding state_setflags_def
  by (auto split: option.split intro!: write_wf simp: st_tree_node_refresh_timestamp_def node_wf_def)

lemma delinfo_olderthan_wf: "tree_wf t \<Longrightarrow> tree_wf (fst (state_delinfo_olderthan t var cutoff))"
  by (auto simp: delinfo_olderthan_cases delinfo_wf split: option.split)

lemma tree_step_wf: "tree_step t t' \<Longrightarrow> tree_wf t \<Longrightarrow> tree_wf t'"
  by (induction rule: tree_step.induct)
    (auto intro: setinfo_wf setflags_wf delinfo_wf delinfo_olderthan_wf value_frame_wf value_frame_ops)

inductive_simps tree_step_from_Leaf: "tree_step Leaf t'"

section \<open>Enumerations and ranges stay sets\<close>

text \<open>
  No entry of an enumeration appears twice, no range shares a bound with one before it, and
  no range is empty.
\<close>

definition ranges_ok :: "(int \<times> int) list \<Rightarrow> bool" where
  "ranges_ok rs \<longleftrightarrow> sorted_wrt (\<lambda>r s. \<not> range_hit (fst s) (snd s) r) rs \<and> (\<forall>(mn, mx)\<in>set rs. mn \<le> mx)"

definition lists_ok :: "st_node \<Rightarrow> bool" where
  "lists_ok n \<longleftrightarrow> distinct (n_enum_list n) \<and> ranges_ok (n_range_list n)"

lemma del_enum_ok: "distinct es \<Longrightarrow> distinct (fst (st_tree_del_enum es val))"
proof -
  have sub: "set (fst (st_tree_del_enum es val)) \<subseteq> set es" for es
    by (induction es) (auto split: prod.splits)
  show "distinct es \<Longrightarrow> distinct (fst (st_tree_del_enum es val))"
  proof (induction es)
    case (Cons e es)
    then show ?case using sub [of es] by (auto split: prod.splits)
  qed simp
qed

lemma del_range_ok: "ranges_ok rs \<Longrightarrow> ranges_ok (fst (st_tree_del_range rs mn mx))"
proof -
  have sub: "set (fst (st_tree_del_range rs mn mx)) \<subseteq> set rs" for rs
    by (induction rs) (auto split: prod.splits)
  show "ranges_ok rs \<Longrightarrow> ranges_ok (fst (st_tree_del_range rs mn mx))"
  proof (induction rs)
    case (Cons r rs)
    then show ?case using sub [of rs] by (auto simp: ranges_ok_def split: prod.splits)
  qed (simp add: ranges_ok_def)
qed

lemma enum_add_ok: "distinct es \<Longrightarrow> distinct (fst (st_tree_enum_add es e))"
  by (simp add: st_tree_enum_add_def)

lemma range_add_ok: "ranges_ok rs \<Longrightarrow> mn \<le> mx \<Longrightarrow> ranges_ok (fst (st_tree_range_add rs mn mx))"
  by (auto simp: st_tree_range_add_def ranges_ok_def sorted_wrt_append list_ex_iff)

lemma lists_write:
  "x \<in> set_tree (state_tree_write var f t) \<Longrightarrow> \<forall>n\<in>set_tree t. lists_ok n \<Longrightarrow>
   (\<And>n. lists_ok n \<Longrightarrow> lists_ok (f n)) \<Longrightarrow> lists_ok x"
  using set_write [of var f t] by blast

lemma lists_refresh [simp]: "lists_ok (st_tree_node_refresh_timestamp now n) = lists_ok n"
  by (simp add: lists_ok_def st_tree_node_refresh_timestamp_def)

lemma lists_setinfo [simp]: "lists_ok (setinfo_node now val n) = lists_ok n"
  by (simp add: lists_ok_def)

lemma lists_new: "lists_ok (new_node now var val)"
  by (simp add: lists_ok_def ranges_ok_def)

lemma lists_updates:
  "lists_ok n \<Longrightarrow> distinct es \<Longrightarrow> lists_ok ((st_tree_node_refresh_timestamp now n)\<lparr>n_enum_list := es\<rparr>)"
  "lists_ok n \<Longrightarrow> ranges_ok rs \<Longrightarrow> lists_ok ((st_tree_node_refresh_timestamp now n)\<lparr>n_range_list := rs\<rparr>)"
  "lists_ok n \<Longrightarrow> lists_ok ((st_tree_node_refresh_timestamp now n)\<lparr>n_aux := x\<rparr>)"
  "lists_ok n \<Longrightarrow> lists_ok ((st_tree_node_refresh_timestamp now n)\<lparr>n_flags := f\<rparr>)"
  by (simp_all add: lists_ok_def st_tree_node_refresh_timestamp_def)

lemma lists_found: "\<forall>n\<in>set_tree t. lists_ok n \<Longrightarrow> state_tree_find t var = Some n \<Longrightarrow>
  distinct (n_enum_list n) \<and> ranges_ok (n_range_list n)"
  using find_in_set by (auto simp: lists_ok_def)

lemma tree_step_lists:
  "tree_step t t' \<Longrightarrow> st_bst t \<Longrightarrow> \<forall>n\<in>set_tree t. lists_ok n \<Longrightarrow> \<forall>n\<in>set_tree t'. lists_ok n"
proof (induction rule: tree_step.induct)
  case (setinfo t now var val)
  then show ?case
    using set_setinfo [of now t var val] lists_new [of now var val] by (auto dest!: subsetD)
next
  case (addenum t now var val)
  then show ?case
    by (auto simp: state_addenum_def split_beta elim!: lists_write intro!: lists_updates enum_add_ok dest: lists_found split: option.split)
next
  case (addrange t now var mn mx)
  then show ?case
    by (auto simp: state_addrange_def split_beta elim!: lists_write intro!: lists_updates range_add_ok dest: lists_found split: option.split)
next
  case (setaux t now var auxs)
  then show ?case by (auto simp: state_setaux_def Let_def elim!: lists_write intro!: lists_updates split: option.split)
next
  case (setflags t now var flag)
  then show ?case by (auto simp: state_setflags_def elim!: lists_write intro!: lists_updates split: option.split)
next
  case (delinfo t var)
  then show ?case using delinfo_set [of t var] by simp
next
  case (delinfo_olderthan t var cutoff)
  then show ?case using delinfo_set [of t var] by (auto simp: delinfo_olderthan_cases split: option.split)
next
  case (delenum t now var val)
  then show ?case
    by (auto simp: state_delenum_def split_beta elim!: lists_write intro!: lists_updates del_enum_ok dest: lists_found split: option.split)
next
  case (delrange t now var mn mx)
  then show ?case
    by (auto simp: state_delrange_def split_beta elim!: lists_write intro!: lists_updates del_range_ok dest: lists_found split: option.split)
qed

text \<open>
  A variable marked immutable keeps its value through every step but one that rewrites
  the flags of that variable.
\<close>

definition pinned :: "st_tree \<Rightarrow> cstr \<Rightarrow> cstr \<Rightarrow> bool" where
  "pinned t var val \<longleftrightarrow>
     (\<exists>n. state_tree_find t var = Some n \<and> n_val n = val \<and> has_flag (n_flags n) ST_FLAG_IMMUTABLE)"

lemma pinned_frame: "value_frame w t t' \<Longrightarrow> pinned t var val \<Longrightarrow> pinned t' var val"
  using value_frame_find [of w t t' var] by (auto simp: pinned_def)

lemma pinned_setinfo: "pinned t var val \<Longrightarrow> pinned (fst (state_setinfo now t w x)) var val"
  by (auto simp: pinned_def find_setinfo setinfo_node_def st_tree_node_refresh_timestamp_def Let_def
      cong: find_cong_key split: option.splits dest: find_cong_key [of var w])

lemma pinned_delinfo:
  "st_bst t \<Longrightarrow> pinned t var val \<Longrightarrow> pinned (fst (state_delinfo t w)) var val"
  by (auto simp: pinned_def find_delinfo deletable_def)

lemma pinned_olderthan:
  "st_bst t \<Longrightarrow> pinned t var val \<Longrightarrow> pinned (fst (state_delinfo_olderthan t w cutoff)) var val"
  by (auto simp: delinfo_olderthan_cases pinned_delinfo split: option.split)

section \<open>The command list\<close>

definition cmds_sorted :: "cstr list \<Rightarrow> bool" where
  "cmds_sorted cs \<longleftrightarrow> sorted_wrt (<) (map ci_key cs)"

lemma addcmd_keys: "ci_key ` set (fst (state_addcmd cs cmd)) = insert (ci_key cmd) (ci_key ` set cs)"
  by (induction cs) (auto simp: ci_simps split: prod.splits)

lemma addcmd_sorted: "cmds_sorted cs \<Longrightarrow> cmds_sorted (fst (state_addcmd cs cmd))"
proof (induction cs)
  case (Cons c cs)
  have "\<forall>k\<in>ci_key ` set (fst (state_addcmd cs cmd)). ci_key c < k" if "ci_key c < ci_key cmd"
    using Cons.prems that unfolding addcmd_keys by (auto simp: cmds_sorted_def)
  then show ?case
    using Cons by (auto simp: cmds_sorted_def ci_simps split: prod.splits intro: order_less_trans)
qed (simp add: cmds_sorted_def)

lemma delcmd_keys:
  "cmds_sorted cs \<Longrightarrow> ci_key ` set (fst (state_delcmd cs cmd)) = ci_key ` set cs - {ci_key cmd}"
proof (induction cs)
  case (Cons c cs)
  have "ci_key cmd \<notin> ci_key ` set cs" if "\<not> ci_key c < ci_key cmd"
    using Cons.prems that by (auto simp: cmds_sorted_def)
  moreover have "ci_key c \<notin> ci_key ` set cs"
    using Cons.prems by (auto simp: cmds_sorted_def)
  ultimately show ?case
    using Cons by (simp add: cmds_sorted_def ci_simps case_prod_beta) auto
qed simp

lemma delcmd_sorted: "cmds_sorted cs \<Longrightarrow> cmds_sorted (fst (state_delcmd cs cmd))"
proof (induction cs)
  case (Cons c cs)
  have "set (fst (state_delcmd xs cmd)) \<subseteq> set xs" for xs
    by (induction xs) (auto split: prod.splits)
  from this [of cs] show ?case
    using Cons by (auto simp: cmds_sorted_def split: prod.splits)
qed (simp add: cmds_sorted_def)

section \<open>The interface the daemons use\<close>

text \<open>
  A store of named values as the daemons see it: setting a variable affects that variable
  only, keeps a locked value and otherwise leaves the new value, up to letter case when
  the old one differs from it in case only.
\<close>

locale info_store =
  fixes inv :: "'t \<Rightarrow> bool"
    and lookup :: "'t \<Rightarrow> cstr \<Rightarrow> 'n option"
    and setv :: "'s \<Rightarrow> cstr \<Rightarrow> cstr \<Rightarrow> 't \<Rightarrow> 't"
    and delv :: "cstr \<Rightarrow> 't \<Rightarrow> 't"
    and raw :: "'n \<Rightarrow> cstr"
    and locked :: "'n \<Rightarrow> bool"
  assumes lookup_key: "ci_key v = ci_key w \<Longrightarrow> lookup t v = lookup t w"
    and inv_set: "inv t \<Longrightarrow> inv (setv s var val t)"
    and inv_del: "inv t \<Longrightarrow> inv (delv var t)"
    and set_other: "inv t \<Longrightarrow> ci_key v \<noteq> ci_key var \<Longrightarrow> lookup (setv s var val t) v = lookup t v"
    and set_new: "inv t \<Longrightarrow> lookup t var = None \<Longrightarrow>
      \<exists>n. lookup (setv s var val t) var = Some n \<and> raw n = val \<and> \<not> locked n"
    and set_old: "inv t \<Longrightarrow> lookup t var = Some m \<Longrightarrow>
      \<exists>n. lookup (setv s var val t) var = Some n \<and> (locked n \<longleftrightarrow> locked m) \<and>
        (if locked m then raw n = raw m else ci_key (raw n) = ci_key val)"
    and del_same: "inv t \<Longrightarrow> lookup t var = Some m \<Longrightarrow> \<not> locked m \<Longrightarrow> lookup (delv var t) var = None"
    and del_other: "inv t \<Longrightarrow> ci_key v \<noteq> ci_key var \<Longrightarrow> lookup (delv var t) v = lookup t v"
begin

text \<open>Replaying updates, each with the stamp (the clock value) of its call.\<close>

fun set_all :: "'s list \<Rightarrow> (cstr \<times> cstr) list \<Rightarrow> 't \<Rightarrow> 't" where
  "set_all (s # ss) ((var, val) # upds) t = set_all ss upds (setv s var val t)"
| "set_all _ _ t = t"

definition upd_keys :: "(cstr \<times> cstr) list \<Rightarrow> nat list list" where
  "upd_keys upds = map (\<lambda>(var, val). ci_key var) upds"

lemma set_all_inv: "inv t \<Longrightarrow> inv (set_all ss upds t)"
  by (induction ss upds t rule: set_all.induct) (auto simp: inv_set)

lemma set_all_other:
  "inv t \<Longrightarrow> ci_key v \<notin> set (upd_keys upds) \<Longrightarrow> lookup (set_all ss upds t) v = lookup t v"
  by (induction ss upds t rule: set_all.induct) (auto simp: inv_set set_other upd_keys_def)

text \<open>Replaying distinct variables into a store without them copies the values.\<close>

lemma set_all_copies:
  assumes "inv t" "distinct (upd_keys upds)" "\<forall>(var, val)\<in>set upds. lookup t var = None"
    "(var, val) \<in> set upds" "length ss = length upds"
  shows "\<exists>n. lookup (set_all ss upds t) var = Some n \<and> raw n = val \<and> \<not> locked n"
  using assms
proof (induction ss upds t rule: set_all.induct)
  case (1 s ss w x upds t)
  have fresh: "ci_key w \<notin> set (upd_keys upds)"
    using "1.prems"(2) by (simp add: upd_keys_def)
  have inv': "inv (setv s w x t)" by (rule inv_set [OF "1.prems"(1)])
  show ?case
  proof (cases "(var, val) = (w, x)")
    case True
    then have "lookup t var = None" using "1.prems"(3) by auto
    with True obtain n where "lookup (setv s w x t) var = Some n" "raw n = val" "\<not> locked n"
      using set_new [OF "1.prems"(1)] by blast
    then show ?thesis using True set_all_other [OF inv' fresh] by simp
  next
    case False
    then have in_upds: "(var, val) \<in> set upds" using "1.prems"(4) by auto
    have "lookup (setv s w x t) a = None" if "(a, b) \<in> set upds" for a b
    proof -
      have "ci_key a \<noteq> ci_key w" using fresh that by (force simp: upd_keys_def)
      then show ?thesis using set_other [OF "1.prems"(1), of a w s x] "1.prems"(3) that by auto
    qed
    then show ?thesis
      using "1.IH" [OF inv' _ _ in_upds] "1.prems"(2,5) by (auto simp: upd_keys_def)
  qed
qed auto

text \<open>Setting one unlocked variable makes its value the given one, up to letter case.\<close>

lemma set_value:
  assumes "inv t" "\<forall>m. lookup t var = Some m \<longrightarrow> \<not> locked m"
  shows "\<exists>n. lookup (setv s var val t) var = Some n \<and> ci_key (raw n) = ci_key val"
  using assms set_new [of t var s val] set_old [of t var _ s val] by (cases "lookup t var") force+

end

definition immutable_node :: "st_node \<Rightarrow> bool" where
  "immutable_node n \<longleftrightarrow> has_flag (n_flags n) ST_FLAG_IMMUTABLE"

text \<open>state.c provides the interface; the stamp of a call is its clock value.\<close>

interpretation state_tree: info_store tree_wf state_tree_find
  "\<lambda>now var val t. fst (state_setinfo now t var val)" "\<lambda>var t. fst (state_delinfo t var)"
  n_raw immutable_node
proof (unfold_locales, goal_cases)
  case (1 v w t) then show ?case by (rule find_cong_key)
next
  case (2 t s var val) then show ?case by (rule setinfo_wf)
next
  case (3 t var) then show ?case by (rule delinfo_wf)
next
  case (4 t v var s val) then show ?case by (simp add: find_setinfo)
next
  case (5 t var s val) then show ?case
    by (simp add: find_setinfo immutable_node_def has_flag_def)
next
  case (6 t var m s val) then show ?case
    by (auto simp: find_setinfo immutable_node_def setinfo_node_def Let_def ci_simps
        st_tree_node_refresh_timestamp_def)
next
  case (7 t var m) then show ?case
    by (simp add: find_delinfo tree_wf_def immutable_node_def deletable_def)
next
  case (8 t v var) then show ?case
    by (auto simp: find_delinfo tree_wf_def split: option.split)
qed

end
