(* ===== verification/UserDb.thy ===== *)
theory UserDb
  imports ConfFile
begin

text \<open>
  server/user.c: the accounts of upsd.users.  The two static variables, the list of users
  and the user that the loader is working on, are one record; curr_user is the index of
  the user the pointer points to.  A user's lists of instant commands and actions are kept
  in the order of the file.
\<close>

record user =
  us_username :: cstr
  us_password :: "cstr option"
  us_firstcmd :: "cstr list"
  us_firstaction :: "cstr list"

record user_db =
  users :: "user list"
  curr_user :: "nat option"

definition empty_db :: user_db where
  "empty_db = \<lparr>users = [], curr_user = None\<rparr>"

text \<open>Writing through curr_user.\<close>

definition with_curr :: "(user \<Rightarrow> user) \<Rightarrow> user_db \<Rightarrow> user_db" where
  "with_curr f db =
     (case curr_user db of None \<Rightarrow> db
      | Some i \<Rightarrow> (if i < length (users db) then db\<lparr>users := (users db)[i := f (users db ! i)]\<rparr> else db))"

section \<open>Loading\<close>

definition user_add :: "cstr option \<Rightarrow> user_db \<Rightarrow> user_db" where
  "user_add un db =
     (case un of None \<Rightarrow> db
      | Some un \<Rightarrow>
          (if list_ex (\<lambda>u. us_username u = un) (users db) then db
           else db\<lparr>users := users db @ [\<lparr>us_username = un, us_password = None, us_firstcmd = [],
                                      us_firstaction = []\<rparr>],
                   curr_user := Some (length (users db))\<rparr>))"

definition user_password :: "cstr option \<Rightarrow> user_db \<Rightarrow> user_db" where
  "user_password pw db =
     (case curr_user db of None \<Rightarrow> db
      | Some i \<Rightarrow>
          (case pw of None \<Rightarrow> db
           | Some pw \<Rightarrow>
               with_curr (\<lambda>u. if us_password u \<noteq> None then u else u\<lparr>us_password := Some pw\<rparr>) db))"

definition user_add_instcmd :: "cstr option \<Rightarrow> user_db \<Rightarrow> user_db" where
  "user_add_instcmd cmd db =
     (case curr_user db of None \<Rightarrow> db
      | Some i \<Rightarrow>
          (case cmd of None \<Rightarrow> db
           | Some cmd \<Rightarrow>
               with_curr (\<lambda>u. if list_ex (\<lambda>c. strcasecmp c cmd = 0) (us_firstcmd u) then u
                              else u\<lparr>us_firstcmd := us_firstcmd u @ [cmd]\<rparr>) db))"

definition addaction :: "cstr list \<Rightarrow> cstr option \<Rightarrow> cstr list" where
  "addaction base action = (case action of None \<Rightarrow> base | Some a \<Rightarrow> base @ [a])"

definition user_add_action :: "cstr option \<Rightarrow> user_db \<Rightarrow> user_db" where
  "user_add_action act db =
     (case curr_user db of None \<Rightarrow> db
      | Some i \<Rightarrow> with_curr (\<lambda>u. u\<lparr>us_firstaction := addaction (us_firstaction u) act\<rparr>) db)"

text \<open>user_flush() frees the list; curr_user is not reset until the next user_load().\<close>

definition user_flush :: "user_db \<Rightarrow> user_db" where
  "user_flush db = db\<lparr>users := []\<rparr>"

definition set_upsmon_type :: "cstr \<Rightarrow> user_db \<Rightarrow> user_db" where
  "set_upsmon_type typ db =
     (if strcasecmp typ ''master'' = 0 \<or> strcasecmp typ ''primary'' = 0
      then user_add_action (Some ''fsd'') (user_add_action (Some ''master'')
             (user_add_action (Some ''login'') db))
      else if strcasecmp typ ''slave'' = 0 \<or> strcasecmp typ ''secondary'' = 0
      then user_add_action (Some ''login'') db
      else db)"

definition parse_var :: "cstr \<Rightarrow> cstr \<Rightarrow> user_db \<Rightarrow> user_db" where
  "parse_var var val db =
     (if strcasecmp var ''password'' = 0 then user_password (Some val) db
      else if strcasecmp var ''instcmds'' = 0 then user_add_instcmd (Some val) db
      else if strcasecmp var ''actions'' = 0 then user_add_action (Some val) db
      else if strcasecmp var ''allowfrom'' = 0 then db
      else if strcasecmp var ''upsmon'' = 0 then set_upsmon_type val db
      else db)"

text \<open>parse_rest(var, fval, arg, next, left): the first value and then arg[next ..< next + left].\<close>

definition parse_rest :: "cstr \<Rightarrow> cstr \<Rightarrow> cstr list \<Rightarrow> nat \<Rightarrow> nat \<Rightarrow> user_db \<Rightarrow> user_db" where
  "parse_rest var fval arg nxt left db =
     (if curr_user db = None then db
      else fold (parse_var var) (take left (drop nxt arg)) (parse_var var fval db))"

definition user_parse_arg :: "cstr list \<Rightarrow> user_db \<Rightarrow> user_db" where
  "user_parse_arg arg db =
     (let numargs = length arg; a0 = arg ! 0 in
      if numargs = 0 then db
      else if strcasecmp a0 ''user'' = 0 then db
      else if CHR ''='' \<in> set a0 then
        parse_rest (takeWhile (\<lambda>c. c \<noteq> CHR ''='') a0) (tl (dropWhile (\<lambda>c. c \<noteq> CHR ''='') a0))
          arg 1 (if numargs < 2 then 0 else numargs - 1) db
      else if a0 \<noteq> [] \<and> hd a0 = CHR ''['' \<and> last a0 = CHR '']'' then
        user_add (Some (tl (butlast a0))) db
      else if numargs < 2 then db
      else
        (let db = (if strcasecmp a0 ''upsmon'' = 0 then set_upsmon_type (arg ! 1) db else db) in
         if numargs < 3 then db
         else if arg ! 1 = ''='' then
           parse_rest a0 (arg ! 2) arg 3 (if numargs < 4 then 0 else numargs - 3) db
         else db))"

definition user_line :: "cstr list option \<Rightarrow> user_db \<Rightarrow> user_db" where
  "user_line line db = (case line of None \<Rightarrow> db | Some args \<Rightarrow> user_parse_arg args db)"

text \<open>user_load(): opened is the file's bytes, or the error text when upsd.users cannot be opened.\<close>

definition user_load :: "pconf_ctx \<Rightarrow> cstr + cstr \<Rightarrow> user_db \<Rightarrow> user_db" where
  "user_load ctx0 opened db =
     (let db = db\<lparr>curr_user := None\<rparr> in
      case pconf_file_begin (pconf_init ctx0) ''upsd.users'' opened of
        (ctx, False) \<Rightarrow> db
      | (ctx, True) \<Rightarrow> snd (pconf_file_iter user_line ctx db))"

section \<open>Checks\<close>

definition user_matchinstcmd :: "user \<Rightarrow> cstr \<Rightarrow> bool" where
  "user_matchinstcmd user cmd \<longleftrightarrow>
     list_ex (\<lambda>c. strcasecmp c cmd = 0 \<or> strcasecmp c ''all'' = 0) (us_firstcmd user)"

definition user_matchaction :: "user \<Rightarrow> cstr \<Rightarrow> bool" where
  "user_matchaction user action \<longleftrightarrow>
     list_ex (\<lambda>a. strcasecmp a action = 0) (us_firstaction user)"

text \<open>The search both checks share: entries without a password are passed over.\<close>

fun user_search :: "user list \<Rightarrow> cstr \<Rightarrow> cstr \<Rightarrow> (user \<Rightarrow> bool) \<Rightarrow> bool" where
  "user_search [] un pw match = False"
| "user_search (u # us) un pw match =
     (case us_password u of
        None \<Rightarrow> user_search us un pw match
      | Some p \<Rightarrow>
          (if us_username u \<noteq> un then user_search us un pw match
           else if p \<noteq> pw then False
           else match u))"

definition user_checkinstcmd :: "user_db \<Rightarrow> cstr option \<Rightarrow> cstr option \<Rightarrow> cstr option \<Rightarrow> bool" where
  "user_checkinstcmd db un pw cmd =
     (case (un, pw, cmd) of
        (Some un, Some pw, Some cmd) \<Rightarrow> user_search (users db) un pw (\<lambda>u. user_matchinstcmd u cmd)
      | _ \<Rightarrow> False)"

definition user_checkaction :: "user_db \<Rightarrow> cstr option \<Rightarrow> cstr option \<Rightarrow> cstr option \<Rightarrow> bool" where
  "user_checkaction db un pw action =
     (case (un, pw, action) of
        (Some un, Some pw, Some action) \<Rightarrow>
          user_search (users db) un pw (\<lambda>u. user_matchaction u action)
      | _ \<Rightarrow> False)"

section \<open>Invariant of the loader\<close>

text \<open>Names are distinct and curr_user, when set, points into the list.\<close>

definition user_db_wf :: "user_db \<Rightarrow> bool" where
  "user_db_wf db \<longleftrightarrow> distinct (map us_username (users db)) \<and>
     (case curr_user db of None \<Rightarrow> True | Some i \<Rightarrow> i < length (users db))"

lemma with_curr_wf:
  assumes "user_db_wf db" "\<And>u. us_username (f u) = us_username u"
  shows "user_db_wf (with_curr f db)"
proof -
  have "map us_username ((users db)[i := f (users db ! i)]) = map us_username (users db)"
    if "i < length (users db)" for i
    using that assms(2) by (simp add: map_update list_update_same_conv)
  then show ?thesis
    using assms(1) by (auto simp: with_curr_def user_db_wf_def split: option.split)
qed

lemma user_add_wf: "user_db_wf db \<Longrightarrow> user_db_wf (user_add un db)"
  by (auto simp: user_add_def user_db_wf_def list_ex_iff split: option.split)

lemma loader_steps_wf:
  assumes "user_db_wf db"
  shows "user_db_wf (user_password pw db)" "user_db_wf (user_add_instcmd cmd db)"
    "user_db_wf (user_add_action act db)"
  using assms unfolding user_password_def user_add_instcmd_def user_add_action_def
  by (auto split: option.split intro!: with_curr_wf)

lemma set_upsmon_type_wf: "user_db_wf db \<Longrightarrow> user_db_wf (set_upsmon_type typ db)"
  by (simp add: set_upsmon_type_def loader_steps_wf)

lemma parse_var_wf: "user_db_wf db \<Longrightarrow> user_db_wf (parse_var var val db)"
  by (simp add: parse_var_def loader_steps_wf set_upsmon_type_wf)

lemma fold_parse_var_wf: "user_db_wf db \<Longrightarrow> user_db_wf (fold (parse_var var) vals db)"
  by (induction vals arbitrary: db) (auto simp: parse_var_wf)

lemma parse_rest_wf: "user_db_wf db \<Longrightarrow> user_db_wf (parse_rest var fval arg nxt left db)"
  by (simp add: parse_rest_def fold_parse_var_wf parse_var_wf)

lemma user_parse_arg_wf: "user_db_wf db \<Longrightarrow> user_db_wf (user_parse_arg arg db)"
  by (auto simp: user_parse_arg_def Let_def user_add_wf parse_rest_wf set_upsmon_type_wf)

lemma user_line_wf: "user_db_wf db \<Longrightarrow> user_db_wf (user_line line db)"
  by (auto simp: user_line_def user_parse_arg_wf split: option.split)

lemma user_load_wf:
  assumes "user_db_wf (db\<lparr>curr_user := None\<rparr>)"
  shows "user_db_wf (user_load ctx0 opened db)"
  using assms pconf_file_iter_inv [of user_db_wf user_line, OF user_line_wf]
  by (auto simp: user_load_def Let_def split: prod.split bool.split)

section \<open>What the checks decide\<close>

lemma user_search_iff:
  "distinct (map us_username us) \<Longrightarrow>
   user_search us un pw match \<longleftrightarrow>
     (\<exists>u\<in>set us. us_username u = un \<and> us_password u = Some pw \<and> match u)"
proof (induction us)
  case (Cons u us)
  then show ?case by (cases "us_password u") (auto simp: image_iff)
qed simp

text \<open>Without distinctness a success still names an account with that name and password.\<close>

lemma user_search_sound:
  "user_search us un pw match \<Longrightarrow>
   \<exists>u\<in>set us. us_username u = un \<and> us_password u = Some pw \<and> match u"
  by (induction us) (auto split: option.splits if_splits)

end
