(* ===== verification/DescTab.thy ===== *)
theory DescTab
  imports ConfFile
begin

text \<open>
  server/desc.c: the descriptions of commands and variables from the file cmdvartab, two
  lists of (name, description) pairs, newest first.
\<close>

type_synonym dlist = "(cstr \<times> cstr) list"

record desc_db =
  cmd_list :: dlist
  var_list :: dlist

fun list_get :: "dlist \<Rightarrow> cstr \<Rightarrow> cstr option" where
  "list_get [] name = None"
| "list_get ((n, d) # rest) name = (if strcasecmp n name = 0 then Some d else list_get rest name)"

fun desc_replace :: "dlist \<Rightarrow> cstr \<Rightarrow> cstr \<Rightarrow> dlist" where
  "desc_replace [] name desc = []"
| "desc_replace ((n, d) # rest) name desc =
     (if strcasecmp n name = 0 then (n, desc) # rest else (n, d) # desc_replace rest name desc)"

definition desc_add :: "dlist \<Rightarrow> cstr \<Rightarrow> cstr \<Rightarrow> dlist" where
  "desc_add lst name desc =
     (if list_ex (\<lambda>(n, d). strcasecmp n name = 0) lst then desc_replace lst name desc
      else (name, desc) # lst)"

definition desc_line :: "cstr list option \<Rightarrow> desc_db \<Rightarrow> desc_db" where
  "desc_line line db =
     (case line of None \<Rightarrow> db
      | Some arg \<Rightarrow>
          (if length arg < 3 then db
           else if arg ! 0 = ''CMDDESC'' then db\<lparr>cmd_list := desc_add (cmd_list db) (arg ! 1) (arg ! 2)\<rparr>
           else if arg ! 0 = ''VARDESC'' then db\<lparr>var_list := desc_add (var_list db) (arg ! 1) (arg ! 2)\<rparr>
           else db))"

definition desc_load :: "pconf_ctx \<Rightarrow> cstr + cstr \<Rightarrow> desc_db \<Rightarrow> desc_db" where
  "desc_load ctx0 opened db =
     (case pconf_file_begin (pconf_init ctx0) ''cmdvartab'' opened of
        (ctx, False) \<Rightarrow> db
      | (ctx, True) \<Rightarrow> snd (pconf_file_iter desc_line ctx db))"

definition desc_free :: "desc_db \<Rightarrow> desc_db" where
  "desc_free db = db\<lparr>cmd_list := [], var_list := []\<rparr>"

definition desc_get_cmd :: "desc_db \<Rightarrow> cstr \<Rightarrow> cstr option" where
  "desc_get_cmd db name = list_get (cmd_list db) name"

definition desc_get_var :: "desc_db \<Rightarrow> cstr \<Rightarrow> cstr option" where
  "desc_get_var db name = list_get (var_list db) name"

section \<open>Lookup laws\<close>

lemma list_get_key: "ci_key a = ci_key b \<Longrightarrow> list_get lst a = list_get lst b"
  by (induction lst a rule: list_get.induct) (auto simp: ci_simps)

lemma list_get_replace:
  "list_get (desc_replace lst name desc) v =
     (if ci_key v = ci_key name \<and> list_ex (\<lambda>(n, d). strcasecmp n name = 0) lst
      then Some desc else list_get lst v)"
  by (induction lst name desc rule: desc_replace.induct) (auto simp: ci_simps)

lemma list_get_add:
  "list_get (desc_add lst name desc) v = (if ci_key v = ci_key name then Some desc else list_get lst v)"
  by (auto simp: desc_add_def list_get_replace ci_simps list_ex_iff)

definition desc_wf :: "dlist \<Rightarrow> bool" where
  "desc_wf lst \<longleftrightarrow> distinct (map (ci_key \<circ> fst) lst)"

lemma desc_replace_keys: "map (ci_key \<circ> fst) (desc_replace lst name desc) = map (ci_key \<circ> fst) lst"
  by (induction lst name desc rule: desc_replace.induct) auto

lemma desc_add_wf: "desc_wf lst \<Longrightarrow> desc_wf (desc_add lst name desc)"
  by (auto simp: desc_wf_def desc_add_def desc_replace_keys list_ex_iff ci_simps)

end
