(* ===== verification/StrLib.thy ===== *)
theory StrLib
  imports NutPrelude
begin

text \<open>
  common/str.c: trimming in place, and number conversions that reject anything but a whole
  number.  A conversion returns the error code or the number; the C functions store 0
  through the pointer in the error case.  The conversions to double are not modelled.
\<close>

section \<open>Trimming\<close>

fun ltrim_loop :: "(char \<Rightarrow> bool) \<Rightarrow> cstr \<Rightarrow> cstr" where
  "ltrim_loop p [] = []"
| "ltrim_loop p (c # s) = (if p c then ltrim_loop p s else c # s)"

function rtrim_loop :: "(char \<Rightarrow> bool) \<Rightarrow> cstr \<Rightarrow> cstr" where
  "rtrim_loop p s = (if s \<noteq> [] \<and> p (last s) then rtrim_loop p (butlast s) else s)"
  by pat_completeness auto
termination by (relation "measure (\<lambda>(p, s). length s)") auto

declare rtrim_loop.simps [simp del]

definition str_ltrim_m :: "cstr option \<Rightarrow> cstr option \<Rightarrow> cstr option" where
  "str_ltrim_m string characters =
     (case (string, characters) of
        (Some s, Some cs) \<Rightarrow>
          (if s = [] \<or> cs = [] then string else Some (ltrim_loop (\<lambda>c. c \<in> set cs) s))
      | _ \<Rightarrow> string)"

definition str_rtrim_m :: "cstr option \<Rightarrow> cstr option \<Rightarrow> cstr option" where
  "str_rtrim_m string characters =
     (case (string, characters) of
        (Some s, Some cs) \<Rightarrow>
          (if s = [] \<or> cs = [] then string else Some (rtrim_loop (\<lambda>c. c \<in> set cs) s))
      | _ \<Rightarrow> string)"

definition str_ltrim :: "cstr option \<Rightarrow> char \<Rightarrow> cstr option" where
  "str_ltrim string c = str_ltrim_m string (Some [c])"

definition str_rtrim :: "cstr option \<Rightarrow> char \<Rightarrow> cstr option" where
  "str_rtrim string c = str_rtrim_m string (Some [c])"

definition str_trim :: "cstr option \<Rightarrow> char \<Rightarrow> cstr option" where
  "str_trim string c = str_rtrim (str_ltrim string c) c"

definition str_trim_m :: "cstr option \<Rightarrow> cstr option \<Rightarrow> cstr option" where
  "str_trim_m string cs = str_rtrim_m (str_ltrim_m string cs) cs"

definition str_ltrim_space :: "cstr option \<Rightarrow> cstr option" where
  "str_ltrim_space string = map_option (ltrim_loop isspace) string"

definition str_rtrim_space :: "cstr option \<Rightarrow> cstr option" where
  "str_rtrim_space string = map_option (rtrim_loop isspace) string"

definition str_trim_space :: "cstr option \<Rightarrow> cstr option" where
  "str_trim_space string = str_rtrim_space (str_ltrim_space string)"

section \<open>Conversions\<close>

definition SHRT_MIN :: int where "SHRT_MIN = -32768"
definition SHRT_MAX :: int where "SHRT_MAX = 32767"
definition USHRT_MAX :: int where "USHRT_MAX = 65535"
definition UINT_MAX :: int where "UINT_MAX = 2 ^ 32 - 1"

type_synonym conv = "errno + int"

definition str_to_long_strict :: "cstr option \<Rightarrow> nat \<Rightarrow> conv" where
  "str_to_long_strict string base =
     (case string of
        None \<Rightarrow> Inl EINVAL
      | Some s \<Rightarrow>
          (if s = [] \<or> isspace (hd s) then Inl EINVAL
           else case strtol s base of (n, rest, e) \<Rightarrow>
             if e = EINVAL \<or> rest \<noteq> [] then Inl EINVAL
             else if e = ERANGE then Inl ERANGE
             else Inr n))"

definition str_to_long :: "cstr option \<Rightarrow> nat \<Rightarrow> conv" where
  "str_to_long string base =
     (case string of
        None \<Rightarrow> Inl EINVAL
      | Some s \<Rightarrow>
          (if s = [] then Inl EINVAL else str_to_long_strict (str_trim_space (Some s)) base))"

definition str_to_ulong_strict :: "cstr option \<Rightarrow> nat \<Rightarrow> conv" where
  "str_to_ulong_strict string base =
     (case string of
        None \<Rightarrow> Inl EINVAL
      | Some s \<Rightarrow>
          (if s = [] \<or> hd s = CHR ''+'' \<or> hd s = CHR ''-'' \<or> isspace (hd s) then Inl EINVAL
           else case strtoul s base of (n, rest, e) \<Rightarrow>
             if e = EINVAL \<or> rest \<noteq> [] then Inl EINVAL
             else if e = ERANGE then Inl ERANGE
             else Inr n))"

definition str_to_ulong :: "cstr option \<Rightarrow> nat \<Rightarrow> conv" where
  "str_to_ulong string base =
     (case string of
        None \<Rightarrow> Inl EINVAL
      | Some s \<Rightarrow>
          (if s = [] then Inl EINVAL else str_to_ulong_strict (str_trim_space (Some s)) base))"

text \<open>The range test that every narrower conversion makes after the long one.\<close>

definition narrow :: "int \<Rightarrow> int \<Rightarrow> conv \<Rightarrow> conv" where
  "narrow lo hi r =
     (case r of Inl e \<Rightarrow> Inl e | Inr n \<Rightarrow> if n < lo \<or> hi < n then Inl ERANGE else Inr n)"

definition str_to_short :: "cstr option \<Rightarrow> nat \<Rightarrow> conv" where
  "str_to_short s base = narrow SHRT_MIN SHRT_MAX (str_to_long s base)"

definition str_to_short_strict :: "cstr option \<Rightarrow> nat \<Rightarrow> conv" where
  "str_to_short_strict s base = narrow SHRT_MIN SHRT_MAX (str_to_long_strict s base)"

definition str_to_ushort :: "cstr option \<Rightarrow> nat \<Rightarrow> conv" where
  "str_to_ushort s base = narrow 0 USHRT_MAX (str_to_ulong s base)"

definition str_to_ushort_strict :: "cstr option \<Rightarrow> nat \<Rightarrow> conv" where
  "str_to_ushort_strict s base = narrow 0 USHRT_MAX (str_to_ulong_strict s base)"

definition str_to_int :: "cstr option \<Rightarrow> nat \<Rightarrow> conv" where
  "str_to_int s base = narrow INT_MIN INT_MAX (str_to_long s base)"

definition str_to_int_strict :: "cstr option \<Rightarrow> nat \<Rightarrow> conv" where
  "str_to_int_strict s base = narrow INT_MIN INT_MAX (str_to_long_strict s base)"

definition str_to_uint :: "cstr option \<Rightarrow> nat \<Rightarrow> conv" where
  "str_to_uint s base = narrow 0 UINT_MAX (str_to_ulong s base)"

definition str_to_uint_strict :: "cstr option \<Rightarrow> nat \<Rightarrow> conv" where
  "str_to_uint_strict s base = narrow 0 UINT_MAX (str_to_ulong_strict s base)"

text \<open>str_is_*(): the conversion with its number dropped.\<close>

definition converts :: "conv \<Rightarrow> bool" where
  "converts r = (case r of Inl e \<Rightarrow> False | Inr n \<Rightarrow> True)"

definition str_is_short :: "cstr option \<Rightarrow> nat \<Rightarrow> bool" where
  "str_is_short s base = converts (str_to_short s base)"

definition str_is_ushort :: "cstr option \<Rightarrow> nat \<Rightarrow> bool" where
  "str_is_ushort s base = converts (str_to_ushort s base)"

definition str_is_int :: "cstr option \<Rightarrow> nat \<Rightarrow> bool" where
  "str_is_int s base = converts (str_to_int s base)"

definition str_is_uint :: "cstr option \<Rightarrow> nat \<Rightarrow> bool" where
  "str_is_uint s base = converts (str_to_uint s base)"

definition str_is_long :: "cstr option \<Rightarrow> nat \<Rightarrow> bool" where
  "str_is_long s base = converts (str_to_long s base)"

definition str_is_ulong :: "cstr option \<Rightarrow> nat \<Rightarrow> bool" where
  "str_is_ulong s base = converts (str_to_ulong s base)"

definition str_is_short_strict :: "cstr option \<Rightarrow> nat \<Rightarrow> bool" where
  "str_is_short_strict s base = converts (str_to_short_strict s base)"

definition str_is_ushort_strict :: "cstr option \<Rightarrow> nat \<Rightarrow> bool" where
  "str_is_ushort_strict s base = converts (str_to_ushort_strict s base)"

definition str_is_int_strict :: "cstr option \<Rightarrow> nat \<Rightarrow> bool" where
  "str_is_int_strict s base = converts (str_to_int_strict s base)"

definition str_is_uint_strict :: "cstr option \<Rightarrow> nat \<Rightarrow> bool" where
  "str_is_uint_strict s base = converts (str_to_uint_strict s base)"

definition str_is_long_strict :: "cstr option \<Rightarrow> nat \<Rightarrow> bool" where
  "str_is_long_strict s base = converts (str_to_long_strict s base)"

definition str_is_ulong_strict :: "cstr option \<Rightarrow> nat \<Rightarrow> bool" where
  "str_is_ulong_strict s base = converts (str_to_ulong_strict s base)"

definition str_ends_with :: "cstr option \<Rightarrow> cstr option \<Rightarrow> bool" where
  "str_ends_with s suff =
     (case (s, suff) of
        (None, _) \<Rightarrow> False
      | (Some s, None) \<Rightarrow> True
      | (Some s, Some t) \<Rightarrow> length t \<le> length s \<and> drop (length s - length t) s = t)"

section \<open>What trimming leaves\<close>

lemma ltrim_loop_dropWhile: "ltrim_loop p s = dropWhile p s"
  by (induction s) auto

lemma rtrim_loop_dropWhile: "rtrim_loop p s = rev (dropWhile p (rev s))"
proof (induction s rule: rev_induct)
  case Nil
  then show ?case by (simp add: rtrim_loop.simps)
next
  case (snoc c s)
  then show ?case by (subst rtrim_loop.simps) simp
qed

lemma last_rtrim: "rtrim_loop p s \<noteq> [] \<Longrightarrow> \<not> p (last (rtrim_loop p s))"
  by (simp add: rtrim_loop_dropWhile last_rev hd_dropWhile)

lemma hd_ltrim: "ltrim_loop p s \<noteq> [] \<Longrightarrow> \<not> p (hd (ltrim_loop p s))"
  by (simp add: ltrim_loop_dropWhile hd_dropWhile)

lemma rtrim_prefix: "\<exists>t. s = rtrim_loop p s @ t \<and> list_all p t"
  by (intro exI [of _ "rev (takeWhile p (rev s))"])
    (auto simp: rtrim_loop_dropWhile list_all_iff dest: set_takeWhileD
      simp flip: rev_append)

lemma ltrim_suffix: "\<exists>t. s = t @ ltrim_loop p s \<and> list_all p t"
  by (intro exI [of _ "takeWhile p s"]) (auto simp: ltrim_loop_dropWhile list_all_iff dest: set_takeWhileD)

section \<open>What the conversions accept\<close>

lemma narrow_Inr: "narrow lo hi r = Inr n \<longleftrightarrow> r = Inr n \<and> lo \<le> n \<and> n \<le> hi"
  by (auto simp: narrow_def split: sum.split)

lemma digit_not_space: "isdigit c \<Longrightarrow> \<not> isspace c"
  by (auto simp: isdigit_def isspace_def)

lemma takeWhile_digits: "takeWhile (\<lambda>c. digit_val c < 10) (show_nat n) = show_nat n"
  "dropWhile (\<lambda>c. digit_val c < 10) (show_nat n) = []"
  by (auto simp: takeWhile_eq_all_conv dropWhile_eq_Nil_conv digit_val_def isdigit_def
      dest!: show_nat_digits)

lemma hd_show_nat: "isdigit (hd (show_nat n))"
  using show_nat_digits [of "hd (show_nat n)" n] by simp

lemma scan_show_nat: "scan_num (show_nat n) 10 = Some (False, n, [])"
proof -
  have "dropWhile isspace (show_nat n) = show_nat n"
    using hd_show_nat [of n] digit_not_space
    by (cases "show_nat n") auto
  moreover have "scan_sign (show_nat n) = (False, show_nat n)"
    using hd_show_nat [of n] by (auto simp: scan_sign_def isdigit_def split: list.split)
  ultimately show ?thesis
    by (simp add: scan_num_def scan_base_def takeWhile_digits digits_value_show_nat)
qed

lemma scan_show_int: "scan_num (show_int i) 10 = Some (i < 0, nat \<bar>i\<bar>, [])"
proof (cases "i < 0")
  case True
  have "\<not> isspace (CHR ''-'')" by (simp add: isspace_def)
  then show ?thesis
    using True
    by (simp add: show_int_def scan_num_def scan_sign_def scan_base_def takeWhile_digits
        digits_value_show_nat)
qed (simp add: show_int_def scan_show_nat)

lemma hd_show_int: "show_int i \<noteq> [] \<and> \<not> isspace (hd (show_int i))"
  using hd_show_nat [of "nat i"] by (auto simp: show_int_def isspace_def isdigit_def)

lemma strtol_show_int:
  "LONG_MIN \<le> i \<Longrightarrow> i \<le> LONG_MAX \<Longrightarrow> strtol (show_int i) 10 = (i, [], EOK)"
  by (auto simp: strtol_def scan_show_int valid_base_def Let_def)

lemma last_show_int: "\<not> isspace (last (show_int i))"
  using show_nat_digits [of "last (show_nat (nat \<bar>i\<bar>))" "nat \<bar>i\<bar>"]
  using digit_not_space by (auto simp: show_int_def)

lemma dropWhile_all_append: "list_all p xs \<Longrightarrow> dropWhile p (xs @ ys) = dropWhile p ys"
  by (induction xs) auto

lemma trim_padded:
  assumes "list_all isspace a" "list_all isspace b" "s \<noteq> []" "\<not> isspace (hd s)" "\<not> isspace (last s)"
  shows "str_trim_space (Some (a @ s @ b)) = Some s"
proof -
  have "dropWhile isspace (a @ s @ b) = s @ b"
    using assms by (cases s) (auto simp: dropWhile_all_append)
  moreover have "rev (dropWhile isspace (rev (s @ b))) = s"
    using assms by (cases "rev s") (auto simp: dropWhile_all_append rev_swap)
  ultimately show ?thesis
    by (simp add: str_trim_space_def str_ltrim_space_def str_rtrim_space_def ltrim_loop_dropWhile
        rtrim_loop_dropWhile)
qed

text \<open>A decimal number between blanks is read back.\<close>

lemma str_to_long_padded:
  assumes "list_all isspace a" "list_all isspace b" "LONG_MIN \<le> i" "i \<le> LONG_MAX"
  shows "str_to_long (Some (a @ show_int i @ b)) 10 = Inr i"
  using assms trim_padded [of a b "show_int i"] hd_show_int [of i] last_show_int [of i]
  by (simp add: str_to_long_def str_to_long_strict_def strtol_show_int)

lemma str_to_long_range: "str_to_long s base = Inr n \<Longrightarrow> LONG_MIN \<le> n \<and> n \<le> LONG_MAX"
  using strtol_range
  by (auto simp: str_to_long_def str_to_long_strict_def split: option.splits if_splits prod.splits)
     (metis fst_conv)+

end
