(* ===== verification/StateProps.thy ===== *)
theory StateProps
  imports StateTree UserDb DescTab StrLib
begin

text \<open>
  The properties of the state tree, the accounts, the descriptions and the number
  conversions, with their witnesses.
\<close>

section \<open>The state tree\<close>

text \<open>C24. Every tree that the operations of state.c can build from the empty one is a search
  tree on the case-folded names without duplicates, whose values are the escaped forms of
  their raw values inside their buffers, whose enumerations repeat no entry and whose ranges
  are not empty and share no bound.\<close>

theorem reachable_trees_wf:
  assumes "tree_step\<^sup>*\<^sup>* Leaf t"
  shows "tree_wf t \<and> list_all lists_ok (inorder t)"
  using assms
proof (induction rule: rtranclp_induct)
  case base
  then show ?case by (simp add: tree_wf_def)
next
  case (step t u)
  then show ?case using tree_step_wf tree_step_lists unfolding tree_wf_def list_all_iff set_inorder by metis
qed

lemma reachable_trees_wf_witness:
  "tree_wf (fst (state_addrange 2 (fst (state_setinfo 1 Leaf ''UPS.load'' ''7'')) ''ups.load'' 0 9)) \<and>
   list_all lists_ok (inorder (fst (state_addrange 2 (fst (state_setinfo 1 Leaf ''UPS.load'' ''7'')) ''ups.load'' 0 9)))"
  by (rule reachable_trees_wf)
    (rule rtranclp.rtrancl_into_rtrancl [OF rtranclp.rtrancl_into_rtrancl [OF rtranclp.rtrancl_refl]],
      rule tree_step.setinfo, rule tree_step.addrange)

text \<open>C25. state_setinfo() changes the value of one name only, up to the case of its letters:
  a new variable gets the escaped value, an immutable one keeps its value, and so does one
  whose raw value equals the new one up to case.\<close>

theorem setinfo_then_getinfo:
  "state_getinfo (fst (state_setinfo now t var val)) v =
     (if ci_key v \<noteq> ci_key var then state_getinfo t v
      else Some (case state_tree_find t var of
          None \<Rightarrow> pconf_encode val ST_MAX_VALUE_LEN
        | Some n \<Rightarrow>
            (if has_flag (n_flags n) ST_FLAG_IMMUTABLE \<or> ci_key (n_raw n) = ci_key val then n_val n
             else pconf_encode val ST_MAX_VALUE_LEN)))"
proof -
  have esc: "n_val (val_escape n) = pconf_encode (n_raw n) ST_MAX_VALUE_LEN" for n
    by (auto simp: val_escape_def Let_def snprintf_def)
  show ?thesis
    by (auto simp: state_getinfo_def find_setinfo new_node_def setinfo_node_def Let_def esc ci_simps
        st_tree_node_refresh_timestamp_def split: option.split)
qed

text \<open>C26. In a well-formed tree state_delinfo() removes exactly the named variable, keeps an
  immutable one, reports which happened and leaves a well-formed tree.\<close>

theorem delinfo_removes_one:
  assumes "tree_wf t"
  shows "tree_wf (fst (state_delinfo t var)) \<and>
    (\<forall>v. state_tree_find (fst (state_delinfo t var)) v =
       (if ci_key v = ci_key var \<and> snd (state_delinfo t var) = 1 then None else state_tree_find t v)) \<and>
    (snd (state_delinfo t var) = 1 \<longleftrightarrow>
       (\<exists>n. state_tree_find t var = Some n \<and> \<not> has_flag (n_flags n) ST_FLAG_IMMUTABLE))"
proof -
  have bst: "st_bst t" using assms by (simp add: tree_wf_def)
  have ret: "snd (state_delinfo t var) = 1 \<longleftrightarrow> (\<exists>n. state_tree_find t var = Some n \<and> deletable n)"
    by (auto simp: delinfo_ret split: option.split)
  have "state_tree_find (fst (state_delinfo t var)) v =
      (if ci_key v = ci_key var \<and> snd (state_delinfo t var) = 1 then None else state_tree_find t v)" for v
  proof (cases "ci_key v = ci_key var")
    case True
    then have "state_tree_find t v = state_tree_find t var" by (rule find_cong_key)
    then show ?thesis using True by (auto simp: find_delinfo [OF bst] ret split: option.split)
  qed (auto simp: find_delinfo [OF bst] split: option.split)
  then show ?thesis using ret delinfo_wf [OF assms] by (auto simp: deletable_def)
qed

lemma delinfo_removes_one_witness:
  "state_tree_find (fst (state_delinfo (fst (state_setinfo 1 Leaf ''a'' ''1'')) ''A'')) ''a'' = None"
proof -
  let ?t = "fst (state_setinfo 1 Leaf ''a'' ''1'')"
  have "tree_wf ?t" by (rule setinfo_wf) (simp add: tree_wf_def)
  moreover have "snd (state_delinfo ?t ''A'') = 1" "ci_key ''a'' = ci_key ''A''" by code_simp+
  ultimately show ?thesis using delinfo_removes_one [of ?t "''A''"] by simp
qed

text \<open>The steps that do not rewrite the flags of a variable.\<close>

inductive data_step :: "st_tree \<Rightarrow> st_tree \<Rightarrow> bool" where
  "data_step t (fst (state_setinfo now t var val))"
| "data_step t (fst (state_delinfo t var))"
| "data_step t (fst (state_delinfo_olderthan t var cutoff))"
| "value_frame var t t' \<Longrightarrow> data_step t t'"

inductive_simps data_step_Leaf: "data_step Leaf t"

lemma tree_wf_bst: "tree_wf t \<Longrightarrow> st_bst t"
  by (simp add: tree_wf_def)

lemma data_step_keeps:
  "data_step t t' \<Longrightarrow> tree_wf t \<and> pinned t var val \<Longrightarrow> tree_wf t' \<and> pinned t' var val"
  by (induction rule: data_step.induct)
    (auto intro: setinfo_wf delinfo_wf delinfo_olderthan_wf value_frame_wf pinned_setinfo
      pinned_frame pinned_delinfo [OF tree_wf_bst] pinned_olderthan [OF tree_wf_bst])

text \<open>The value of a variable that is marked immutable survives every sequence of
  settings, deletions, expiries and changes of enumerations, ranges and sizes.\<close>

theorem immutable_value_survives:
  assumes "data_step\<^sup>*\<^sup>* t t'" "tree_wf t" "state_tree_find t var = Some n"
    "has_flag (n_flags n) ST_FLAG_IMMUTABLE"
  shows "state_getinfo t' var = Some (n_val n)"
proof -
  have "tree_wf t' \<and> pinned t' var (n_val n)"
    using assms(1)
  proof (induction rule: rtranclp_induct)
    case base
    then show ?case using assms(2-4) by (auto simp: pinned_def)
  next
    case (step u v)
    then show ?case using data_step_keeps by blast
  qed
  then show ?thesis by (auto simp: pinned_def state_getinfo_def)
qed

definition pinned_node :: st_node where
  "pinned_node = (new_node 0 ''device.type'' ''ups'')\<lparr>n_flags := ST_FLAG_IMMUTABLE\<rparr>"

lemma immutable_value_survives_witness:
  "state_getinfo (fst (state_delinfo (fst (state_setinfo 1 (Node Leaf pinned_node Leaf) ''device.type'' ''pdu'')) ''device.type''))
     ''device.type'' = Some ''ups''"
proof -
  let ?t = "Node Leaf pinned_node Leaf"
  have steps: "data_step\<^sup>*\<^sup>* ?t (fst (state_delinfo (fst (state_setinfo 1 ?t ''device.type'' ''pdu'')) ''device.type''))"
    by (rule rtranclp.rtrancl_into_rtrancl [OF rtranclp.rtrancl_into_rtrancl [OF rtranclp.rtrancl_refl]])
      (rule data_step.intros)+
  have wf: "tree_wf ?t"
    using new_node_wf [of 0 "''device.type''" "''ups''"] by (simp add: tree_wf_def pinned_node_def node_wf_def)
  have "state_tree_find ?t ''device.type'' = Some pinned_node" by (simp add: pinned_node_def)
  moreover have "has_flag (n_flags pinned_node) ST_FLAG_IMMUTABLE"
    by (simp add: pinned_node_def has_flag_def ST_FLAG_IMMUTABLE_def)
  moreover have "n_val pinned_node = ''ups''" by code_simp
  ultimately show ?thesis using immutable_value_survives [OF steps wf] by simp
qed

text \<open>The command list stays sorted without duplicates up to case; adding and deleting
  have the effect of inserting into and removing from the set of names, and the result
  tells whether the set has changed.\<close>

theorem cmdlist_is_a_sorted_set:
  assumes "cmds_sorted cs"
  shows "cmds_sorted (fst (state_addcmd cs cmd)) \<and> cmds_sorted (fst (state_delcmd cs cmd)) \<and>
    ci_key ` set (fst (state_addcmd cs cmd)) = insert (ci_key cmd) (ci_key ` set cs) \<and>
    ci_key ` set (fst (state_delcmd cs cmd)) = ci_key ` set cs - {ci_key cmd} \<and>
    (snd (state_addcmd cs cmd) = 1 \<longleftrightarrow> ci_key cmd \<notin> ci_key ` set cs) \<and>
    (snd (state_delcmd cs cmd) = 1 \<longleftrightarrow> ci_key cmd \<in> ci_key ` set cs)"
proof -
  have "(snd (state_addcmd cs cmd) = 1 \<longleftrightarrow> ci_key cmd \<notin> ci_key ` set cs) \<and>
      (snd (state_delcmd cs cmd) = 1 \<longleftrightarrow> ci_key cmd \<in> ci_key ` set cs)"
    using assms
  proof (induction cs)
    case (Cons c cs)
    have "ci_key cmd \<notin> ci_key ` set cs" if "\<not> ci_key c < ci_key cmd"
      using Cons.prems that by (auto simp: cmds_sorted_def)
    then show ?case
      using Cons by (auto simp: cmds_sorted_def ci_simps case_prod_beta)
  qed simp
  then show ?thesis
    using assms by (simp add: addcmd_sorted delcmd_sorted addcmd_keys delcmd_keys)
qed

lemma cmdlist_is_a_sorted_set_witness:
  "cmds_sorted (fst (state_addcmd [''beeper.mute'', ''load.off''] ''driver.reload''))"
proof -
  have "cmds_sorted [''beeper.mute'', ''load.off'']" by (simp add: cmds_sorted_def c_tolower_def)
  then show ?thesis by (rule cmdlist_is_a_sorted_set [THEN conjunct1])
qed

text \<open>A range is refused as a duplicate as soon as it shares one bound with a range of
  the list, and deleting a range removes the first one that shares a bound with it.\<close>

theorem shared_bound_counts_as_duplicate:
  assumes "(mn, mx) \<in> set lst"
  shows "st_tree_range_add lst mn mx' = (lst, 0) \<and> st_tree_range_add lst mn' mx = (lst, 0) \<and>
    st_tree_del_range ((mn, mx) # rest) mn mx' = (rest, 1)"
proof -
  have "list_ex (range_hit mn mx') lst" "list_ex (range_hit mn' mx) lst"
    using assms by (auto simp: range_hit_def list_ex_iff intro!: bexI [of _ "(mn, mx)"])
  then show ?thesis by (simp add: st_tree_range_add_def range_hit_def)
qed

lemma shared_bound_counts_as_duplicate_witness:
  "st_tree_range_add [(0, 10), (20, 30)] 20 40 = ([(0, 10), (20, 30)], 0)"
  using shared_bound_counts_as_duplicate [of 20 30 "[(0, 10), (20, 30)]"] by simp

section \<open>Accounts\<close>

text \<open>C30. Loading upsd.users from the state that user_flush() leaves yields accounts with
  distinct names, and then an action is allowed exactly to the account with the given name
  and password that lists it.\<close>

theorem action_needs_its_account:
  assumes "users db = []"
  shows "user_checkaction (user_load ctx0 opened db) (Some un) (Some pw) (Some act) \<longleftrightarrow>
    (\<exists>u\<in>set (users (user_load ctx0 opened db)). us_username u = un \<and> us_password u = Some pw \<and>
       (\<exists>a\<in>set (us_firstaction u). strcasecmp a act = 0))"
proof -
  have "user_db_wf (user_load ctx0 opened db)"
    by (rule user_load_wf) (simp add: user_db_wf_def assms(1))
  then have "distinct (map us_username (users (user_load ctx0 opened db)))" by (simp add: user_db_wf_def)
  then show ?thesis
    by (simp add: user_checkaction_def user_search_iff user_matchaction_def list_ex_iff)
qed

definition zero_ctx :: pconf_ctx where
  "zero_ctx = \<lparr>pc_f = None, pc_state = ST_FINDWORDSTART, pc_ch = 0, pc_arglist = [], pc_argsize = [],
     pc_numargs = 0, pc_maxargs = 0, pc_wordbuf = [], pc_wordbufsize = 0, pc_linenum = 0,
     pc_error = False, pc_errmsg = [], pc_magic = 0, pc_arg_limit = 0, pc_wordlen_limit = 0\<rparr>"

lemma action_needs_its_account_witness:
  "\<not> user_checkaction (user_load zero_ctx (Inl ''Permission denied'') empty_db) (Some ''adm'') (Some ''pw'') (Some ''SET'')"
proof -
  have e: "users empty_db = []" by (simp add: empty_db_def)
  have "users (user_load zero_ctx (Inl ''Permission denied'') empty_db) = []"
    by (simp add: user_load_def pconf_file_begin_def check_magic_def pconf_init_def empty_db_def)
  then show ?thesis unfolding action_needs_its_account [OF e] by simp
qed

text \<open>An instant command is allowed exactly to the account with the given name and
  password that lists the command or the word ALL, when account names are distinct.\<close>

theorem instcmd_needs_its_account:
  assumes "user_db_wf db"
  shows "user_checkinstcmd db (Some un) (Some pw) (Some cmd) \<longleftrightarrow>
    (\<exists>u\<in>set (users db). us_username u = un \<and> us_password u = Some pw \<and>
       (\<exists>c\<in>set (us_firstcmd u). strcasecmp c cmd = 0 \<or> strcasecmp c ''all'' = 0))"
  using assms
  by (simp add: user_checkinstcmd_def user_db_wf_def user_search_iff user_matchinstcmd_def list_ex_iff)

lemma instcmd_needs_its_account_witness:
  "user_checkinstcmd \<lparr>users = [\<lparr>us_username = ''u'', us_password = Some ''p'', us_firstcmd = [''ALL''],
     us_firstaction = []\<rparr>], curr_user = None\<rparr> (Some ''u'') (Some ''p'') (Some ''load.off'')"
proof -
  have "user_db_wf \<lparr>users = [\<lparr>us_username = ''u'', us_password = Some ''p'', us_firstcmd = [''ALL''],
     us_firstaction = []\<rparr>], curr_user = None\<rparr>"
    by (simp add: user_db_wf_def)
  moreover have "strcasecmp ''ALL'' ''all'' = 0" by code_simp
  ultimately show ?thesis by (simp add: instcmd_needs_its_account)
qed

text \<open>A second section for a known account is refused but does not end the section before:
  the actions listed below it are granted to the account of that earlier section.\<close>

theorem duplicate_section_grants_to_previous:
  assumes "user_db_wf db" "curr_user db = Some i" "un \<in> us_username ` set (users db)" "CHR ''='' \<notin> set un"
  shows "user_line (Some [''actions'', ''='', act]) (user_line (Some [''['' @ un @ '']'']) db) =
    db\<lparr>users := (users db)[i := (users db ! i)\<lparr>us_firstaction := us_firstaction (users db ! i) @ [act]\<rparr>]\<rparr>"
proof -
  have i: "i < length (users db)" using assms(1,2) by (simp add: user_db_wf_def)
  have dup: "user_add (Some un) db = db"
    using assms(3) by (auto simp: user_add_def list_ex_iff)
  have "strcasecmp (''['' @ un @ '']'') ''user'' \<noteq> 0" by (simp add: ci_simps c_tolower_def)
  then have header: "user_line (Some [''['' @ un @ '']'']) db = db"
    using dup assms(4) by (simp add: user_line_def user_parse_arg_def Let_def butlast_append)
  have "user_line (Some [''actions'', ''='', act]) db = user_add_action (Some act) db"
    using assms(2)
    by (simp add: user_line_def user_parse_arg_def parse_rest_def parse_var_def Let_def ci_simps c_tolower_def)
  then show ?thesis
    unfolding header using assms(2) i by (simp add: user_add_action_def with_curr_def addaction_def)
qed

lemma duplicate_section_grants_to_previous_witness:
  "users (user_line (Some [''actions'', ''='', ''SET'']) (user_line (Some [''[root]''])
     \<lparr>users = [\<lparr>us_username = ''root'', us_password = None, us_firstcmd = [], us_firstaction = []\<rparr>,
        \<lparr>us_username = ''guest'', us_password = None, us_firstcmd = [], us_firstaction = []\<rparr>], curr_user = Some 1\<rparr>)) ! 1 =
   \<lparr>us_username = ''guest'', us_password = None, us_firstcmd = [], us_firstaction = [''SET'']\<rparr>"
proof -
  let ?db = "\<lparr>users = [\<lparr>us_username = ''root'', us_password = None, us_firstcmd = [], us_firstaction = []\<rparr>,
        \<lparr>us_username = ''guest'', us_password = None, us_firstcmd = [], us_firstaction = []\<rparr>], curr_user = Some 1\<rparr>"
  have "user_db_wf ?db" by (simp add: user_db_wf_def)
  from duplicate_section_grants_to_previous [OF this, of 1 "''root''" "''SET''"] show ?thesis by simp
qed

section \<open>Descriptions and numbers\<close>

text \<open>After a description is added its name gets it, in any case of letters, and every
  other name keeps its own; names stay unique.\<close>

theorem description_lookup_after_add:
  "list_get (desc_add lst name desc) v = (if ci_key v = ci_key name then Some desc else list_get lst v) \<and>
   (desc_wf lst \<longrightarrow> desc_wf (desc_add lst name desc))"
  by (simp add: list_get_add desc_add_wf)

lemma description_lookup_after_add_witness:
  "desc_wf (desc_add [(''ups.load'', ''Load'')] ''UPS.LOAD'' ''Load on UPS'')"
proof -
  have "desc_wf [(''ups.load'', ''Load'')]" by (simp add: desc_wf_def)
  then show ?thesis using description_lookup_after_add [of "[(''ups.load'', ''Load'')]"] by blast
qed

text \<open>A decimal number of the range of int, between blanks, is converted to itself.\<close>

theorem decimal_converts_to_itself:
  assumes "list_all isspace a" "list_all isspace b" "INT_MIN \<le> i" "i \<le> INT_MAX"
  shows "str_to_int (Some (a @ show_int i @ b)) 10 = Inr i"
  using str_to_long_padded [OF assms(1,2), of i] assms(3,4)
  by (simp add: str_to_int_def narrow_def INT_MIN_def INT_MAX_def LONG_MIN_def LONG_MAX_def)

lemma decimal_converts_to_itself_witness: "str_to_int (Some ('' '' @ show_int (-42) @ [NL])) 10 = Inr (-42)"
  by (rule decimal_converts_to_itself) (simp_all add: isspace_def INT_MIN_def INT_MAX_def)

text \<open>The conversions to narrower types accept exactly the numbers of their range among
  those that the long conversions accept: nothing wraps around.\<close>

theorem narrow_conversions_never_wrap:
  "(str_to_short s base = Inr n \<longleftrightarrow> str_to_long s base = Inr n \<and> SHRT_MIN \<le> n \<and> n \<le> SHRT_MAX) \<and>
   (str_to_int s base = Inr n \<longleftrightarrow> str_to_long s base = Inr n \<and> INT_MIN \<le> n \<and> n \<le> INT_MAX) \<and>
   (str_to_ushort s base = Inr n \<longleftrightarrow> str_to_ulong s base = Inr n \<and> 0 \<le> n \<and> n \<le> USHRT_MAX) \<and>
   (str_to_uint s base = Inr n \<longleftrightarrow> str_to_ulong s base = Inr n \<and> 0 \<le> n \<and> n \<le> UINT_MAX)"
  by (simp add: str_to_short_def str_to_int_def str_to_ushort_def str_to_uint_def narrow_Inr)

end
