(* ===== verification/UpsdState.thy ===== *)
theory UpsdState
  imports StateTree UserDb DescTab
begin

text \<open>
  The state of the server (server/upsd.c with upstype.h, nut_ctype.h and stype.h) and the
  routines on it that every request handler uses: looking a UPS up, answering a client,
  the login counters, the list of clients and the tracking of commands.

  The linked lists firstups, firstclient and firstaddr are HOL lists and a pointer to an
  element is its index.  System calls are outside the model: the record os gives the
  result of the n-th call, n being counted in the state, and every write() is also
  recorded in sd_wire.  The build is the one without SSL and tcp-wrappers.
\<close>

section \<open>The world outside\<close>

datatype read_result = ReadRetry | ReadError | ReadBytes cstr

datatype revents = PollQuiet | PollHup | PollIn

datatype open_result = SocketFailed | ConnectFailed | Connected int

record os =
  os_write :: "nat \<Rightarrow> int \<Rightarrow> cstr \<Rightarrow> int"
  os_time :: "nat \<Rightarrow> int"
  os_mono :: "nat \<Rightarrow> int"
  os_rand :: "nat \<Rightarrow> nat"
  os_open_driver :: "nat \<Rightarrow> cstr \<Rightarrow> open_result"
  os_setup_driver :: "nat \<Rightarrow> int \<Rightarrow> bool"
  os_read :: "nat \<Rightarrow> int \<Rightarrow> read_result"
  os_accept :: "nat \<Rightarrow> int \<Rightarrow> int \<times> cstr"
  os_poll :: "nat \<Rightarrow> int list \<Rightarrow> int \<times> revents list"
  os_file :: "nat \<Rightarrow> cstr \<Rightarrow> cstr + cstr"
  os_open_max :: int
  bld_UPS_VERSION :: cstr
  bld_PACKAGE_URL :: "cstr option"
  bld_NETVERSION :: cstr
  bld_PORT :: cstr
  bld_CONFPATH :: cstr

section \<open>Records of the server\<close>

definition ERROR_FD :: int where
  "ERROR_FD = -1"

definition SMALLBUF :: nat where
  "SMALLBUF = 512"

text \<open>NUT_PATH_MAX is the PATH_MAX of the system where that is larger than SMALLBUF, as on Linux.\<close>

definition NUT_PATH_MAX :: nat where
  "NUT_PATH_MAX = 4096"

definition NUT_NET_ANSWER_MAX :: nat where
  "NUT_NET_ANSWER_MAX = SMALLBUF"

definition UUID4_LEN :: nat where
  "UUID4_LEN = 37"

record ups =
  u_name :: cstr
  u_fn :: cstr
  u_desc :: "cstr option"
  u_sock_fd :: int
  u_stale :: bool
  u_dumpdone :: bool
  u_data_ok :: bool
  u_last_heard :: int
  u_last_ping :: int
  u_last_connfail :: int
  u_sock_ctx :: pconf_ctx
  u_inforoot :: st_tree
  u_cmdlist :: "cstr list"
  u_numlogins :: int
  u_fsd :: bool
  u_retain :: bool

record client =
  c_addr :: cstr
  c_sock_fd :: int
  c_last_heard :: int
  c_loginups :: "cstr option"
  c_password :: "cstr option"
  c_username :: "cstr option"
  c_tracking :: bool
  c_ctx :: pconf_ctx

record tracking =
  tk_id :: cstr
  tk_status :: int
  tk_request_time :: int

record listener =
  l_addr :: cstr
  l_port :: cstr
  l_sock_fd :: int

text \<open>An entry of ups.conf before it becomes a UPS (ups_t).\<close>

record upsentry =
  ut_upsname :: cstr
  ut_driver :: "cstr option"
  ut_port :: "cstr option"
  ut_desc :: "cstr option"

text \<open>The settings of upsd.conf; cf_env_statepath is the environment's NUT_STATEPATH.\<close>

record upsd_conf =
  cf_debug_level_global :: int
  cf_debug_level_args :: int
  cf_debug_level :: int
  cf_allow_no_device :: bool
  cf_allow_not_all_listeners :: bool
  cf_maxconn :: nat
  cf_statepath :: "cstr option"
  cf_datapath :: "cstr option"
  cf_env_statepath :: "cstr option"

record upsd =
  sd_firstups :: "ups list"
  sd_firstclient :: "client list"
  sd_firstaddr :: "listener list"
  sd_tracking_list :: "tracking list"
  sd_tracking_enabled :: bool
  sd_users :: user_db
  sd_descs :: desc_db
  sd_maxage :: int
  sd_tracking_delay :: int
  sd_conf :: upsd_conf
  sd_upstable :: "upsentry list"
  sd_reload_flag :: bool
  sd_tick :: nat
  sd_wire :: "(int \<times> cstr) list"

definition valid_fd :: "int \<Rightarrow> bool" where
  "valid_fd fd \<longleftrightarrow> 0 \<le> fd"

definition with_ups :: "nat \<Rightarrow> (ups \<Rightarrow> ups) \<Rightarrow> upsd \<Rightarrow> upsd" where
  "with_ups i f S = S\<lparr>sd_firstups := (sd_firstups S)[i := f (sd_firstups S ! i)]\<rparr>"

definition with_client :: "nat \<Rightarrow> (client \<Rightarrow> client) \<Rightarrow> upsd \<Rightarrow> upsd" where
  "with_client c f S = S\<lparr>sd_firstclient := (sd_firstclient S)[c := f (sd_firstclient S ! c)]\<rparr>"

abbreviation the_ups :: "upsd \<Rightarrow> nat \<Rightarrow> ups" where
  "the_ups S i \<equiv> sd_firstups S ! i"

abbreviation the_client :: "upsd \<Rightarrow> nat \<Rightarrow> client" where
  "the_client S c \<equiv> sd_firstclient S ! c"

definition do_write :: "os \<Rightarrow> int \<Rightarrow> cstr \<Rightarrow> upsd \<Rightarrow> upsd \<times> int" where
  "do_write E fd s S =
     (S\<lparr>sd_tick := Suc (sd_tick S), sd_wire := sd_wire S @ [(fd, s)]\<rparr>, os_write E (sd_tick S) fd s)"

definition do_time :: "os \<Rightarrow> upsd \<Rightarrow> upsd \<times> int" where
  "do_time E S = (S\<lparr>sd_tick := Suc (sd_tick S)\<rparr>, os_time E (sd_tick S))"

definition do_read :: "os \<Rightarrow> int \<Rightarrow> upsd \<Rightarrow> upsd \<times> read_result" where
  "do_read E fd S = (S\<lparr>sd_tick := Suc (sd_tick S)\<rparr>, os_read E (sd_tick S) fd)"

definition do_file :: "os \<Rightarrow> cstr \<Rightarrow> upsd \<Rightarrow> upsd \<times> (cstr + cstr)" where
  "do_file E fn S = (S\<lparr>sd_tick := Suc (sd_tick S)\<rparr>, os_file E (sd_tick S) fn)"

section \<open>Answers\<close>

definition sendback :: "os \<Rightarrow> nat \<Rightarrow> cstr \<Rightarrow> upsd \<Rightarrow> upsd \<times> bool" where
  "sendback E c msg S =
     (if length (sd_firstclient S) \<le> c then (S, False)
      else
        (let ans = snprintf (NUT_NET_ANSWER_MAX + 1) msg in
         case do_write E (c_sock_fd (the_client S c)) ans S of (S, res) \<Rightarrow>
           if res < 0 \<or> int (length ans) \<noteq> res
           then (with_client c (\<lambda>k. k\<lparr>c_last_heard := 0\<rparr>) S, False)
           else (S, True)))"

definition send_err :: "os \<Rightarrow> nat \<Rightarrow> cstr \<Rightarrow> upsd \<Rightarrow> upsd" where
  "send_err E c errtype S = fst (sendback E c (''ERR '' @ errtype @ [NL]) S)"

text \<open>sendback() whose result the caller ignores.\<close>

definition reply :: "os \<Rightarrow> nat \<Rightarrow> cstr \<Rightarrow> upsd \<Rightarrow> upsd" where
  "reply E c msg S = fst (sendback E c msg S)"

section \<open>UPS entries\<close>

definition get_ups_ptr :: "upsd \<Rightarrow> cstr \<Rightarrow> nat option" where
  "get_ups_ptr S name = find_idx (\<lambda>u. strcasecmp (u_name u) name = 0) (sd_firstups S)"

definition ups_data_stale :: "nat \<Rightarrow> upsd \<Rightarrow> upsd" where
  "ups_data_stale i S =
     (if u_stale (the_ups S i) then S else with_ups i (\<lambda>u. u\<lparr>u_stale := True\<rparr>) S)"

definition ups_data_ok :: "nat \<Rightarrow> upsd \<Rightarrow> upsd" where
  "ups_data_ok i S =
     (if \<not> u_stale (the_ups S i) then S else with_ups i (\<lambda>u. u\<lparr>u_stale := False\<rparr>) S)"

definition ups_available :: "os \<Rightarrow> nat \<Rightarrow> nat \<Rightarrow> upsd \<Rightarrow> upsd \<times> bool" where
  "ups_available E i c S =
     (if \<not> valid_fd (u_sock_fd (the_ups S i)) then (send_err E c ''DRIVER-NOT-CONNECTED'' S, False)
      else if u_stale (the_ups S i) then (send_err E c ''DATA-STALE'' S, False)
      else (S, True))"

section \<open>Listening addresses and the login counters\<close>

definition listen_add :: "cstr \<Rightarrow> cstr \<Rightarrow> upsd \<Rightarrow> upsd" where
  "listen_add addr port S =
     (if sd_reload_flag S then S
      else S\<lparr>sd_firstaddr := sd_firstaddr S @ [\<lparr>l_addr = addr, l_port = port, l_sock_fd = ERROR_FD\<rparr>]\<rparr>)"

definition server_free :: "upsd \<Rightarrow> upsd" where
  "server_free S = S\<lparr>sd_firstaddr := []\<rparr>"

definition declogins :: "cstr \<Rightarrow> upsd \<Rightarrow> upsd" where
  "declogins upsname S =
     (case get_ups_ptr S upsname of
        None \<Rightarrow> S
      | Some i \<Rightarrow> with_ups i (\<lambda>u. u\<lparr>u_numlogins := u_numlogins u - 1\<rparr>) S)"

definition client_disconnect :: "nat \<Rightarrow> upsd \<Rightarrow> upsd" where
  "client_disconnect c S =
     (let S = (case c_loginups (the_client S c) of None \<Rightarrow> S | Some name \<Rightarrow> declogins name S)
      in S\<lparr>sd_firstclient := remove_nth c (sd_firstclient S)\<rparr>)"

text \<open>
  The loops over the clients that may delete the current one: the index stays where it is
  after a deletion, because the next client has moved there.
\<close>

function kick_loop :: "cstr \<Rightarrow> nat \<Rightarrow> upsd \<Rightarrow> upsd" where
  "kick_loop upsname c S =
     (if length (sd_firstclient S) \<le> c then S
      else if c_loginups (the_client S c) = Some upsname
      then kick_loop upsname c (client_disconnect c S)
      else kick_loop upsname (Suc c) S)"
  by pat_completeness auto
termination
proof (relation "measure (\<lambda>(upsname, c, S). length (sd_firstclient S) - c)", goal_cases)
  case 1
  show ?case by simp
next
  case (2 upsname c S)
  then show ?case
    by (auto simp: client_disconnect_def declogins_def with_ups_def Let_def length_remove_nth
        split: option.split)
next
  case (3 upsname c S)
  then show ?case by auto
qed

declare kick_loop.simps [simp del]

definition kick_login_clients :: "cstr \<Rightarrow> upsd \<Rightarrow> upsd" where
  "kick_login_clients upsname S = kick_loop upsname 0 S"

function client_free :: "upsd \<Rightarrow> upsd" where
  "client_free S = (if sd_firstclient S = [] then S else client_free (client_disconnect 0 S))"
  by pat_completeness auto
termination
  by (relation "measure (\<lambda>S. length (sd_firstclient S))")
    (auto simp: client_disconnect_def declogins_def with_ups_def Let_def length_remove_nth
      split: option.split)

declare client_free.simps [simp del]

text \<open>
  client_connect(): accept() gives the descriptor, negative for a failure, and the peer's
  address; ctx0 is the context in the fresh memory of the client.
\<close>

definition client_connect :: "os \<Rightarrow> pconf_ctx \<Rightarrow> nat \<Rightarrow> upsd \<Rightarrow> upsd" where
  "client_connect E ctx0 server S =
     (let tick = sd_tick S; S = S\<lparr>sd_tick := Suc tick\<rparr>;
          (fd, addr) = os_accept E tick (l_sock_fd (sd_firstaddr S ! server)) in
      if fd < 0 then S
      else
        (case do_time E S of (S, now) \<Rightarrow>
           S\<lparr>sd_firstclient :=
               \<lparr>c_addr = addr, c_sock_fd = fd, c_last_heard = now, c_loginups = None,
                c_password = None, c_username = None, c_tracking = False,
                c_ctx = pconf_init ctx0\<rparr> # sd_firstclient S\<rparr>))"

section \<open>Tracking of instant commands and settings\<close>

definition STAT_PENDING :: int where "STAT_PENDING = -1"
definition STAT_HANDLED :: int where "STAT_HANDLED = 0"
definition STAT_UNKNOWN :: int where "STAT_UNKNOWN = 1"
definition STAT_INVALID :: int where "STAT_INVALID = 2"
definition STAT_FAILED :: int where "STAT_FAILED = 3"
definition STAT_CONVERSION_FAILED :: int where "STAT_CONVERSION_FAILED = 4"

lemmas stat_defs = STAT_PENDING_def STAT_HANDLED_def STAT_UNKNOWN_def STAT_INVALID_def
  STAT_FAILED_def STAT_CONVERSION_FAILED_def

definition tracking_add :: "os \<Rightarrow> cstr option \<Rightarrow> upsd \<Rightarrow> upsd \<times> int" where
  "tracking_add E id_opt S =
     (case id_opt of
        None \<Rightarrow> (S, 0)
      | Some tid \<Rightarrow>
          (if \<not> sd_tracking_enabled S then (S, 0)
           else
             (case do_time E S of (S, now) \<Rightarrow>
                (S\<lparr>sd_tracking_list :=
                    \<lparr>tk_id = tid, tk_status = STAT_PENDING, tk_request_time = now\<rparr>
                      # sd_tracking_list S\<rparr>, 1))))"

definition tk_match :: "cstr \<Rightarrow> tracking \<Rightarrow> bool" where
  "tk_match tid item \<longleftrightarrow> strcasecmp (tk_id item) tid = 0"

definition tracking_set :: "cstr \<Rightarrow> cstr \<Rightarrow> upsd \<Rightarrow> upsd \<times> int" where
  "tracking_set tid val S =
     (case find_idx (tk_match tid) (sd_tracking_list S) of
        None \<Rightarrow> (S, 0)
      | Some k \<Rightarrow>
          (S\<lparr>sd_tracking_list := (sd_tracking_list S)
               [k := (sd_tracking_list S ! k)\<lparr>tk_status := atoi val\<rparr>]\<rparr>, 1))"

definition tracking_del :: "cstr \<Rightarrow> upsd \<Rightarrow> upsd \<times> int" where
  "tracking_del tid S =
     (case find_idx (tk_match tid) (sd_tracking_list S) of
        None \<Rightarrow> (S, 0)
      | Some k \<Rightarrow> (S\<lparr>sd_tracking_list := remove_nth k (sd_tracking_list S)\<rparr>, 1))"

definition tracking_free :: "upsd \<Rightarrow> upsd" where
  "tracking_free S = fold (\<lambda>item S. fst (tracking_del (tk_id item) S)) (sd_tracking_list S) S"

definition tracking_cleanup :: "os \<Rightarrow> upsd \<Rightarrow> upsd" where
  "tracking_cleanup E S =
     (if sd_tracking_list S = [] then S
      else
        (case do_time E S of (S, now) \<Rightarrow>
           fold (\<lambda>item S. if sd_tracking_delay S < now - tk_request_time item
                          then fst (tracking_del (tk_id item) S) else S)
             (sd_tracking_list S) S))"

definition status_text :: "int \<Rightarrow> cstr option" where
  "status_text st =
     (if st = STAT_PENDING then Some ''PENDING''
      else if st = STAT_HANDLED then Some ''SUCCESS''
      else if st = STAT_UNKNOWN then Some ''ERR UNKNOWN''
      else if st = STAT_INVALID \<or> st = STAT_CONVERSION_FAILED then Some ''ERR INVALID-ARGUMENT''
      else if st = STAT_FAILED then Some ''ERR FAILED''
      else None)"

text \<open>An entry with a status out of the enumeration does not end the search.\<close>

fun tracking_search :: "tracking list \<Rightarrow> cstr \<Rightarrow> cstr" where
  "tracking_search [] tid = ''ERR UNKNOWN''"
| "tracking_search (item # rest) tid =
     (if \<not> tk_match tid item then tracking_search rest tid
      else case status_text (tk_status item) of
        Some txt \<Rightarrow> txt
      | None \<Rightarrow> tracking_search rest tid)"

definition tracking_get :: "upsd \<Rightarrow> cstr \<Rightarrow> cstr" where
  "tracking_get S tid = tracking_search (sd_tracking_list S) tid"

definition tracking_enable :: "upsd \<Rightarrow> upsd \<times> bool" where
  "tracking_enable S = (S\<lparr>sd_tracking_enabled := True\<rparr>, True)"

definition tracking_disable :: "upsd \<Rightarrow> upsd \<times> int" where
  "tracking_disable S = (S, if list_ex c_tracking (sd_firstclient S) then 1 else 0)"

definition tracking_is_enabled :: "upsd \<Rightarrow> bool" where
  "tracking_is_enabled S = sd_tracking_enabled S"

section \<open>Tracking identifiers\<close>

definition hex_digit :: "nat \<Rightarrow> char" where
  "hex_digit n = char_of (if n < 10 then 48 + n else 55 + n)"

definition hex2 :: "8 word \<Rightarrow> cstr" where
  "hex2 b = [hex_digit (unat b div 16), hex_digit (unat b mod 16)]"

definition uuid_bytes :: "os \<Rightarrow> nat \<Rightarrow> 8 word list" where
  "uuid_bytes E n =
     map (\<lambda>i. word_of_nat (os_rand E (n + 2 * i)) + word_of_nat (os_rand E (n + 2 * i + 1))) [0..<16]"

definition uuid_text :: "8 word list \<Rightarrow> cstr" where
  "uuid_text b =
     concat (map hex2 (take 4 b)) @ ''-'' @ concat (map hex2 (take 2 (drop 4 b))) @ ''-'' @
     concat (map hex2 (take 2 (drop 6 b))) @ ''-'' @ concat (map hex2 (take 2 (drop 8 b))) @ ''-'' @
     concat (map hex2 (drop 10 b))"

definition nut_uuid_v4 :: "os \<Rightarrow> upsd \<Rightarrow> upsd \<times> cstr" where
  "nut_uuid_v4 E S =
     (let b = uuid_bytes E (sd_tick S);
          b = b[6 := (b ! 6 AND 0x0F) OR 0x40];
          b = b[8 := (b ! 8 AND 0x3F) OR 0x80]
      in (S\<lparr>sd_tick := sd_tick S + 32\<rparr>, snprintf UUID4_LEN (uuid_text b)))"

end
