(* ===== verification/SState.thy ===== *)
theory SState
  imports UpsdState
begin

text \<open>
  server/sstate.c: the side of upsd that talks to the drivers.  parse_args() applies one
  line of a driver to the UPS entry, sstate_readline() reads a driver's socket,
  sstate_dead() decides whether its data may be served, sstate_connect() and
  sstate_disconnect() manage the connection, sstate_sendline() writes to it.
\<close>

section \<open>Access to the tree of a UPS\<close>

definition do_mono :: "os \<Rightarrow> upsd \<Rightarrow> upsd \<times> int" where
  "do_mono E S = (S\<lparr>sd_tick := Suc (sd_tick S)\<rparr>, os_mono E (sd_tick S))"

text \<open>An operation of state.c on the tree of one UPS, with the clock read for it.\<close>

definition on_inforoot :: "os \<Rightarrow> nat \<Rightarrow> (int \<Rightarrow> st_tree \<Rightarrow> st_tree) \<Rightarrow> upsd \<Rightarrow> upsd" where
  "on_inforoot E i f S =
     (case do_mono E S of (S, now) \<Rightarrow> with_ups i (\<lambda>u. u\<lparr>u_inforoot := f now (u_inforoot u)\<rparr>) S)"

definition sstate_getinfo :: "ups \<Rightarrow> cstr \<Rightarrow> cstr option" where
  "sstate_getinfo u var = state_getinfo (u_inforoot u) var"

definition sstate_getflags :: "ups \<Rightarrow> cstr \<Rightarrow> 32 word" where
  "sstate_getflags u var = state_getflags (u_inforoot u) var"

definition sstate_getaux :: "ups \<Rightarrow> cstr \<Rightarrow> int" where
  "sstate_getaux u var = state_getaux (u_inforoot u) var"

definition sstate_getenumlist :: "ups \<Rightarrow> cstr \<Rightarrow> cstr list" where
  "sstate_getenumlist u var = state_getenumlist (u_inforoot u) var"

definition sstate_getrangelist :: "ups \<Rightarrow> cstr \<Rightarrow> (int \<times> int) list" where
  "sstate_getrangelist u var = state_getrangelist (u_inforoot u) var"

definition sstate_getcmdlist :: "ups \<Rightarrow> cstr list" where
  "sstate_getcmdlist u = u_cmdlist u"

definition sstate_getnode :: "ups \<Rightarrow> cstr \<Rightarrow> st_node option" where
  "sstate_getnode u var = state_tree_find (u_inforoot u) var"

definition sstate_infofree :: "ups \<Rightarrow> ups" where
  "sstate_infofree u = u\<lparr>u_inforoot := state_infofree (u_inforoot u)\<rparr>"

definition sstate_cmdfree :: "ups \<Rightarrow> ups" where
  "sstate_cmdfree u = u\<lparr>u_cmdlist := state_cmdfree (u_cmdlist u)\<rparr>"

section \<open>Lines from a driver\<close>

definition parse_args :: "os \<Rightarrow> nat \<Rightarrow> cstr list \<Rightarrow> upsd \<Rightarrow> upsd \<times> bool" where
  "parse_args E i arg S =
     (let numargs = length arg; is_verb = (\<lambda>v. strcasecmp (arg ! 0) v = 0) in
      if numargs < 1 then (S, False)
      else if is_verb ''PONG'' then (S, True)
      else if is_verb ''DUMPDONE'' then (with_ups i (\<lambda>u. u\<lparr>u_dumpdone := True\<rparr>) S, True)
      else if is_verb ''DATASTALE'' then (with_ups i (\<lambda>u. u\<lparr>u_data_ok := False\<rparr>) S, True)
      else if is_verb ''DATAOK'' then (with_ups i (\<lambda>u. u\<lparr>u_data_ok := True\<rparr>) S, True)
      else if numargs < 2 then (S, False)
      else if is_verb ''ADDCMD'' then
        (with_ups i (\<lambda>u. u\<lparr>u_cmdlist := fst (state_addcmd (u_cmdlist u) (arg ! 1))\<rparr>) S, True)
      else if is_verb ''DELCMD'' then
        (with_ups i (\<lambda>u. u\<lparr>u_cmdlist := fst (state_delcmd (u_cmdlist u) (arg ! 1))\<rparr>) S, True)
      else if is_verb ''DELINFO'' then
        (on_inforoot E i (\<lambda>now t. fst (state_delinfo t (arg ! 1))) S, True)
      else if numargs < 3 then (S, False)
      else if is_verb ''SETFLAGS'' then
        (on_inforoot E i (\<lambda>now t. state_setflags now t (arg ! 1) (drop 2 arg)) S, True)
      else if is_verb ''SETINFO'' then
        (on_inforoot E i (\<lambda>now t. fst (state_setinfo now t (arg ! 1) (arg ! 2))) S, True)
      else if is_verb ''ADDENUM'' then
        (on_inforoot E i (\<lambda>now t. fst (state_addenum now t (arg ! 1) (arg ! 2))) S, True)
      else if is_verb ''DELENUM'' then
        (on_inforoot E i (\<lambda>now t. fst (state_delenum now t (arg ! 1) (arg ! 2))) S, True)
      else if is_verb ''SETAUX'' then
        (on_inforoot E i (\<lambda>now t. fst (state_setaux now t (arg ! 1) (arg ! 2))) S, True)
      else if is_verb ''TRACKING'' then (fst (tracking_set (arg ! 1) (arg ! 2) S), True)
      else if numargs < 4 then (S, False)
      else if is_verb ''ADDRANGE'' then
        (on_inforoot E i
           (\<lambda>now t. fst (state_addrange now t (arg ! 1) (atoi (arg ! 2)) (atoi (arg ! 3)))) S, True)
      else if is_verb ''DELRANGE'' then
        (on_inforoot E i
           (\<lambda>now t. fst (state_delrange now t (arg ! 1) (atoi (arg ! 2)) (atoi (arg ! 3)))) S, True)
      else (S, False))"

section \<open>The connection\<close>

definition sstate_disconnect :: "nat \<Rightarrow> upsd \<Rightarrow> upsd" where
  "sstate_disconnect i S =
     (if \<not> valid_fd (u_sock_fd (the_ups S i)) then S
      else with_ups i (\<lambda>u. (sstate_cmdfree (sstate_infofree u))
             \<lparr>u_sock_ctx := pconf_finish (u_sock_ctx u), u_sock_fd := ERROR_FD\<rparr>) S)"

text \<open>PING; a short or failed write drops the connection.\<close>

definition sendping :: "os \<Rightarrow> nat \<Rightarrow> upsd \<Rightarrow> upsd" where
  "sendping E i S =
     (if \<not> valid_fd (u_sock_fd (the_ups S i)) then S
      else
        (let cmd = ''PING'' @ [NL] in
         case do_write E (u_sock_fd (the_ups S i)) cmd S of (S, ret) \<Rightarrow>
           if ret < 1 \<or> ret \<noteq> int (length cmd) then sstate_disconnect i S
           else (case do_time E S of (S, now) \<Rightarrow> with_ups i (\<lambda>u. u\<lparr>u_last_ping := now\<rparr>) S)))"

definition SS_CONNFAIL_INT :: int where
  "SS_CONNFAIL_INT = 300"

text \<open>
  sstate_connect(): os_open_driver stands for socket() and connect(), os_setup_driver for
  the two fcntl() calls.  The result is the descriptor; the caller stores it.
\<close>

definition sstate_connect :: "os \<Rightarrow> nat \<Rightarrow> upsd \<Rightarrow> upsd \<times> int" where
  "sstate_connect E i S =
     (let tick = sd_tick S; S = S\<lparr>sd_tick := Suc tick\<rparr> in
      case os_open_driver E tick (u_fn (the_ups S i)) of
        SocketFailed \<Rightarrow> (S, ERROR_FD)
      | ConnectFailed \<Rightarrow>
          (case do_time E S of (S, now) \<Rightarrow>
             if now - u_last_connfail (the_ups S i) < SS_CONNFAIL_INT then (S, ERROR_FD)
             else (with_ups i (\<lambda>u. u\<lparr>u_last_connfail := now\<rparr>) S, ERROR_FD))
      | Connected fd \<Rightarrow>
          (if \<not> os_setup_driver E tick fd then (S, ERROR_FD)
           else
             (let dumpcmd = ''DUMPALL'' @ [NL] in
              case do_write E fd dumpcmd S of (S, ret) \<Rightarrow>
                if ret < 1 \<or> ret \<noteq> int (length dumpcmd) then (S, ERROR_FD)
                else
                  (case do_time E S of (S, now) \<Rightarrow>
                     (on_inforoot E i (\<lambda>now t. fst (state_setinfo now t ''ups.status'' ''WAIT''))
                       (with_ups i (\<lambda>u. u\<lparr>u_sock_ctx := pconf_init (u_sock_ctx u),
                          u_dumpdone := False, u_stale := False, u_last_heard := now\<rparr>) S),
                      fd)))))"

section \<open>Reading\<close>

text \<open>One complete line: apply it and, when it was understood, note the time.\<close>

definition driver_line :: "os \<Rightarrow> nat \<Rightarrow> upsd \<Rightarrow> upsd" where
  "driver_line E i S =
     (case parse_args E i (pconf_args (u_sock_ctx (the_ups S i))) S of
        (S, True) \<Rightarrow> (case do_time E S of (S, now) \<Rightarrow> with_ups i (\<lambda>u. u\<lparr>u_last_heard := now\<rparr>) S)
      | (S, False) \<Rightarrow> S)"

fun sstate_read_loop :: "os \<Rightarrow> nat \<Rightarrow> upsd \<Rightarrow> cstr \<Rightarrow> upsd" where
  "sstate_read_loop E i S [] = S"
| "sstate_read_loop E i S (c # cs) =
     (case pconf_char (u_sock_ctx (the_ups S i)) c of (ctx, r) \<Rightarrow>
        let S = with_ups i (\<lambda>u. u\<lparr>u_sock_ctx := ctx\<rparr>) S in
        if r = 1 then sstate_read_loop E i (driver_line E i S) cs
        else if r = 0 then sstate_read_loop E i S cs
        else S)"

text \<open>
  A read() of no bytes changes nothing: the end of the connection shows as POLLHUP.
\<close>

definition sstate_readline :: "os \<Rightarrow> nat \<Rightarrow> upsd \<Rightarrow> upsd" where
  "sstate_readline E i S =
     (if \<not> valid_fd (u_sock_fd (the_ups S i)) then S
      else case do_read E (u_sock_fd (the_ups S i)) S of
        (S, ReadRetry) \<Rightarrow> S
      | (S, ReadError) \<Rightarrow> sstate_disconnect i S
      | (S, ReadBytes bytes) \<Rightarrow> sstate_read_loop E i S (take SMALLBUF bytes))"

section \<open>Staleness\<close>

text \<open>arg_maxage / 3 is C integer division.\<close>

definition c_div :: "int \<Rightarrow> int \<Rightarrow> int" where
  "c_div a b = sgn a * sgn b * (\<bar>a\<bar> div \<bar>b\<bar>)"

definition sstate_dead :: "os \<Rightarrow> nat \<Rightarrow> int \<Rightarrow> upsd \<Rightarrow> upsd \<times> bool" where
  "sstate_dead E i arg_maxage S =
     (if \<not> valid_fd (u_sock_fd (the_ups S i)) then (S, True)
      else
        (case do_time E S of (S, now) \<Rightarrow>
           let elapsed = now - u_last_heard (the_ups S i);
               S = (if c_div arg_maxage 3 < elapsed \<and>
                       c_div arg_maxage 3 < now - u_last_ping (the_ups S i)
                    then sendping E i S else S)
           in if arg_maxage < elapsed then (S, True)
              else if u_dumpdone (the_ups S i) \<and> \<not> u_data_ok (the_ups S i) then (S, True)
              else (S, False)))"

definition sstate_sendline :: "os \<Rightarrow> nat \<Rightarrow> cstr \<Rightarrow> upsd \<Rightarrow> upsd \<times> bool" where
  "sstate_sendline E i buf S =
     (if \<not> valid_fd (u_sock_fd (the_ups S i)) then (S, False)
      else
        (case do_write E (u_sock_fd (the_ups S i)) buf S of (S, ret) \<Rightarrow>
           if ret = int (length buf) then (S, True)
           else (sstate_disconnect i S, False)))"


section \<open>What a driver line can change\<close>

lemma with_ups_fields [simp]:
  "sd_firstclient (with_ups i f S) = sd_firstclient S"
  "sd_tracking_list (with_ups i f S) = sd_tracking_list S"
  "sd_tracking_enabled (with_ups i f S) = sd_tracking_enabled S"
  "sd_users (with_ups i f S) = sd_users S"
  "sd_descs (with_ups i f S) = sd_descs S"
  "sd_wire (with_ups i f S) = sd_wire S"
  "sd_tick (with_ups i f S) = sd_tick S"
  "length (sd_firstups (with_ups i f S)) = length (sd_firstups S)"
  by (simp_all add: with_ups_def)

lemma the_ups_with_ups:
  "i < length (sd_firstups S) \<Longrightarrow> the_ups (with_ups i f S) i = f (the_ups S i)"
  "j \<noteq> i \<Longrightarrow> the_ups (with_ups i f S) j = the_ups S j"
  by (simp_all add: with_ups_def)

lemma with_ups_with_ups:
  "i < length (sd_firstups S) \<Longrightarrow> with_ups i f (with_ups i g S) = with_ups i (f \<circ> g) S"
  by (simp add: with_ups_def)

lemma with_ups_id: "with_ups i (\<lambda>u. u) S = S"
  by (simp add: with_ups_def)

text \<open>The well-formedness of a UPS entry.\<close>

definition ups_wf :: "ups \<Rightarrow> bool" where
  "ups_wf u \<longleftrightarrow> tree_wf (u_inforoot u) \<and> cmds_sorted (u_cmdlist u)"

text \<open>What a line leaves alone: identity, connection, login counter, FSD and staleness.\<close>

definition ups_frame :: "ups \<Rightarrow> ups \<Rightarrow> bool" where
  "ups_frame u v \<longleftrightarrow> u_name v = u_name u \<and> u_fn v = u_fn u \<and> u_desc v = u_desc u \<and>
     u_sock_fd v = u_sock_fd u \<and> u_stale v = u_stale u \<and> u_sock_ctx v = u_sock_ctx u \<and>
     u_numlogins v = u_numlogins u \<and> u_fsd v = u_fsd u \<and> u_retain v = u_retain u"

definition line_effect :: "nat \<Rightarrow> upsd \<Rightarrow> upsd \<Rightarrow> bool" where
  "line_effect i S S' \<longleftrightarrow>
     sd_firstclient S' = sd_firstclient S \<and> sd_wire S' = sd_wire S \<and>
     length (sd_firstups S') = length (sd_firstups S) \<and>
     (\<forall>j. j \<noteq> i \<longrightarrow> the_ups S' j = the_ups S j) \<and>
     (i < length (sd_firstups S) \<longrightarrow>
        ups_frame (the_ups S i) (the_ups S' i) \<and> (ups_wf (the_ups S i) \<longrightarrow> ups_wf (the_ups S' i)))"

lemma line_effect_refl [simp]: "line_effect i S S"
  by (simp add: line_effect_def ups_frame_def)

lemma line_effect_trans: "line_effect i S S' \<Longrightarrow> line_effect i S' S'' \<Longrightarrow> line_effect i S S''"
  unfolding line_effect_def ups_frame_def by auto

lemma line_effect_with_ups:
  assumes "\<And>u. ups_frame u (f u)" "\<And>u. ups_wf u \<Longrightarrow> ups_wf (f u)"
  shows "line_effect i S (with_ups i f S)"
  using assms by (auto simp: line_effect_def the_ups_with_ups)

lemma line_effect_tick: "line_effect i (S\<lparr>sd_tick := n\<rparr>) S' \<Longrightarrow> line_effect i S S'"
  by (simp add: line_effect_def)

lemma line_effect_inforoot:
  assumes "\<And>now t. tree_step t (f now t)"
  shows "line_effect i S (on_inforoot E i f S)"
proof -
  have "line_effect i (S\<lparr>sd_tick := Suc (sd_tick S)\<rparr>)
      (with_ups i (\<lambda>u. u\<lparr>u_inforoot := f now (u_inforoot u)\<rparr>) (S\<lparr>sd_tick := Suc (sd_tick S)\<rparr>))" for now
    using assms by (intro line_effect_with_ups) (auto simp: ups_frame_def ups_wf_def intro: tree_step_wf)
  then show ?thesis
    by (auto simp: on_inforoot_def do_mono_def intro: line_effect_tick)
qed

lemma line_effect_cmds:
  "line_effect i S (with_ups i (\<lambda>u. u\<lparr>u_cmdlist := fst (state_addcmd (u_cmdlist u) cmd)\<rparr>) S)"
  "line_effect i S (with_ups i (\<lambda>u. u\<lparr>u_cmdlist := fst (state_delcmd (u_cmdlist u) cmd)\<rparr>) S)"
  by (rule line_effect_with_ups; simp add: ups_frame_def ups_wf_def addcmd_sorted delcmd_sorted)+

lemma line_effect_flags:
  "line_effect i S (with_ups i (\<lambda>u. u\<lparr>u_dumpdone := b\<rparr>) S)"
  "line_effect i S (with_ups i (\<lambda>u. u\<lparr>u_data_ok := b\<rparr>) S)"
  "line_effect i S (with_ups i (\<lambda>u. u\<lparr>u_last_heard := x\<rparr>) S)"
  by (rule line_effect_with_ups; simp add: ups_frame_def ups_wf_def)+

lemma line_effect_tracking: "line_effect i S (fst (tracking_set tid val S))"
  by (auto simp: tracking_set_def line_effect_def ups_frame_def split: option.split)

lemmas line_effects = line_effect_inforoot [OF tree_step.intros(1)] line_effect_inforoot [OF tree_step.intros(2)]
  line_effect_inforoot [OF tree_step.intros(3)] line_effect_inforoot [OF tree_step.intros(4)]
  line_effect_inforoot [OF tree_step.intros(5)] line_effect_inforoot [OF tree_step.intros(6)]
  line_effect_inforoot [OF tree_step.intros(8)] line_effect_inforoot [OF tree_step.intros(9)]
  line_effect_cmds line_effect_flags line_effect_tracking

lemma parse_args_effect: "line_effect i S (fst (parse_args E i arg S))"
  unfolding parse_args_def Let_def by (simp add: line_effects)

lemma driver_line_effect: "line_effect i S (driver_line E i S)"
proof -
  let ?args = "pconf_args (u_sock_ctx (the_ups S i))"
  obtain S1 b where p: "parse_args E i ?args S = (S1, b)" by fastforce
  have 1: "line_effect i S S1" using parse_args_effect [of i S E ?args] p by simp
  have 2: "line_effect i S1 (with_ups i (\<lambda>u. u\<lparr>u_last_heard := x\<rparr>) (S1\<lparr>sd_tick := Suc (sd_tick S1)\<rparr>))" for x
    by (rule line_effect_tick [where n = "Suc (sd_tick S1)"]) (rule line_effect_flags)
  show ?thesis
    using 1 line_effect_trans [OF 1 2] by (simp add: driver_line_def p do_time_def split: bool.split)
qed

text \<open>upsd reads a driver with the common loop.\<close>

interpretation driver_reader: line_reader
  "\<lambda>S. u_sock_ctx (the_ups S i)" "\<lambda>ctx. with_ups i (\<lambda>u. u\<lparr>u_sock_ctx := ctx\<rparr>)"
  "driver_line E i" "sstate_read_loop E i" "\<lambda>S. i < length (sd_firstups S)" for E :: os and i :: nat
proof (unfold_locales, goal_cases)
  case (2 s c cs) then show ?case by (simp add: Let_def split: prod.split)
next
  case (5 s)
  then show ?case by (simp add: with_ups_def)
next
  case (7 s)
  then show ?case using driver_line_effect [of i s E] by (simp add: line_effect_def ups_frame_def)
next
  case (8 s)
  then show ?case using driver_line_effect [of i s E] by (simp add: line_effect_def)
qed (simp_all add: the_ups_with_ups with_ups_with_ups o_def)

end
