(* ===== verification/NetGet.thy ===== *)
theory NetGet
  imports SState
begin

text \<open>
  server/netget.c: the GET requests.  Every handler gets the index of the client and the
  words of the request and returns the state after its answer.
\<close>

section \<open>Text of the answers\<close>

fun strstr :: "cstr \<Rightarrow> cstr \<Rightarrow> bool" where
  "strstr [] needle = (needle = [])"
| "strstr (c # cs) needle = (take (length needle) (c # cs) = needle \<or> strstr cs needle)"

text \<open>A value between double quotes.\<close>

definition quoted :: "cstr \<Rightarrow> cstr" where
  "quoted s = [QUOTE] @ s @ [QUOTE]"

text \<open>The product line of VER and of server.info.\<close>

definition upsd_version_text :: "os \<Rightarrow> cstr" where
  "upsd_version_text E =
     (let hasNutOrg = (case bld_PACKAGE_URL E of None \<Rightarrow> False
                       | Some url \<Rightarrow> strstr url ''networkupstools.org'')
      in ''Network UPS Tools upsd '' @ bld_UPS_VERSION E @ '' - '' @
         (case bld_PACKAGE_URL E of None \<Rightarrow> '''' | Some url \<Rightarrow> url) @
         (if bld_PACKAGE_URL E \<noteq> None \<and> \<not> hasNutOrg then '' or '' else '''') @
         (if hasNutOrg then '''' else ''https://www.networkupstools.org/''))"

definition strip_upstream :: "cstr \<Rightarrow> cstr" where
  "strip_upstream var = (if strneq var ''upstream.'' 9 then drop 9 var else var)"

section \<open>The handlers\<close>

definition get_numlogins :: "os \<Rightarrow> nat \<Rightarrow> cstr \<Rightarrow> upsd \<Rightarrow> upsd" where
  "get_numlogins E c upsname S =
     (case get_ups_ptr S upsname of
        None \<Rightarrow> send_err E c ''UNKNOWN-UPS'' S
      | Some i \<Rightarrow>
          (case ups_available E i c S of (S, False) \<Rightarrow> S
           | (S, True) \<Rightarrow>
               reply E c (''NUMLOGINS '' @ upsname @ '' '' @ show_int (u_numlogins (the_ups S i)) @ [NL]) S))"

definition get_upsdesc :: "os \<Rightarrow> nat \<Rightarrow> cstr \<Rightarrow> upsd \<Rightarrow> upsd" where
  "get_upsdesc E c upsname S =
     (case get_ups_ptr S upsname of
        None \<Rightarrow> send_err E c ''UNKNOWN-UPS'' S
      | Some i \<Rightarrow>
          (case u_desc (the_ups S i) of
             Some d \<Rightarrow> reply E c (''UPSDESC '' @ upsname @ '' '' @ quoted (pconf_encode d SMALLBUF) @ [NL]) S
           | None \<Rightarrow> reply E c (''UPSDESC '' @ upsname @ '' '' @ quoted ''Unavailable'' @ [NL]) S))"

definition get_desc :: "os \<Rightarrow> nat \<Rightarrow> cstr \<Rightarrow> cstr \<Rightarrow> upsd \<Rightarrow> upsd" where
  "get_desc E c upsname var S =
     (case get_ups_ptr S upsname of
        None \<Rightarrow> send_err E c ''UNKNOWN-UPS'' S
      | Some i \<Rightarrow>
          (case ups_available E i c S of (S, False) \<Rightarrow> S
           | (S, True) \<Rightarrow>
               reply E c (''DESC '' @ upsname @ '' '' @ var @ '' '' @
                 quoted (case desc_get_var (sd_descs S) (strip_upstream var) of
                    Some d \<Rightarrow> d | None \<Rightarrow> ''Description unavailable'') @ [NL]) S))"

definition get_cmddesc :: "os \<Rightarrow> nat \<Rightarrow> cstr \<Rightarrow> cstr \<Rightarrow> upsd \<Rightarrow> upsd" where
  "get_cmddesc E c upsname cmd S =
     (case get_ups_ptr S upsname of
        None \<Rightarrow> send_err E c ''UNKNOWN-UPS'' S
      | Some i \<Rightarrow>
          (case ups_available E i c S of (S, False) \<Rightarrow> S
           | (S, True) \<Rightarrow>
               reply E c (''CMDDESC '' @ upsname @ '' '' @ cmd @ '' '' @
                 quoted (case desc_get_cmd (sd_descs S) (strip_upstream cmd) of
                    Some d \<Rightarrow> d | None \<Rightarrow> ''Description unavailable'') @ [NL]) S))"

definition get_type :: "os \<Rightarrow> nat \<Rightarrow> cstr \<Rightarrow> cstr \<Rightarrow> upsd \<Rightarrow> upsd" where
  "get_type E c upsname var S =
     (case get_ups_ptr S upsname of
        None \<Rightarrow> send_err E c ''UNKNOWN-UPS'' S
      | Some i \<Rightarrow>
          (case ups_available E i c S of (S, False) \<Rightarrow> S
           | (S, True) \<Rightarrow>
               (case sstate_getnode (the_ups S i) var of
                  None \<Rightarrow> send_err E c ''VAR-NOT-SUPPORTED'' S
                | Some node \<Rightarrow>
                    (let buf = snprintf SMALLBUF (''TYPE '' @ upsname @ '' '' @ var);
                         buf = (if has_flag (n_flags node) ST_FLAG_RW
                                then snprintfcat buf SMALLBUF '' RW'' else buf);
                         buf = (if n_enum_list node \<noteq> []
                                then snprintfcat buf SMALLBUF '' ENUM'' else buf);
                         buf = (if n_range_list node \<noteq> []
                                then snprintfcat buf SMALLBUF '' RANGE'' else buf)
                     in if has_flag (n_flags node) ST_FLAG_STRING
                        then reply E c (buf @ '' STRING:'' @ show_int (n_aux node) @ [NL]) S
                        else reply E c (buf @ '' NUMBER'' @ [NL]) S))))"

definition get_var_server :: "os \<Rightarrow> nat \<Rightarrow> cstr \<Rightarrow> cstr \<Rightarrow> upsd \<Rightarrow> upsd" where
  "get_var_server E c upsname var S =
     (if strcasecmp var ''server.info'' = 0 then
        reply E c (''VAR '' @ upsname @ '' server.info '' @ quoted (upsd_version_text E) @ [NL]) S
      else if strcasecmp var ''server.version'' = 0 then
        reply E c (''VAR '' @ upsname @ '' server.version '' @ quoted (bld_UPS_VERSION E) @ [NL]) S
      else send_err E c ''VAR-NOT-SUPPORTED'' S)"

definition get_var :: "os \<Rightarrow> nat \<Rightarrow> cstr \<Rightarrow> cstr \<Rightarrow> upsd \<Rightarrow> upsd" where
  "get_var E c upsname var S =
     (if strncasecmp var ''server.'' 7 = 0 then get_var_server E c upsname var S
      else
        (case get_ups_ptr S upsname of
           None \<Rightarrow> send_err E c ''UNKNOWN-UPS'' S
         | Some i \<Rightarrow>
             (case ups_available E i c S of (S, False) \<Rightarrow> S
              | (S, True) \<Rightarrow>
                  (case sstate_getinfo (the_ups S i) var of
                     None \<Rightarrow> send_err E c ''VAR-NOT-SUPPORTED'' S
                   | Some val \<Rightarrow>
                       (if strcasecmp var ''ups.status'' = 0 \<and> u_fsd (the_ups S i)
                        then reply E c (''VAR '' @ upsname @ '' '' @ var @ '' '' @ quoted (''FSD '' @ val) @ [NL]) S
                        else reply E c (''VAR '' @ upsname @ '' '' @ var @ '' '' @ quoted val @ [NL]) S)))))"

definition net_get :: "os \<Rightarrow> nat \<Rightarrow> cstr list \<Rightarrow> upsd \<Rightarrow> upsd" where
  "net_get E c arg S =
     (let numarg = length arg; is_sub = (\<lambda>v. strcasecmp (arg ! 0) v = 0) in
      if numarg < 1 then send_err E c ''INVALID-ARGUMENT'' S
      else if is_sub ''TRACKING'' then
        (if numarg < 2 then
           reply E c ((if c_tracking (the_client S c) then ''ON'' else ''OFF'') @ [NL]) S
         else if c_tracking (the_client S c) then reply E c (tracking_get S (arg ! 1) @ [NL]) S
         else send_err E c ''FEATURE-NOT-CONFIGURED'' S)
      else if numarg < 2 then send_err E c ''INVALID-ARGUMENT'' S
      else if is_sub ''NUMLOGINS'' then get_numlogins E c (arg ! 1) S
      else if is_sub ''UPSDESC'' then get_upsdesc E c (arg ! 1) S
      else if numarg < 3 then send_err E c ''INVALID-ARGUMENT'' S
      else if is_sub ''VAR'' then get_var E c (arg ! 1) (arg ! 2) S
      else if is_sub ''TYPE'' then get_type E c (arg ! 1) (arg ! 2) S
      else if is_sub ''DESC'' then get_desc E c (arg ! 1) (arg ! 2) S
      else if is_sub ''CMDDESC'' then get_cmddesc E c (arg ! 1) (arg ! 2) S
      else send_err E c ''INVALID-ARGUMENT'' S)"

section \<open>One answer per request\<close>

text \<open>
  What a GET request does: one answer line, and nothing else.  available is the answer a
  request about a UPS starts with when its driver is gone or silent.
\<close>

definition unavailable_text :: "ups \<Rightarrow> cstr option" where
  "unavailable_text u =
     (if \<not> valid_fd (u_sock_fd u) then Some ''DRIVER-NOT-CONNECTED''
      else if u_stale u then Some ''DATA-STALE'' else None)"

lemma ups_available_cases:
  "ups_available E i c S =
     (case unavailable_text (the_ups S i) of
        None \<Rightarrow> (S, True) | Some e \<Rightarrow> (reply E c (''ERR '' @ e @ [NL]) S, False))"
  by (simp add: ups_available_def unavailable_text_def send_err_def reply_def)

definition answers :: "os \<Rightarrow> nat \<Rightarrow> upsd \<Rightarrow> upsd \<Rightarrow> bool" where
  "answers E c S S' \<longleftrightarrow> (\<exists>ans. S' = reply E c ans S)"

lemma answers_reply [simp]: "answers E c S (reply E c ans S)" "answers E c S (send_err E c e S)"
  by (auto simp: answers_def send_err_def reply_def)

lemma answers_available:
  assumes "answers E c S (f S)"
  shows "answers E c S (case ups_available E i c S of (S, False) \<Rightarrow> S | (S, True) \<Rightarrow> f S)"
  using assms by (simp add: ups_available_cases split: option.split)

lemma get_var_server_answers: "answers E c S (get_var_server E c upsname var S)"
  by (simp add: get_var_server_def)

lemma get_answers:
  "answers E c S (get_numlogins E c upsname S)"
  "answers E c S (get_upsdesc E c upsname S)"
  "answers E c S (get_desc E c upsname var S)"
  "answers E c S (get_cmddesc E c upsname var S)"
  "answers E c S (get_type E c upsname var S)"
  "answers E c S (get_var E c upsname var S)"
  unfolding get_numlogins_def get_upsdesc_def get_desc_def get_cmddesc_def get_type_def get_var_def
  by (auto intro!: answers_available get_var_server_answers simp: Let_def split: option.split)

lemma net_get_answers_once: "answers E c S (net_get E c arg S)"
  by (simp add: net_get_def Let_def get_answers)

end
