(* ===== verification/NetUser.thy ===== *)
theory NetUser
  imports NetGet
begin

text \<open>
  server/netuser.c, server/netmisc.c and the STARTTLS handler of server/netssl.c in a build
  without SSL: the session commands.
\<close>

section \<open>The client's permissions\<close>

definition client_may :: "upsd \<Rightarrow> nat \<Rightarrow> cstr \<Rightarrow> bool" where
  "client_may S c action =
     user_checkaction (sd_users S) (c_username (the_client S c)) (c_password (the_client S c)) (Some action)"

definition client_may_instcmd :: "upsd \<Rightarrow> nat \<Rightarrow> cstr \<Rightarrow> bool" where
  "client_may_instcmd S c cmdname =
     user_checkinstcmd (sd_users S) (c_username (the_client S c)) (c_password (the_client S c)) (Some cmdname)"

section \<open>Miscellaneous requests\<close>

definition net_ver :: "os \<Rightarrow> nat \<Rightarrow> cstr list \<Rightarrow> upsd \<Rightarrow> upsd" where
  "net_ver E c arg S =
     (if length arg \<noteq> 0 then send_err E c ''INVALID-ARGUMENT'' S
      else reply E c (upsd_version_text E @ [NL]) S)"

definition net_netver :: "os \<Rightarrow> nat \<Rightarrow> cstr list \<Rightarrow> upsd \<Rightarrow> upsd" where
  "net_netver E c arg S =
     (if length arg \<noteq> 0 then send_err E c ''INVALID-ARGUMENT'' S
      else reply E c (bld_NETVERSION E @ [NL]) S)"

definition net_help :: "os \<Rightarrow> nat \<Rightarrow> cstr list \<Rightarrow> upsd \<Rightarrow> upsd" where
  "net_help E c arg S =
     (if length arg \<noteq> 0 then send_err E c ''INVALID-ARGUMENT'' S
      else reply E c (''Commands: HELP VER PROTVER GET LIST SET INSTCMD'' @
        '' LOGIN LOGOUT USERNAME PASSWORD STARTTLS'' @ [NL]) S)"

definition net_starttls :: "os \<Rightarrow> nat \<Rightarrow> cstr list \<Rightarrow> upsd \<Rightarrow> upsd" where
  "net_starttls E c arg S = send_err E c ''FEATURE-NOT-SUPPORTED'' S"

definition net_fsd :: "os \<Rightarrow> nat \<Rightarrow> cstr list \<Rightarrow> upsd \<Rightarrow> upsd" where
  "net_fsd E c arg S =
     (if length arg \<noteq> 1 then send_err E c ''INVALID-ARGUMENT'' S
      else
        (case get_ups_ptr S (arg ! 0) of
           None \<Rightarrow> send_err E c ''UNKNOWN-UPS'' S
         | Some i \<Rightarrow>
             (if \<not> client_may S c ''FSD''
              then send_err E c ''ACCESS-DENIED'' S
              else reply E c (''OK FSD-SET'' @ [NL]) (with_ups i (\<lambda>u. u\<lparr>u_fsd := True\<rparr>) S))))"

section \<open>Logging in and out\<close>

definition net_login :: "os \<Rightarrow> nat \<Rightarrow> cstr list \<Rightarrow> upsd \<Rightarrow> upsd" where
  "net_login E c arg S =
     (if length arg \<noteq> 1 then send_err E c ''INVALID-ARGUMENT'' S
      else if c_loginups (the_client S c) \<noteq> None then send_err E c ''ALREADY-LOGGED-IN'' S
      else
        (case get_ups_ptr S (arg ! 0) of
           None \<Rightarrow> send_err E c ''UNKNOWN-UPS'' S
         | Some i \<Rightarrow>
             (if \<not> client_may S c ''LOGIN''
              then send_err E c ''ACCESS-DENIED'' S
              else
                (let S = with_ups i (\<lambda>u. u\<lparr>u_numlogins := u_numlogins u + 1\<rparr>) S;
                     S = with_client c (\<lambda>k. k\<lparr>c_loginups := Some (u_name (the_ups S i))\<rparr>) S
                 in reply E c (''OK'' @ [NL]) S))))"

definition net_logout :: "os \<Rightarrow> nat \<Rightarrow> cstr list \<Rightarrow> upsd \<Rightarrow> upsd" where
  "net_logout E c arg S =
     (if length arg \<noteq> 0 then send_err E c ''INVALID-ARGUMENT'' S
      else with_client c (\<lambda>k. k\<lparr>c_last_heard := 0\<rparr>) (reply E c (''OK Goodbye'' @ [NL]) S))"

definition do_net_primary :: "os \<Rightarrow> nat \<Rightarrow> cstr list \<Rightarrow> upsd \<Rightarrow> upsd \<times> int" where
  "do_net_primary E c arg S =
     (if length arg \<noteq> 1 then (send_err E c ''INVALID-ARGUMENT'' S, -1)
      else
        (case get_ups_ptr S (arg ! 0) of
           None \<Rightarrow> (send_err E c ''UNKNOWN-UPS'' S, -1)
         | Some i \<Rightarrow>
             (if \<not> client_may S c ''PRIMARY'' \<and>
                 \<not> client_may S c ''MASTER''
              then (send_err E c ''ACCESS-DENIED'' S, -1)
              else (S, 0))))"

definition net_master :: "os \<Rightarrow> nat \<Rightarrow> cstr list \<Rightarrow> upsd \<Rightarrow> upsd" where
  "net_master E c arg S =
     (case do_net_primary E c arg S of (S, r) \<Rightarrow>
        if r = 0 then reply E c (''OK MASTER-GRANTED'' @ [NL]) S else S)"

definition net_primary :: "os \<Rightarrow> nat \<Rightarrow> cstr list \<Rightarrow> upsd \<Rightarrow> upsd" where
  "net_primary E c arg S =
     (case do_net_primary E c arg S of (S, r) \<Rightarrow>
        if r = 0 then reply E c (''OK PRIMARY-GRANTED'' @ [NL]) S else S)"

definition net_username :: "os \<Rightarrow> nat \<Rightarrow> cstr list \<Rightarrow> upsd \<Rightarrow> upsd" where
  "net_username E c arg S =
     (if length arg \<noteq> 1 then send_err E c ''INVALID-ARGUMENT'' S
      else if c_username (the_client S c) \<noteq> None then send_err E c ''ALREADY-SET-USERNAME'' S
      else reply E c (''OK'' @ [NL]) (with_client c (\<lambda>k. k\<lparr>c_username := Some (arg ! 0)\<rparr>) S))"

definition net_password :: "os \<Rightarrow> nat \<Rightarrow> cstr list \<Rightarrow> upsd \<Rightarrow> upsd" where
  "net_password E c arg S =
     (if length arg \<noteq> 1 then send_err E c ''INVALID-ARGUMENT'' S
      else if c_password (the_client S c) \<noteq> None then send_err E c ''ALREADY-SET-PASSWORD'' S
      else reply E c (''OK'' @ [NL]) (with_client c (\<lambda>k. k\<lparr>c_password := Some (arg ! 0)\<rparr>) S))"

end
