(* ===== verification/NetSet.thy ===== *)
theory NetSet
  imports NetUser
begin

text \<open>
  server/netset.c and server/netinstcmd.c: the two requests that make upsd write to a driver.
\<close>

section \<open>SET\<close>

text \<open>The value tests of set_var(): None when the value is acceptable, else the error.\<close>

definition set_value_error :: "ups \<Rightarrow> cstr \<Rightarrow> cstr \<Rightarrow> cstr option" where
  "set_value_error u var newval =
     (let aux = sstate_getaux u var; etmp = sstate_getenumlist u var;
          rtmp = sstate_getrangelist u var; inewval = atoi newval in
      if has_flag (sstate_getflags u var) ST_FLAG_STRING \<and> aux < 1 then Some ''SET-FAILED''
      else if has_flag (sstate_getflags u var) ST_FLAG_STRING \<and> aux < c_int (int (length newval))
      then Some ''TOO-LONG''
      else if etmp \<noteq> [] \<and> \<not> list_ex (\<lambda>e. e = newval) etmp then Some ''INVALID-VALUE''
      else if rtmp \<noteq> [] \<and> \<not> list_ex (\<lambda>(mn, mx). mn \<le> inewval \<and> inewval \<le> mx) rtmp
      then Some ''INVALID-VALUE''
      else None)"

text \<open>
  The end of both requests: ask for tracking, finish the line, write it, answer.  The
  result of tracking_add() is not looked at.
\<close>

definition send_tracked :: "os \<Rightarrow> nat \<Rightarrow> nat \<Rightarrow> cstr \<Rightarrow> cstr \<Rightarrow> cstr \<Rightarrow> upsd \<Rightarrow> upsd" where
  "send_tracked E c i cmd tracking_id failure S =
     (let have_tracking_id = (tracking_id \<noteq> []);
          cmd = (if have_tracking_id then snprintfcat cmd SMALLBUF ('' TRACKING '' @ tracking_id) else cmd);
          S = (if have_tracking_id then fst (tracking_add E (Some tracking_id) S) else S);
          cmd = snprintfcat cmd SMALLBUF [NL]
      in case sstate_sendline E i cmd S of
           (S, False) \<Rightarrow> send_err E c failure S
         | (S, True) \<Rightarrow>
             (if have_tracking_id then reply E c (''OK TRACKING '' @ tracking_id @ [NL]) S
              else reply E c (''OK'' @ [NL]) S))"

definition set_var :: "os \<Rightarrow> nat \<Rightarrow> cstr \<Rightarrow> cstr \<Rightarrow> cstr \<Rightarrow> cstr \<Rightarrow> upsd \<Rightarrow> upsd" where
  "set_var E c upsname var newval tracking_id S =
     (case get_ups_ptr S upsname of
        None \<Rightarrow> send_err E c ''UNKNOWN-UPS'' S
      | Some i \<Rightarrow>
          (case ups_available E i c S of (S, False) \<Rightarrow> S
           | (S, True) \<Rightarrow>
               (let u = the_ups S i in
                if \<not> client_may S c ''SET''
                then send_err E c ''ACCESS-DENIED'' S
                else if sstate_getinfo u var = None then send_err E c ''VAR-NOT-SUPPORTED'' S
                else if \<not> has_flag (sstate_getflags u var) ST_FLAG_RW then send_err E c ''READONLY'' S
                else case set_value_error u var newval of
                  Some e \<Rightarrow> send_err E c e S
                | None \<Rightarrow>
                    send_tracked E c i
                      (snprintf SMALLBUF (''SET '' @ var @ '' '' @ quoted (pconf_encode newval SMALLBUF)))
                      tracking_id ''SET-FAILED'' S)))"

definition new_tracking_id :: "os \<Rightarrow> nat \<Rightarrow> upsd \<Rightarrow> upsd \<times> cstr" where
  "new_tracking_id E c S = (if c_tracking (the_client S c) then nut_uuid_v4 E S else (S, ''''))"

definition net_set :: "os \<Rightarrow> nat \<Rightarrow> cstr list \<Rightarrow> upsd \<Rightarrow> upsd" where
  "net_set E c arg S =
     (let numarg = length arg; set_tracking = (\<lambda>b. with_client c (\<lambda>k. k\<lparr>c_tracking := b\<rparr>)) in
      if numarg < 2 then send_err E c ''INVALID-ARGUMENT'' S
      else if strcasecmp (arg ! 0) ''VAR'' = 0 then
        (if numarg < 4 then send_err E c ''INVALID-ARGUMENT'' S
         else case new_tracking_id E c S of (S, tracking_id) \<Rightarrow>
           set_var E c (arg ! 1) (arg ! 2) (arg ! 3) tracking_id S)
      else if strcasecmp (arg ! 0) ''TRACKING'' = 0 then
        (if strcasecmp (arg ! 1) ''ON'' = 0 then
           (case tracking_enable S of (S, b) \<Rightarrow> reply E c (''OK'' @ [NL]) (set_tracking b S))
         else if strcasecmp (arg ! 1) ''OFF'' = 0 then
           reply E c (''OK'' @ [NL]) (fst (tracking_disable (set_tracking False S)))
         else send_err E c ''INVALID-ARGUMENT'' S)
      else send_err E c ''INVALID-ARGUMENT'' S)"

section \<open>INSTCMD\<close>

definition send_instcmd ::
  "os \<Rightarrow> nat \<Rightarrow> cstr \<Rightarrow> cstr \<Rightarrow> cstr option \<Rightarrow> cstr \<Rightarrow> upsd \<Rightarrow> upsd" where
  "send_instcmd E c upsname cmdname val_opt tracking_id S =
     (case get_ups_ptr S upsname of
        None \<Rightarrow> send_err E c ''UNKNOWN-UPS'' S
      | Some i \<Rightarrow>
          (case ups_available E i c S of (S, False) \<Rightarrow> S
           | (S, True) \<Rightarrow>
               (if \<not> list_ex (\<lambda>name. strcasecmp name cmdname = 0) (sstate_getcmdlist (the_ups S i))
                then send_err E c ''CMD-NOT-SUPPORTED'' S
                else if \<not> client_may_instcmd S c cmdname
                then send_err E c ''ACCESS-DENIED'' S
                else
                  (let sockcmd = snprintf SMALLBUF (''INSTCMD '' @ cmdname);
                       sockcmd = (case val_opt of None \<Rightarrow> sockcmd
                         | Some v \<Rightarrow> snprintfcat sockcmd SMALLBUF ('' '' @ pconf_encode v SMALLBUF))
                   in send_tracked E c i sockcmd tracking_id ''INSTCMD-FAILED'' S))))"

definition net_instcmd :: "os \<Rightarrow> nat \<Rightarrow> cstr list \<Rightarrow> upsd \<Rightarrow> upsd" where
  "net_instcmd E c arg S =
     (let numarg = length arg in
      if numarg < 2 then send_err E c ''INVALID-ARGUMENT'' S
      else
        (let cmdparam = (if numarg = 3 then Some (arg ! 2) else None) in
         case new_tracking_id E c S of (S, tracking_id) \<Rightarrow>
           send_instcmd E c (arg ! 0) (arg ! 1) cmdparam tracking_id S))"

end
