(* ===== verification/NetList.thy ===== *)
theory NetList
  imports NetGet
begin

text \<open>server/netlist.c: the LIST requests, which stop at the first line that cannot be sent.\<close>

text \<open>Sending a sequence of lines, stopping at the first failure.\<close>

fun send_lines :: "os \<Rightarrow> nat \<Rightarrow> cstr list \<Rightarrow> upsd \<Rightarrow> upsd \<times> bool" where
  "send_lines E c [] S = (S, True)"
| "send_lines E c (msg # msgs) S =
     (case sendback E c msg S of (S, False) \<Rightarrow> (S, False) | (S, True) \<Rightarrow> send_lines E c msgs S)"

fun tree_dump :: "os \<Rightarrow> nat \<Rightarrow> st_tree \<Rightarrow> cstr \<Rightarrow> bool \<Rightarrow> bool \<Rightarrow> upsd \<Rightarrow> upsd \<times> bool" where
  "tree_dump E c Leaf upsname rw fsd S = (S, True)"
| "tree_dump E c (Node l node r) upsname rw fsd S =
     (case tree_dump E c l upsname rw fsd S of
        (S, False) \<Rightarrow> (S, False)
      | (S, True) \<Rightarrow>
          (case (if rw then
                   (if has_flag (n_flags node) ST_FLAG_RW
                    then sendback E c (''RW '' @ upsname @ '' '' @ n_var node @ '' '' @ quoted (n_val node) @ [NL]) S
                    else (S, True))
                 else if fsd \<and> strcasecmp (n_var node) ''ups.status'' = 0
                 then sendback E c (''VAR '' @ upsname @ '' '' @ n_var node @ '' '' @ quoted (''FSD '' @ n_val node) @ [NL]) S
                 else sendback E c (''VAR '' @ upsname @ '' '' @ n_var node @ '' '' @ quoted (n_val node) @ [NL]) S) of
             (S, False) \<Rightarrow> (S, False)
           | (S, True) \<Rightarrow> tree_dump E c r upsname rw fsd S))"

text \<open>The frame around a list: the BEGIN line, the entries, the END line.\<close>

definition send_list :: "os \<Rightarrow> nat \<Rightarrow> cstr \<Rightarrow> (upsd \<Rightarrow> upsd \<times> bool) \<Rightarrow> upsd \<Rightarrow> upsd" where
  "send_list E c what body S =
     (case sendback E c (''BEGIN LIST '' @ what @ [NL]) S of
        (S, False) \<Rightarrow> S
      | (S, True) \<Rightarrow>
          (case body S of
             (S, False) \<Rightarrow> S
           | (S, True) \<Rightarrow> reply E c (''END LIST '' @ what @ [NL]) S))"

definition list_rw :: "os \<Rightarrow> nat \<Rightarrow> cstr \<Rightarrow> upsd \<Rightarrow> upsd" where
  "list_rw E c upsname S =
     (case get_ups_ptr S upsname of
        None \<Rightarrow> send_err E c ''UNKNOWN-UPS'' S
      | Some i \<Rightarrow>
          (case ups_available E i c S of (S, False) \<Rightarrow> S
           | (S, True) \<Rightarrow>
               send_list E c (''RW '' @ upsname)
                 (tree_dump E c (u_inforoot (the_ups S i)) upsname True (u_fsd (the_ups S i))) S))"

definition list_var :: "os \<Rightarrow> nat \<Rightarrow> cstr \<Rightarrow> upsd \<Rightarrow> upsd" where
  "list_var E c upsname S =
     (case get_ups_ptr S upsname of
        None \<Rightarrow> send_err E c ''UNKNOWN-UPS'' S
      | Some i \<Rightarrow>
          (case ups_available E i c S of (S, False) \<Rightarrow> S
           | (S, True) \<Rightarrow>
               send_list E c (''VAR '' @ upsname)
                 (tree_dump E c (u_inforoot (the_ups S i)) upsname False (u_fsd (the_ups S i))) S))"

definition list_cmd :: "os \<Rightarrow> nat \<Rightarrow> cstr \<Rightarrow> upsd \<Rightarrow> upsd" where
  "list_cmd E c upsname S =
     (case get_ups_ptr S upsname of
        None \<Rightarrow> send_err E c ''UNKNOWN-UPS'' S
      | Some i \<Rightarrow>
          (case ups_available E i c S of (S, False) \<Rightarrow> S
           | (S, True) \<Rightarrow>
               send_list E c (''CMD '' @ upsname)
                 (send_lines E c
                   (map (\<lambda>name. ''CMD '' @ upsname @ '' '' @ name @ [NL]) (u_cmdlist (the_ups S i)))) S))"

definition list_enum :: "os \<Rightarrow> nat \<Rightarrow> cstr \<Rightarrow> cstr \<Rightarrow> upsd \<Rightarrow> upsd" where
  "list_enum E c upsname var S =
     (case get_ups_ptr S upsname of
        None \<Rightarrow> send_err E c ''UNKNOWN-UPS'' S
      | Some i \<Rightarrow>
          (case ups_available E i c S of (S, False) \<Rightarrow> S
           | (S, True) \<Rightarrow>
               (case sstate_getnode (the_ups S i) var of
                  None \<Rightarrow> send_err E c ''VAR-NOT-SUPPORTED'' S
                | Some node \<Rightarrow>
                    send_list E c (''ENUM '' @ upsname @ '' '' @ var)
                      (send_lines E c
                        (map (\<lambda>e. ''ENUM '' @ upsname @ '' '' @ var @ '' '' @ quoted e @ [NL])
                          (n_enum_list node))) S)))"

definition list_range :: "os \<Rightarrow> nat \<Rightarrow> cstr \<Rightarrow> cstr \<Rightarrow> upsd \<Rightarrow> upsd" where
  "list_range E c upsname var S =
     (case get_ups_ptr S upsname of
        None \<Rightarrow> send_err E c ''UNKNOWN-UPS'' S
      | Some i \<Rightarrow>
          (case ups_available E i c S of (S, False) \<Rightarrow> S
           | (S, True) \<Rightarrow>
               (case sstate_getnode (the_ups S i) var of
                  None \<Rightarrow> send_err E c ''VAR-NOT-SUPPORTED'' S
                | Some node \<Rightarrow>
                    send_list E c (''RANGE '' @ upsname @ '' '' @ var)
                      (send_lines E c
                        (map (\<lambda>(mn, mx). ''RANGE '' @ upsname @ '' '' @ var @ '' '' @
                             quoted (show_int mn) @ '' '' @ quoted (show_int mx) @ [NL])
                          (n_range_list node))) S)))"

definition list_ups :: "os \<Rightarrow> nat \<Rightarrow> upsd \<Rightarrow> upsd" where
  "list_ups E c S =
     send_list E c ''UPS''
       (send_lines E c
         (map (\<lambda>u. ''UPS '' @ u_name u @ '' '' @
             quoted (case u_desc u of Some d \<Rightarrow> pconf_encode d SMALLBUF
                     | None \<Rightarrow> ''Description unavailable'') @ [NL])
           (sd_firstups S))) S"

definition list_clients :: "os \<Rightarrow> nat \<Rightarrow> cstr \<Rightarrow> upsd \<Rightarrow> upsd" where
  "list_clients E c upsname S =
     (case get_ups_ptr S upsname of
        None \<Rightarrow> send_err E c ''UNKNOWN-UPS'' S
      | Some i \<Rightarrow>
          send_list E c (''CLIENT '' @ upsname)
            (send_lines E c
              (concat (map (\<lambda>k. case c_loginups k of
                   None \<Rightarrow> []
                 | Some name \<Rightarrow>
                     (if strcasecmp name (u_name (the_ups S i)) = 0
                      then [''CLIENT '' @ name @ '' '' @ c_addr k @ [NL]] else []))
                (sd_firstclient S)))) S)"

definition net_list :: "os \<Rightarrow> nat \<Rightarrow> cstr list \<Rightarrow> upsd \<Rightarrow> upsd" where
  "net_list E c arg S =
     (let numarg = length arg; is_sub = (\<lambda>v. strcasecmp (arg ! 0) v = 0) in
      if numarg < 1 then send_err E c ''INVALID-ARGUMENT'' S
      else if is_sub ''UPS'' then list_ups E c S
      else if numarg < 2 then send_err E c ''INVALID-ARGUMENT'' S
      else if is_sub ''VAR'' then list_var E c (arg ! 1) S
      else if is_sub ''RW'' then list_rw E c (arg ! 1) S
      else if is_sub ''CMD'' then list_cmd E c (arg ! 1) S
      else if is_sub ''CLIENT'' then list_clients E c (arg ! 1) S
      else if numarg < 3 then send_err E c ''INVALID-ARGUMENT'' S
      else if is_sub ''ENUM'' then list_enum E c (arg ! 1) (arg ! 2) S
      else if is_sub ''RANGE'' then list_range E c (arg ! 1) (arg ! 2) S
      else send_err E c ''INVALID-ARGUMENT'' S)"

end
