(* ===== verification/UpsConf.thy ===== *)
theory UpsConf
  imports ConfFile
begin

text \<open>
  common/upsconf.c: reading ups.conf.  The program supplies do_upsconf_args(), a function
  on its own state; the static variable ups_section is threaded beside that state.
\<close>

type_synonym 's upsconf_cb = "cstr option \<Rightarrow> cstr \<Rightarrow> cstr option \<Rightarrow> 's \<Rightarrow> 's"

definition conf_args ::
  "'s upsconf_cb \<Rightarrow> cstr list \<Rightarrow> cstr option \<times> 's \<Rightarrow> cstr option \<times> 's" where
  "conf_args do_upsconf_args arg st =
     (case st of (ups_section, s) \<Rightarrow>
        let numargs = length arg; a0 = arg ! 0 in
        if numargs < 1 then st
        else if a0 \<noteq> [] \<and> hd a0 = CHR ''['' \<and> last a0 = CHR '']'' then (Some (tl (butlast a0)), s)
        else if numargs = 1 then (ups_section, do_upsconf_args ups_section a0 None s)
        else if numargs < 3 then st
        else if arg ! 1 = ''='' then (ups_section, do_upsconf_args ups_section a0 (Some (arg ! 2)) s)
        else st)"

definition upsconf_line ::
  "'s upsconf_cb \<Rightarrow> cstr list option \<Rightarrow> cstr option \<times> 's \<Rightarrow> cstr option \<times> 's" where
  "upsconf_line do_upsconf_args line st =
     (case line of None \<Rightarrow> st | Some arg \<Rightarrow> conf_args do_upsconf_args arg st)"

text \<open>None when fatalx() ends the process; else the return value and the state.\<close>

definition read_upsconf ::
  "'s upsconf_cb \<Rightarrow> bool \<Rightarrow> pconf_ctx \<Rightarrow> cstr \<Rightarrow> cstr + cstr \<Rightarrow> 's \<Rightarrow> (int \<times> 's) option" where
  "read_upsconf do_upsconf_args fatal_errors ctx0 confpath opened s =
     (let fn = snprintf 4097 (confpath @ ''/ups.conf'') in
      case pconf_file_begin (pconf_init ctx0) fn opened of
        (ctx, False) \<Rightarrow> (if fatal_errors then None else Some (-1, s))
      | (ctx, True) \<Rightarrow>
          Some (1, snd (snd (pconf_file_iter (upsconf_line do_upsconf_args) ctx (None, s)))))"

text \<open>What every callback preserves is preserved by reading the file.\<close>

lemma conf_args_inv:
  assumes "\<And>sec var val s. P s \<Longrightarrow> P (cb sec var val s)" "P (snd st)"
  shows "P (snd (conf_args cb arg st))"
  using assms by (cases st) (simp add: conf_args_def Let_def)

lemma read_upsconf_inv:
  assumes "\<And>sec var val s. P s \<Longrightarrow> P (cb sec var val s)" "P s"
    "read_upsconf cb fatal ctx0 confpath opened s = Some (r, s')"
  shows "P s'"
proof -
  have line: "P (snd st) \<Longrightarrow> P (snd (upsconf_line cb l st))" for l st
    using conf_args_inv [of P cb] assms(1) by (auto simp: upsconf_line_def split: option.split)
  have "P (snd (snd (pconf_file_iter (upsconf_line cb) ctx (None, s))))" for ctx
    by (rule pconf_file_iter_inv [where P = "\<lambda>st. P (snd st)"]) (use line assms(2) in auto)
  then show ?thesis
    using assms(2,3) by (auto simp: read_upsconf_def Let_def split: prod.splits bool.splits if_splits)
qed

end
