(* ===== verification/UpsdConf.thy ===== *)
theory UpsdConf
  imports SState UpsConf StrLib
begin

text \<open>
  server/conf.c: upsd.conf and ups.conf, the table of configured UPSes and the reload on
  SIGHUP.  Functions that may end the process through fatalx() return an option.
\<close>

section \<open>UPS entries\<close>

definition new_ups :: "pconf_ctx \<Rightarrow> cstr \<Rightarrow> cstr \<Rightarrow> cstr option \<Rightarrow> ups" where
  "new_ups ctx0 fn name desc =
     \<lparr>u_name = name, u_fn = fn, u_desc = desc, u_sock_fd = 0, u_stale = True, u_dumpdone = False,
      u_data_ok = False, u_last_heard = 0, u_last_ping = 0, u_last_connfail = 0,
      u_sock_ctx = ctx0, u_inforoot = Leaf, u_cmdlist = [], u_numlogins = 0, u_fsd = False,
      u_retain = True\<rparr>"

text \<open>
  ups_create() links the entry in after connecting; here it is linked in first, which
  nothing in between can see.
\<close>

definition ups_create :: "os \<Rightarrow> pconf_ctx \<Rightarrow> cstr \<Rightarrow> cstr \<Rightarrow> cstr option \<Rightarrow> upsd \<Rightarrow> upsd" where
  "ups_create E ctx0 fn name desc S =
     (if list_ex (\<lambda>u. strcasecmp (u_name u) name = 0) (sd_firstups S) then S
      else
        (let S = S\<lparr>sd_firstups := new_ups ctx0 fn name desc # sd_firstups S\<rparr> in
         case sstate_connect E 0 S of (S, fd) \<Rightarrow>
         case do_time E S of (S, now) \<Rightarrow>
           with_ups 0 (\<lambda>u. u\<lparr>u_sock_fd := fd, u_last_heard := now\<rparr>) S))"

definition ups_redefine :: "cstr \<Rightarrow> cstr option \<Rightarrow> ups \<Rightarrow> ups" where
  "ups_redefine fn desc u =
     (let u = (if u_fn u \<noteq> fn
               then (sstate_cmdfree (sstate_infofree u))
                 \<lparr>u_sock_ctx := pconf_finish (u_sock_ctx u), u_sock_fd := ERROR_FD,
                  u_dumpdone := False, u_fn := fn\<rparr>
               else u)
      in u\<lparr>u_desc := desc, u_retain := True\<rparr>)"

definition ups_update :: "cstr \<Rightarrow> cstr \<Rightarrow> cstr option \<Rightarrow> upsd \<Rightarrow> upsd" where
  "ups_update fn name desc S =
     (case get_ups_ptr S name of
        None \<Rightarrow> S
      | Some i \<Rightarrow> with_ups i (ups_redefine fn desc) S)"

section \<open>upsd.conf\<close>

definition parse_boolean :: "cstr \<Rightarrow> bool option" where
  "parse_boolean arg =
     (if list_ex (\<lambda>v. strcasecmp arg v = 0) [''true'', ''on'', ''yes'', ''1''] then Some True
      else if list_ex (\<lambda>v. strcasecmp arg v = 0) [''false'', ''off'', ''no'', ''0''] then Some False
      else None)"

definition starts_digit :: "cstr \<Rightarrow> bool" where
  "starts_digit s \<longleftrightarrow> s \<noteq> [] \<and> isdigit (hd s)"

text \<open>A flag given as a number or as a boolean word.\<close>

definition conf_flag :: "cstr \<Rightarrow> bool option" where
  "conf_flag arg = (if starts_digit arg then Some (atoi arg \<noteq> 0) else parse_boolean arg)"

definition with_conf :: "(upsd_conf \<Rightarrow> upsd_conf) \<Rightarrow> upsd \<Rightarrow> upsd" where
  "with_conf f S = S\<lparr>sd_conf := f (sd_conf S)\<rparr>"

definition parse_upsd_conf_args :: "os \<Rightarrow> cstr list \<Rightarrow> upsd \<Rightarrow> upsd \<times> bool" where
  "parse_upsd_conf_args E arg S =
     (let numargs = length arg; a0 = arg ! 0; a1 = arg ! 1 in
      if numargs < 2 then (S, False)
      else if strcasecmp a0 ''DEBUG_MIN'' = 0 then
        ((case str_to_int (Some a1) 10 of
            Inr lvl \<Rightarrow> (if 0 \<le> lvl then with_conf (\<lambda>f. f\<lparr>cf_debug_level_global := lvl\<rparr>) S else S)
          | Inl e \<Rightarrow> S), True)
      else if a0 = ''MAXAGE'' then
        (if starts_digit a1 then (S\<lparr>sd_maxage := atoi a1\<rparr>, True) else (S, False))
      else if a0 = ''TRACKINGDELAY'' then
        (if starts_digit a1 then (S\<lparr>sd_tracking_delay := atoi a1\<rparr>, True) else (S, False))
      else if a0 = ''ALLOW_NO_DEVICE'' then
        (case conf_flag a1 of Some b \<Rightarrow> (with_conf (\<lambda>f. f\<lparr>cf_allow_no_device := b\<rparr>) S, True)
         | None \<Rightarrow> (S, False))
      else if a0 = ''ALLOW_NOT_ALL_LISTENERS'' then
        (case conf_flag a1 of Some b \<Rightarrow> (with_conf (\<lambda>f. f\<lparr>cf_allow_not_all_listeners := b\<rparr>) S, True)
         | None \<Rightarrow> (S, False))
      else if a0 = ''MAXCONN'' then
        (if starts_digit a1
         then (with_conf (\<lambda>f. f\<lparr>cf_maxconn := nat (atol a1 mod 2 ^ 64)\<rparr>) S, True) else (S, False))
      else if a0 = ''STATEPATH'' then
        (with_conf (\<lambda>f. f\<lparr>cf_statepath :=
            (case cf_env_statepath f of Some sp \<Rightarrow> Some sp | None \<Rightarrow> Some a1)\<rparr>) S, True)
      else if a0 = ''DATAPATH'' then (with_conf (\<lambda>f. f\<lparr>cf_datapath := Some a1\<rparr>) S, True)
      else if a0 = ''ACCEPT'' \<or> a0 = ''REJECT'' then (S, True)
      else if a0 = ''LISTEN'' then
        (listen_add a1 (if numargs < 3 then bld_PORT E else arg ! 2) S, True)
      else if numargs < 3 then (S, False)
      else if a0 = ''ACL'' then (S, True)
      else (S, False))"

definition upsd_conf_line :: "os \<Rightarrow> cstr list option \<Rightarrow> upsd \<Rightarrow> upsd" where
  "upsd_conf_line E line S =
     (case line of None \<Rightarrow> S
      | Some arg \<Rightarrow> (if length arg < 1 then S else fst (parse_upsd_conf_args E arg S)))"

definition load_upsdconf :: "os \<Rightarrow> pconf_ctx \<Rightarrow> bool \<Rightarrow> upsd \<Rightarrow> upsd option" where
  "load_upsdconf E ctx0 reloading S =
     (let fn = snprintf NUT_PATH_MAX (bld_CONFPATH E @ ''/upsd.conf'') in
      case do_file E fn S of (S, opened) \<Rightarrow>
      case pconf_file_begin (pconf_init ctx0) fn opened of
        (ctx, False) \<Rightarrow> (if reloading then Some S else None)
      | (ctx, True) \<Rightarrow>
          (let S = (if reloading then with_conf (\<lambda>f. f\<lparr>cf_debug_level_global := -1\<rparr>) S else S);
               S = snd (pconf_file_iter (upsd_conf_line E) ctx S)
           in Some (if reloading then
                      with_conf (\<lambda>f. f\<lparr>cf_debug_level :=
                        (if -1 < cf_debug_level_global f then cf_debug_level_global f
                         else cf_debug_level_args f)\<rparr>) S
                    else S)))"

section \<open>ups.conf\<close>

definition upsentry_set :: "cstr \<Rightarrow> cstr option \<Rightarrow> upsentry \<Rightarrow> upsentry" where
  "upsentry_set var val t =
     (if var = ''driver'' then t\<lparr>ut_driver := val\<rparr>
      else if var = ''port'' then t\<lparr>ut_port := val\<rparr>
      else if var = ''desc'' then t\<lparr>ut_desc := val\<rparr>
      else t)"

text \<open>
  The callback of read_upsconf().  STATEPATH without a value hands NULL to setenv(), which
  is undefined; the model then leaves the path unset.
\<close>

definition do_upsconf_args :: "upsd upsconf_cb" where
  "do_upsconf_args upsname var val S =
     (case upsname of
        None \<Rightarrow>
          (if strcasecmp var ''STATEPATH'' = 0 then
             with_conf (\<lambda>f. let sp = (case cf_env_statepath f of Some sp \<Rightarrow> Some sp | None \<Rightarrow> val)
                            in f\<lparr>cf_statepath := sp, cf_env_statepath := sp\<rparr>) S
           else S)
      | Some name \<Rightarrow>
          (let tab = (if list_ex (\<lambda>t. ut_upsname t = name) (sd_upstable S) then sd_upstable S
                      else \<lparr>ut_upsname = name, ut_driver = None, ut_port = None, ut_desc = None\<rparr>
                             # sd_upstable S)
           in case find_idx (\<lambda>t. ut_upsname t = name) tab of
                None \<Rightarrow> S
              | Some k \<Rightarrow> S\<lparr>sd_upstable := tab[k := upsentry_set var val (tab ! k)]\<rparr>))"

definition upsconf_entry :: "os \<Rightarrow> pconf_ctx \<Rightarrow> bool \<Rightarrow> upsentry \<Rightarrow> upsd \<Rightarrow> upsd" where
  "upsconf_entry E ctx0 reloading t S =
     (case (ut_driver t, ut_port t) of
        (Some driver, Some port) \<Rightarrow>
          (let statefn = snprintf NUT_PATH_MAX (driver @ ''-'' @ ut_upsname t) in
           if reloading \<and> get_ups_ptr S (ut_upsname t) \<noteq> None
           then ups_update statefn (ut_upsname t) (ut_desc t) S
           else ups_create E ctx0 statefn (ut_upsname t) (ut_desc t) S)
      | _ \<Rightarrow> S)"

definition upsconf_add :: "os \<Rightarrow> pconf_ctx \<Rightarrow> bool \<Rightarrow> upsd \<Rightarrow> upsd" where
  "upsconf_add E ctx0 reloading S =
     (if sd_upstable S = [] then S
      else (fold (upsconf_entry E ctx0 reloading) (sd_upstable S) S)\<lparr>sd_upstable := []\<rparr>)"

section \<open>Reload\<close>

definition delete_ups :: "nat \<Rightarrow> upsd \<Rightarrow> upsd" where
  "delete_ups i S =
     (let S = kick_login_clients (u_name (the_ups S i)) S
      in S\<lparr>sd_firstups := remove_nth i (sd_firstups S)\<rparr>)"

lemma with_ups_fields2 [simp]:
  "sd_firstaddr (with_ups i f S) = sd_firstaddr S"
  by (simp add: with_ups_def)

lemma declogins_length [simp]:
  "length (sd_firstups (declogins name S)) = length (sd_firstups S)"
  by (simp add: declogins_def split: option.split)

lemma client_disconnect_length [simp]:
  "length (sd_firstups (client_disconnect c S)) = length (sd_firstups S)"
  by (simp add: client_disconnect_def Let_def split: option.split)

lemma kick_loop_length: "length (sd_firstups (kick_loop name c S)) = length (sd_firstups S)"
  by (induction name c S rule: kick_loop.induct) (subst kick_loop.simps, simp)

function purge_loop :: "nat \<Rightarrow> upsd \<Rightarrow> upsd" where
  "purge_loop i S =
     (if length (sd_firstups S) \<le> i then S
      else if \<not> u_retain (the_ups S i) then purge_loop i (delete_ups i S)
      else purge_loop (Suc i) S)"
  by pat_completeness auto
termination
  by (relation "measure (\<lambda>(i, S). length (sd_firstups S) - i)")
    (auto simp: delete_ups_def kick_login_clients_def kick_loop_length length_remove_nth Let_def)

declare purge_loop.simps [simp del]

definition check_file :: "os \<Rightarrow> cstr \<Rightarrow> upsd \<Rightarrow> upsd \<times> bool" where
  "check_file E fn S =
     (case do_file E (snprintf NUT_PATH_MAX (bld_CONFPATH E @ ''/'' @ fn)) S of
        (S, Inl e) \<Rightarrow> (S, False) | (S, Inr bytes) \<Rightarrow> (S, True))"

definition conf_reload :: "os \<Rightarrow> pconf_ctx \<Rightarrow> upsd \<Rightarrow> upsd option" where
  "conf_reload E ctx0 S =
     (case check_file E ''upsd.conf'' S of
        (S, False) \<Rightarrow> Some S
      | (S, True) \<Rightarrow>
          (let S = S\<lparr>sd_firstups := map (\<lambda>u. u\<lparr>u_retain := False\<rparr>) (sd_firstups S)\<rparr> in
           case do_file E (snprintf (NUT_PATH_MAX + 1) (bld_CONFPATH E @ ''/ups.conf'')) S of (S, opened) \<Rightarrow>
           case read_upsconf do_upsconf_args True ctx0 (bld_CONFPATH E) opened S of
             None \<Rightarrow> None
           | Some (r, S) \<Rightarrow>
               (case load_upsdconf E ctx0 True (upsconf_add E ctx0 True S) of
                  None \<Rightarrow> None
                | Some S \<Rightarrow>
                    (case check_file E ''upsd.users'' (purge_loop 0 S) of
                       (S, False) \<Rightarrow> Some S
                     | (S, True) \<Rightarrow>
                         (case do_file E (snprintf NUT_PATH_MAX (bld_CONFPATH E @ ''/upsd.users'')) S of (S, opened) \<Rightarrow>
                            Some (S\<lparr>sd_users := user_load ctx0 opened (user_flush (sd_users S))\<rparr>))))))"

end
