(* ===== verification/Upsd.thy ===== *)
theory Upsd
  imports NetSet NetList UpsdConf
begin

text \<open>
  server/upsd.c with server/netcmds.h: the table of requests, the access check, reading a
  client and one turn of the main loop (the build for POSIX systems).
\<close>

section \<open>Requests\<close>

definition FLAG_USER :: nat where "FLAG_USER = 1"

type_synonym net_handler = "os \<Rightarrow> nat \<Rightarrow> cstr list \<Rightarrow> upsd \<Rightarrow> upsd"

definition netcmds :: "(cstr \<times> net_handler \<times> nat) list" where
  "netcmds =
    [(''VER'', net_ver, 0), (''NETVER'', net_netver, 0), (''PROTVER'', net_netver, 0),
     (''HELP'', net_help, 0), (''STARTTLS'', net_starttls, 0),
     (''GET'', net_get, 0), (''LIST'', net_list, 0),
     (''USERNAME'', net_username, 0), (''PASSWORD'', net_password, 0),
     (''LOGIN'', net_login, FLAG_USER), (''LOGOUT'', net_logout, 0),
     (''PRIMARY'', net_primary, FLAG_USER), (''MASTER'', net_master, FLAG_USER),
     (''FSD'', net_fsd, FLAG_USER), (''SET'', net_set, FLAG_USER),
     (''INSTCMD'', net_instcmd, FLAG_USER)]"

definition check_command :: "os \<Rightarrow> nat \<Rightarrow> nat \<Rightarrow> cstr list \<Rightarrow> upsd \<Rightarrow> upsd" where
  "check_command E cmdnum c arg S =
     (case netcmds ! cmdnum of (name, func, flags) \<Rightarrow>
        if flags = FLAG_USER \<and> c_username (the_client S c) = None
        then send_err E c ''USERNAME-REQUIRED'' S
        else if flags = FLAG_USER \<and> c_password (the_client S c) = None
        then send_err E c ''PASSWORD-REQUIRED'' S
        else func E c (tl arg) S)"

definition find_netcmd :: "cstr \<Rightarrow> nat option" where
  "find_netcmd verb = find_idx (\<lambda>(name, func, flags). strcasecmp name verb = 0) netcmds"

definition parse_net :: "os \<Rightarrow> nat \<Rightarrow> upsd \<Rightarrow> upsd" where
  "parse_net E c S =
     (let args = pconf_args (c_ctx (the_client S c)) in
      if length args < 1 then send_err E c ''UNKNOWN-COMMAND'' S
      else case find_netcmd (hd args) of
        None \<Rightarrow> send_err E c ''UNKNOWN-COMMAND'' S
      | Some i \<Rightarrow> check_command E i c args S)"

section \<open>Reading a client\<close>

definition client_line :: "os \<Rightarrow> nat \<Rightarrow> upsd \<Rightarrow> upsd" where
  "client_line E c S =
     (case do_time E S of (S, now) \<Rightarrow>
        parse_net E c (with_client c (\<lambda>k. k\<lparr>c_last_heard := now\<rparr>) S))"

fun client_read_loop :: "os \<Rightarrow> nat \<Rightarrow> upsd \<Rightarrow> cstr \<Rightarrow> upsd" where
  "client_read_loop E c S [] = S"
| "client_read_loop E c S (b # bs) =
     (case pconf_char (c_ctx (the_client S c)) b of (ctx, r) \<Rightarrow>
        let S = with_client c (\<lambda>k. k\<lparr>c_ctx := ctx\<rparr>) S in
        if r = 1 then client_read_loop E c (client_line E c S) bs
        else if r = 0 then client_read_loop E c S bs
        else S)"

text \<open>The flag says whether the client has been disconnected.\<close>

definition client_readline :: "os \<Rightarrow> nat \<Rightarrow> upsd \<Rightarrow> upsd \<times> bool" where
  "client_readline E c S =
     (case do_read E (c_sock_fd (the_client S c)) S of
        (S, ReadBytes bytes) \<Rightarrow>
          (if bytes = [] then (client_disconnect c S, True)
           else (client_read_loop E c S (take SMALLBUF bytes), False))
      | (S, _) \<Rightarrow> (client_disconnect c S, True))"

section \<open>The main loop\<close>

text \<open>
  The handler array: the kind of a descriptor and a pointer, here an index.  A client that
  is disconnected while the array is worked through moves the clients behind it, so the
  entries that are left are retargeted; a new client is put in front of all others.
\<close>

datatype handler = DRIVER nat | CLIENT nat | SERVER nat

type_synonym pollset = "(handler \<times> int) list"

definition scan_driver :: "os \<Rightarrow> nat \<Rightarrow> pollset \<times> upsd \<Rightarrow> pollset \<times> upsd" where
  "scan_driver E i st =
     (case st of (fds, S) \<Rightarrow>
        if cf_maxconn (sd_conf S) \<le> length fds then (fds, S)
        else if \<not> valid_fd (u_sock_fd (the_ups S i)) then
          (case sstate_connect E i S of (S, fd) \<Rightarrow> (fds, with_ups i (\<lambda>u. u\<lparr>u_sock_fd := fd\<rparr>) S))
        else
          (case sstate_dead E i (sd_maxage S) S of (S, dead) \<Rightarrow>
             let S = (if dead then ups_data_stale i S else ups_data_ok i S)
             in (fds @ [(DRIVER i, u_sock_fd (the_ups S i))], S)))"

definition CLIENT_INACTIVITY :: int where "CLIENT_INACTIVITY = 60"

function scan_clients :: "int \<Rightarrow> nat \<Rightarrow> pollset \<Rightarrow> upsd \<Rightarrow> pollset \<times> upsd" where
  "scan_clients now c fds S =
     (if length (sd_firstclient S) \<le> c then (fds, S)
      else if CLIENT_INACTIVITY < now - c_last_heard (the_client S c)
      then scan_clients now c fds (client_disconnect c S)
      else if cf_maxconn (sd_conf S) \<le> length fds then scan_clients now (Suc c) fds S
      else scan_clients now (Suc c) (fds @ [(CLIENT c, c_sock_fd (the_client S c))]) S)"
  by pat_completeness auto
termination
proof (relation "measure (\<lambda>(now, c, fds, S). length (sd_firstclient S) - c)", goal_cases)
  case 1
  show ?case by simp
next
  case (2 now c fds S)
  then show ?case
    by (auto simp: client_disconnect_def declogins_def Let_def length_remove_nth split: option.split)
next
  case (3 now c fds S)
  then show ?case by auto
next
  case (4 now c fds S)
  then show ?case by auto
qed

declare scan_clients.simps [simp del]

definition scan_server :: "nat \<Rightarrow> pollset \<times> upsd \<Rightarrow> pollset \<times> upsd" where
  "scan_server s st =
     (case st of (fds, S) \<Rightarrow>
        let fd = l_sock_fd (sd_firstaddr S ! s) in
        if cf_maxconn (sd_conf S) \<le> length fds \<or> fd < 0 then (fds, S)
        else (fds @ [(SERVER s, fd)], S))"

definition mainloop_scan :: "os \<Rightarrow> int \<Rightarrow> upsd \<Rightarrow> pollset \<times> upsd" where
  "mainloop_scan E now S =
     (case fold (scan_driver E) [0..<length (sd_firstups S)] ([], S) of (fds, S) \<Rightarrow>
      case scan_clients now 0 fds S of (fds, S) \<Rightarrow>
        fold scan_server [0..<length (sd_firstaddr S)] (fds, S))"

definition client_gone :: "nat \<Rightarrow> handler \<Rightarrow> handler" where
  "client_gone c h = (case h of CLIENT k \<Rightarrow> CLIENT (if c < k then k - 1 else k) | _ \<Rightarrow> h)"

definition client_pushed :: "handler \<Rightarrow> handler" where
  "client_pushed h = (case h of CLIENT k \<Rightarrow> CLIENT (Suc k) | _ \<Rightarrow> h)"

text \<open>One ready descriptor; the result tells how the handlers that are left move.\<close>

definition handle_event ::
  "os \<Rightarrow> pconf_ctx \<Rightarrow> handler \<Rightarrow> revents \<Rightarrow> upsd \<Rightarrow> upsd \<times> (handler \<Rightarrow> handler)" where
  "handle_event E ctx0 h ev S =
     (case (ev, h) of
        (PollQuiet, _) \<Rightarrow> (S, id)
      | (PollHup, DRIVER i) \<Rightarrow> (sstate_disconnect i S, id)
      | (PollHup, CLIENT c) \<Rightarrow> (client_disconnect c S, client_gone c)
      | (PollHup, SERVER s) \<Rightarrow> (S, id)
      | (PollIn, DRIVER i) \<Rightarrow> (sstate_readline E i S, id)
      | (PollIn, CLIENT c) \<Rightarrow>
          (case client_readline E c S of (S, gone) \<Rightarrow> (S, if gone then client_gone c else id))
      | (PollIn, SERVER s) \<Rightarrow>
          (let S' = client_connect E ctx0 s S
           in (S', if length (sd_firstclient S) < length (sd_firstclient S') then client_pushed else id)))"

function dispatch :: "os \<Rightarrow> pconf_ctx \<Rightarrow> (handler \<times> revents) list \<Rightarrow> upsd \<Rightarrow> upsd" where
  "dispatch E ctx0 [] S = S"
| "dispatch E ctx0 ((h, ev) # rest) S =
     (case handle_event E ctx0 h ev S of (S, moved) \<Rightarrow>
        dispatch E ctx0 (map (apfst moved) rest) S)"
  by pat_completeness auto
termination by (relation "measure (\<lambda>(E, ctx0, evs, S). length evs)") auto

definition c_long :: "int \<Rightarrow> int" where
  "c_long x = sint (word_of_int x :: 64 word)"

text \<open>poll_reload(): the limits on MAXCONN, None when the process ends.\<close>

definition poll_reload :: "os \<Rightarrow> upsd \<Rightarrow> upsd option" where
  "poll_reload E S =
     (let maxconn = cf_maxconn (sd_conf S) in
      if os_open_max E < c_long (int maxconn) then None
      else if maxconn < 1 then None
      else if (2 ^ 64 - 1) div 8 < maxconn then None
      else Some S)"

definition mainloop_reload :: "os \<Rightarrow> pconf_ctx \<Rightarrow> upsd \<Rightarrow> upsd option" where
  "mainloop_reload E ctx0 S =
     (if \<not> sd_reload_flag S then Some S
      else case conf_reload E ctx0 S of
        None \<Rightarrow> None
      | Some S \<Rightarrow>
          (case poll_reload E S of None \<Rightarrow> None | Some S \<Rightarrow> Some (S\<lparr>sd_reload_flag := False\<rparr>)))"

definition mainloop :: "os \<Rightarrow> pconf_ctx \<Rightarrow> upsd \<Rightarrow> upsd option" where
  "mainloop E ctx0 S =
     (case do_time E S of (S, now) \<Rightarrow>
      case mainloop_reload E ctx0 S of
        None \<Rightarrow> None
      | Some S \<Rightarrow>
          (case mainloop_scan E now (tracking_cleanup E S) of (fds, S) \<Rightarrow>
             let tick = sd_tick S; S = S\<lparr>sd_tick := Suc tick\<rparr>;
                 (ret, revents) = os_poll E tick (map snd fds) in
             if ret \<le> 0 then Some S
             else Some (dispatch E ctx0 (zip (map fst fds) revents) S)))"

section \<open>Shutting down\<close>

text \<open>
  Releasing everything before the process exits.  The lists whose memory is freed become
  empty; nothing reads them afterwards.  The paths, the pid file and the poll arrays that
  upsd_cleanup() also frees are not part of the state.
\<close>

definition driver_free :: "upsd \<Rightarrow> upsd" where
  "driver_free S = S\<lparr>sd_firstups := []\<rparr>"

definition upsd_cleanup :: "upsd \<Rightarrow> upsd" where
  "upsd_cleanup S =
     (let S = S\<lparr>sd_users := user_flush (sd_users S), sd_descs := desc_free (sd_descs S)\<rparr>
      in tracking_free (driver_free (client_free (server_free S))))"

end
