(* ===== verification/Session.thy ===== *)
theory Session
  imports Upsd
begin

text \<open>
  What a request of a client can do to the server.  A relation between the states before
  and after that holds for sending one answer, and is reflexive and transitive, holds for
  every request that only reads (locale answer_closed); when it also holds for changes of
  the client's own session data, it holds for every request that needs no permission and
  leaves the switch for tracking alone (locale session_closed); when it also holds for a
  change of that switch, for SET TRACKING too (locale switch_closed).  Interpreted are here
  the confinement of a request to its own client, and later the invariant of the server, the
  FSD flags and the parser contexts of the clients.
\<close>

section \<open>Requests that only answer\<close>

locale answer_closed =
  fixes R :: "nat \<Rightarrow> upsd \<Rightarrow> upsd \<Rightarrow> bool"
  assumes refl_R: "R c S S"
    and trans_R: "R c S S' \<Longrightarrow> R c S' S'' \<Longrightarrow> R c S S''"
    and sendback_R: "R c S (fst (sendback E c msg S))"
begin

lemma reply_R: "R c S (reply E c msg S)"
  by (simp add: reply_def sendback_R)

lemma send_err_R: "R c S (send_err E c e S)"
  by (simp add: send_err_def sendback_R)

lemma available_R:
  assumes "\<And>S. R c S (f S)"
  shows "R c S (case ups_available E i c S of (S, False) \<Rightarrow> S | (S, True) \<Rightarrow> f S)"
  using assms by (simp add: ups_available_def send_err_R)

lemma send_lines_R: "R c S (fst (send_lines E c msgs S))"
proof (induction msgs arbitrary: S)
  case (Cons msg msgs)
  have "R c S (fst (send_lines E c msgs S'))" if "sendback E c msg S = (S', b)" for S' b
    using trans_R [OF sendback_R Cons.IH, of S E msg] that by simp
  moreover have "R c S S'" if "sendback E c msg S = (S', b)" for S' b
    using sendback_R [of c S E msg] that by simp
  ultimately show ?case by (auto split: prod.split bool.split)
qed (simp add: refl_R)

lemma tree_dump_R: "R c S (fst (tree_dump E c t upsname rw fsd S))"
proof (induction t arbitrary: S)
  case (Node l node r)
  obtain S1 b1 where d: "tree_dump E c l upsname rw fsd S = (S1, b1)" by fastforce
  have 1: "R c S S1" using Node(1) [of S] d by simp
  define mid where "mid = (if rw then
                   (if has_flag (n_flags node) ST_FLAG_RW
                    then sendback E c (''RW '' @ upsname @ '' '' @ n_var node @ '' '' @ quoted (n_val node) @ [NL]) S1
                    else (S1, True))
                 else if fsd \<and> strcasecmp (n_var node) ''ups.status'' = 0
                 then sendback E c (''VAR '' @ upsname @ '' '' @ n_var node @ '' '' @ quoted (''FSD '' @ n_val node) @ [NL]) S1
                 else sendback E c (''VAR '' @ upsname @ '' '' @ n_var node @ '' '' @ quoted (n_val node) @ [NL]) S1)"
  obtain S2 b2 where m: "mid = (S2, b2)" by fastforce
  have "R c S1 (fst mid)" by (simp add: mid_def refl_R sendback_R)
  then have 2: "R c S S2" using trans_R [OF 1] m by simp
  have 3: "R c S (fst (tree_dump E c r upsname rw fsd S2))" using trans_R [OF 2 Node(2)] .
  show ?case
    using 1 2 3 m by (auto simp: d simp flip: mid_def split: bool.split)
qed (simp add: refl_R)

lemma send_list_R:
  assumes "\<And>S. R c S (fst (body S))"
  shows "R c S (send_list E c what body S)"
proof -
  let ?head = "sendback E c (''BEGIN LIST '' @ what @ [NL]) S"
  obtain S1 b1 where s: "?head = (S1, b1)" by fastforce
  obtain S2 b2 where b: "body S1 = (S2, b2)" by fastforce
  have 1: "R c S S1" using sendback_R [of c S E "''BEGIN LIST '' @ what @ [NL]"] s by simp
  have 2: "R c S S2" using trans_R [OF 1 assms] b by (metis fst_conv)
  show ?thesis
    using 1 2 trans_R [OF 2 reply_R] s b by (simp add: send_list_def split: bool.split)
qed

lemma list_R:
  "R c S (list_rw E c upsname S)" "R c S (list_var E c upsname S)" "R c S (list_cmd E c upsname S)"
  "R c S (list_enum E c upsname var S)" "R c S (list_range E c upsname var S)"
  "R c S (list_ups E c S)" "R c S (list_clients E c upsname S)"
  unfolding list_rw_def list_var_def list_cmd_def list_enum_def list_range_def list_ups_def
    list_clients_def
  by (auto simp: send_err_R ups_available_def
      intro!: send_list_R tree_dump_R send_lines_R split: option.split)

lemma net_list_R: "R c S (net_list E c arg S)"
  by (simp add: net_list_def Let_def list_R send_err_R)

lemma net_get_R: "R c S (net_get E c arg S)"
  using net_get_answers_once [of E c S arg] by (auto simp: answers_def reply_R)

lemma net_misc_R:
  "R c S (net_ver E c arg S)" "R c S (net_netver E c arg S)" "R c S (net_help E c arg S)"
  "R c S (net_starttls E c arg S)" "R c S (net_primary E c arg S)" "R c S (net_master E c arg S)"
  by (auto simp: net_ver_def net_netver_def net_help_def net_starttls_def net_primary_def
      net_master_def do_net_primary_def reply_R send_err_R split: option.split)

end

section \<open>Requests on the session\<close>

text \<open>The part of a client that its requests never change.\<close>

definition same_session :: "client \<Rightarrow> client \<Rightarrow> bool" where
  "same_session k k' \<longleftrightarrow> c_addr k' = c_addr k \<and> c_sock_fd k' = c_sock_fd k \<and>
     c_loginups k' = c_loginups k \<and> c_ctx k' = c_ctx k"

locale session_closed = answer_closed +
  assumes client_R: "(\<And>k. same_session k (f k)) \<Longrightarrow> R c S (with_client c f S)"
    and clock_R: "R c S (S\<lparr>sd_tick := n\<rparr>)"
begin

lemma net_username_R: "R c S (net_username E c arg S)"
  unfolding net_username_def
  by (auto simp: same_session_def send_err_R intro!: trans_R [OF client_R reply_R])

lemma net_password_R: "R c S (net_password E c arg S)"
  unfolding net_password_def
  by (auto simp: same_session_def send_err_R intro!: trans_R [OF client_R reply_R])

lemma net_logout_R: "R c S (net_logout E c arg S)"
  unfolding net_logout_def
  by (auto simp: same_session_def send_err_R intro!: trans_R [OF reply_R client_R])

text \<open>SET TRACKING ON acts like any other request of the session on the server whose switch is on.\<close>

lemma set_switch_R:
  assumes "strcasecmp (arg ! 0) ''VAR'' \<noteq> 0"
  shows "R c S (net_set E c arg S) \<or>
    (strcasecmp (arg ! 0) ''TRACKING'' = 0 \<and> strcasecmp (arg ! 1) ''ON'' = 0 \<and> 2 \<le> length arg \<and>
     R c (S\<lparr>sd_tracking_enabled := True\<rparr>) (net_set E c arg S))"
  using assms unfolding net_set_def tracking_enable_def tracking_disable_def
  by (auto simp: Let_def same_session_def send_err_R intro!: trans_R [OF client_R reply_R])

lemma new_tracking_id_R: "R c S (fst (new_tracking_id E c S))"
  by (simp add: new_tracking_id_def nut_uuid_v4_def Let_def clock_R refl_R)

end

locale switch_closed = session_closed +
  assumes tracking_R: "R c S (S\<lparr>sd_tracking_enabled := b\<rparr>)"
begin

lemma set_tracking_R: "strcasecmp (arg ! 0) ''VAR'' \<noteq> 0 \<Longrightarrow> R c S (net_set E c arg S)"
  using set_switch_R [of arg c S E] trans_R [OF tracking_R [of c S True]] by blast

end

section \<open>Confinement\<close>

text \<open>
  The request changes nothing but the data of its own client, outside the session part,
  and writes to that client's socket only.
\<close>

definition untouched :: "upsd \<Rightarrow> upsd \<Rightarrow> bool" where
  "untouched S S' \<longleftrightarrow> sd_firstups S' = sd_firstups S \<and> sd_tracking_list S' = sd_tracking_list S \<and>
     sd_firstaddr S' = sd_firstaddr S \<and> sd_users S' = sd_users S \<and> sd_descs S' = sd_descs S \<and>
     sd_maxage S' = sd_maxage S \<and> sd_tracking_delay S' = sd_tracking_delay S \<and>
     sd_conf S' = sd_conf S \<and> sd_upstable S' = sd_upstable S \<and> sd_reload_flag S' = sd_reload_flag S \<and>
     sd_tracking_enabled S' = sd_tracking_enabled S"

definition own_client :: "nat \<Rightarrow> upsd \<Rightarrow> upsd \<Rightarrow> bool" where
  "own_client c S S' \<longleftrightarrow>
     (\<exists>k'. sd_firstclient S' = (sd_firstclient S)[c := k'] \<and> same_session (the_client S c) k')"

definition own_writes :: "nat \<Rightarrow> upsd \<Rightarrow> upsd \<Rightarrow> bool" where
  "own_writes c S S' \<longleftrightarrow>
     (\<exists>msgs. sd_wire S' = sd_wire S @ map (Pair (c_sock_fd (the_client S c))) msgs)"

definition confined :: "nat \<Rightarrow> upsd \<Rightarrow> upsd \<Rightarrow> bool" where
  "confined c S S' \<longleftrightarrow> untouched S S' \<and> own_client c S S' \<and> own_writes c S S'"

lemma untouched_refl [simp]: "untouched S S"
  by (simp add: untouched_def)

lemma same_session_refl [simp]: "same_session k k"
  by (simp add: same_session_def)

lemma own_client_refl [simp]: "own_client c S S"
  unfolding own_client_def by (intro exI [of _ "the_client S c"]) simp

lemma own_writes_refl [simp]: "own_writes c S S"
  unfolding own_writes_def by (intro exI [of _ "[]"]) simp

lemma own_client_the:
  assumes "own_client c S S'"
  shows "same_session (the_client S c) (the_client S' c)"
proof (cases "c < length (sd_firstclient S)")
  case False
  then have "sd_firstclient S' = sd_firstclient S"
    using assms by (auto simp: own_client_def list_update_beyond)
  then show ?thesis by simp
qed (use assms in \<open>auto simp: own_client_def\<close>)

lemma own_client_trans:
  assumes "own_client c S S'" "own_client c S' S''"
  shows "own_client c S S''"
proof -
  obtain k' where k': "sd_firstclient S' = (sd_firstclient S)[c := k']"
    using assms(1) by (auto simp: own_client_def)
  obtain k'' where k'': "sd_firstclient S'' = (sd_firstclient S')[c := k'']"
    "same_session (the_client S' c) k''"
    using assms(2) by (auto simp: own_client_def)
  have "sd_firstclient S'' = (sd_firstclient S)[c := k'']" using k' k'' by simp
  moreover have "same_session (the_client S c) k''"
    using own_client_the [OF assms(1)] k''(2) by (auto simp: same_session_def)
  ultimately show ?thesis by (auto simp: own_client_def)
qed

lemma own_writes_trans:
  assumes "own_client c S S'" "own_writes c S S'" "own_writes c S' S''"
  shows "own_writes c S S''"
proof -
  have "c_sock_fd (the_client S' c) = c_sock_fd (the_client S c)"
    using own_client_the [OF assms(1)] by (simp add: same_session_def)
  then show ?thesis
    using assms(2,3) by (auto simp: own_writes_def simp flip: map_append)
qed

lemma confined_trans: "confined c S S' \<Longrightarrow> confined c S' S'' \<Longrightarrow> confined c S S''"
  unfolding confined_def
  by (auto intro: own_client_trans own_writes_trans) (simp add: untouched_def)

lemma confined_client:
  assumes "\<And>k. same_session k (f k)"
  shows "confined c S (with_client c f S)"
proof -
  have "own_client c S (with_client c f S)"
    unfolding own_client_def using assms
    by (intro exI [of _ "f (the_client S c)"]) (simp add: with_client_def)
  then show ?thesis
    by (simp add: confined_def untouched_def own_writes_def with_client_def)
qed

lemma confined_clock: "confined c S (S\<lparr>sd_tick := n\<rparr>)"
  by (auto simp: confined_def untouched_def own_client_def own_writes_def same_session_def
      intro: exI [of _ "the_client S c"])

lemma confined_write:
  "confined c S (S\<lparr>sd_tick := n, sd_wire := sd_wire S @ [(c_sock_fd (the_client S c), msg)]\<rparr>)"
  by (auto simp: confined_def untouched_def own_client_def own_writes_def same_session_def
      intro: exI [of _ "the_client S c"] exI [of _ "[msg]"])

lemma confined_sendback: "confined c S (fst (sendback E c msg S))"
proof -
  let ?ans = "snprintf (NUT_NET_ANSWER_MAX + 1) msg"
  let ?S = "S\<lparr>sd_tick := Suc (sd_tick S), sd_wire := sd_wire S @ [(c_sock_fd (the_client S c), ?ans)]\<rparr>"
  have 1: "confined c S ?S" by (rule confined_write)
  have 2: "confined c ?S (with_client c (\<lambda>k. k\<lparr>c_last_heard := 0\<rparr>) ?S)"
    by (rule confined_client) (simp add: same_session_def)
  have 3: "confined c S S" by (simp add: confined_def)
  show ?thesis
    using 1 3 confined_trans [OF 1 2] by (simp add: sendback_def do_write_def Let_def)
qed

interpretation conf: session_closed confined
proof (unfold_locales, goal_cases)
  case (1 c S) then show ?case by (simp add: confined_def)
next
  case (2 c S S' S'') then show ?case by (rule confined_trans)
next
  case (3 c S E msg) then show ?case by (rule confined_sendback)
next
  case (4 f c S) then show ?case by (rule confined_client)
qed (rule confined_clock)

section \<open>Requests that need a permission\<close>

lemma net_login_denied: "\<not> client_may S c ''LOGIN'' \<Longrightarrow> confined c S (net_login E c arg S)"
  by (auto simp: net_login_def conf.send_err_R split: option.split)

lemma net_fsd_denied: "\<not> client_may S c ''FSD'' \<Longrightarrow> confined c S (net_fsd E c arg S)"
  by (auto simp: net_fsd_def conf.send_err_R split: option.split)

lemma client_may_same:
  "confined c S S' \<Longrightarrow> c_username (the_client S' c) = c_username (the_client S c) \<Longrightarrow>
   c_password (the_client S' c) = c_password (the_client S c) \<Longrightarrow>
   client_may S' c act = client_may S c act \<and> client_may_instcmd S' c cmd = client_may_instcmd S c cmd"
  by (simp add: client_may_def client_may_instcmd_def confined_def untouched_def)

lemma new_tracking_id_client [simp]:
  "sd_firstclient (fst (new_tracking_id E c S)) = sd_firstclient S"
  by (simp add: new_tracking_id_def nut_uuid_v4_def Let_def)

lemma set_var_denied:
  "\<not> client_may S c ''SET'' \<Longrightarrow> confined c S (set_var E c upsname var val tid S)"
  by (auto simp: set_var_def ups_available_def conf.send_err_R Let_def split: option.split)

text \<open>SET TRACKING ON, which the code lets any client with credentials send.\<close>

definition tracking_on :: "cstr list \<Rightarrow> bool" where
  "tracking_on arg \<longleftrightarrow> 2 \<le> length arg \<and> strcasecmp (arg ! 0) ''TRACKING'' = 0 \<and> strcasecmp (arg ! 1) ''ON'' = 0"

text \<open>Confinement up to the switch for tracking, which SET TRACKING ON turns on for all.\<close>

definition confined_or_switch :: "nat \<Rightarrow> cstr list \<Rightarrow> upsd \<Rightarrow> upsd \<Rightarrow> bool" where
  "confined_or_switch c args S S' \<longleftrightarrow> confined c S S' \<or>
     (strcasecmp ''SET'' (hd args) = 0 \<and> tracking_on (tl args) \<and>
      confined c (S\<lparr>sd_tracking_enabled := True\<rparr>) S')"

lemma net_set_denied:
  assumes "\<not> client_may S c ''SET''"
  shows "confined c S (net_set E c arg S) \<or>
    (tracking_on arg \<and> confined c (S\<lparr>sd_tracking_enabled := True\<rparr>) (net_set E c arg S))"
proof (cases "strcasecmp (arg ! 0) ''VAR'' = 0")
  case True
  obtain S1 tid where n: "new_tracking_id E c S = (S1, tid)" by fastforce
  have 1: "confined c S S1" using conf.new_tracking_id_R [of c S E] n by simp
  have "sd_firstclient S1 = sd_firstclient S" using new_tracking_id_client [of E c S] n by simp
  then have "\<not> client_may S1 c ''SET''" using client_may_same [OF 1] assms by simp
  then show ?thesis
    using True conf.trans_R [OF 1 set_var_denied] by (simp add: net_set_def n Let_def conf.send_err_R)
qed (use conf.set_switch_R [of arg c S E] in \<open>auto simp: tracking_on_def\<close>)

lemma send_instcmd_denied:
  "\<not> client_may_instcmd S c cmd \<Longrightarrow> confined c S (send_instcmd E c upsname cmd v tid S)"
  by (auto simp: send_instcmd_def ups_available_def conf.send_err_R Let_def split: option.split)

lemma net_instcmd_denied:
  assumes "2 \<le> length arg \<Longrightarrow> \<not> client_may_instcmd S c (arg ! 1)"
  shows "confined c S (net_instcmd E c arg S)"
proof (cases "length arg < 2")
  case False
  obtain S1 tid where n: "new_tracking_id E c S = (S1, tid)" by fastforce
  have 1: "confined c S S1" using conf.new_tracking_id_R [of c S E] n by simp
  have "sd_firstclient S1 = sd_firstclient S" using new_tracking_id_client [of E c S] n by simp
  then have "\<not> client_may_instcmd S1 c (arg ! 1)" using client_may_same [OF 1] assms False by simp
  then show ?thesis
    using conf.trans_R [OF 1 send_instcmd_denied] by (simp add: net_instcmd_def n Let_def conf.send_err_R)
qed (simp add: net_instcmd_def Let_def conf.send_err_R)

text \<open>The permission a request line needs before it can reach beyond its client.\<close>

definition permitted :: "upsd \<Rightarrow> nat \<Rightarrow> cstr list \<Rightarrow> bool" where
  "permitted S c args \<longleftrightarrow>
     (strcasecmp ''LOGIN'' (hd args) = 0 \<and> client_may S c ''LOGIN'') \<or>
     (strcasecmp ''FSD'' (hd args) = 0 \<and> client_may S c ''FSD'') \<or>
     (strcasecmp ''SET'' (hd args) = 0 \<and> client_may S c ''SET'') \<or>
     (strcasecmp ''INSTCMD'' (hd args) = 0 \<and> client_may_instcmd S c (args ! 2))"

lemma netcmds_cases:
  assumes "find_netcmd verb = Some i" "netcmds ! i = (name, func, flags)"
  shows "strcasecmp name verb = 0 \<and> (name, func, flags) \<in> set netcmds"
  using find_idx_Some [OF assms(1) [unfolded find_netcmd_def]] assms(2)
  by (auto dest!: nth_mem)

lemma parse_net_confined:
  assumes "\<not> permitted S c (pconf_args (c_ctx (the_client S c)))"
  shows "confined_or_switch c (pconf_args (c_ctx (the_client S c))) S (parse_net E c S)"
proof -
  let ?args = "pconf_args (c_ctx (the_client S c))"
  have "confined_or_switch c ?args S (check_command E i c ?args S)"
    if found: "find_netcmd (hd ?args) = Some i" for i
  proof -
    obtain name func flags where cmd: "netcmds ! i = (name, func, flags)" by (cases "netcmds ! i")
    have "confined c S (func E c (tl ?args) S)" if "strcasecmp ''SET'' (hd ?args) \<noteq> 0"
      using netcmds_cases [OF found cmd] assms that
      by (auto simp: netcmds_def permitted_def conf.net_misc_R conf.net_get_R conf.net_list_R
          conf.net_username_R conf.net_password_R conf.net_logout_R nth_tl numeral_2_eq_2
          intro: net_login_denied net_fsd_denied intro!: net_instcmd_denied)
    moreover have "func = net_set" if "strcasecmp ''SET'' (hd ?args) = 0"
    proof -
      have "ci_key name = ci_key ''SET''" and "(name, func, flags) \<in> set netcmds"
        using netcmds_cases [OF found cmd] that by (simp_all add: strcasecmp_eq_0)
      then show ?thesis by (auto simp: netcmds_def c_tolower_def)
    qed
    ultimately show ?thesis
      using net_set_denied [of S c E "tl ?args"] assms
      by (auto simp: confined_or_switch_def permitted_def check_command_def cmd conf.send_err_R)
  qed
  then show ?thesis
    by (simp add: parse_net_def Let_def confined_or_switch_def conf.send_err_R split: option.split)
qed

end
