(* ===== verification/ServerInv.thy ===== *)
theory ServerInv
  imports Session
begin

text \<open>
  The invariant of the server: the login counter of every UPS is the number of clients
  logged into it, names are unique, the data of every UPS and every parser context in use
  is well formed, account names are unique.  One section per group of operations shows
  that the operations keep it; the last one does so for a turn of the main loop.
\<close>

section \<open>The invariant\<close>

definition login_list :: "upsd \<Rightarrow> cstr option list" where
  "login_list S = map c_loginups (sd_firstclient S)"

definition logins_ok :: "upsd \<Rightarrow> bool" where
  "logins_ok S \<longleftrightarrow>
     distinct (map (\<lambda>u. ci_key (u_name u)) (sd_firstups S)) \<and>
     (\<forall>name. Some name \<in> set (login_list S) \<longrightarrow> name \<in> u_name ` set (sd_firstups S)) \<and>
     (\<forall>u\<in>set (sd_firstups S). u_numlogins u = int (count_list (login_list S) (Some (u_name u))))"

definition ups_ok :: "ups \<Rightarrow> bool" where
  "ups_ok u \<longleftrightarrow> ups_wf u \<and> (valid_fd (u_sock_fd u) \<longrightarrow> pconf_wf (u_sock_ctx u))"

definition server_inv :: "upsd \<Rightarrow> bool" where
  "server_inv S \<longleftrightarrow> logins_ok S \<and> (\<forall>u\<in>set (sd_firstups S). ups_ok u) \<and>
     (\<forall>k\<in>set (sd_firstclient S). pconf_wf (c_ctx k)) \<and>
     distinct (map us_username (users (sd_users S)))"

lemma server_inv_frame [simp]:
  "server_inv (S\<lparr>sd_tick := n\<rparr>) = server_inv S"
  "server_inv (S\<lparr>sd_wire := w\<rparr>) = server_inv S"
  "server_inv (S\<lparr>sd_tracking_list := tls\<rparr>) = server_inv S"
  "server_inv (S\<lparr>sd_tracking_enabled := b\<rparr>) = server_inv S"
  "server_inv (S\<lparr>sd_firstaddr := ad\<rparr>) = server_inv S"
  "server_inv (S\<lparr>sd_maxage := x\<rparr>) = server_inv S"
  "server_inv (S\<lparr>sd_tracking_delay := x\<rparr>) = server_inv S"
  "server_inv (S\<lparr>sd_conf := cf\<rparr>) = server_inv S"
  "server_inv (S\<lparr>sd_upstable := ut\<rparr>) = server_inv S"
  "server_inv (S\<lparr>sd_reload_flag := b\<rparr>) = server_inv S"
  "server_inv (S\<lparr>sd_descs := d\<rparr>) = server_inv S"
  by (simp_all add: server_inv_def logins_ok_def login_list_def)

text \<open>Updates that keep names, counters and logins.\<close>

lemma map_update_same: "f y = f (xs ! i) \<Longrightarrow> map f (xs[i := y]) = map f xs"
  by (cases "i < length xs") (auto simp: map_update list_update_same_conv list_update_beyond)

lemma ball_update: "\<forall>x\<in>set xs. P x \<Longrightarrow> (i < length xs \<Longrightarrow> P y) \<Longrightarrow> \<forall>x\<in>set (xs[i := y]). P x"
  by (cases "i < length xs") (auto simp: list_update_beyond dest: set_update_subset_insert [THEN subsetD])

lemma logins_ok_cong:
  assumes "map u_name (sd_firstups S') = map u_name (sd_firstups S)"
    "map u_numlogins (sd_firstups S') = map u_numlogins (sd_firstups S)"
    "login_list S' = login_list S" "logins_ok S"
  shows "logins_ok S'"
proof -
  have keys: "map (\<lambda>u. ci_key (u_name u)) (sd_firstups S') = map (\<lambda>u. ci_key (u_name u)) (sd_firstups S)"
    using arg_cong [OF assms(1), of "map ci_key"] by (simp add: o_def)
  have names: "u_name ` set (sd_firstups S') = u_name ` set (sd_firstups S)"
    using assms(1) by (metis list.set_map)
  have len: "length (sd_firstups S') = length (sd_firstups S)"
    using assms(1) by (metis length_map)
  have "u_numlogins u = int (count_list (login_list S') (Some (u_name u)))"
    if u: "u \<in> set (sd_firstups S')" for u
  proof -
    obtain j where j: "j < length (sd_firstups S)" "u = sd_firstups S' ! j"
      using u len by (auto simp: in_set_conv_nth)
    then have "u_name u = u_name (sd_firstups S ! j)" "u_numlogins u = u_numlogins (sd_firstups S ! j)"
      using assms(1,2) len by (metis nth_map)+
    then show ?thesis using assms(3,4) j by (auto simp: logins_ok_def)
  qed
  then show ?thesis
    using assms(3,4) keys names by (auto simp: logins_ok_def)
qed

lemma inv_with_ups:
  assumes "server_inv S"
    "i < length (sd_firstups S) \<Longrightarrow> ups_ok (the_ups S i) \<Longrightarrow> ups_ok (f (the_ups S i))"
    "u_name (f (the_ups S i)) = u_name (the_ups S i)"
    "u_numlogins (f (the_ups S i)) = u_numlogins (the_ups S i)"
  shows "server_inv (with_ups i f S)"
proof -
  have "logins_ok (with_ups i f S)"
    by (rule logins_ok_cong [of _ S])
      (use assms in \<open>simp_all add: with_ups_def map_update_same login_list_def server_inv_def\<close>)
  moreover have "\<forall>u\<in>set ((sd_firstups S)[i := f (the_ups S i)]). ups_ok u"
    using assms(1,2) by (intro ball_update) (simp_all add: server_inv_def)
  ultimately show ?thesis
    using assms(1) by (simp add: server_inv_def with_ups_def)
qed

lemma inv_with_client:
  assumes "server_inv S"
    "c < length (sd_firstclient S) \<Longrightarrow> pconf_wf (c_ctx (the_client S c)) \<Longrightarrow> pconf_wf (c_ctx (f (the_client S c)))"
    "c_loginups (f (the_client S c)) = c_loginups (the_client S c)"
  shows "server_inv (with_client c f S)"
proof -
  have "logins_ok (with_client c f S)"
    by (rule logins_ok_cong [of _ S])
      (use assms in \<open>simp_all add: with_client_def map_update_same login_list_def server_inv_def\<close>)
  moreover have "\<forall>k\<in>set ((sd_firstclient S)[c := f (the_client S c)]). pconf_wf (c_ctx k)"
    using assms(1,2) by (intro ball_update) (simp_all add: server_inv_def)
  ultimately show ?thesis
    using assms(1) by (simp add: server_inv_def with_client_def)
qed

section \<open>Answers and sessions\<close>

lemma inv_do [simp]:
  "server_inv (fst (do_write E fd msg S)) = server_inv S"
  "server_inv (fst (do_time E S)) = server_inv S"
  "server_inv (fst (do_mono E S)) = server_inv S"
  "server_inv (fst (do_read E fd S)) = server_inv S"
  "server_inv (fst (do_file E fn S)) = server_inv S"
  by (simp_all add: do_write_def do_time_def do_mono_def do_read_def do_file_def)

lemma inv_sendback: "server_inv S \<Longrightarrow> server_inv (fst (sendback E c msg S))"
  by (auto simp: sendback_def do_write_def Let_def intro!: inv_with_client)

interpretation keep: switch_closed "\<lambda>c S S'. server_inv S \<longrightarrow> server_inv S'"
proof (unfold_locales, goal_cases)
  case (3 c S E msg) then show ?case by (simp add: inv_sendback)
next
  case (4 f c S)
  then show ?case by (auto simp: same_session_def intro!: inv_with_client)
qed auto

section \<open>Logging in and out\<close>

lemma get_ups_ptr_exact:
  assumes "logins_ok S" "name \<in> u_name ` set (sd_firstups S)"
  shows "\<exists>i. get_ups_ptr S name = Some i \<and> i < length (sd_firstups S) \<and> u_name (the_ups S i) = name"
proof -
  obtain j where j: "j < length (sd_firstups S)" "u_name (the_ups S j) = name"
    using assms(2) by (auto simp: in_set_conv_nth image_iff)
  then obtain i where i: "get_ups_ptr S name = Some i"
    using find_idx_None [of "\<lambda>u. strcasecmp (u_name u) name = 0" "sd_firstups S"]
    using nth_mem [OF j(1)] by (cases "get_ups_ptr S name") (auto simp: get_ups_ptr_def ci_simps)
  then have "i < length (sd_firstups S)" "ci_key (u_name (the_ups S i)) = ci_key name"
    using find_idx_Some [of _ "sd_firstups S" i] by (auto simp: get_ups_ptr_def ci_simps)
  moreover from this have "i = j"
    using assms(1) j by (auto simp: logins_ok_def distinct_conv_nth)
  ultimately show ?thesis using i j by auto
qed

lemma get_ups_ptr_bound: "get_ups_ptr S name = Some i \<Longrightarrow> i < length (sd_firstups S)"
  using find_idx_Some [of _ "sd_firstups S" i] by (auto simp: get_ups_ptr_def)

text \<open>Moving one counter together with one login keeps the accounts.\<close>

lemma logins_ok_move:
  assumes "logins_ok S" "i < length (sd_firstups S)"
    "map u_name (sd_firstups S') = map u_name (sd_firstups S)"
    "\<And>j. j < length (sd_firstups S) \<Longrightarrow>
       u_numlogins (the_ups S' j) = u_numlogins (the_ups S j) + (if j = i then d else 0)"
    "\<And>name. int (count_list (login_list S') (Some name)) =
       int (count_list (login_list S) (Some name)) + (if name = u_name (the_ups S i) then d else 0)"
  shows "logins_ok S'"
proof -
  have len: "length (sd_firstups S') = length (sd_firstups S)"
    using assms(3) by (metis length_map)
  have nm: "u_name (the_ups S' j) = u_name (the_ups S j)" if "j < length (sd_firstups S)" for j
    using assms(3) that len by (metis nth_map)
  have inj: "u_name (the_ups S j) = u_name (the_ups S i) \<longleftrightarrow> j = i" if "j < length (sd_firstups S)" for j
    using assms(1,2) that by (fastforce simp: logins_ok_def distinct_conv_nth)
  have "distinct (map (\<lambda>u. ci_key (u_name u)) (sd_firstups S'))"
    using assms(1) nm len by (simp add: logins_ok_def distinct_conv_nth)
  moreover have "name \<in> u_name ` set (sd_firstups S')" if "Some name \<in> set (login_list S')" for name
  proof -
    have "count_list (login_list S') (Some name) \<noteq> 0"
      using that by (simp add: count_list_0_iff)
    then have "Some name \<in> set (login_list S) \<or> name = u_name (the_ups S i)"
      using assms(5) [of name] count_list_0_iff [of "login_list S" "Some name"] by (auto split: if_splits)
    then have "name \<in> u_name ` set (sd_firstups S)"
      using assms(1,2) by (auto simp: logins_ok_def)
    then show ?thesis using assms(3) by (metis list.set_map)
  qed
  moreover have "u_numlogins (the_ups S' j) = int (count_list (login_list S') (Some (u_name (the_ups S' j))))"
    if "j < length (sd_firstups S)" for j
    using assms(1,4,5) nm that inj by (auto simp: logins_ok_def)
  ultimately show ?thesis
    using len by (auto simp: logins_ok_def in_set_conv_nth)
qed

lemma count_list_update:
  "c < length xs \<Longrightarrow>
   int (count_list (xs[c := y]) v) =
     int (count_list xs v) - (if xs ! c = v then 1 else 0) + (if y = v then 1 else 0)"
proof (induction xs arbitrary: c)
  case (Cons x xs)
  show ?case
  proof (cases c)
    case (Suc k)
    then show ?thesis using Cons.IH [of k] Cons.prems by (simp split: if_splits)
  qed (use Cons.prems in simp)
qed simp

lemma count_list_remove:
  "c < length xs \<Longrightarrow>
   int (count_list (remove_nth c xs) v) = int (count_list xs v) - (if xs ! c = v then 1 else 0)"
proof (induction xs arbitrary: c)
  case (Cons x xs)
  show ?case
  proof (cases c)
    case (Suc k)
    then show ?thesis using Cons.IH [of k] Cons.prems by (simp split: if_splits)
  qed (use Cons.prems in simp)
qed simp

lemma map_remove_nth: "map f (remove_nth i xs) = remove_nth i (map f xs)"
  by (simp add: remove_nth_def take_map drop_map)

lemma client_disconnect_firstclient [simp]:
  "sd_firstclient (client_disconnect c S) = remove_nth c (sd_firstclient S)"
  by (simp add: client_disconnect_def declogins_def Let_def split: option.split)

lemma server_invI:
  assumes "logins_ok S" "\<forall>u\<in>set (sd_firstups S). ups_ok u"
    "\<forall>k\<in>set (sd_firstclient S). pconf_wf (c_ctx k)" "distinct (map us_username (users (sd_users S)))"
  shows "server_inv S"
  using assms by (simp add: server_inv_def)

lemma ups_ok_numlogins [simp]: "ups_ok (u\<lparr>u_numlogins := n\<rparr>) = ups_ok u"
  by (simp add: ups_ok_def ups_wf_def)

lemma with_ups_ok:
  "\<forall>u\<in>set (sd_firstups S). ups_ok u \<Longrightarrow>
   \<forall>u\<in>set (sd_firstups (with_ups i (\<lambda>u. u\<lparr>u_numlogins := g u\<rparr>) S)). ups_ok u"
  unfolding with_ups_def by simp (intro ball_update, simp_all)

text \<open>A client that goes takes its login along.\<close>

lemma inv_client_disconnect:
  assumes "server_inv S" "c < length (sd_firstclient S)"
  shows "server_inv (client_disconnect c S)"
proof (cases "c_loginups (the_client S c)")
  case None
  let ?S = "S\<lparr>sd_firstclient := remove_nth c (sd_firstclient S)\<rparr>"
  have "count_list (login_list ?S) (Some name) = count_list (login_list S) (Some name)" for name
    using count_list_remove [of c "login_list S" "Some name"] assms(2) None
    by (simp add: login_list_def map_remove_nth)
  then have "logins_ok ?S"
    using assms(1) set_remove_nth_subset [of c "login_list S"]
    by (auto simp: server_inv_def logins_ok_def) (auto simp: login_list_def map_remove_nth)
  then have "server_inv ?S"
    using assms(1) set_remove_nth_subset [of c "sd_firstclient S"] by (auto simp: server_inv_def)
  then show ?thesis using None by (simp add: client_disconnect_def)
next
  case (Some name)
  have ok: "logins_ok S" using assms(1) by (simp add: server_inv_def)
  have "Some name \<in> set (login_list S)"
    using assms(2) Some by (force simp: login_list_def in_set_conv_nth)
  then have "name \<in> u_name ` set (sd_firstups S)"
    using ok by (simp add: logins_ok_def)
  then obtain i where i: "get_ups_ptr S name = Some i" "i < length (sd_firstups S)"
    "u_name (the_ups S i) = name"
    using get_ups_ptr_exact [OF ok] by blast
  let ?W = "with_ups i (\<lambda>u. u\<lparr>u_numlogins := u_numlogins u - 1\<rparr>) S"
  let ?S = "?W\<lparr>sd_firstclient := remove_nth c (sd_firstclient S)\<rparr>"
  have eq: "client_disconnect c S = ?S"
    using Some i by (simp add: client_disconnect_def declogins_def Let_def)
  have "logins_ok ?S"
  proof (rule logins_ok_move [OF ok i(2), of _ "-1"])
    show "map u_name (sd_firstups ?S) = map u_name (sd_firstups S)"
      by (simp add: with_ups_def map_update_same)
    show "u_numlogins (the_ups ?S j) = u_numlogins (the_ups S j) + (if j = i then -1 else 0)"
      if "j < length (sd_firstups S)" for j
      using that by (simp add: with_ups_def nth_list_update)
    show "int (count_list (login_list ?S) (Some n)) =
        int (count_list (login_list S) (Some n)) + (if n = u_name (the_ups S i) then -1 else 0)" for n
      using count_list_remove [of c "login_list S" "Some n"] assms(2) Some i(3)
      by (auto simp: login_list_def map_remove_nth)
  qed
  moreover have "\<forall>u\<in>set (sd_firstups ?S). ups_ok u"
    using with_ups_ok [of S i] assms(1) by (simp add: server_inv_def)
  ultimately show ?thesis
    using assms(1) set_remove_nth_subset [of c "sd_firstclient S"]
    unfolding eq by (intro server_invI) (auto simp: server_inv_def with_ups_def)
qed

lemma inv_net_login:
  assumes "server_inv S" "c < length (sd_firstclient S)"
  shows "server_inv (net_login E c arg S)"
proof -
  have ok: "logins_ok S" using assms(1) by (simp add: server_inv_def)
  have grant: "server_inv (with_client c (\<lambda>k. k\<lparr>c_loginups := Some (u_name (the_ups S i))\<rparr>)
      (with_ups i (\<lambda>u. u\<lparr>u_numlogins := u_numlogins u + 1\<rparr>) S))" (is "server_inv ?S")
    if i: "i < length (sd_firstups S)" and out: "c_loginups (the_client S c) = None" for i
  proof (rule server_invI)
    let ?W = "with_ups i (\<lambda>u. u\<lparr>u_numlogins := u_numlogins u + 1\<rparr>) S"
    have list: "login_list ?S = (login_list S)[c := Some (u_name (the_ups S i))]"
      by (simp add: login_list_def with_client_def map_update)
    show "logins_ok ?S"
    proof (rule logins_ok_move [OF ok i, of _ 1])
      show "map u_name (sd_firstups ?S) = map u_name (sd_firstups S)"
        by (simp add: with_ups_def with_client_def map_update_same)
      show "u_numlogins (the_ups ?S j) = u_numlogins (the_ups S j) + (if j = i then 1 else 0)"
        if "j < length (sd_firstups S)" for j
        using that by (simp add: with_ups_def with_client_def nth_list_update)
      show "int (count_list (login_list ?S) (Some n)) =
          int (count_list (login_list S) (Some n)) + (if n = u_name (the_ups S i) then 1 else 0)" for n
        using count_list_update [of c "login_list S" _ "Some n"] assms(2) out
        unfolding list by (auto simp: login_list_def)
    qed
    show "\<forall>u\<in>set (sd_firstups ?S). ups_ok u"
      using with_ups_ok [of S i] assms(1) by (simp add: server_inv_def with_client_def)
    have "\<forall>k\<in>set ((sd_firstclient S)[c := (the_client S c)\<lparr>c_loginups := Some (u_name (the_ups S i))\<rparr>]).
        pconf_wf (c_ctx k)"
      using assms by (intro ball_update) (simp_all add: server_inv_def)
    then show "\<forall>k\<in>set (sd_firstclient ?S). pconf_wf (c_ctx k)"
      by (simp add: with_client_def)
    show "distinct (map us_username (users (sd_users ?S)))"
      using assms(1) by (simp add: server_inv_def with_client_def)
  qed
  have nm: "u_name (the_ups (with_ups i (\<lambda>u. u\<lparr>u_numlogins := u_numlogins u + 1\<rparr>) S) i) = u_name (the_ups S i)"
    if "i < length (sd_firstups S)" for i
    using that by (simp add: the_ups_with_ups)
  show ?thesis
    using assms(1) grant nm
    by (auto simp: net_login_def Let_def keep.send_err_R [rule_format] dest: get_ups_ptr_bound
        intro!: keep.reply_R [rule_format] split: option.split)
qed

section \<open>Connections to the drivers\<close>

lemma ups_ok_tree: "ups_ok u \<Longrightarrow> tree_step (u_inforoot u) t' \<Longrightarrow> ups_ok (u\<lparr>u_inforoot := t'\<rparr>)"
  by (auto simp: ups_ok_def ups_wf_def tree_step_wf)

lemma inv_on_inforoot:
  assumes "server_inv S" "\<And>now t. tree_step t (f now t)"
  shows "server_inv (on_inforoot E i f S)"
  using assms by (auto simp: on_inforoot_def do_mono_def ups_ok_tree intro!: inv_with_ups)

lemma inv_sstate_disconnect: "server_inv S \<Longrightarrow> server_inv (sstate_disconnect i S)"
  by (auto simp: sstate_disconnect_def sstate_cmdfree_def sstate_infofree_def ups_ok_def ups_wf_def
      state_infofree_def state_cmdfree_def tree_wf_def cmds_sorted_def ERROR_FD_def valid_fd_def
      intro!: inv_with_ups)

lemma inv_sendping: "server_inv S \<Longrightarrow> server_inv (sendping E i S)"
  by (auto simp: sendping_def do_write_def do_time_def Let_def ups_ok_def ups_wf_def
      intro!: inv_with_ups inv_sstate_disconnect)

lemma inv_sstate_sendline: "server_inv S \<Longrightarrow> server_inv (fst (sstate_sendline E i buf S))"
  by (auto simp: sstate_sendline_def do_write_def intro!: inv_sstate_disconnect)

text \<open>What a connection attempt does to the entry: g, and a usable parser on success.\<close>

definition connects :: "int \<Rightarrow> (ups \<Rightarrow> ups) \<Rightarrow> bool" where
  "connects fd g \<longleftrightarrow> (\<forall>u. u_name (g u) = u_name u \<and> u_numlogins (g u) = u_numlogins u \<and>
     (ups_wf u \<longrightarrow> ups_wf (g u)) \<and> (valid_fd fd \<longrightarrow> pconf_wf (u_sock_ctx (g u))))"

lemma connects_error: "connects ERROR_FD (\<lambda>u. u)" "connects ERROR_FD (\<lambda>u. u\<lparr>u_last_connfail := x\<rparr>)"
  by (simp_all add: connects_def ups_wf_def ERROR_FD_def valid_fd_def)

lemma connects_wait:
  "connects fd (\<lambda>u. u\<lparr>u_sock_ctx := pconf_init (u_sock_ctx u), u_dumpdone := False, u_stale := False,
     u_last_heard := x, u_inforoot := fst (state_setinfo y (u_inforoot u) var val)\<rparr>)"
  by (simp add: connects_def ups_wf_def setinfo_wf pconf_init_wf)

lemma sstate_connect_shape:
  assumes "sstate_connect E i S = (S', fd)" "i < length (sd_firstups S)"
  shows "\<exists>n w g. S' = with_ups i g (S\<lparr>sd_tick := n, sd_wire := w\<rparr>) \<and> connects fd g"
proof -
  have none': "\<exists>m w g. S\<lparr>sd_tick := n\<rparr> = with_ups i g (S\<lparr>sd_tick := m, sd_wire := w\<rparr>) \<and>
      connects ERROR_FD g" for n
    by (intro exI [of _ n] exI [of _ "sd_wire S"] exI [of _ "\<lambda>u. u"]) (simp add: with_ups_id connects_error)
  have none'': "\<exists>m v g. S\<lparr>sd_tick := n, sd_wire := w\<rparr> = with_ups i g (S\<lparr>sd_tick := m, sd_wire := v\<rparr>) \<and>
      connects ERROR_FD g" for n w
    by (intro exI [of _ n] exI [of _ w] exI [of _ "\<lambda>u. u"]) (simp add: with_ups_id connects_error)
  have fail: "\<exists>m w g. with_ups i (\<lambda>u. u\<lparr>u_last_connfail := x\<rparr>) (S\<lparr>sd_tick := n\<rparr>) =
      with_ups i g (S\<lparr>sd_tick := m, sd_wire := w\<rparr>) \<and> connects ERROR_FD g" for n x
    by (intro exI [of _ n] exI [of _ "sd_wire S"] exI [of _ "\<lambda>u. u\<lparr>u_last_connfail := x\<rparr>"])
      (simp add: connects_error)
  have wait: "\<exists>n' w' g. with_ups i (\<lambda>u. u\<lparr>u_inforoot := fst (state_setinfo y (u_inforoot u) var val)\<rparr>)
      (with_ups i (\<lambda>u. u\<lparr>u_sock_ctx := pconf_init (u_sock_ctx u), u_dumpdone := False,
          u_stale := False, u_last_heard := x\<rparr>) (S\<lparr>sd_wire := w, sd_tick := n\<rparr>)\<lparr>sd_tick := m\<rparr>) =
      with_ups i g (S\<lparr>sd_tick := n', sd_wire := w'\<rparr>) \<and> connects fd g" for y var val x w n m
    by (rule exI [of _ m], rule exI [of _ w], rule exI, rule conjI [OF _ connects_wait [where x = x and y = y and var = var and val = val]])
      (use assms(2) in \<open>simp add: with_ups_def\<close>)
  show ?thesis
    using assms none' none'' fail wait
    by (auto simp: sstate_connect_def do_time_def do_write_def on_inforoot_def do_mono_def Let_def
        split: open_result.splits if_splits)
qed

section \<open>Requests\<close>

lemma inv_net_fsd: "server_inv S \<Longrightarrow> server_inv (net_fsd E c arg S)"
  by (auto simp: net_fsd_def ups_ok_def ups_wf_def keep.send_err_R [rule_format]
      intro!: keep.reply_R [rule_format] inv_with_ups split: option.split)

lemma inv_tracking_add: "server_inv (fst (tracking_add E tid S)) = server_inv S"
  by (simp add: tracking_add_def do_time_def split: option.split)

text \<open>The end of SET and INSTCMD: record the request, write one line, answer.\<close>

lemma send_tracked_shape:
  "\<exists>buf ans S1. (S1 = S \<or> S1 = fst (tracking_add E (Some tid) S)) \<and>
     send_tracked E c i cmd tid failure S = reply E c ans (fst (sstate_sendline E i buf S1))"
proof -
  define S1 where "S1 = (if tid \<noteq> [] then fst (tracking_add E (Some tid) S) else S)"
  define buf where
    "buf = snprintfcat (if tid \<noteq> [] then snprintfcat cmd SMALLBUF ('' TRACKING '' @ tid) else cmd) SMALLBUF [NL]"
  obtain S2 b where s: "sstate_sendline E i buf S1 = (S2, b)" by fastforce
  have "\<exists>ans. send_tracked E c i cmd tid failure S = reply E c ans S2"
    using s by (auto simp: send_tracked_def Let_def S1_def buf_def send_err_def simp flip: reply_def
        split: bool.split)
  then show ?thesis using s by (metis S1_def fst_conv)
qed

lemma inv_send_tracked:
  assumes "server_inv S"
  shows "server_inv (send_tracked E c i cmd tid failure S)"
proof -
  obtain buf ans S1 where "S1 = S \<or> S1 = fst (tracking_add E (Some tid) S)"
    "send_tracked E c i cmd tid failure S = reply E c ans (fst (sstate_sendline E i buf S1))"
    using send_tracked_shape [where S = S and E = E and tid = tid and c = c and i = i and cmd = cmd and failure = failure] by metis
  then show ?thesis
    using assms by (auto simp: inv_tracking_add inv_sstate_sendline intro!: keep.reply_R [rule_format])
qed

lemma inv_set_var: "server_inv S \<Longrightarrow> server_inv (set_var E c upsname var val tid S)"
  by (auto simp: set_var_def ups_available_def Let_def inv_send_tracked keep.send_err_R [rule_format]
      split: option.split)

lemma inv_new_tracking_id: "server_inv S \<Longrightarrow> server_inv (fst (new_tracking_id E c S))"
  using keep.new_tracking_id_R by blast

lemma inv_net_set: "server_inv S \<Longrightarrow> server_inv (net_set E c arg S)"
proof (cases "strcasecmp (arg ! 0) ''VAR'' = 0")
  case True
  assume "server_inv S"
  then show ?thesis
    using True inv_new_tracking_id [of S E c]
    by (auto simp: net_set_def Let_def inv_set_var keep.send_err_R [rule_format] split: prod.split)
qed (use keep.set_tracking_R in blast)

lemma inv_send_instcmd: "server_inv S \<Longrightarrow> server_inv (send_instcmd E c upsname cmd v tid S)"
  by (auto simp: send_instcmd_def ups_available_def Let_def inv_send_tracked
      keep.send_err_R [rule_format] split: option.split)

lemma inv_net_instcmd: "server_inv S \<Longrightarrow> server_inv (net_instcmd E c arg S)"
  using inv_new_tracking_id [of S E c]
  by (auto simp: net_instcmd_def Let_def inv_send_instcmd keep.send_err_R [rule_format] split: prod.split)

lemma inv_parse_net:
  assumes "server_inv S" "c < length (sd_firstclient S)"
  shows "server_inv (parse_net E c S)"
proof -
  have "server_inv (check_command E i c args S)" if found: "find_netcmd verb = Some i" for i args verb
  proof -
    obtain name func flags where cmd: "netcmds ! i = (name, func, flags)" by (cases "netcmds ! i")
    have "server_inv (func E c (tl args) S)"
      using netcmds_cases [OF found cmd] assms
      by (auto simp: netcmds_def keep.net_misc_R [rule_format] keep.net_get_R [rule_format]
          keep.net_list_R [rule_format] keep.net_username_R [rule_format]
          keep.net_password_R [rule_format] keep.net_logout_R [rule_format]
          inv_net_login inv_net_fsd inv_net_set inv_net_instcmd)
    then show ?thesis using assms by (simp add: check_command_def cmd keep.send_err_R [rule_format])
  qed
  then show ?thesis
    using assms by (simp add: parse_net_def Let_def keep.send_err_R [rule_format] split: option.split)
qed

section \<open>The list of clients under a request\<close>

text \<open>No request adds or drops a client or touches a parser context.\<close>

definition same_ctxs :: "nat \<Rightarrow> upsd \<Rightarrow> upsd \<Rightarrow> bool" where
  "same_ctxs c S S' \<longleftrightarrow> map c_ctx (sd_firstclient S') = map c_ctx (sd_firstclient S)"

lemma same_ctxs_client:
  "c_ctx (f (the_client S k)) = c_ctx (the_client S k) \<Longrightarrow> same_ctxs c S (with_client k f S)"
  by (simp add: same_ctxs_def with_client_def map_update_same)

interpretation ctxs: switch_closed same_ctxs
proof (unfold_locales, goal_cases)
  case (3 c S E msg)
  then show ?case
    by (auto simp: sendback_def do_write_def Let_def same_ctxs_def with_client_def map_update_same)
next
  case (4 f c S) then show ?case by (simp add: same_ctxs_client same_session_def)
qed (auto simp: same_ctxs_def)

lemma same_ctxs_simps [simp]:
  "same_ctxs c S (with_ups i f S') = same_ctxs c S S'"
  "same_ctxs c (with_ups i f S) S' = same_ctxs c S S'"
  by (simp_all add: same_ctxs_def)

lemma sendline_clients [simp]:
  "sd_firstclient (fst (sstate_sendline E i buf S)) = sd_firstclient S"
  by (simp add: sstate_sendline_def do_write_def sstate_disconnect_def)

lemma tracking_add_clients [simp]:
  "sd_firstclient (fst (tracking_add E tid S)) = sd_firstclient S"
  by (simp add: tracking_add_def do_time_def split: option.split)

lemma send_tracked_ctxs: "same_ctxs c S (send_tracked E c i cmd tid failure S)"
proof -
  obtain buf ans S1 where s: "S1 = S \<or> S1 = fst (tracking_add E (Some tid) S)"
    "send_tracked E c i cmd tid failure S = reply E c ans (fst (sstate_sendline E i buf S1))"
    using send_tracked_shape [where S = S and E = E and tid = tid and c = c and i = i and cmd = cmd and failure = failure] by metis
  have "sd_firstclient (fst (sstate_sendline E i buf S1)) = sd_firstclient S"
    using s(1) by auto
  then have "same_ctxs c S (fst (sstate_sendline E i buf S1))" by (simp add: same_ctxs_def)
  then show ?thesis using s(2) ctxs.trans_R [OF _ ctxs.reply_R] by simp
qed

lemma set_var_ctxs: "same_ctxs c S (set_var E c upsname var val tid S)"
  by (auto simp: set_var_def ups_available_def Let_def send_tracked_ctxs ctxs.send_err_R
      split: option.split)

lemma send_instcmd_ctxs: "same_ctxs c S (send_instcmd E c upsname cmd v tid S)"
  by (auto simp: send_instcmd_def ups_available_def Let_def send_tracked_ctxs ctxs.send_err_R
      split: option.split)

lemma privileged_ctxs:
  "same_ctxs c S (net_login E c arg S)" "same_ctxs c S (net_fsd E c arg S)"
  "same_ctxs c S (net_set E c arg S)" "same_ctxs c S (net_instcmd E c arg S)"
proof -
  have login: "same_ctxs c S (with_client c (\<lambda>k. k\<lparr>c_loginups := Some n\<rparr>) (with_ups i f S))" for n i f
    using same_ctxs_client [of "\<lambda>k. k\<lparr>c_loginups := Some n\<rparr>" "with_ups i f S" c c] by simp
  show "same_ctxs c S (net_login E c arg S)"
    by (auto simp: net_login_def Let_def ctxs.send_err_R intro!: ctxs.trans_R [OF login ctxs.reply_R]
        split: option.split)
  have "same_ctxs c S (with_ups i f S)" for i f by (simp add: ctxs.refl_R)
  then show "same_ctxs c S (net_fsd E c arg S)"
    by (auto simp: net_fsd_def ctxs.send_err_R intro: ctxs.trans_R [OF _ ctxs.reply_R] split: option.split)
  obtain S1 tid where n: "new_tracking_id E c S = (S1, tid)" by fastforce
  have 1: "same_ctxs c S S1" using ctxs.new_tracking_id_R [of c S E] n by simp
  show "same_ctxs c S (net_set E c arg S)"
    using ctxs.set_tracking_R [of arg c S E] ctxs.trans_R [OF 1 set_var_ctxs]
    by (cases "strcasecmp (arg ! 0) ''VAR'' = 0") (simp_all add: net_set_def n Let_def ctxs.send_err_R)
  show "same_ctxs c S (net_instcmd E c arg S)"
    using ctxs.trans_R [OF 1 send_instcmd_ctxs] by (simp add: net_instcmd_def n Let_def ctxs.send_err_R)
qed

lemma parse_net_ctxs: "same_ctxs c S (parse_net E c S)"
proof -
  have "same_ctxs c S (check_command E i c args S)" if found: "find_netcmd verb = Some i" for i args verb
  proof -
    obtain name func flags where cmd: "netcmds ! i = (name, func, flags)" by (cases "netcmds ! i")
    have "same_ctxs c S (func E c (tl args) S)"
      using netcmds_cases [OF found cmd]
      by (auto simp: netcmds_def ctxs.net_misc_R ctxs.net_get_R ctxs.net_list_R ctxs.net_username_R
          ctxs.net_password_R ctxs.net_logout_R privileged_ctxs)
    then show ?thesis by (simp add: check_command_def cmd ctxs.send_err_R)
  qed
  then show ?thesis by (simp add: parse_net_def Let_def ctxs.send_err_R split: option.split)
qed

lemma client_line_ctxs: "same_ctxs c S (client_line E c S)"
proof -
  let ?S = "with_client c (\<lambda>k. k\<lparr>c_last_heard := os_time E (sd_tick S)\<rparr>) (S\<lparr>sd_tick := Suc (sd_tick S)\<rparr>)"
  have "same_ctxs c S ?S"
    by (rule ctxs.trans_R [OF ctxs.clock_R]) (rule same_ctxs_client, simp)
  then show ?thesis
    using ctxs.trans_R [OF _ parse_net_ctxs] by (simp add: client_line_def do_time_def)
qed

lemma same_ctxs_length: "same_ctxs c S S' \<Longrightarrow> length (sd_firstclient S') = length (sd_firstclient S)"
  unfolding same_ctxs_def by (metis length_map)

lemma same_ctxs_the:
  "same_ctxs c S S' \<Longrightarrow> k < length (sd_firstclient S) \<Longrightarrow> c_ctx (the_client S' k) = c_ctx (the_client S k)"
  unfolding same_ctxs_def by (metis length_map nth_map)

text \<open>upsd reads its clients with the common loop too.\<close>

interpretation client_reader: line_reader
  "\<lambda>S. c_ctx (the_client S c)" "\<lambda>ctx. with_client c (\<lambda>k. k\<lparr>c_ctx := ctx\<rparr>)"
  "client_line E c" "client_read_loop E c" "\<lambda>S. c < length (sd_firstclient S)" for E :: os and c :: nat
proof (unfold_locales, goal_cases)
  case (2 s x xs) then show ?case by (simp add: Let_def split: prod.split)
next
  case (7 s) then show ?case using same_ctxs_the [OF client_line_ctxs] by simp
next
  case (8 s) then show ?case using same_ctxs_length [OF client_line_ctxs] by simp
qed (simp_all add: with_client_def)

end
