(* ===== verification/ServerRun.thy ===== *)
theory ServerRun
  imports ServerInv
begin

text \<open>
  The invariant of ServerInv through the reading of drivers and clients, the reload of the
  configuration and the turns of the main loop.
\<close>

section \<open>Reading drivers\<close>

lemma inv_tracking_set: "server_inv (fst (tracking_set tid val S)) = server_inv S"
  by (simp add: tracking_set_def split: option.split)

lemma inv_cmds:
  "server_inv S \<Longrightarrow> server_inv (with_ups i (\<lambda>u. u\<lparr>u_cmdlist := fst (state_addcmd (u_cmdlist u) cmd)\<rparr>) S)"
  "server_inv S \<Longrightarrow> server_inv (with_ups i (\<lambda>u. u\<lparr>u_cmdlist := fst (state_delcmd (u_cmdlist u) cmd)\<rparr>) S)"
  by (rule inv_with_ups; simp add: ups_ok_def ups_wf_def addcmd_sorted delcmd_sorted)+

lemma inv_flags:
  "server_inv S \<Longrightarrow> server_inv (with_ups i (\<lambda>u. u\<lparr>u_dumpdone := b\<rparr>) S)"
  "server_inv S \<Longrightarrow> server_inv (with_ups i (\<lambda>u. u\<lparr>u_data_ok := b\<rparr>) S)"
  "server_inv S \<Longrightarrow> server_inv (with_ups i (\<lambda>u. u\<lparr>u_stale := b\<rparr>) S)"
  "server_inv S \<Longrightarrow> server_inv (with_ups i (\<lambda>u. u\<lparr>u_last_heard := x\<rparr>) S)"
  by (rule inv_with_ups; simp add: ups_ok_def ups_wf_def)+

lemmas inv_inforoots = inv_on_inforoot [OF _ tree_step.intros(1)] inv_on_inforoot [OF _ tree_step.intros(2)]
  inv_on_inforoot [OF _ tree_step.intros(3)] inv_on_inforoot [OF _ tree_step.intros(4)]
  inv_on_inforoot [OF _ tree_step.intros(5)] inv_on_inforoot [OF _ tree_step.intros(6)]
  inv_on_inforoot [OF _ tree_step.intros(8)] inv_on_inforoot [OF _ tree_step.intros(9)]

lemma inv_parse_args: "server_inv S \<Longrightarrow> server_inv (fst (parse_args E i arg S))"
  unfolding parse_args_def Let_def by (simp add: inv_inforoots inv_cmds inv_flags inv_tracking_set)

lemma inv_driver_line: "server_inv S \<Longrightarrow> server_inv (driver_line E i S)"
  using inv_parse_args [of S E i "pconf_args (u_sock_ctx (the_ups S i))"]
  by (auto simp: driver_line_def do_time_def inv_flags split: prod.split bool.split)

lemma inv_sstate_read_loop: "server_inv S \<Longrightarrow> server_inv (sstate_read_loop E i S bytes)"
proof (induction bytes arbitrary: S)
  case (Cons b bytes)
  obtain ctx r where p: "pconf_char (u_sock_ctx (the_ups S i)) b = (ctx, r)" by fastforce
  have "pconf_wf (u_sock_ctx (the_ups S i)) \<Longrightarrow> pconf_wf ctx"
    using pconf_char_wf [of "u_sock_ctx (the_ups S i)" b] p by simp
  then have "server_inv (with_ups i (\<lambda>u. u\<lparr>u_sock_ctx := ctx\<rparr>) S)"
    using Cons.prems by (intro inv_with_ups) (auto simp: ups_ok_def ups_wf_def)
  then show ?case using Cons.IH inv_driver_line by (simp add: p Let_def)
qed simp

lemma inv_sstate_readline: "server_inv S \<Longrightarrow> server_inv (sstate_readline E i S)"
  by (auto simp: sstate_readline_def do_read_def inv_sstate_disconnect inv_sstate_read_loop
      split: read_result.split)

section \<open>Reading clients\<close>

lemma inv_client_line:
  assumes "server_inv S" "c < length (sd_firstclient S)"
  shows "server_inv (client_line E c S)"
proof -
  have "server_inv (with_client c (\<lambda>k. k\<lparr>c_last_heard := x\<rparr>) (S\<lparr>sd_tick := n\<rparr>))" for x n
    using assms(1) by (intro inv_with_client) simp_all
  then show ?thesis
    using assms(2) by (simp add: client_line_def do_time_def inv_parse_net with_client_def)
qed

lemma inv_client_read_loop:
  "server_inv S \<Longrightarrow> c < length (sd_firstclient S) \<Longrightarrow>
   server_inv (client_read_loop E c S bytes) \<and>
   length (sd_firstclient (client_read_loop E c S bytes)) = length (sd_firstclient S)"
proof (induction bytes arbitrary: S)
  case (Cons b bytes)
  obtain ctx r where p: "pconf_char (c_ctx (the_client S c)) b = (ctx, r)" by fastforce
  let ?S = "with_client c (\<lambda>k. k\<lparr>c_ctx := ctx\<rparr>) S"
  have "pconf_wf (c_ctx (the_client S c)) \<Longrightarrow> pconf_wf ctx"
    using pconf_char_wf [of "c_ctx (the_client S c)" b] p by simp
  then have 1: "server_inv ?S" using Cons.prems by (intro inv_with_client) auto
  have 2: "length (sd_firstclient ?S) = length (sd_firstclient S)" by (simp add: with_client_def)
  show ?case
    using Cons.IH [of ?S] Cons.IH [of "client_line E c ?S"] 1 2 Cons.prems(2)
      inv_client_line [OF 1] same_ctxs_length [OF client_line_ctxs [of c ?S E]]
    by (simp add: p Let_def)
qed simp

lemma inv_client_readline:
  assumes "server_inv S" "c < length (sd_firstclient S)" "client_readline E c S = (S', gone)"
  shows "server_inv S' \<and>
    (if gone then sd_firstclient S' = remove_nth c (sd_firstclient S)
     else length (sd_firstclient S') = length (sd_firstclient S))"
proof -
  let ?S = "S\<lparr>sd_tick := Suc (sd_tick S)\<rparr>"
  have "server_inv ?S" "c < length (sd_firstclient ?S)" using assms by simp_all
  then show ?thesis
    using assms(3) inv_client_disconnect [of ?S c] inv_client_read_loop [of ?S c E]
    by (auto simp: client_readline_def do_read_def split: read_result.splits if_splits)
qed

section \<open>Reloading the configuration\<close>

lemma server_inv_cons:
  assumes "server_inv S" "ups_ok u" "u_numlogins u = 0" "get_ups_ptr S (u_name u) = None"
  shows "server_inv (S\<lparr>sd_firstups := u # sd_firstups S\<rparr>)"
proof -
  have fresh: "\<forall>v\<in>set (sd_firstups S). ci_key (u_name v) \<noteq> ci_key (u_name u)"
    using assms(4) by (auto simp: get_ups_ptr_def find_idx_None ci_simps)
  then have "u_name u \<notin> u_name ` set (sd_firstups S)" by force
  then have "Some (u_name u) \<notin> set (login_list S)"
    using assms(1) by (auto simp: server_inv_def logins_ok_def)
  then have "count_list (login_list S) (Some (u_name u)) = 0"
    by (simp add: count_list_0_iff)
  then show ?thesis
    using assms fresh by (auto simp: server_inv_def logins_ok_def login_list_def)
qed

lemma inv_ups_create: "server_inv S \<Longrightarrow> server_inv (ups_create E ctx0 fn name desc S)"
proof -
  assume inv: "server_inv S"
  let ?S = "S\<lparr>sd_firstups := new_ups ctx0 fn name desc # sd_firstups S\<rparr>"
  obtain S1 fd where c: "sstate_connect E 0 ?S = (S1, fd)" by fastforce
  obtain n w g where g: "S1 = with_ups 0 g (?S\<lparr>sd_tick := n, sd_wire := w\<rparr>)" "connects fd g"
    using sstate_connect_shape [OF c] by auto
  define u where "u = (g (new_ups ctx0 fn name desc))\<lparr>u_sock_fd := fd, u_last_heard := os_time E n\<rparr>"
  have "ups_wf (new_ups ctx0 fn name desc)"
    by (simp add: new_ups_def ups_wf_def tree_wf_def cmds_sorted_def)
  then have u: "ups_ok u" "u_numlogins u = 0" "u_name u = name"
    using g(2) by (simp_all add: u_def connects_def ups_ok_def ups_wf_def) (simp_all add: new_ups_def)
  have eq: "ups_create E ctx0 fn name desc S =
      (S\<lparr>sd_tick := Suc n, sd_wire := w\<rparr>)\<lparr>sd_firstups := u # sd_firstups S\<rparr>"
    if "get_ups_ptr S name = None"
    using that c g(1)
    by (auto simp: ups_create_def get_ups_ptr_def find_idx_None list_ex_iff Let_def do_time_def with_ups_def u_def)
  have "server_inv ((S\<lparr>sd_tick := Suc n, sd_wire := w\<rparr>)\<lparr>sd_firstups := u # sd_firstups S\<rparr>)"
    if "get_ups_ptr S name = None"
    using server_inv_cons [of "S\<lparr>sd_tick := Suc n, sd_wire := w\<rparr>" u] inv u that
    by (simp add: get_ups_ptr_def)
  moreover have "ups_create E ctx0 fn name desc S = S" if "get_ups_ptr S name \<noteq> None"
    using that by (auto simp: ups_create_def get_ups_ptr_def find_idx_None list_ex_iff)
  ultimately show ?thesis using eq inv by (cases "get_ups_ptr S name = None") simp_all
qed

lemma inv_ups_update: "server_inv S \<Longrightarrow> server_inv (ups_update fn name desc S)"
  by (auto simp: ups_update_def ups_redefine_def Let_def sstate_cmdfree_def sstate_infofree_def
      ups_ok_def ups_wf_def state_infofree_def state_cmdfree_def tree_wf_def cmds_sorted_def
      ERROR_FD_def valid_fd_def intro!: inv_with_ups split: option.split)

lemma inv_with_conf [simp]: "server_inv (with_conf f S) = server_inv S"
  by (simp add: with_conf_def)

lemma inv_if_fst:
  "server_inv (fst x) \<Longrightarrow> server_inv (fst y) \<Longrightarrow> server_inv (fst (if b then x else y))"
  by simp

lemma inv_option_fst:
  "(\<And>v. server_inv (fst (f v))) \<Longrightarrow> server_inv (fst y) \<Longrightarrow>
   server_inv (fst (case m of None \<Rightarrow> y | Some v \<Rightarrow> f v))"
  by (simp split: option.split)

lemma inv_parse_upsd_conf_args: "server_inv S \<Longrightarrow> server_inv (fst (parse_upsd_conf_args E arg S))"
  unfolding parse_upsd_conf_args_def Let_def
  by (intro inv_if_fst inv_option_fst) (simp_all add: listen_add_def split: sum.split)

lemma inv_load_upsdconf: "server_inv S \<Longrightarrow> load_upsdconf E ctx0 reloading S = Some S' \<Longrightarrow> server_inv S'"
proof -
  have line: "server_inv T \<Longrightarrow> server_inv (upsd_conf_line E l T)" for l T
    by (simp add: upsd_conf_line_def inv_parse_upsd_conf_args split: option.split)
  have iter: "server_inv T \<Longrightarrow> server_inv (snd (pconf_file_iter (upsd_conf_line E) ctx T))" for ctx T
    by (rule pconf_file_iter_inv [where P = server_inv]) (use line in auto)
  show "server_inv S \<Longrightarrow> load_upsdconf E ctx0 reloading S = Some S' \<Longrightarrow> server_inv S'"
    by (auto simp: load_upsdconf_def Let_def do_file_def iter split: prod.splits bool.splits if_splits)
qed

lemma inv_do_upsconf_args: "server_inv S \<Longrightarrow> server_inv (do_upsconf_args upsname var val S)"
  by (simp add: do_upsconf_args_def Let_def split: option.split)

lemma inv_upsconf_add: "server_inv S \<Longrightarrow> server_inv (upsconf_add E ctx0 reloading S)"
proof -
  have entry: "server_inv T \<Longrightarrow> server_inv (upsconf_entry E ctx0 reloading t T)" for t T
    by (simp add: upsconf_entry_def Let_def inv_ups_create inv_ups_update split: option.split)
  have "server_inv T \<Longrightarrow> server_inv (fold (upsconf_entry E ctx0 reloading) ts T)" for ts T
    by (induction ts arbitrary: T) (simp_all add: entry)
  then show "server_inv S \<Longrightarrow> server_inv (upsconf_add E ctx0 reloading S)"
    by (simp add: upsconf_add_def)
qed

text \<open>Kicking the clients of a UPS removes exactly those that are logged into it.\<close>

lemma remove_nth_drop: "c < length xs \<Longrightarrow> drop c (remove_nth c xs) = drop (Suc c) xs"
  by (simp add: remove_nth_def)

lemma remove_nth_take: "c < length xs \<Longrightarrow> take c (remove_nth c xs) = take c xs"
  by (simp add: remove_nth_def)

lemma client_disconnect_names [simp]:
  "map u_name (sd_firstups (client_disconnect c S)) = map u_name (sd_firstups S)"
  by (simp add: client_disconnect_def declogins_def with_ups_def map_update_same Let_def split: option.split)

lemma kick_loop_effect:
  "server_inv S \<Longrightarrow>
   server_inv (kick_loop upsname c S) \<and>
   map u_name (sd_firstups (kick_loop upsname c S)) = map u_name (sd_firstups S) \<and>
   sd_firstclient (kick_loop upsname c S) =
     take c (sd_firstclient S) @ filter (\<lambda>k. c_loginups k \<noteq> Some upsname) (drop c (sd_firstclient S))"
proof (induction upsname c S rule: kick_loop.induct)
  case (1 upsname c S)
  show ?case
  proof (cases "length (sd_firstclient S) \<le> c")
    case True
    then show ?thesis using "1.prems" by (subst (1 2 3) kick_loop.simps) simp
  next
    case False
    then have drop: "drop c (sd_firstclient S) = the_client S c # drop (Suc c) (sd_firstclient S)"
      by (simp add: Cons_nth_drop_Suc)
    show ?thesis
    proof (cases "c_loginups (the_client S c) = Some upsname")
      case True
      have "kick_loop upsname c S = kick_loop upsname c (client_disconnect c S)"
        using True False by (subst kick_loop.simps) simp
      then show ?thesis
        using "1.IH"(1) [OF False True] inv_client_disconnect [OF "1.prems"] False True
        by (simp add: drop remove_nth_drop remove_nth_take)
    next
      case other: False
      have "kick_loop upsname c S = kick_loop upsname (Suc c) S"
        using other False by (subst kick_loop.simps) simp
      then show ?thesis
        using "1.IH"(2) [OF False other "1.prems"] False other
        by (simp add: drop take_Suc_conv_app_nth)
    qed
  qed
qed

lemma set_remove_nth: "distinct xs \<Longrightarrow> i < length xs \<Longrightarrow> set (remove_nth i xs) = set xs - {xs ! i}"
proof (induction xs arbitrary: i)
  case (Cons x xs)
  then show ?case by (cases i) auto
qed simp

lemma inv_delete_ups:
  assumes "server_inv S" "i < length (sd_firstups S)"
  shows "server_inv (delete_ups i S)"
proof -
  let ?name = "u_name (the_ups S i)"
  let ?K = "kick_login_clients ?name S"
  let ?S = "?K\<lparr>sd_firstups := remove_nth i (sd_firstups ?K)\<rparr>"
  have K: "server_inv ?K" "map u_name (sd_firstups ?K) = map u_name (sd_firstups S)"
    "Some ?name \<notin> set (login_list ?K)"
    using kick_loop_effect [OF assms(1), of ?name 0] by (auto simp: kick_login_clients_def login_list_def)
  have i: "i < length (sd_firstups ?K)" "u_name (the_ups ?K i) = ?name"
    using K(2) assms(2) by (metis length_map, metis length_map nth_map)
  have ok: "logins_ok ?K" using K(1) by (simp add: server_inv_def)
  let ?keys = "map (\<lambda>u. ci_key (u_name u)) (sd_firstups ?K)"
  have dist: "distinct (remove_nth i ?keys)"
    using ok set_remove_nth_subset [of i ?keys] by (auto simp: logins_ok_def remove_nth_def
        dest: in_set_takeD in_set_dropD intro: distinct_take distinct_drop)
      (metis append_take_drop_id disjoint_iff distinct_append set_drop_subset_set_drop Suc_n_not_le_n
        le_SucI order_refl subsetD)
  have names: "distinct (map u_name (sd_firstups ?K))"
    using ok by (auto simp: logins_ok_def distinct_map inj_on_def)
  have "name \<in> u_name ` set (remove_nth i (sd_firstups ?K))" if "Some name \<in> set (login_list ?K)" for name
  proof -
    have "name \<in> set (map u_name (sd_firstups ?K)) - {?name}"
      using that ok K(3) by (auto simp: logins_ok_def)
    then have "name \<in> set (remove_nth i (map u_name (sd_firstups ?K)))"
      using set_remove_nth [OF names, of i] i by simp
    then show ?thesis by (simp flip: map_remove_nth)
  qed
  then have "logins_ok ?S"
    using ok dist set_remove_nth_subset [of i "sd_firstups ?K"]
    by (auto simp: logins_ok_def map_remove_nth) (auto simp: login_list_def)
  then have "server_inv ?S"
    using K(1) set_remove_nth_subset [of i "sd_firstups ?K"] by (auto simp: server_inv_def)
  then show ?thesis by (simp add: delete_ups_def Let_def)
qed

lemma inv_purge_loop: "server_inv S \<Longrightarrow> server_inv (purge_loop i S)"
proof (induction i S rule: purge_loop.induct)
  case (1 i S)
  then show ?case by (subst purge_loop.simps) (auto simp: inv_delete_ups)
qed

lemma inv_map_retain: "server_inv S \<Longrightarrow> server_inv (S\<lparr>sd_firstups := map (\<lambda>u. u\<lparr>u_retain := b\<rparr>) (sd_firstups S)\<rparr>)"
  by (auto simp: server_inv_def logins_ok_def login_list_def o_def image_image ups_ok_def ups_wf_def)

lemma inv_users:
  assumes "server_inv S"
  shows "server_inv (S\<lparr>sd_users := user_load ctx0 opened (user_flush (sd_users S))\<rparr>)"
proof -
  have "user_db_wf (user_load ctx0 opened (user_flush (sd_users S)))"
    by (rule user_load_wf) (simp add: user_flush_def user_db_wf_def)
  then show ?thesis
    using assms by (simp add: server_inv_def logins_ok_def login_list_def user_db_wf_def)
qed

lemma inv_check_file: "server_inv (fst (check_file E fn S)) = server_inv S"
  by (simp add: check_file_def do_file_def split: sum.split)

lemma inv_read_upsconf:
  "read_upsconf do_upsconf_args f c p opened S = Some (r, S') \<Longrightarrow> server_inv S \<Longrightarrow> server_inv S'"
  by (rule read_upsconf_inv [where P = server_inv, OF inv_do_upsconf_args])

lemma inv_conf_reload:
  assumes "server_inv S" "conf_reload E ctx0 S = Some S'"
  shows "server_inv S'"
proof -
  obtain S1 b1 where c1: "check_file E ''upsd.conf'' S = (S1, b1)" by fastforce
  have 1: "server_inv S1" using inv_check_file [of E "''upsd.conf''" S] c1 assms(1) by simp
  show ?thesis
  proof (cases b1)
    case False
    then show ?thesis using assms(2) c1 1 by (simp add: conf_reload_def)
  next
    case True
    let ?S2 = "S1\<lparr>sd_firstups := map (\<lambda>u. u\<lparr>u_retain := False\<rparr>) (sd_firstups S1)\<rparr>"
    obtain S3 opened where c3: "do_file E (snprintf (NUT_PATH_MAX + 1) (bld_CONFPATH E @ ''/ups.conf'')) ?S2 = (S3, opened)"
      by fastforce
    have 3: "server_inv S3"
      using inv_do(5) [of E _ ?S2] inv_map_retain [OF 1, of False] c3 by (metis fst_conv)
    obtain r S4 where c4: "read_upsconf do_upsconf_args True ctx0 (bld_CONFPATH E) opened S3 = Some (r, S4)"
      using assms(2) c1 c3 True by (auto simp: conf_reload_def Let_def split: option.splits)
    obtain S5 where c5: "load_upsdconf E ctx0 True (upsconf_add E ctx0 True S4) = Some S5"
      using assms(2) c1 c3 c4 True by (auto simp: conf_reload_def Let_def split: option.splits)
    have 5: "server_inv (purge_loop 0 S5)"
      by (rule inv_purge_loop [OF inv_load_upsdconf [OF inv_upsconf_add [OF inv_read_upsconf [OF c4 3]] c5]])
    obtain S6 b6 where c6: "check_file E ''upsd.users'' (purge_loop 0 S5) = (S6, b6)" by fastforce
    have 6: "server_inv S6" using inv_check_file [of E "''upsd.users''" "purge_loop 0 S5"] c6 5 by simp
    show ?thesis
    proof (cases b6)
      case False
      then show ?thesis using assms(2) c1 c3 c4 c5 c6 True 6 by (simp add: conf_reload_def Let_def)
    next
      case b6: True
      obtain S7 opened2 where c7: "do_file E (snprintf NUT_PATH_MAX (bld_CONFPATH E @ ''/upsd.users'')) S6 = (S7, opened2)"
        by fastforce
      have "server_inv S7" using inv_do(5) [of E _ S6] 6 c7 by (metis fst_conv)
      then have "server_inv (S7\<lparr>sd_users := user_load ctx0 opened2 (user_flush (sd_users S7))\<rparr>)"
        by (rule inv_users)
      then show ?thesis
        using assms(2) c1 c3 c4 c5 c6 c7 True b6 by (simp add: conf_reload_def Let_def)
    qed
  qed
qed

section \<open>The turns of the main loop\<close>

lemma inv_sstate_dead: "server_inv S \<Longrightarrow> server_inv (fst (sstate_dead E i age S))"
  by (simp add: sstate_dead_def do_time_def Let_def inv_sendping)

lemma inv_connect:
  assumes "server_inv S" "i < length (sd_firstups S)" "sstate_connect E i S = (S', fd)"
  shows "server_inv (with_ups i (\<lambda>u. u\<lparr>u_sock_fd := fd\<rparr>) S') \<and>
    length (sd_firstups S') = length (sd_firstups S) \<and> sd_firstclient S' = sd_firstclient S"
proof -
  obtain n w g where g: "S' = with_ups i g (S\<lparr>sd_tick := n, sd_wire := w\<rparr>)" "connects fd g"
    using sstate_connect_shape [OF assms(3,2)] by auto
  have "server_inv (with_ups i (\<lambda>u. (g u)\<lparr>u_sock_fd := fd\<rparr>) (S\<lparr>sd_tick := n, sd_wire := w\<rparr>))"
    using assms(1) g(2) by (intro inv_with_ups) (auto simp: connects_def ups_ok_def ups_wf_def)
  then show ?thesis
    using g(1) assms(2) by (simp add: with_ups_with_ups o_def)
qed

lemma sstate_dead_frame:
  "length (sd_firstups (fst (sstate_dead E i age S))) = length (sd_firstups S)"
  "sd_firstclient (fst (sstate_dead E i age S)) = sd_firstclient S"
  by (simp_all add: sstate_dead_def sendping_def sstate_disconnect_def do_time_def do_write_def Let_def)

text \<open>What the scan of the drivers keeps, and which handlers it may register.\<close>

definition only_drivers :: "pollset \<Rightarrow> bool" where
  "only_drivers fds \<longleftrightarrow> (\<forall>(h, fd)\<in>set fds. case h of DRIVER i \<Rightarrow> True | _ \<Rightarrow> False)"

lemma inv_scan_driver:
  assumes "server_inv S" "i < length (sd_firstups S)" "only_drivers fds"
    "scan_driver E i (fds, S) = (fds', S')"
  shows "server_inv S' \<and> length (sd_firstups S') = length (sd_firstups S) \<and>
    sd_firstclient S' = sd_firstclient S \<and> only_drivers fds'"
proof (cases "cf_maxconn (sd_conf S) \<le> length fds")
  case True
  then show ?thesis using assms by (simp add: scan_driver_def)
next
  case open_slot: False
  show ?thesis
  proof (cases "valid_fd (u_sock_fd (the_ups S i))")
    case False
    then show ?thesis
      using assms open_slot inv_connect [OF assms(1,2)]
      by (cases "sstate_connect E i S") (auto simp: scan_driver_def)
  next
    case True
    obtain S1 dead where d: "sstate_dead E i (sd_maxage S) S = (S1, dead)" by fastforce
    have "server_inv S1" "length (sd_firstups S1) = length (sd_firstups S)"
      "sd_firstclient S1 = sd_firstclient S"
      using inv_sstate_dead [OF assms(1), of E i "sd_maxage S"] sstate_dead_frame [of E i "sd_maxage S" S] d
      by simp_all
    then show ?thesis
      using assms open_slot True d
      by (auto simp: scan_driver_def Let_def ups_data_stale_def ups_data_ok_def inv_flags only_drivers_def
          split: if_splits)
  qed
qed

lemma inv_scan_drivers:
  "server_inv S \<Longrightarrow> \<forall>i\<in>set is. i < length (sd_firstups S) \<Longrightarrow> only_drivers fds \<Longrightarrow>
   fold (scan_driver E) is (fds, S) = (fds', S') \<Longrightarrow>
   server_inv S' \<and> sd_firstclient S' = sd_firstclient S \<and> only_drivers fds'"
proof (induction "is" arbitrary: fds S)
  case (Cons i "is")
  obtain fds1 S1 where s: "scan_driver E i (fds, S) = (fds1, S1)" by fastforce
  have 1: "server_inv S1 \<and> length (sd_firstups S1) = length (sd_firstups S) \<and>
      sd_firstclient S1 = sd_firstclient S \<and> only_drivers fds1"
    using inv_scan_driver [OF Cons.prems(1) _ Cons.prems(3) s] Cons.prems(2) by simp
  then show ?case using Cons.IH [of S1 fds1] Cons.prems(2,4) s by simp
qed simp

text \<open>The client handlers point at distinct clients of the list.\<close>

definition client_targets :: "(handler \<times> 'a) list \<Rightarrow> nat list" where
  "client_targets fds = concat (map (\<lambda>(h, x). case h of CLIENT c \<Rightarrow> [c] | _ \<Rightarrow> []) fds)"

definition targets_ok :: "(handler \<times> 'a) list \<Rightarrow> upsd \<Rightarrow> bool" where
  "targets_ok fds S \<longleftrightarrow> distinct (client_targets fds) \<and>
     (\<forall>c\<in>set (client_targets fds). c < length (sd_firstclient S))"

lemma client_targets_append [simp]:
  "client_targets (a @ b) = client_targets a @ client_targets b"
  "client_targets [(CLIENT c, x)] = [c]" "client_targets [(SERVER s, x)] = []" "client_targets [] = []"
  by (simp_all add: client_targets_def)

lemma inv_scan_clients:
  "server_inv S \<Longrightarrow> distinct (client_targets fds) \<Longrightarrow> \<forall>k\<in>set (client_targets fds). k < c \<Longrightarrow>
   c \<le> length (sd_firstclient S) \<Longrightarrow> scan_clients now c fds S = (fds', S') \<Longrightarrow>
   server_inv S' \<and> targets_ok fds' S'"
proof (induction now c fds S rule: scan_clients.induct)
  case (1 now c fds S)
  show ?case
  proof (cases "length (sd_firstclient S) \<le> c")
    case True
    then show ?thesis
      using "1.prems" by (subst (asm) scan_clients.simps) (auto simp: targets_ok_def)
  next
    case False
    then have c: "c < length (sd_firstclient S)" by simp
    show ?thesis
    proof (cases "CLIENT_INACTIVITY < now - c_last_heard (the_client S c)")
      case True
      then have eq: "scan_clients now c fds S = scan_clients now c fds (client_disconnect c S)"
        using False by (subst scan_clients.simps) simp
      show ?thesis
        using "1.IH"(1) [OF False True] inv_client_disconnect [OF "1.prems"(1) c] "1.prems" eq c
        by (simp add: length_remove_nth)
    next
      case active: False
      show ?thesis
      proof (cases "cf_maxconn (sd_conf S) \<le> length fds")
        case True
        then have eq: "scan_clients now c fds S = scan_clients now (Suc c) fds S"
          using False active by (subst scan_clients.simps) simp
        show ?thesis
          using "1.IH"(2) [OF False active True] "1.prems" eq c by (simp add: less_Suc_eq)
      next
        case slot: False
        then have eq: "scan_clients now c fds S =
            scan_clients now (Suc c) (fds @ [(CLIENT c, c_sock_fd (the_client S c))]) S"
          using False active by (subst scan_clients.simps) simp
        show ?thesis
          using "1.IH"(3) [OF False active slot] "1.prems" eq c by (auto simp: less_Suc_eq)
      qed
    qed
  qed
qed

lemma scan_server_keeps:
  "scan_server s (fds, S) = (fds', S') \<Longrightarrow> S' = S \<and> client_targets fds' = client_targets fds"
  by (auto simp: scan_server_def Let_def split: if_splits)

lemma scan_servers_keep:
  "fold scan_server ss (fds, S) = (fds', S') \<Longrightarrow> S' = S \<and> client_targets fds' = client_targets fds"
proof (induction ss arbitrary: fds S)
  case (Cons s ss)
  obtain fds1 S1 where s: "scan_server s (fds, S) = (fds1, S1)" by fastforce
  then show ?case using Cons.IH [of fds1 S1] Cons.prems scan_server_keeps [OF s] by simp
qed simp

lemma only_drivers_targets: "only_drivers fds \<Longrightarrow> client_targets fds = []"
  by (auto simp: only_drivers_def client_targets_def concat_eq_Nil_conv split: handler.splits)

lemma inv_mainloop_scan:
  assumes "server_inv S" "mainloop_scan E now S = (fds, S')"
  shows "server_inv S' \<and> targets_ok fds S'"
proof -
  obtain fds1 S1 where 1: "fold (scan_driver E) [0..<length (sd_firstups S)] ([], S) = (fds1, S1)" by fastforce
  have inv1: "server_inv S1 \<and> sd_firstclient S1 = sd_firstclient S \<and> only_drivers fds1"
    using inv_scan_drivers [OF assms(1) _ _ 1] by (auto simp: only_drivers_def)
  obtain fds2 S2 where 2: "scan_clients now 0 fds1 S1 = (fds2, S2)" by fastforce
  have inv2: "server_inv S2 \<and> targets_ok fds2 S2"
    using inv_scan_clients [OF _ _ _ _ 2] inv1 only_drivers_targets [of fds1] by auto
  have "fold scan_server [0..<length (sd_firstaddr S2)] (fds2, S2) = (fds, S')"
    using assms(2) 1 2 by (simp add: mainloop_scan_def)
  then show ?thesis
    using scan_servers_keep [of _ fds2 S2 fds S'] inv2 by (auto simp: targets_ok_def)
qed

text \<open>Dispatching keeps the remaining handlers pointed at the same clients.\<close>

lemma client_targets_map:
  "client_targets (map (apfst (client_gone c)) fds) = map (\<lambda>k. if c < k then k - 1 else k) (client_targets fds)"
  "client_targets (map (apfst client_pushed) fds) = map Suc (client_targets fds)"
  "client_targets (map (apfst id) fds) = client_targets fds"
  by (induction fds) (auto simp: client_targets_def client_gone_def client_pushed_def split: handler.splits)

lemma gone_inj: "inj_on (\<lambda>k. if c < k then k - 1 else k) (- {c::nat})"
proof (rule inj_onI)
  fix x y
  assume "x \<in> - {c}" "y \<in> - {c}" "(if c < x then x - 1 else x) = (if c < y then y - 1 else y)"
  then show "x = y" by (auto split: if_splits)
qed

lemma targets_ok_gone:
  assumes "c \<notin> set (client_targets fds)" "targets_ok fds S" "c < length (sd_firstclient S)"
    "length (sd_firstclient S') = length (sd_firstclient S) - 1"
  shows "targets_ok (map (apfst (client_gone c)) fds) S'"
proof -
  have "inj_on (\<lambda>k. if c < k then k - 1 else k) (set (client_targets fds))"
    using assms(1) by (intro inj_on_subset [OF gone_inj [of c]]) auto
  moreover have "(if c < k then k - 1 else k) < length (sd_firstclient S')"
    if "k \<in> set (client_targets fds)" for k
  proof -
    have "k < length (sd_firstclient S)" "k \<noteq> c" using assms(1,2) that by (auto simp: targets_ok_def)
    then show ?thesis using assms(3,4) by auto
  qed
  ultimately show ?thesis
    using assms(2) by (auto simp only: targets_ok_def client_targets_map distinct_map set_map image_iff)
qed

lemma inv_client_connect:
  "server_inv S \<Longrightarrow> server_inv (client_connect E ctx0 s S) \<and>
   (length (sd_firstclient (client_connect E ctx0 s S)) = length (sd_firstclient S) \<or>
    length (sd_firstclient (client_connect E ctx0 s S)) = Suc (length (sd_firstclient S)))"
  by (auto simp: client_connect_def Let_def do_time_def server_inv_def logins_ok_def login_list_def
      pconf_init_wf split: prod.split)

lemma inv_handle_event:
  assumes "server_inv S" "targets_ok ((h, ev) # rest) S" "handle_event E ctx0 h ev S = (S', moved)"
  shows "server_inv S' \<and> targets_ok (map (apfst moved) rest) S'"
proof -
  have rest: "targets_ok rest S" "\<And>c. h = CLIENT c \<Longrightarrow> c < length (sd_firstclient S) \<and> c \<notin> set (client_targets rest)"
    using assms(2) by (auto simp: targets_ok_def client_targets_def split: handler.splits)
  have same: "targets_ok (map (apfst id) rest) T"
    if "length (sd_firstclient T) = length (sd_firstclient S)" for T
    using rest(1) that by (simp add: targets_ok_def client_targets_map)
  have drv: "sd_firstclient (sstate_disconnect i S) = sd_firstclient S" for i
    by (simp add: sstate_disconnect_def)
  have drl: "length (sd_firstclient (sstate_readline E i S)) = length (sd_firstclient S)" for i
  proof -
    have "sd_firstclient (sstate_read_loop E i T bs) = sd_firstclient T" for bs T
    proof (induction bs arbitrary: T)
      case (Cons b bs)
      then show ?case
        using driver_line_effect [of i _ E] by (auto simp: Let_def line_effect_def split: prod.split)
    qed simp
    then show ?thesis
      by (auto simp: sstate_readline_def do_read_def sstate_disconnect_def split: read_result.split)
  qed
  show ?thesis
  proof (cases ev)
    case PollQuiet
    then show ?thesis using assms same by (auto simp: handle_event_def)
  next
    case PollHup
    then show ?thesis
      using assms(1,3) same [of S'] rest(2) drv inv_client_disconnect [OF assms(1)] inv_sstate_disconnect [OF assms(1)]
      by (cases h) (auto simp: handle_event_def length_remove_nth intro!: targets_ok_gone [OF _ rest(1)])
  next
    case PollIn
    show ?thesis
    proof (cases h)
      case (DRIVER i)
      then show ?thesis
        using assms(1,3) PollIn same [of S'] drl [of i] inv_sstate_readline [OF assms(1), of E i]
        by (auto simp: handle_event_def)
    next
      case (CLIENT c)
      obtain gone where r: "client_readline E c S = (S', gone)" "moved = (if gone then client_gone c else id)"
        using assms(3) PollIn CLIENT by (auto simp: handle_event_def split: prod.splits)
      show ?thesis
        using inv_client_readline [OF assms(1) _ r(1)] rest(2) [OF CLIENT] r(2) same [of S']
          targets_ok_gone [OF _ rest(1), of c S']
        by (cases gone) (auto simp: length_remove_nth)
    next
      case (SERVER s)
      then have S': "S' = client_connect E ctx0 s S"
        "moved = (if length (sd_firstclient S) < length (sd_firstclient S') then client_pushed else id)"
        using assms(3) PollIn by (auto simp: handle_event_def Let_def)
      show ?thesis
        using inv_client_connect [OF assms(1), of E ctx0 s] S' same [of S'] rest(1)
        by (auto simp: targets_ok_def client_targets_map distinct_map)
    qed
  qed
qed

lemma inv_dispatch:
  "server_inv S \<Longrightarrow> targets_ok evs S \<Longrightarrow> server_inv (dispatch E ctx0 evs S)"
proof (induction E ctx0 evs S rule: dispatch.induct)
  case (2 E ctx0 h ev rest S)
  obtain S' moved where h: "handle_event E ctx0 h ev S = (S', moved)" by fastforce
  then show ?case using "2.IH" [OF h [symmetric]] inv_handle_event [OF "2.prems" h] by simp
qed simp

lemma inv_tracking_del: "server_inv (fst (tracking_del tid S)) = server_inv S"
  by (simp add: tracking_del_def split: option.split)

lemma inv_tracking_cleanup: "server_inv (tracking_cleanup E S) = server_inv S"
proof -
  have loop: "(\<And>item S. server_inv (h item S) = server_inv S) \<Longrightarrow> server_inv (fold h items S) = server_inv S"
    for h items S
    by (induction items arbitrary: S) simp_all
  show ?thesis by (simp add: tracking_cleanup_def do_time_def loop inv_tracking_del)
qed

lemma client_targets_Cons:
  "client_targets (x # fds) = (case fst x of CLIENT c \<Rightarrow> [c] | _ \<Rightarrow> []) @ client_targets fds"
  by (cases x) (simp add: client_targets_def)

lemma client_targets_zip: "targets_ok fds S \<Longrightarrow> targets_ok (zip (map fst fds) rs) S"
proof -
  have sub: "set (client_targets (zip (map fst fds) rs)) \<subseteq> set (client_targets fds)" for fds rs
  proof (induction fds arbitrary: rs)
    case (Cons x fds)
    then show ?case by (cases rs) (auto simp: client_targets_Cons)
  qed simp
  have "distinct (client_targets fds) \<Longrightarrow> distinct (client_targets (zip (map fst fds) rs))" for rs
  proof (induction fds arbitrary: rs)
    case (Cons x fds)
    then show ?case using sub [of fds] by (cases rs) (auto simp: client_targets_Cons split: handler.split)
  qed simp
  then show "targets_ok fds S \<Longrightarrow> targets_ok (zip (map fst fds) rs) S"
    using sub [of fds rs] by (auto simp: targets_ok_def)
qed

lemma inv_mainloop:
  assumes "server_inv S" "mainloop E ctx0 S = Some S'"
  shows "server_inv S'"
proof -
  let ?S0 = "S\<lparr>sd_tick := Suc (sd_tick S)\<rparr>"
  obtain S1 where 1: "mainloop_reload E ctx0 ?S0 = Some S1"
    using assms(2) by (auto simp: mainloop_def do_time_def split: option.splits)
  have "server_inv ?S0" using assms(1) by simp
  then have inv1: "server_inv S1"
    using 1 inv_conf_reload [of ?S0 E ctx0]
    by (auto simp: mainloop_reload_def poll_reload_def Let_def split: option.splits if_splits)
  obtain fds S2 where 2: "mainloop_scan E (os_time E (sd_tick S)) (tracking_cleanup E S1) = (fds, S2)"
    by fastforce
  have inv2: "server_inv S2 \<and> targets_ok fds S2"
    using inv_mainloop_scan [OF _ 2] inv1 by (simp add: inv_tracking_cleanup)
  obtain ret revents where p: "os_poll E (sd_tick S2) (map snd fds) = (ret, revents)" by fastforce
  have "targets_ok (zip (map fst fds) revents) (S2\<lparr>sd_tick := Suc (sd_tick S2)\<rparr>)"
    using client_targets_zip [of fds S2] inv2 by (simp add: targets_ok_def)
  then have "server_inv (dispatch E ctx0 (zip (map fst fds) revents) (S2\<lparr>sd_tick := Suc (sd_tick S2)\<rparr>))"
    using inv2 by (intro inv_dispatch) simp_all
  moreover have "S' = S2\<lparr>sd_tick := Suc (sd_tick S2)\<rparr> \<or>
      S' = dispatch E ctx0 (zip (map fst fds) revents) (S2\<lparr>sd_tick := Suc (sd_tick S2)\<rparr>)"
    using assms(2) 1 2 p by (auto simp: mainloop_def do_time_def Let_def split: if_splits)
  ultimately show ?thesis using inv2 by auto
qed

end
