(* ===== verification/Delivery.thy ===== *)
theory Delivery
  imports ServerRun
begin

text \<open>
  What arrives when write() succeeds: the answers of the LIST requests line by line, the
  lines that SET and INSTCMD send to a driver and the words a driver reads from them.
\<close>

section \<open>A working network\<close>

text \<open>write() takes everything it is given.\<close>

definition all_written :: "os \<Rightarrow> bool" where
  "all_written E \<longleftrightarrow> (\<forall>n fd s. os_write E n fd s = int (length s))"

definition sent :: "nat \<Rightarrow> cstr list \<Rightarrow> upsd \<Rightarrow> upsd" where
  "sent c msgs S = S\<lparr>sd_tick := sd_tick S + length msgs,
     sd_wire := sd_wire S @ map (\<lambda>m. (c_sock_fd (the_client S c), snprintf (NUT_NET_ANSWER_MAX + 1) m)) msgs\<rparr>"

lemma sent_fields [simp]:
  "sd_firstclient (sent c msgs S) = sd_firstclient S" "sd_firstups (sent c msgs S) = sd_firstups S"
  by (simp_all add: sent_def)

lemma sent_Nil [simp]: "sent c [] S = S"
  by (simp add: sent_def)

lemma sent_sent [simp]: "sent c b (sent c a S) = sent c (a @ b) S"
  by (simp add: sent_def ac_simps)

lemma sendback_sent:
  "all_written E \<Longrightarrow> c < length (sd_firstclient S) \<Longrightarrow> sendback E c msg S = (sent c [msg] S, True)"
  by (simp add: sendback_def do_write_def all_written_def sent_def Let_def)

lemma reply_sent:
  "all_written E \<Longrightarrow> c < length (sd_firstclient S) \<Longrightarrow> reply E c msg S = sent c [msg] S"
  by (simp add: reply_def sendback_sent)

lemma send_lines_sent:
  "all_written E \<Longrightarrow> c < length (sd_firstclient S) \<Longrightarrow> send_lines E c msgs S = (sent c msgs S, True)"
  by (induction msgs arbitrary: S) (simp_all add: sendback_sent)

section \<open>LIST\<close>

text \<open>The line of a variable in LIST VAR and, when it is writable, in LIST RW.\<close>

definition var_line :: "cstr \<Rightarrow> bool \<Rightarrow> st_node \<Rightarrow> cstr" where
  "var_line upsname fsd n =
     ''VAR '' @ upsname @ '' '' @ n_var n @ '' '' @
       quoted ((if fsd \<and> strcasecmp (n_var n) ''ups.status'' = 0 then ''FSD '' else '''') @ n_val n) @ [NL]"

definition rw_line :: "cstr \<Rightarrow> st_node \<Rightarrow> cstr" where
  "rw_line upsname n = ''RW '' @ upsname @ '' '' @ n_var n @ '' '' @ quoted (n_val n) @ [NL]"

definition dump_lines :: "st_tree \<Rightarrow> cstr \<Rightarrow> bool \<Rightarrow> bool \<Rightarrow> cstr list" where
  "dump_lines t upsname rw fsd =
     (if rw then map (rw_line upsname) (filter (\<lambda>n. has_flag (n_flags n) ST_FLAG_RW) (inorder t))
      else map (var_line upsname fsd) (inorder t))"

lemma tree_dump_sent:
  "all_written E \<Longrightarrow> c < length (sd_firstclient S) \<Longrightarrow>
   tree_dump E c t upsname rw fsd S = (sent c (dump_lines t upsname rw fsd) S, True)"
proof (induction t arbitrary: S)
  case Leaf
  then show ?case by (simp add: dump_lines_def)
next
  case (Node l n r)
  then show ?case
    by (cases rw) (auto simp: sendback_sent dump_lines_def rw_line_def var_line_def)
qed

lemma send_list_sent:
  assumes "all_written E" "c < length (sd_firstclient S)"
    "\<And>S'. sd_firstclient S' = sd_firstclient S \<Longrightarrow> body S' = (sent c msgs S', True)"
  shows "send_list E c what body S =
    sent c ((''BEGIN LIST '' @ what @ [NL]) # msgs @ [''END LIST '' @ what @ [NL]]) S"
  using assms by (simp add: send_list_def sendback_sent reply_sent)

lemma inorder_keys:
  assumes "st_bst t"
  shows "sorted_wrt (<) (map vkey (inorder t))"
  using assms
proof (induction t)
  case (Node l n r)
  then have "\<forall>a\<in>set (inorder l). \<forall>b\<in>set (inorder r). vkey a < vkey b"
    by (auto simp: set_inorder intro: order_less_trans)
  then show ?case using Node by (auto simp: sorted_wrt_append set_inorder)
qed simp

section \<open>Lines to a driver\<close>

definition set_line :: "cstr \<Rightarrow> cstr \<Rightarrow> item list" where
  "set_line var val = [Bare ''SET'', Bare var, Quoted val]"

lemma set_line_text:
  "line_text (set_line var val) = ''SET '' @ var @ '' '' @ quoted (escape val) @ [NL]"
  by (simp add: set_line_def quoted_def)

text \<open>The 512 byte buffer holds the line without its last byte and the terminator.\<close>

definition line_fits_buffer :: "item list \<Rightarrow> bool" where
  "line_fits_buffer is \<longleftrightarrow> length (line_text is) + 1 < SMALLBUF"

lemma set_cmd_text:
  assumes "line_fits_buffer (set_line var val)"
  shows "snprintfcat (snprintf SMALLBUF (''SET '' @ var @ '' '' @ quoted (pconf_encode val SMALLBUF))) SMALLBUF [NL] =
    line_text (set_line var val)"
proof -
  have len: "length var + length (escape val) + 9 < SMALLBUF"
    using assms by (simp add: line_fits_buffer_def set_line_text quoted_def)
  then have "pconf_encode val SMALLBUF = escape val" by (intro pconf_encode_fits) simp
  then show ?thesis
    using len by (simp add: snprintf_fits snprintfcat_fits set_line_text quoted_def)
qed

lemma sstate_sendline_sent:
  "all_written E \<Longrightarrow> valid_fd (u_sock_fd (the_ups S i)) \<Longrightarrow>
   sstate_sendline E i buf S =
     (S\<lparr>sd_tick := Suc (sd_tick S), sd_wire := sd_wire S @ [(u_sock_fd (the_ups S i), buf)]\<rparr>, True)"
  by (simp add: sstate_sendline_def do_write_def all_written_def)

text \<open>Who may set what: the guard of set_var(), on the UPS that is addressed.\<close>

definition may_set :: "upsd \<Rightarrow> nat \<Rightarrow> nat \<Rightarrow> cstr \<Rightarrow> cstr \<Rightarrow> bool" where
  "may_set S c i var val \<longleftrightarrow>
     unavailable_text (the_ups S i) = None \<and> client_may S c ''SET'' \<and>
     (\<exists>node. sstate_getnode (the_ups S i) var = Some node \<and> has_flag (n_flags node) ST_FLAG_RW) \<and>
     set_value_error (the_ups S i) var val = None"

lemma getinfo_node:
  "sstate_getinfo u var = map_option n_val (sstate_getnode u var)"
  "sstate_getnode u var = Some node \<Longrightarrow> sstate_getflags u var = n_flags node"
  by (simp_all add: sstate_getinfo_def sstate_getnode_def sstate_getflags_def state_getinfo_def
      state_getflags_def split: option.split)

lemma set_var_denied_confined:
  assumes "get_ups_ptr S upsname = Some i" "\<not> may_set S c i var val"
  shows "confined c S (set_var E c upsname var val tid S)"
proof -
  consider e where "unavailable_text (the_ups S i) = Some e" | "\<not> client_may S c ''SET''"
    | "sstate_getnode (the_ups S i) var = None"
    | node where "sstate_getnode (the_ups S i) var = Some node" "\<not> has_flag (n_flags node) ST_FLAG_RW"
    | e where "set_value_error (the_ups S i) var val = Some e"
    using assms(2) by (auto simp: may_set_def)
  then show ?thesis
    using assms(1)
    by cases (auto simp: set_var_def ups_available_cases Let_def conf.send_err_R conf.reply_R
        getinfo_node intro: set_var_denied split: option.split)
qed

lemma set_var_sent:
  assumes "get_ups_ptr S upsname = Some i" "may_set S c i var val" "all_written E"
    "c < length (sd_firstclient S)" "line_fits_buffer (set_line var val)"
  shows "set_var E c upsname var val [] S =
    sent c [''OK'' @ [NL]]
      (S\<lparr>sd_tick := Suc (sd_tick S),
         sd_wire := sd_wire S @ [(u_sock_fd (the_ups S i), line_text (set_line var val))]\<rparr>)"
proof -
  have fd: "valid_fd (u_sock_fd (the_ups S i))"
    using assms(2) by (auto simp: may_set_def unavailable_text_def split: if_splits)
  show ?thesis
    using assms fd set_cmd_text [OF assms(5)]
    by (auto simp: set_var_def may_set_def ups_available_cases Let_def getinfo_node send_tracked_def
        sstate_sendline_sent reply_sent)
qed

text \<open>The words a reader with the default limits gets from such a line.\<close>

lemma line_words:
  assumes "line_start ctx" "line_fits ctx is"
  shows "tok_run (pc_arg_limit ctx) (pc_wordlen_limit ctx) (tok_abs ctx) (line_text is) =
    (ST_ENDOFLINE, map item_word is, [])"
proof -
  let ?al = "pc_arg_limit ctx" and ?wl = "pc_wordlen_limit ctx"
  have "tok_step ?al ?wl (tok_abs ctx) x = tok_step ?al ?wl (ST_FINDWORDSTART, [], []) x" for x
    using assms(1) by (auto simp: line_start_def tok_step_def tok_abs_def tok_ended_def pconf_args_def)
  moreover have "line_text is \<noteq> []" by (cases "is" rule: line_text.cases) auto
  ultimately have "tok_run ?al ?wl (tok_abs ctx) (line_text is) = tok_run ?al ?wl (ST_FINDWORDSTART, [], []) (line_text is)"
    by (cases "line_text is") auto
  then show ?thesis
    using tok_line [of ?wl "is" ?al "[]"] assms(2) by (auto simp: line_fits_def)
qed

end
