(* ===== verification/DriverSync.thy ===== *)
theory DriverSync
  imports Delivery
begin

text \<open>
  The replication of a driver's variables in upsd: the lines of a dump, read byte by byte,
  have the effect of the same calls of state_setinfo() on the UPS entry.
\<close>

definition setinfo_items :: "cstr \<times> cstr \<Rightarrow> item list" where
  "setinfo_items upd = (case upd of (var, val) \<Rightarrow> [Bare ''SETINFO'', Bare var, Quoted val])"

definition dump_text :: "(cstr \<times> cstr) list \<Rightarrow> cstr" where
  "dump_text upds = concat (map (\<lambda>upd. line_text (setinfo_items upd)) upds)"

lemma dump_text_simps [simp]:
  "dump_text [] = []" "dump_text (upd # upds) = line_text (setinfo_items upd) @ dump_text upds"
  by (simp_all add: dump_text_def)

lemma setinfo_words: "map item_word (setinfo_items (var, val)) = [''SETINFO'', var, val]"
  by (simp add: setinfo_items_def)

lemma parse_args_setinfo:
  "parse_args E i [''SETINFO'', var, val] S =
     (on_inforoot E i (\<lambda>now t. fst (state_setinfo now t var val)) S, True)"
  by (simp add: parse_args_def Let_def ci_simps c_tolower_def)

text \<open>The effect of one SETINFO line on the entry.\<close>

lemma driver_line_setinfo:
  assumes "i < length (sd_firstups S)" "pconf_args (u_sock_ctx (the_ups S i)) = [''SETINFO'', var, val]"
  shows "\<exists>now. u_inforoot (the_ups (driver_line E i S) i) =
      fst (state_setinfo now (u_inforoot (the_ups S i)) var val) \<and>
    u_cmdlist (the_ups (driver_line E i S) i) = u_cmdlist (the_ups S i) \<and>
    u_dumpdone (the_ups (driver_line E i S) i) = u_dumpdone (the_ups S i)"
  using assms
  by (auto simp: driver_line_def parse_args_setinfo on_inforoot_def do_mono_def do_time_def the_ups_with_ups)

lemma sync_frame:
  assumes "i < length (sd_firstups S)"
  shows "length (sd_firstups (driver_line E i S)) = length (sd_firstups S)"
    "u_sock_ctx (the_ups (driver_line E i S) i) = u_sock_ctx (the_ups S i)"
  using driver_line_effect [of i S E] assms by (auto simp: line_effect_def ups_frame_def)

text \<open>
  Reading the SETINFO lines of a list of updates replays the updates on the tree, each
  with some time stamp.
\<close>

lemma read_dump:
  assumes "i < length (sd_firstups S)" "line_start (u_sock_ctx (the_ups S i))"
    "\<forall>upd\<in>set upds. line_fits (u_sock_ctx (the_ups S i)) (setinfo_items upd)"
  shows "\<exists>stamps. length stamps = length upds \<and>
    u_inforoot (the_ups (sstate_read_loop E i S (dump_text upds)) i) =
      state_tree.set_all stamps upds (u_inforoot (the_ups S i))"
  using assms
proof (induction upds arbitrary: S)
  case Nil
  then show ?case by (intro exI [of _ "[]"]) (simp add: state_tree.set_all.simps)
next
  case (Cons upd upds)
  obtain var val where upd: "upd = (var, val)" by (cases upd)
  let ?rest = "dump_text upds"
  obtain ctx where ctx: "sstate_read_loop E i S (line_text (setinfo_items upd) @ ?rest) =
      sstate_read_loop E i (driver_line E i (with_ups i (\<lambda>u. u\<lparr>u_sock_ctx := ctx\<rparr>) S)) ?rest"
    "line_start ctx" "same_limits ctx (u_sock_ctx (the_ups S i))" "pconf_args ctx = [''SETINFO'', var, val]"
    using driver_reader.scan.loop_line [OF Cons.prems(1,2), of "setinfo_items upd" E ?rest] Cons.prems(3)
    by (auto simp: upd setinfo_words)
  let ?S1 = "with_ups i (\<lambda>u. u\<lparr>u_sock_ctx := ctx\<rparr>) S"
  let ?S2 = "driver_line E i ?S1"
  have i1: "i < length (sd_firstups ?S1)" using Cons.prems(1) by simp
  have c1: "u_sock_ctx (the_ups ?S1 i) = ctx" "u_inforoot (the_ups ?S1 i) = u_inforoot (the_ups S i)"
    using Cons.prems(1) by (simp_all add: the_ups_with_ups)
  obtain now where now: "u_inforoot (the_ups ?S2 i) = fst (state_setinfo now (u_inforoot (the_ups S i)) var val)"
    using driver_line_setinfo [OF i1, of var val E] c1 ctx(4) by auto
  have "line_fits (u_sock_ctx (the_ups ?S2 i)) (setinfo_items u)" if "u \<in> set upds" for u
    using Cons.prems(3) that ctx(3) sync_frame(2) [OF i1, of E] c1
    by (auto simp: line_fits_def same_limits_def)
  then obtain stamps where st: "length stamps = length upds"
    "u_inforoot (the_ups (sstate_read_loop E i ?S2 ?rest) i) = state_tree.set_all stamps upds (u_inforoot (the_ups ?S2 i))"
    using Cons.IH [of ?S2] i1 sync_frame [OF i1, of E] c1(1) ctx(2) by auto
  show ?case
    using st now ctx(1) by (intro exI [of _ "now # stamps"]) (simp add: upd state_tree.set_all.simps)
qed

lemma dump_replicates:
  assumes "i < length (sd_firstups S)" "line_start (u_sock_ctx (the_ups S i))"
    "tree_wf (u_inforoot (the_ups S i))"
    "\<forall>upd\<in>set upds. line_fits (u_sock_ctx (the_ups S i)) (setinfo_items upd)"
    "distinct (state_tree.upd_keys upds)"
    "\<forall>(var, val)\<in>set upds. sstate_getnode (the_ups S i) var = None"
    "(var, val) \<in> set upds"
  shows "\<exists>n. sstate_getnode (the_ups (sstate_read_loop E i S (dump_text upds)) i) var
      = Some n \<and> n_raw n = val"
proof -
  obtain stamps where "length stamps = length upds"
    "u_inforoot (the_ups (sstate_read_loop E i S (dump_text upds)) i) =
      state_tree.set_all stamps upds (u_inforoot (the_ups S i))"
    using read_dump [OF assms(1,2,4)] by blast
  then show ?thesis
    using state_tree.set_all_copies [OF assms(3,5) _ assms(7), of stamps] assms(6)
    by (auto simp: sstate_getnode_def)
qed

end
