(* ===== verification/ServerFacts.thy ===== *)
theory ServerFacts
  imports DriverSync
begin

text \<open>
  Further facts on the server: who sets the FSD flag, when data counts as stale, the
  tracking of commands, the UPSes that a reload drops.
\<close>

section \<open>The FSD flag\<close>

definition same_fsd :: "nat \<Rightarrow> upsd \<Rightarrow> upsd \<Rightarrow> bool" where
  "same_fsd c S S' \<longleftrightarrow> map u_fsd (sd_firstups S') = map u_fsd (sd_firstups S)"

lemma same_fsd_ups: "u_fsd (f (the_ups S i)) = u_fsd (the_ups S i) \<Longrightarrow> same_fsd c S (with_ups i f S)"
  by (simp add: same_fsd_def with_ups_def map_update_same)

interpretation fsd: switch_closed same_fsd
proof (unfold_locales, goal_cases)
  case (3 c S E msg)
  then show ?case by (auto simp: sendback_def do_write_def Let_def same_fsd_def with_client_def)
next
  case (4 f c S) then show ?case by (simp add: same_fsd_def with_client_def)
qed (auto simp: same_fsd_def)

lemma same_fsd_client [simp]: "same_fsd c S (with_client k f S') = same_fsd c S S'"
  by (simp add: same_fsd_def with_client_def)

lemma sendline_fsd: "same_fsd c S (fst (sstate_sendline E i buf S))"
  by (auto simp: sstate_sendline_def do_write_def sstate_disconnect_def sstate_cmdfree_def
      sstate_infofree_def same_fsd_def with_ups_def map_update_same)

lemma tracking_add_fsd: "same_fsd c S (fst (tracking_add E tid S))"
  by (simp add: tracking_add_def do_time_def same_fsd_def split: option.split)

lemma send_tracked_fsd: "same_fsd c S (send_tracked E c i cmd tid failure S)"
proof -
  obtain buf ans S1 where s: "S1 = S \<or> S1 = fst (tracking_add E (Some tid) S)"
    "send_tracked E c i cmd tid failure S = reply E c ans (fst (sstate_sendline E i buf S1))"
    using send_tracked_shape [where S = S and E = E and tid = tid and c = c and i = i and cmd = cmd and failure = failure] by metis
  have "same_fsd c S S1" using s(1) fsd.refl_R tracking_add_fsd by auto
  then show ?thesis
    using s(2) fsd.trans_R [OF fsd.trans_R [OF _ sendline_fsd] fsd.reply_R] by simp
qed

lemma login_set_instcmd_fsd:
  "same_fsd c S (net_login E c arg S)" "same_fsd c S (net_set E c arg S)"
  "same_fsd c S (net_instcmd E c arg S)"
proof -
  have "same_fsd c S (with_ups i (\<lambda>u. u\<lparr>u_numlogins := u_numlogins u + 1\<rparr>) S)" for i
    by (rule same_fsd_ups) simp
  then show "same_fsd c S (net_login E c arg S)"
    by (auto simp: net_login_def Let_def fsd.send_err_R intro: fsd.trans_R [OF _ fsd.reply_R] split: option.split)
  obtain S1 tid where n: "new_tracking_id E c S = (S1, tid)" by fastforce
  have 1: "same_fsd c S S1" using fsd.new_tracking_id_R [of c S E] n by simp
  have "same_fsd c S1 (set_var E c a b v tid S1)" for a b v
    by (auto simp: set_var_def ups_available_def Let_def send_tracked_fsd fsd.send_err_R split: option.split)
  then show "same_fsd c S (net_set E c arg S)"
    using fsd.set_tracking_R [of arg c S E] fsd.trans_R [OF 1]
    by (cases "strcasecmp (arg ! 0) ''VAR'' = 0") (simp_all add: net_set_def n Let_def fsd.send_err_R)
  have "same_fsd c S1 (send_instcmd E c a b v tid S1)" for a b v
    by (auto simp: send_instcmd_def ups_available_def Let_def send_tracked_fsd fsd.send_err_R split: option.split)
  then show "same_fsd c S (net_instcmd E c arg S)"
    using fsd.trans_R [OF 1] by (simp add: net_instcmd_def n Let_def fsd.send_err_R)
qed

text \<open>Only a permitted FSD request changes a flag, and it sets the flag of the named UPS.\<close>

lemma parse_net_fsd:
  "same_fsd c S (parse_net E c S) \<or>
   (\<exists>i. strcasecmp ''FSD'' (hd (pconf_args (c_ctx (the_client S c)))) = 0 \<and>
      length (pconf_args (c_ctx (the_client S c))) = 2 \<and> client_may S c ''FSD'' \<and>
      get_ups_ptr S (pconf_args (c_ctx (the_client S c)) ! 1) = Some i \<and>
      map u_fsd (sd_firstups (parse_net E c S)) = (map u_fsd (sd_firstups S))[i := True])"
proof -
  let ?args = "pconf_args (c_ctx (the_client S c))"
  let ?fsdset = "\<lambda>S'. \<exists>i. length ?args = 2 \<and> client_may S c ''FSD'' \<and> get_ups_ptr S (?args ! 1) = Some i \<and>
      map u_fsd (sd_firstups S') = (map u_fsd (sd_firstups S))[i := True]"
  have set_it: "map u_fsd (sd_firstups (reply E c ans (with_ups i (\<lambda>u. u\<lparr>u_fsd := True\<rparr>) S))) =
      (map u_fsd (sd_firstups S))[i := True]" for ans i
    using fsd.reply_R [of c "with_ups i (\<lambda>u. u\<lparr>u_fsd := True\<rparr>) S" E ans]
    by (simp add: same_fsd_def with_ups_def map_update)
  have "same_fsd c S (net_fsd E c (tl ?args) S) \<or> ?fsdset (net_fsd E c (tl ?args) S)"
  proof (cases "length (tl ?args) = 1")
    case True
    then have "tl ?args ! 0 = ?args ! 1" "length ?args = 2" by (auto simp: nth_tl)
    then show ?thesis
      using True set_it by (auto simp: net_fsd_def fsd.send_err_R split: option.split)
  qed (simp add: net_fsd_def fsd.send_err_R)
  moreover have "same_fsd c S (check_command E i c ?args S) \<or>
      strcasecmp ''FSD'' (hd ?args) = 0 \<and> ?fsdset (check_command E i c ?args S)"
    if found: "find_netcmd (hd ?args) = Some i"
      and fsd_case: "same_fsd c S (net_fsd E c (tl ?args) S) \<or> ?fsdset (net_fsd E c (tl ?args) S)" for i
  proof -
    obtain name func flags where cmd: "netcmds ! i = (name, func, flags)" by (cases "netcmds ! i")
    have "same_fsd c S (func E c (tl ?args) S) \<or> strcasecmp ''FSD'' (hd ?args) = 0 \<and> func = net_fsd"
      using netcmds_cases [OF found cmd]
      by (auto simp: netcmds_def fsd.net_misc_R fsd.net_get_R fsd.net_list_R fsd.net_username_R
          fsd.net_password_R fsd.net_logout_R login_set_instcmd_fsd)
    then show ?thesis using fsd_case by (auto simp: check_command_def cmd fsd.send_err_R)
  qed
  ultimately show ?thesis
    by (auto simp: parse_net_def Let_def fsd.send_err_R split: option.split)
qed

section \<open>Staleness\<close>

lemma sendping_keeps:
  "u_dumpdone (the_ups (sendping E i S) i) = u_dumpdone (the_ups S i)"
  "u_data_ok (the_ups (sendping E i S) i) = u_data_ok (the_ups S i)"
  by (cases "i < length (sd_firstups S)";
      simp add: sendping_def do_write_def do_time_def Let_def sstate_disconnect_def with_ups_def
        sstate_cmdfree_def sstate_infofree_def list_update_beyond)+

lemma sstate_dead_iff:
  "snd (sstate_dead E i age S) \<longleftrightarrow>
     \<not> valid_fd (u_sock_fd (the_ups S i)) \<or>
     age < os_time E (sd_tick S) - u_last_heard (the_ups S i) \<or>
     (u_dumpdone (the_ups S i) \<and> \<not> u_data_ok (the_ups S i))"
  using sendping_keeps [of E i "S\<lparr>sd_tick := Suc (sd_tick S)\<rparr>"]
  by (auto simp: sstate_dead_def do_time_def Let_def)

section \<open>Tracking\<close>

lemma tracking_search_update:
  "find_idx (tk_match tid) items = Some k \<Longrightarrow> status_text st = Some txt \<Longrightarrow>
   tracking_search (items[k := (items ! k)\<lparr>tk_status := st\<rparr>]) tid = txt"
proof (induction items arbitrary: k)
  case (Cons item items)
  then show ?case by (auto simp: tk_match_def split: if_splits)
qed simp

lemma tracking_set_get:
  assumes "find_idx (tk_match tid) (sd_tracking_list S) = Some k" "status_text (atoi val) = Some txt"
  shows "tracking_get (fst (tracking_set tid val S)) tid = txt"
  using tracking_search_update [OF assms] assms(1) by (simp add: tracking_set_def tracking_get_def)

section \<open>What a reload drops\<close>

definition name_retain :: "upsd \<Rightarrow> (cstr \<times> bool) list" where
  "name_retain S = map (\<lambda>u. (u_name u, u_retain u)) (sd_firstups S)"

lemma client_disconnect_retain [simp]: "name_retain (client_disconnect c S) = name_retain S"
  by (simp add: name_retain_def client_disconnect_def declogins_def with_ups_def map_update_same Let_def
      split: option.split)

lemma kick_loop_retain [simp]: "name_retain (kick_loop upsname c S) = name_retain S"
  by (induction upsname c S rule: kick_loop.induct) (subst kick_loop.simps, simp)

lemma delete_ups_retain: "name_retain (delete_ups i S) = remove_nth i (name_retain S)"
  using kick_loop_retain [of "u_name (the_ups S i)" 0 S]
  by (simp add: delete_ups_def Let_def kick_login_clients_def name_retain_def map_remove_nth)

lemma purge_loop_retain:
  "name_retain (purge_loop i S) = take i (name_retain S) @ filter snd (drop i (name_retain S))"
proof (induction i S rule: purge_loop.induct)
  case (1 i S)
  have len: "length (name_retain S) = length (sd_firstups S)" by (simp add: name_retain_def)
  show ?case
  proof (cases "length (sd_firstups S) \<le> i")
    case True
    then show ?thesis using len by (subst purge_loop.simps) simp
  next
    case False
    then have i: "i < length (name_retain S)" by (simp add: len)
    have nth: "snd (name_retain S ! i) = u_retain (the_ups S i)"
      using False by (simp add: name_retain_def)
    have drop: "drop i (name_retain S) = name_retain S ! i # drop (Suc i) (name_retain S)"
      using i by (simp add: Cons_nth_drop_Suc)
    show ?thesis
    proof (cases "u_retain (the_ups S i)")
      case True
      then have "purge_loop i S = purge_loop (Suc i) S"
        using False by (subst purge_loop.simps) simp
      then show ?thesis
        using "1.IH"(2) [OF False] True nth i by (simp add: drop take_Suc_conv_app_nth)
    next
      case gone: False
      then have "purge_loop i S = purge_loop i (delete_ups i S)"
        using False by (subst purge_loop.simps) simp
      then show ?thesis
        using "1.IH"(1) [OF False gone] gone nth i
        by (simp add: drop delete_ups_retain remove_nth_take remove_nth_drop)
    qed
  qed
qed

end
