(* ===== verification/Demo.thy ===== *)
theory Demo
  imports ServerFacts
begin

text \<open>
  A small concrete server for the witnesses: one UPS with two variables and one command,
  one client of an account with all permissions, and a system whose writes succeed.
\<close>

definition demo_os :: os where
  "demo_os = \<lparr>os_write = (\<lambda>n fd s. int (length s)), os_time = (\<lambda>n. 1000), os_mono = (\<lambda>n. int n),
     os_rand = (\<lambda>n. n), os_open_driver = (\<lambda>n fn. ConnectFailed), os_setup_driver = (\<lambda>n fd. True),
     os_read = (\<lambda>n fd. ReadRetry), os_accept = (\<lambda>n fd. (-1, [])), os_poll = (\<lambda>n fds. (0, [])),
     os_file = (\<lambda>n fn. Inl ''missing''), os_open_max = 1024, bld_UPS_VERSION = ''2.8.4'',
     bld_PACKAGE_URL = None, bld_NETVERSION = ''1.3'', bld_PORT = ''3493'', bld_CONFPATH = ''/etc/nut''\<rparr>"

definition demo_ctx :: "cstr list \<Rightarrow> pconf_ctx" where
  "demo_ctx args = \<lparr>pc_f = None, pc_state = ST_ENDOFLINE, pc_ch = 10, pc_arglist = args,
     pc_argsize = map (\<lambda>w. length w + 1) args, pc_numargs = length args, pc_maxargs = length args,
     pc_wordbuf = [], pc_wordbufsize = 16, pc_linenum = 0, pc_error = False, pc_errmsg = [],
     pc_magic = PCONF_CTX_t_MAGIC, pc_arg_limit = PCONF_DEFAULT_ARG_LIMIT,
     pc_wordlen_limit = PCONF_DEFAULT_WORDLEN_LIMIT\<rparr>"

definition demo_node :: st_node where
  "demo_node = (new_node 0 ''input.transfer.low'' ''90'')\<lparr>n_flags := ST_FLAG_RW\<rparr>"

definition demo_ups :: ups where
  "demo_ups = \<lparr>u_name = ''rack'', u_fn = ''usbhid-ups-rack'', u_desc = None, u_sock_fd = 5,
     u_stale = False, u_dumpdone = True, u_data_ok = True, u_last_heard = 999, u_last_ping = 999,
     u_last_connfail = 0, u_sock_ctx = demo_ctx [], u_inforoot = Node Leaf demo_node Leaf,
     u_cmdlist = [''load.off''], u_numlogins = 0, u_fsd = False, u_retain = True\<rparr>"

definition demo_client :: "cstr list \<Rightarrow> client" where
  "demo_client args = \<lparr>c_addr = ''127.0.0.1'', c_sock_fd = 9, c_last_heard = 990, c_loginups = None,
     c_password = Some ''pw'', c_username = Some ''adm'', c_tracking = False, c_ctx = demo_ctx args\<rparr>"

definition demo_server :: "cstr list \<Rightarrow> cstr list \<Rightarrow> upsd" where
  "demo_server actions args = \<lparr>sd_firstups = [demo_ups], sd_firstclient = [demo_client args],
     sd_firstaddr = [], sd_tracking_list = [], sd_tracking_enabled = False,
     sd_users = \<lparr>users = [\<lparr>us_username = ''adm'', us_password = Some ''pw'', us_firstcmd = [''ALL''],
        us_firstaction = actions\<rparr>], curr_user = None\<rparr>,
     sd_descs = \<lparr>cmd_list = [], var_list = []\<rparr>, sd_maxage = 15, sd_tracking_delay = 3600,
     sd_conf = \<lparr>cf_debug_level_global = -1, cf_debug_level_args = 0, cf_debug_level = 0,
        cf_allow_no_device = False, cf_allow_not_all_listeners = False, cf_maxconn = 1024,
        cf_statepath = None, cf_datapath = None, cf_env_statepath = None\<rparr>,
     sd_upstable = [], sd_reload_flag = False, sd_tick = 0, sd_wire = []\<rparr>"

lemma demo_os_written [simp]: "all_written demo_os"
  by (simp add: all_written_def demo_os_def)

lemma demo_fields [simp]:
  "sd_firstups (demo_server actions args) = [demo_ups]"
  "sd_firstclient (demo_server actions args) = [demo_client args]"
  "sd_wire (demo_server actions args) = []" "sd_tick (demo_server actions args) = 0"
  "u_name demo_ups = ''rack''" "u_sock_fd demo_ups = 5" "u_stale demo_ups = False"
  "u_fsd demo_ups = False" "u_numlogins demo_ups = 0" "u_cmdlist demo_ups = [''load.off'']"
  "u_inforoot demo_ups = Node Leaf demo_node Leaf" "u_sock_ctx demo_ups = demo_ctx []"
  "c_ctx (demo_client args) = demo_ctx args" "c_loginups (demo_client args) = None"
  "c_sock_fd (demo_client args) = 9"
  "n_var demo_node = ''input.transfer.low''" "n_flags demo_node = ST_FLAG_RW"
  "n_enum_list demo_node = []" "n_range_list demo_node = []"
  by (simp_all add: demo_server_def demo_ups_def demo_client_def demo_node_def)

lemma demo_node_val [simp]: "n_val demo_node = ''90''"
  by code_simp

lemma demo_args [simp]: "pconf_args (demo_ctx args) = args"
  by (simp add: demo_ctx_def pconf_args_def)

lemma demo_ups_ptr [simp]: "get_ups_ptr (demo_server actions args) ''rack'' = Some 0"
  by (simp add: get_ups_ptr_def)

lemma demo_may:
  "client_may (demo_server actions args) 0 act \<longleftrightarrow> list_ex (\<lambda>a. strcasecmp a act = 0) actions"
  by (simp add: client_may_def demo_server_def demo_client_def user_checkaction_def user_matchaction_def)

lemma demo_may_instcmd: "client_may_instcmd (demo_server actions args) 0 cmd"
proof -
  have "strcasecmp ''ALL'' ''all'' = 0" by code_simp
  then show ?thesis
    by (simp add: client_may_instcmd_def demo_server_def demo_client_def user_checkinstcmd_def
        user_matchinstcmd_def)
qed

lemma demo_tree_wf: "tree_wf (Node Leaf demo_node Leaf)"
  using new_node_wf [of 0 "''input.transfer.low''" "''90''"]
  by (simp add: tree_wf_def demo_node_def node_wf_def)

lemma demo_ctx_wf:
  "length args \<le> 32 \<Longrightarrow> \<forall>w\<in>set args. list_all word_char w \<and> length w \<le> 512 \<Longrightarrow> pconf_wf (demo_ctx args)"
  by (auto simp: pconf_wf_def demo_ctx_def words_ok_def PCONF_DEFAULT_ARG_LIMIT_def
      PCONF_DEFAULT_WORDLEN_LIMIT_def)

lemma demo_inv: "server_inv (demo_server actions [])"
  using demo_tree_wf demo_ctx_wf [of "[]"]
  by (simp add: server_inv_def logins_ok_def login_list_def ups_ok_def ups_wf_def cmds_sorted_def)
    (simp add: demo_server_def)

end
