(* ===== verification/ServerProps.thy ===== *)
theory ServerProps
  imports Demo
begin

text \<open>
  The properties of the requests of upsd and of its drivers' connections, with their
  witnesses.  The properties of whole turns of the server are in the root theory.
\<close>

section \<open>Access control\<close>

text \<open>A request of the authenticated group gets an error, and has no other effect, as
  long as the client has not given a user name or not given a password.\<close>

theorem credentials_come_first:
  assumes "find_netcmd (hd (pconf_args (c_ctx (the_client S c)))) = Some i"
    "snd (snd (netcmds ! i)) = FLAG_USER" "pconf_args (c_ctx (the_client S c)) \<noteq> []"
    "c_username (the_client S c) = None \<or> c_password (the_client S c) = None"
  shows "parse_net E c S =
    send_err E c (if c_username (the_client S c) = None then ''USERNAME-REQUIRED'' else ''PASSWORD-REQUIRED'') S"
  using assms by (cases "netcmds ! i") (auto simp: parse_net_def check_command_def Let_def not_less_eq_eq)

lemma credentials_come_first_witness:
  "parse_net demo_os 0 ((demo_server [''FSD''] [''FSD'', ''rack''])
       \<lparr>sd_firstclient := [(demo_client [''FSD'', ''rack''])\<lparr>c_password := None\<rparr>]\<rparr>) =
   send_err demo_os 0 ''PASSWORD-REQUIRED'' ((demo_server [''FSD''] [''FSD'', ''rack''])
       \<lparr>sd_firstclient := [(demo_client [''FSD'', ''rack''])\<lparr>c_password := None\<rparr>]\<rparr>)"
proof -
  have "find_netcmd ''FSD'' = Some 13" by (simp add: find_netcmd_def netcmds_def ci_simps c_tolower_def)
  moreover have "snd (snd (netcmds ! 13)) = FLAG_USER" by (simp add: netcmds_def)
  moreover have "c_username (demo_client [''FSD'', ''rack'']) = Some ''adm''" by (simp add: demo_client_def)
  ultimately show ?thesis
    using credentials_come_first [of "(demo_server [''FSD''] [''FSD'', ''rack''])
       \<lparr>sd_firstclient := [(demo_client [''FSD'', ''rack''])\<lparr>c_password := None\<rparr>]\<rparr>" 0 13 demo_os]
    by simp
qed

text \<open>C28. A request changes no FSD flag, unless its verb is FSD, it names one known UPS and
  nothing else, and the client's account lists the action FSD: that raises the flag of the named
  UPS.  No request clears a flag.\<close>

theorem fsd_needs_permission:
  "map u_fsd (sd_firstups (parse_net E c S)) = map u_fsd (sd_firstups S) \<or>
   (\<exists>i. strcasecmp ''FSD'' (hd (pconf_args (c_ctx (the_client S c)))) = 0 \<and>
      length (pconf_args (c_ctx (the_client S c))) = 2 \<and> client_may S c ''FSD'' \<and>
      get_ups_ptr S (pconf_args (c_ctx (the_client S c)) ! 1) = Some i \<and>
      map u_fsd (sd_firstups (parse_net E c S)) = (map u_fsd (sd_firstups S))[i := True])"
  using parse_net_fsd [of c S E] by (simp add: same_fsd_def)

text \<open>C27. SET VAR reaches beyond the client only if the driver is connected and fresh, the
  client's account lists the action SET, the variable exists and is writable, and the value
  passes the tests on length, enumeration and range.\<close>

theorem set_is_guarded:
  assumes "get_ups_ptr S upsname = Some i" "\<not> confined c S (set_var E c upsname var val tid S)"
  shows "valid_fd (u_sock_fd (the_ups S i)) \<and> \<not> u_stale (the_ups S i) \<and> client_may S c ''SET'' \<and>
    (\<exists>node. state_tree_find (u_inforoot (the_ups S i)) var = Some node \<and> has_flag (n_flags node) ST_FLAG_RW) \<and>
    set_value_error (the_ups S i) var val = None"
proof -
  have "may_set S c i var val"
    using set_var_denied_confined [OF assms(1), of c var val E tid] assms(2) by blast
  then show ?thesis
    by (auto simp: may_set_def unavailable_text_def sstate_getnode_def split: if_splits)
qed

text \<open>A SET VAR that passes the guard, and whose line fits the buffer, is delivered: the
  driver's socket gets one line and the client OK, and a parser with the default limits reads
  from that line the words SET, the variable and the value, whatever bytes to escape it has.\<close>

theorem set_is_delivered:
  assumes "get_ups_ptr S upsname = Some i" "may_set S c i var val" "all_written E"
    "c < length (sd_firstclient S)" "line_fits_buffer (set_line var val)"
    "line_start ctx" "line_fits ctx (set_line var val)"
  shows "\<exists>line. sd_wire (set_var E c upsname var val [] S) =
      sd_wire S @ [(u_sock_fd (the_ups S i), line), (c_sock_fd (the_client S c), ''OK'' @ [NL])] \<and>
    tok_run (pc_arg_limit ctx) (pc_wordlen_limit ctx) (tok_abs ctx) line =
      (ST_ENDOFLINE, [''SET'', var, val], [])"
  using set_var_sent [OF assms(1-5)] line_words [OF assms(6,7)]
  by (intro exI [of _ "line_text (set_line var val)"])
    (simp add: sent_def set_line_def snprintf_def NUT_NET_ANSWER_MAX_def SMALLBUF_def)

lemma demo_set:
  "may_set (demo_server [''SET''] []) 0 0 ''input.transfer.low'' ''95''"
  "line_fits_buffer (set_line ''input.transfer.low'' ''95'')"
  "line_start (demo_ctx [])" "line_fits (demo_ctx []) (set_line ''input.transfer.low'' ''95'')"
proof -
  have rw: "has_flag ST_FLAG_RW ST_FLAG_RW" "\<not> has_flag ST_FLAG_RW ST_FLAG_STRING"
    by (simp_all add: has_flag_def ST_FLAG_RW_def ST_FLAG_STRING_def)
  show "may_set (demo_server [''SET''] []) 0 0 ''input.transfer.low'' ''95''"
    using rw by (simp add: may_set_def unavailable_text_def valid_fd_def demo_may sstate_getnode_def
        set_value_error_def sstate_getflags_def sstate_getenumlist_def sstate_getrangelist_def
        sstate_getaux_def state_getflags_def state_getenumlist_def state_getrangelist_def Let_def)
  show "line_fits_buffer (set_line ''input.transfer.low'' ''95'')"
    by (simp add: line_fits_buffer_def set_line_text quoted_def pconf_escape_def SMALLBUF_def)
  show "line_start (demo_ctx [])"
    using demo_ctx_wf [of "[]"] by (simp add: line_start_def demo_ctx_def tok_ended_def)
  have "list_all bare_char ''SET''" "list_all bare_char ''input.transfer.low''" "list_all word_char ''95''"
    by code_simp+
  then show "line_fits (demo_ctx []) (set_line ''input.transfer.low'' ''95'')"
    by (simp add: line_fits_def set_line_def item_ok_def demo_ctx_def PCONF_DEFAULT_WORDLEN_LIMIT_def
        PCONF_DEFAULT_ARG_LIMIT_def)
qed

lemma set_is_delivered_witness:
  "\<exists>line. sd_wire (set_var demo_os 0 ''rack'' ''input.transfer.low'' ''95'' [] (demo_server [''SET''] [])) =
     [(5, line), (9, ''OK'' @ [NL])]"
  using set_is_delivered [OF demo_ups_ptr demo_set(1) demo_os_written _ demo_set(2-4)] by auto

text \<open>A SET that the guard passes is not confined: it is the line to the driver that counts.\<close>

lemma set_is_guarded_witness:
  "valid_fd (u_sock_fd (the_ups (demo_server [''SET''] []) 0)) \<and> client_may (demo_server [''SET''] []) 0 ''SET''"
proof -
  let ?S = "demo_server [''SET''] []"
  have "sd_wire (set_var demo_os 0 ''rack'' ''input.transfer.low'' ''95'' [] ?S) =
      [(5, line_text (set_line ''input.transfer.low'' ''95'')), (9, ''OK'' @ [NL])]"
    using set_var_sent [OF demo_ups_ptr demo_set(1) demo_os_written _ demo_set(2)]
    by (simp add: sent_def snprintf_def NUT_NET_ANSWER_MAX_def SMALLBUF_def)
  then have "\<not> confined 0 ?S (set_var demo_os 0 ''rack'' ''input.transfer.low'' ''95'' [] ?S)"
    by (auto simp: confined_def own_writes_def)
  from set_is_guarded [OF demo_ups_ptr this] show ?thesis by simp
qed

text \<open>INSTCMD reaches beyond the client only if the driver is connected and fresh, its
  command list has the command and the client's account allows it.\<close>

theorem instcmd_is_guarded:
  assumes "get_ups_ptr S upsname = Some i" "\<not> confined c S (send_instcmd E c upsname cmd v tid S)"
  shows "valid_fd (u_sock_fd (the_ups S i)) \<and> \<not> u_stale (the_ups S i) \<and> client_may_instcmd S c cmd \<and>
    (\<exists>name\<in>set (u_cmdlist (the_ups S i)). strcasecmp name cmd = 0)"
  using assms send_instcmd_denied [of S c cmd E upsname v tid]
  by (auto simp: send_instcmd_def ups_available_cases unavailable_text_def conf.reply_R conf.send_err_R
      sstate_getcmdlist_def list_ex_iff split: if_splits option.splits)

definition instcmd_line :: "cstr \<Rightarrow> cstr list \<Rightarrow> item list" where
  "instcmd_line cmd vals = Bare ''INSTCMD'' # Bare cmd # map Bare vals"

lemma demo_instcmd_wire:
  "sd_wire (send_instcmd demo_os 0 ''rack'' ''load.off'' None [] (demo_server [] [])) =
     [(5, ''INSTCMD load.off'' @ [NL]), (9, ''OK'' @ [NL])]"
proof -
  have s: "snprintfcat (snprintf SMALLBUF ''INSTCMD load.off'') SMALLBUF [NL] = ''INSTCMD load.off'' @ [NL]"
    by (simp add: snprintf_def snprintfcat_def SMALLBUF_def)
  show ?thesis
    using s
    by (simp add: send_instcmd_def ups_available_def valid_fd_def demo_may_instcmd sstate_getcmdlist_def
        send_tracked_def sstate_sendline_sent reply_sent sent_def snprintf_def NUT_NET_ANSWER_MAX_def
        SMALLBUF_def)
qed

lemma instcmd_is_guarded_witness:
  "client_may_instcmd (demo_server [] []) 0 ''load.off''"
proof -
  have "\<not> confined 0 (demo_server [] []) (send_instcmd demo_os 0 ''rack'' ''load.off'' None [] (demo_server [] []))"
    using demo_instcmd_wire by (auto simp: confined_def own_writes_def)
  from instcmd_is_guarded [OF demo_ups_ptr this] show ?thesis by blast
qed

text \<open>The value of an INSTCMD is escaped but not quoted: when it is two words the driver
  reads two arguments after the command.\<close>

theorem instcmd_value_is_split:
  assumes "list_all bare_char v" "list_all bare_char w" "v \<noteq> []" "w \<noteq> []"
    "length (''INSTCMD '' @ cmd @ '' '' @ v @ '' '' @ w) + 3 \<le> SMALLBUF"
  shows "snprintfcat (snprintfcat (snprintf SMALLBUF (''INSTCMD '' @ cmd)) SMALLBUF
      ('' '' @ pconf_encode (v @ '' '' @ w) SMALLBUF)) SMALLBUF [NL] =
    line_text (instcmd_line cmd [v, w])"
proof -
  have esc: "escape x = x" if "list_all bare_char x" for x
    using that by (induction x) (auto simp: bare_char_def)
  have app: "escape (x @ y) = escape x @ escape y" for x y
    by (simp add: escape_def)
  have enc: "escape (v @ '' '' @ w) = v @ '' '' @ w"
    unfolding app esc [OF assms(1)] esc [OF assms(2)] by (simp add: pconf_escape_def)
  have "pconf_encode (v @ '' '' @ w) SMALLBUF = v @ '' '' @ w"
    using assms(5) by (subst pconf_encode_fits) (simp_all only: enc, simp)
  then show ?thesis
    using assms(5) by (simp add: snprintf_fits snprintfcat_fits instcmd_line_def)
qed

lemma instcmd_value_is_split_witness:
  "snprintfcat (snprintfcat (snprintf SMALLBUF ''INSTCMD load.off'') SMALLBUF
      ('' '' @ pconf_encode ''now TRACKING'' SMALLBUF)) SMALLBUF [NL] =
    line_text (instcmd_line ''load.off'' [''now'', ''TRACKING''])"
proof -
  have "list_all bare_char ''now''" "list_all bare_char ''TRACKING''" by code_simp+
  from instcmd_value_is_split [OF this, of "''load.off''"] show ?thesis by (simp add: SMALLBUF_def)
qed

section \<open>Answers\<close>

text \<open>Every GET request, right or wrong, is answered by exactly one line and changes nothing
  else.\<close>

theorem get_answers_once: "\<exists>ans. net_get E c arg S = reply E c ans S"
  using net_get_answers_once [of E c S arg] by (simp add: answers_def)

text \<open>GET VAR on a connected and fresh UPS answers with the value in the tree, marked FSD
  when the variable is ups.status and the forced shutdown flag is raised.\<close>

theorem get_var_answers_value:
  assumes "strncasecmp var ''server.'' 7 \<noteq> 0" "get_ups_ptr S upsname = Some i"
    "valid_fd (u_sock_fd (the_ups S i))" "\<not> u_stale (the_ups S i)"
    "state_tree_find (u_inforoot (the_ups S i)) var = Some n"
  shows "net_get E c [''VAR'', upsname, var] S =
    reply E c (''VAR '' @ upsname @ '' '' @ var @ '' '' @
      quoted ((if strcasecmp var ''ups.status'' = 0 \<and> u_fsd (the_ups S i) then ''FSD '' else '''') @ n_val n) @ [NL]) S"
proof -
  have "net_get E c [''VAR'', upsname, var] S = get_var E c upsname var S"
    by (simp add: net_get_def Let_def ci_simps c_tolower_def)
  then show ?thesis
    using assms
    by (simp add: get_var_def ups_available_def sstate_getinfo_def state_getinfo_def)
qed

lemma get_var_answers_value_witness:
  "net_get demo_os 0 [''VAR'', ''rack'', ''input.transfer.low''] (demo_server [] []) =
   reply demo_os 0 (''VAR rack input.transfer.low '' @ quoted ''90'' @ [NL]) (demo_server [] [])"
proof -
  have "strncasecmp ''input.transfer.low'' ''server.'' 7 \<noteq> 0"
    by (simp add: strncasecmp_def ci_simps c_tolower_def)
  moreover have "strcasecmp ''input.transfer.low'' ''ups.status'' \<noteq> 0" by (simp add: ci_simps c_tolower_def)
  ultimately show ?thesis
    using get_var_answers_value [of "''input.transfer.low''" "demo_server [] []" "''rack''" 0 demo_node demo_os 0]
    by (simp add: valid_fd_def)
qed

text \<open>C29. When writes succeed LIST VAR on a connected and fresh UPS sends the frame lines and
  between them one line per variable, all variables once, in ascending order of their names.\<close>

theorem list_var_is_complete:
  assumes "get_ups_ptr S upsname = Some i" "valid_fd (u_sock_fd (the_ups S i))" "\<not> u_stale (the_ups S i)"
    "all_written E" "c < length (sd_firstclient S)" "tree_wf (u_inforoot (the_ups S i))"
  shows "\<exists>nodes. set nodes = set_tree (u_inforoot (the_ups S i)) \<and>
    sorted_wrt (<) (map (\<lambda>n. ci_key (n_var n)) nodes) \<and>
    list_var E c upsname S =
      sent c ((''BEGIN LIST VAR '' @ upsname @ [NL]) # map (var_line upsname (u_fsd (the_ups S i))) nodes @
        [''END LIST VAR '' @ upsname @ [NL]]) S"
proof (intro exI conjI)
  let ?t = "u_inforoot (the_ups S i)"
  show "set (inorder ?t) = set_tree ?t" by (simp add: set_inorder)
  show "sorted_wrt (<) (map vkey (inorder ?t))"
    by (rule inorder_keys) (use assms(6) in \<open>simp add: tree_wf_def\<close>)
  have body: "tree_dump E c ?t upsname False (u_fsd (the_ups S i)) S' =
      (sent c (map (var_line upsname (u_fsd (the_ups S i))) (inorder ?t)) S', True)"
    if "sd_firstclient S' = sd_firstclient S" for S'
    using tree_dump_sent [OF assms(4), of c S'] assms(5) that by (simp add: dump_lines_def)
  show "list_var E c upsname S =
      sent c ((''BEGIN LIST VAR '' @ upsname @ [NL]) # map (var_line upsname (u_fsd (the_ups S i))) (inorder ?t) @
        [''END LIST VAR '' @ upsname @ [NL]]) S"
    using send_list_sent [OF assms(4,5) body, where what = "''VAR '' @ upsname"] assms(1-3)
    by (simp add: list_var_def ups_available_def)
qed

lemma list_var_is_complete_witness:
  "\<exists>nodes. set nodes = {demo_node} \<and>
    list_var demo_os 0 ''rack'' (demo_server [] []) =
      sent 0 ((''BEGIN LIST VAR rack'' @ [NL]) # map (var_line ''rack'' False) nodes @
        [''END LIST VAR rack'' @ [NL]]) (demo_server [] [])"
  using list_var_is_complete [OF demo_ups_ptr [of "[]" "[]"], of demo_os 0] demo_tree_wf
  by (auto simp: valid_fd_def)

section \<open>Logins\<close>

text \<open>LOGIN to a known UPS by a client that is not logged in and whose account lists the
  action LOGIN raises the counter of that UPS by one and records its name in the client.\<close>

theorem login_is_recorded:
  assumes "get_ups_ptr S name = Some i" "c < length (sd_firstclient S)"
    "c_loginups (the_client S c) = None" "client_may S c ''LOGIN''"
  shows "u_numlogins (the_ups (net_login E c [name] S) i) = u_numlogins (the_ups S i) + 1 \<and>
    c_loginups (the_client (net_login E c [name] S) c) = Some (u_name (the_ups S i))"
proof -
  let ?S = "with_client c (\<lambda>k. k\<lparr>c_loginups := Some (u_name (the_ups S i))\<rparr>)
    (with_ups i (\<lambda>u. u\<lparr>u_numlogins := u_numlogins u + 1\<rparr>) S)"
  have i: "i < length (sd_firstups S)" by (rule get_ups_ptr_bound [OF assms(1)])
  have eq: "net_login E c [name] S = reply E c (''OK'' @ [NL]) ?S"
    using assms(1,3,4) i by (simp add: net_login_def Let_def the_ups_with_ups)
  have "confined c ?S (net_login E c [name] S)" unfolding eq by (rule conf.reply_R)
  then have "sd_firstups (net_login E c [name] S) = sd_firstups ?S"
    "same_session (the_client ?S c) (the_client (net_login E c [name] S) c)"
    by (auto simp: confined_def untouched_def own_client_the)
  then show ?thesis
    using assms(2) i by (simp add: same_session_def with_client_def with_ups_def)
qed

lemma login_is_recorded_witness:
  "u_numlogins (the_ups (net_login demo_os 0 [''rack''] (demo_server [''LOGIN''] [])) 0) = 1"
  using login_is_recorded [OF demo_ups_ptr [of "[''LOGIN'']" "[]"], of 0 demo_os] by (simp add: demo_may)

text \<open>Kicking the clients of a UPS disconnects exactly those that are logged into it and
  keeps the others in their order, with the login counters kept right.\<close>

theorem kick_removes_exactly:
  assumes "server_inv S"
  shows "sd_firstclient (kick_login_clients name S) =
      filter (\<lambda>k. c_loginups k \<noteq> Some name) (sd_firstclient S) \<and>
    logins_ok (kick_login_clients name S)"
  using kick_loop_effect [OF assms, of name 0] by (simp add: kick_login_clients_def server_inv_def)

lemma kick_removes_exactly_witness:
  "sd_firstclient (kick_login_clients ''rack'' (demo_server [] [])) = [demo_client []]"
  using kick_removes_exactly [OF demo_inv] by simp

text \<open>A request that follows LOGOUT in the same packet cancels it: LOGOUT asks for the
  disconnection by clearing last_heard, which the next line sets again.\<close>

theorem logout_is_cancelled:
  assumes "all_written E" "c < length (sd_firstclient S)"
    "pconf_args (c_ctx (the_client S c)) = [''HELP'']"
  shows "c_last_heard (the_client (client_line E c S) c) = os_time E (sd_tick S)"
proof -
  have f: "find_netcmd ''HELP'' = Some 3" by (simp add: find_netcmd_def netcmds_def ci_simps c_tolower_def)
  have n: "netcmds ! 3 = (''HELP'', net_help, 0)" by (simp add: netcmds_def numeral_3_eq_3)
  show ?thesis
    using assms
    by (simp add: client_line_def do_time_def parse_net_def with_client_def Let_def f check_command_def n
        net_help_def reply_sent FLAG_USER_def)
qed

lemma logout_is_cancelled_witness:
  "c_last_heard (the_client (client_line demo_os 0
     ((demo_server [] [])\<lparr>sd_firstclient := [(demo_client [''HELP''])\<lparr>c_last_heard := 0\<rparr>]\<rparr>)) 0) = 1000"
  using logout_is_cancelled [OF demo_os_written, of 0
      "(demo_server [] [])\<lparr>sd_firstclient := [(demo_client [''HELP''])\<lparr>c_last_heard := 0\<rparr>]\<rparr>"]
  by (simp add: demo_os_def)

end
