(* ===== verification/StrTokens.thy ===== *)
theory StrTokens
  imports NutPrelude
begin

text \<open>
  common/common.c: lists of tokens separated by spaces, as in ups.status
  (str_contains_token(), str_add_unique_token()), and the reference they are compared
  with: the list of the words of a string.
\<close>

section \<open>Searching\<close>

text \<open>strstr(s, t): the offset of the first occurrence.\<close>

fun strstr :: "cstr \<Rightarrow> cstr \<Rightarrow> nat option" where
  "strstr [] t = (if t = [] then Some 0 else None)"
| "strstr (c # s) t =
     (if take (length t) (c # s) = t then Some 0 else map_option Suc (strstr s t))"

text \<open>The loop from the label repeat; off is where the next strstr() starts.\<close>

function token_search :: "cstr \<Rightarrow> cstr \<Rightarrow> nat \<Rightarrow> bool" where
  "token_search string token off =
     (case strstr (drop off string) token of
        None \<Rightarrow> False
      | Some k \<Rightarrow>
          (let offset = off + k; s = drop offset string in
           if s = [] then False
           else if (offset = 0 \<or> string ! (offset - 1) = CHR '' '') \<and>
                   (drop (length token) s = [] \<or> s ! length token = CHR '' '') then True
           else token_search string token (Suc offset)))"
  by pat_completeness auto
termination by (relation "measure (\<lambda>(string, token, off). Suc (length string) - off)") auto

declare token_search.simps [simp del]

definition str_contains_token :: "cstr \<Rightarrow> cstr \<Rightarrow> bool" where
  "str_contains_token string token =
     (if token = [] \<or> string = [] then False else token_search string token 0)"

section \<open>Adding\<close>

text \<open>
  A callback gets the target, its size and the token, may change the state 's of its
  module, and vetoes the token by returning 0.
\<close>

type_synonym 's token_cb = "(cstr \<Rightarrow> nat \<Rightarrow> cstr \<Rightarrow> 's \<Rightarrow> 's \<times> int) option"

definition run_cb :: "'s token_cb \<Rightarrow> cstr \<Rightarrow> nat \<Rightarrow> cstr \<Rightarrow> 's \<Rightarrow> 's \<times> bool" where
  "run_cb cb tgt sz token x =
     (case cb of None \<Rightarrow> (x, True) | Some f \<Rightarrow> (case f tgt sz token x of (x, r) \<Rightarrow> (x, r \<noteq> 0)))"

text \<open>The part of str_add_unique_token() for a token without a space.\<close>

definition add_single_token ::
  "'s token_cb \<Rightarrow> 's token_cb \<Rightarrow> nat \<Rightarrow> cstr \<Rightarrow> cstr \<times> 's \<Rightarrow> (cstr \<times> 's) \<times> int" where
  "add_single_token cb_always cb_unique sz token st =
     (case st of (tgt, x) \<Rightarrow>
        if token = [] then ((tgt, x), -2)
        else case run_cb cb_always tgt sz token x of (x, go) \<Rightarrow>
          if \<not> go then ((tgt, x), -3)
          else if str_contains_token tgt token then ((tgt, x), 0)
          else case run_cb cb_unique tgt sz token x of (x, go) \<Rightarrow>
            if \<not> go then ((tgt, x), -3)
            else if sz < length tgt + (if tgt \<noteq> [] then 1 else 0) + length token + 1
            then ((tgt, x), -1)
            else ((snprintfcat tgt sz ((if tgt \<noteq> [] then '' '' else []) @ token), x), 1))"

text \<open>Which of the old and the new result the loop over the sub-tokens remembers.\<close>

definition keep_ret :: "int \<Rightarrow> int \<Rightarrow> int" where
  "keep_ret retval ret =
     (if retval = -2 \<or> ret < 0 \<or> (0 \<le> retval \<and> retval \<le> ret) then ret else retval)"

text \<open>
  The loop over the copy of the token: s is the word collected so far, the list what p
  has still to visit.  A word is handed to the recursive call, where it has no space.
\<close>

fun add_tokens_loop ::
  "'s token_cb \<Rightarrow> 's token_cb \<Rightarrow> nat \<Rightarrow> cstr \<Rightarrow> cstr \<Rightarrow> int \<Rightarrow> cstr \<times> 's \<Rightarrow> (cstr \<times> 's) \<times> int" where
  "add_tokens_loop ca cu sz s [] retval st =
     (if s \<noteq> [] then
        (case add_single_token ca cu sz s st of (st, ret) \<Rightarrow> (st, keep_ret retval ret))
      else (st, retval))"
| "add_tokens_loop ca cu sz s (c # p) retval st =
     (if c = CHR '' '' then
        (if s \<noteq> [] then
           (case add_single_token ca cu sz s st of (st, ret) \<Rightarrow>
              add_tokens_loop ca cu sz [] p (keep_ret retval ret) st)
         else add_tokens_loop ca cu sz [] p retval st)
      else add_tokens_loop ca cu sz (s @ [c]) p retval st)"

definition str_add_unique_token ::
  "'s token_cb \<Rightarrow> 's token_cb \<Rightarrow> nat \<Rightarrow> cstr \<Rightarrow> cstr \<times> 's \<Rightarrow> (cstr \<times> 's) \<times> int" where
  "str_add_unique_token cb_always cb_unique sz token st =
     (if token = [] then (st, -2)
      else if strstr token '' '' \<noteq> None
      then add_tokens_loop cb_always cb_unique sz [] token (-2) st
      else add_single_token cb_always cb_unique sz token st)"

section \<open>The words of a string\<close>

abbreviation SP :: char where
  "SP \<equiv> CHR '' ''"

fun words_acc :: "cstr \<Rightarrow> cstr \<Rightarrow> cstr list" where
  "words_acc cur [] = (if cur = [] then [] else [cur])"
| "words_acc cur (c # s) =
     (if c = SP then (if cur = [] then [] else [cur]) @ words_acc [] s else words_acc (cur @ [c]) s)"

definition words :: "cstr \<Rightarrow> cstr list" where
  "words s = words_acc [] s"

lemma words_acc_append: "words_acc cur (a @ SP # b) = words_acc cur a @ words_acc [] b"
  by (induction a arbitrary: cur) auto

lemma words_acc_plain: "SP \<notin> set t \<Longrightarrow> words_acc cur t = (if cur @ t = [] then [] else [cur @ t])"
  by (induction t arbitrary: cur) auto

lemma words_Nil [simp]: "words [] = []"
  by (simp add: words_def)

lemma words_plain: "SP \<notin> set t \<Longrightarrow> t \<noteq> [] \<Longrightarrow> words t = [t]"
  by (simp add: words_def words_acc_plain)

lemma words_append: "words (a @ SP # b) = words a @ words b"
  by (simp add: words_def words_acc_append)

lemma words_acc_no_space: "SP \<notin> set cur \<Longrightarrow> w \<in> set (words_acc cur s) \<Longrightarrow> SP \<notin> set w \<and> w \<noteq> []"
proof (induction s arbitrary: cur)
  case (Cons c s)
  show ?case
    using Cons.prems Cons.IH [of "[]"] Cons.IH [of "cur @ [c]"] by (cases "c = SP"; cases "cur = []") auto
qed (auto split: if_splits)

lemma words_no_space: "w \<in> set (words s) \<Longrightarrow> SP \<notin> set w \<and> w \<noteq> []"
  using words_acc_no_space [of "[]"] by (simp add: words_def)

text \<open>An occurrence between spaces or ends.\<close>

definition delimited :: "cstr \<Rightarrow> cstr \<Rightarrow> cstr \<Rightarrow> cstr \<Rightarrow> bool" where
  "delimited s t a b \<longleftrightarrow> s = a @ t @ b \<and> (a = [] \<or> last a = SP) \<and> (b = [] \<or> hd b = SP)"

lemma delimited_word:
  assumes "delimited s t a b" "SP \<notin> set t" "t \<noteq> []"
  shows "t \<in> set (words s)"
proof -
  have tb: "t \<in> set (words (t @ b))"
    using assms by (cases b) (auto simp: delimited_def words_plain words_append)
  show ?thesis
  proof (cases "a = []")
    case False
    then obtain a' where "a = a' @ [SP]"
      using assms(1) by (metis append_butlast_last_id delimited_def)
    then show ?thesis using tb assms(1) by (simp add: delimited_def words_append)
  qed (use tb assms(1) in \<open>simp add: delimited_def\<close>)
qed

lemma words_acc_delimited:
  "SP \<notin> set cur \<Longrightarrow> t \<in> set (words_acc cur s) \<Longrightarrow> \<exists>a b. delimited (cur @ s) t a b"
proof (induction s arbitrary: cur)
  case Nil
  then show ?case
    by (intro exI [of _ "[]"]) (auto simp: delimited_def split: if_splits)
next
  case (Cons c s)
  show ?case
  proof (cases "c = SP")
    case True
    then consider "t = cur" "cur \<noteq> []" | "t \<in> set (words_acc [] s)"
      using Cons.prems(2) by (auto split: if_splits)
    then show ?thesis
    proof cases
      case 1
      then have "delimited (cur @ c # s) t [] (c # s)" using True by (simp add: delimited_def)
      then show ?thesis by blast
    next
      case 2
      then obtain a b where "delimited s t a b" using Cons.IH [of "[]"] by auto
      then have "delimited (cur @ c # s) t (cur @ c # a) b" using True by (auto simp: delimited_def)
      then show ?thesis by blast
    qed
  next
    case False
    then show ?thesis using Cons.IH [of "cur @ [c]"] Cons.prems by auto
  qed
qed

lemma word_iff_delimited:
  "SP \<notin> set t \<Longrightarrow> t \<noteq> [] \<Longrightarrow> t \<in> set (words s) \<longleftrightarrow> (\<exists>a b. delimited s t a b)"
  using words_acc_delimited [of "[]" t s] delimited_word by (auto simp: words_def)

section \<open>The search finds exactly the words\<close>

lemma strstr_Some:
  "strstr s t = Some k \<Longrightarrow> take (length t) (drop k s) = t \<and> k \<le> length s \<and>
     (\<forall>j<k. take (length t) (drop j s) \<noteq> t)"
proof (induction s t arbitrary: k rule: strstr.induct)
  case (2 c s t)
  then show ?case
    by (auto simp: less_Suc_eq_0_disj split: if_splits)
qed (auto split: if_splits)

lemma strstr_None: "strstr s t = None \<Longrightarrow> take (length t) (drop j s) \<noteq> t"
proof (induction s t arbitrary: j rule: strstr.induct)
  case (2 c s t)
  then show ?case by (cases j) (auto split: if_splits)
qed (auto split: if_splits)

definition token_at :: "cstr \<Rightarrow> cstr \<Rightarrow> nat \<Rightarrow> bool" where
  "token_at s t i \<longleftrightarrow> take (length t) (drop i s) = t \<and> (i = 0 \<or> s ! (i - 1) = SP) \<and>
     (drop (length t) (drop i s) = [] \<or> drop i s ! length t = SP)"

lemma token_search_at:
  "t \<noteq> [] \<Longrightarrow> token_search s t off \<longleftrightarrow> (\<exists>i\<ge>off. token_at s t i)"
proof (induction s t off rule: token_search.induct)
  case (1 s t off)
  show ?case
  proof (cases "strstr (drop off s) t")
    case None
    have "\<not> token_at s t i" if "off \<le> i" for i
      using strstr_None [OF None, of "i - off"] that by (simp add: token_at_def)
    then show ?thesis using None by (subst token_search.simps) auto
  next
    case (Some k)
    note k = strstr_Some [OF Some]
    have ne: "drop (off + k) s \<noteq> []" using k 1(2) by (auto simp: add.commute)
    have first: "off + k \<le> i" if "off \<le> i" "token_at s t i" for i
    proof (rule ccontr)
      assume "\<not> off + k \<le> i"
      then have "i - off < k" using that(1) by linarith
      then show False using k that by (auto simp: token_at_def)
    qed
    have here: "token_at s t (off + k) \<longleftrightarrow>
        (off + k = 0 \<or> s ! (off + k - 1) = SP) \<and>
        (drop (length t) (drop (off + k) s) = [] \<or> drop (off + k) s ! length t = SP)"
      using k by (simp add: token_at_def add.commute)
    have later: "(\<exists>i\<ge>off. token_at s t i) \<longleftrightarrow> token_at s t (off + k) \<or> (\<exists>i\<ge>Suc (off + k). token_at s t i)"
      using first by (metis Suc_leD le_add1 le_eq_less_or_eq not_less_eq_eq order_trans Suc_leI)
    show ?thesis
    proof (cases "token_at s t (off + k)")
      case True
      then show ?thesis using here ne Some later by (subst token_search.simps) (auto simp: Let_def)
    next
      case False
      have "token_search s t off = token_search s t (Suc (off + k))"
        using False here ne Some by (subst token_search.simps) (auto simp: Let_def)
      also have "\<dots> = (\<exists>i\<ge>Suc (off + k). token_at s t i)"
        using 1(1) [OF Some refl refl ne] False here 1(2) by auto
      finally show ?thesis using False later by simp
    qed
  qed
qed

lemma token_at_delimited: "t \<noteq> [] \<Longrightarrow> (\<exists>i. token_at s t i) \<longleftrightarrow> (\<exists>a b. delimited s t a b)"
proof
  assume ne: "t \<noteq> []" and "\<exists>i. token_at s t i"
  then obtain i where i: "token_at s t i" by blast
  let ?b = "drop (length t) (drop i s)"
  have "drop i s \<noteq> []" using i ne by (auto simp: token_at_def)
  then have lt: "i < length s" by simp
  have "s = take i s @ t @ ?b"
    using i by (metis append_take_drop_id token_at_def)
  moreover have "take i s = [] \<or> last (take i s) = SP"
  proof (cases "i = 0")
    case False
    then have "last (take i s) = s ! (i - 1)" using lt by (subst last_conv_nth) (auto simp: min_def)
    then show ?thesis using i False by (simp add: token_at_def)
  qed simp
  moreover have "?b = [] \<or> hd ?b = SP"
    using i hd_conv_nth [of "drop (length t) (drop i s)"]
    by (cases "drop (length t) (drop i s) = []") (auto simp: token_at_def simp del: drop_drop)
  ultimately show "\<exists>a b. delimited s t a b" unfolding delimited_def by blast
next
  assume "t \<noteq> []" and "\<exists>a b. delimited s t a b"
  then obtain a b where "delimited s t a b" by blast
  then have "token_at s t (length a)"
    by (cases a rule: rev_cases; cases b) (auto simp: delimited_def token_at_def nth_append)
  then show "\<exists>i. token_at s t i" by blast
qed

lemma contains_token_word:
  assumes "SP \<notin> set t"
  shows "str_contains_token s t \<longleftrightarrow> t \<in> set (words s)"
proof (cases "t = []")
  case True
  then show ?thesis using words_no_space by (auto simp: str_contains_token_def)
next
  case False
  then show ?thesis
    using token_search_at [OF False, of s 0] token_at_delimited [OF False, of s]
      word_iff_delimited [OF assms False, of s] by (cases "s = []") (simp_all add: str_contains_token_def)
qed

section \<open>What adding does\<close>

text \<open>
  A callback that maps the state with u and lets a token pass when p holds; what passes
  does not depend on the tokens seen before.
\<close>

definition cb_spec :: "'s token_cb \<Rightarrow> (cstr \<Rightarrow> 's \<Rightarrow> 's) \<Rightarrow> (cstr \<Rightarrow> 's \<Rightarrow> bool) \<Rightarrow> bool" where
  "cb_spec cb u p \<longleftrightarrow> (\<forall>tgt sz t x. run_cb cb tgt sz t x = (u t x, p t x)) \<and>
     (\<forall>t t' x. p t (u t' x) = p t x)"

lemma cb_spec_None: "cb_spec None (\<lambda>t x. x) (\<lambda>t x. True)"
  by (simp add: cb_spec_def run_cb_def)

text \<open>Appending the words of a list that are not there yet.\<close>

fun add_new :: "'a list \<Rightarrow> 'a list \<Rightarrow> 'a list" where
  "add_new ws [] = ws"
| "add_new ws (v # vs) = add_new (if v \<in> set ws then ws else ws @ [v]) vs"

lemma set_add_new [simp]: "set (add_new ws vs) = set ws \<union> set vs"
  by (induction ws vs rule: add_new.induct) auto

lemma distinct_add_new: "distinct ws \<Longrightarrow> distinct (add_new ws vs)"
  by (induction ws vs rule: add_new.induct) auto

lemma add_single_words:
  assumes "cb_spec ca u p" "SP \<notin> set t" "t \<noteq> []" "length tgt + length t + 3 \<le> sz"
  shows "\<exists>tgt' r. add_single_token ca None sz t (tgt, x) = ((tgt', u t x), r) \<and>
    words tgt' = add_new (words tgt) (filter (\<lambda>t. p t x) [t]) \<and> length tgt' \<le> length tgt + length t + 1"
proof -
  have "words (tgt @ (if tgt \<noteq> [] then '' '' else []) @ t) = words tgt @ [t]"
    using assms words_append [of tgt t] by (simp add: words_plain)
  moreover have "snprintfcat tgt sz ((if tgt \<noteq> [] then '' '' else []) @ t) =
      tgt @ (if tgt \<noteq> [] then '' '' else []) @ t"
    using assms by (intro snprintfcat_fits) auto
  moreover have "run_cb ca tgt sz t x = (u t x, p t x)" "run_cb None tgt sz t y = (y, True)" for y :: 'a
    using assms(1) by (simp_all add: cb_spec_def run_cb_def)
  ultimately show ?thesis
    using assms by (auto simp: add_single_token_def contains_token_word)
qed

lemma add_tokens_words:
  assumes "cb_spec ca u p" "SP \<notin> set s" "length tgt + length s + length r + 3 \<le> sz"
  shows "\<exists>tgt' rv'. add_tokens_loop ca None sz s r rv (tgt, x) = ((tgt', fold u (words_acc s r) x), rv') \<and>
    words tgt' = add_new (words tgt) (filter (\<lambda>t. p t x) (words_acc s r))"
  using assms(2,3)
proof (induction r arbitrary: s tgt rv x)
  case Nil
  then show ?case using add_single_words [OF assms(1), of s tgt sz x] by (cases "s = []") auto
next
  case (Cons c r)
  show ?case
  proof (cases "c = SP \<and> s \<noteq> []")
    case True
    then obtain tgt1 r1 where one: "add_single_token ca None sz s (tgt, x) = ((tgt1, u s x), r1)"
      "words tgt1 = add_new (words tgt) (filter (\<lambda>t. p t x) [s])" "length tgt1 \<le> length tgt + length s + 1"
      using add_single_words [OF assms(1), of s tgt sz x] Cons.prems by auto
    have "p t (u s x) = p t x" for t using assms(1) by (simp add: cb_spec_def)
    then show ?thesis
      using Cons.IH [of "[]" tgt1 "keep_ret rv r1" "u s x"] Cons.prems one True by auto
  next
    case False
    then show ?thesis using Cons.IH [of "[]" tgt rv x] Cons.IH [of "s @ [c]" tgt rv x] Cons.prems by auto
  qed
qed

lemma strstr_space: "strstr s [SP] = None \<longleftrightarrow> SP \<notin> set s"
  by (induction s) auto

lemma add_unique_words:
  assumes "cb_spec ca u p" "length tgt + length token + 3 \<le> sz"
  shows "\<exists>tgt' r. str_add_unique_token ca None sz token (tgt, x) = ((tgt', fold u (words token) x), r) \<and>
    words tgt' = add_new (words tgt) (filter (\<lambda>t. p t x) (words token))"
proof (cases "token = [] \<or> SP \<notin> set token")
  case True
  then show ?thesis
    using add_single_words [OF assms(1), of token tgt sz x] assms(2)
    by (auto simp: str_add_unique_token_def strstr_space words_plain)
next
  case False
  then show ?thesis
    using add_tokens_words [OF assms(1), of "[]" tgt token sz "-2" x] assms(2)
    by (auto simp: str_add_unique_token_def strstr_space words_def)
qed

end
