(* ===== verification/DriverState.thy ===== *)
theory DriverState
  imports UpsdState StrTokens
begin

text \<open>
  drivers/dstate.c, the half that the driver program calls: the variables and commands of
  the device, and the broadcast of every change to the connected readers (send_to_all(),
  send_to_one(), dstate_setinfo() and the other dstate_* operations).

  A connection (conn_t) is malloc()ed, and a pointer to it may outlive it.  Every
  connection therefore has an address of its own, and an operation that goes through a
  pointer whose connection is gone ends in the fault Freed_access; Null_access stands for
  a NULL pointer that is followed, Stray_read for a read of memory that was never written,
  Fatal_exit for fatalx(), Endless for a loop that does not end.  What write(), the
  clock and the other system calls answer is given by the record denv, by the number of
  the call.
\<close>

section \<open>Faults\<close>

datatype fault = Freed_access | Null_access | Stray_read | Fatal_exit | Endless

definition and_then :: "fault + 'a \<Rightarrow> ('a \<Rightarrow> fault + 'b) \<Rightarrow> fault + 'b" where
  "and_then m f = (case m of Inl e \<Rightarrow> Inl e | Inr x \<Rightarrow> f x)"

lemma and_then_simps [simp]: "and_then (Inl e) f = Inl e" "and_then (Inr x) f = f x"
  by (simp_all add: and_then_def)

lemma and_then_Inr: "and_then m f = Inr y \<longleftrightarrow> (\<exists>x. m = Inr x \<and> f x = Inr y)"
  by (cases m) auto

lemma and_then_Inl: "and_then m f = Inl e \<longleftrightarrow> m = Inl e \<or> (\<exists>x. m = Inr x \<and> f x = Inl e)"
  by (cases m) auto

section \<open>The state of a driver\<close>

record denv =
  de_write :: "nat \<Rightarrow> int \<Rightarrow> cstr \<Rightarrow> int"
  de_again :: "nat \<Rightarrow> bool"
  de_accept :: "nat \<Rightarrow> int"
  de_set_nonblock :: "nat \<Rightarrow> int \<Rightarrow> bool"
  de_is_nonblock :: "nat \<Rightarrow> int \<Rightarrow> bool"
  de_read :: "nat \<Rightarrow> int \<Rightarrow> read_result"
  de_now :: "nat \<Rightarrow> int \<times> int"
  de_select :: "nat \<Rightarrow> int list \<Rightarrow> int \<times> int \<Rightarrow> int \<times> int list"
  de_mono :: "nat \<Rightarrow> int"
  de_pid :: int
  de_file :: "nat \<Rightarrow> cstr + cstr"

record dconn =
  k_addr :: nat
  k_fd :: int
  k_ctx :: pconf_ctx
  k_nobroadcast :: bool
  k_readzero :: int
  k_closing :: bool

text \<open>The text buffers and flags behind ups.status, ups.alarm and the mode buzzwords.\<close>

record dstatus =
  s_alarm_active :: int
  s_alarm_status :: bool
  s_alarm_legacy_status :: bool
  s_ignorelb :: bool
  s_status_buf :: cstr
  s_alarm_buf :: cstr
  s_buzzmode_buf :: cstr

text \<open>The variables of main.c that the requests of a reader touch.\<close>

record dmain =
  m_reload_flag :: int
  m_exit_flag :: int
  m_handling_upsdrv_shutdown :: int
  m_call_depth :: int
  m_device_sdcommands :: "cstr option"
  m_reload_requires_restart :: int
  m_debug_level :: int
  m_debug_level_args :: int
  m_debug_level_global :: int
  m_debug_level_driver :: int
  m_debug_level_protocol :: int

record drv =
  d_connhead :: "dconn list"
  d_dtree_root :: st_tree
  d_cmdhead :: "cstr list"
  d_stale :: bool
  d_status :: dstatus
  d_do_synchronous :: int
  d_sockfd :: int
  d_main :: dmain
  d_fresh :: nat
  d_tick :: nat
  d_wire :: "(int \<times> cstr) list"

definition ST_SOCK_BUF_LEN :: nat where
  "ST_SOCK_BUF_LEN = 512"

definition dwrite :: "denv \<Rightarrow> int \<Rightarrow> cstr \<Rightarrow> drv \<Rightarrow> drv \<times> int \<times> bool" where
  "dwrite E fd s d =
     (d\<lparr>d_tick := Suc (d_tick d), d_wire := d_wire d @ [(fd, s)]\<rparr>,
      de_write E (d_tick d) fd s, de_again E (d_tick d))"

definition dmono :: "denv \<Rightarrow> drv \<Rightarrow> drv \<times> int" where
  "dmono E d = (d\<lparr>d_tick := Suc (d_tick d)\<rparr>, de_mono E (d_tick d))"

section \<open>Connections\<close>

definition find_conn :: "nat \<Rightarrow> drv \<Rightarrow> dconn option" where
  "find_conn a d = find (\<lambda>k. k_addr k = a) (d_connhead d)"

text \<open>conn->...: the object behind a pointer.\<close>

definition deref :: "nat \<Rightarrow> drv \<Rightarrow> fault + dconn" where
  "deref a d = (case find_conn a d of None \<Rightarrow> Inl Freed_access | Some k \<Rightarrow> Inr k)"

definition with_conn :: "nat \<Rightarrow> (dconn \<Rightarrow> dconn) \<Rightarrow> drv \<Rightarrow> drv" where
  "with_conn a f d = d\<lparr>d_connhead := map (\<lambda>k. if k_addr k = a then f k else k) (d_connhead d)\<rparr>"

definition first_addr :: "dconn list \<Rightarrow> nat option" where
  "first_addr ks = (case ks of [] \<Rightarrow> None | k # _ \<Rightarrow> Some (k_addr k))"

text \<open>conn->next.\<close>

fun next_addr :: "nat \<Rightarrow> dconn list \<Rightarrow> nat option" where
  "next_addr a [] = None"
| "next_addr a (k # ks) = (if k_addr k = a then first_addr ks else next_addr a ks)"

definition sock_disconnect :: "nat \<Rightarrow> drv \<Rightarrow> fault + drv" where
  "sock_disconnect a d =
     and_then (deref a d) (\<lambda>k. Inr (d\<lparr>d_connhead := filter (\<lambda>k. k_addr k \<noteq> a) (d_connhead d)\<rparr>))"

section \<open>Broadcast\<close>

text \<open>A failed write: EAGAIN turns the automatic mode into the synchronous one.\<close>

definition write_failed :: "int \<Rightarrow> cstr \<Rightarrow> bool" where
  "write_failed ret buf \<longleftrightarrow> ret < 1 \<or> ret \<noteq> int (length buf)"

definition fall_back :: "int \<Rightarrow> bool \<Rightarrow> drv \<Rightarrow> drv" where
  "fall_back ret again d =
     (if ret < 0 \<and> again \<and> d_do_synchronous d = -1 then d\<lparr>d_do_synchronous := 1\<rparr> else d)"

definition sync_text :: "int \<Rightarrow> cstr" where
  "sync_text n = (if n = 1 then ''yes'' else if n = 0 then ''no'' else ''auto'')"

text \<open>vdstate_setinfo() over the routine that reaches the readers.\<close>

definition setinfo_via ::
  "(cstr \<Rightarrow> drv \<Rightarrow> fault + drv) \<Rightarrow> denv \<Rightarrow> cstr \<Rightarrow> cstr \<Rightarrow> drv \<Rightarrow> fault + (drv \<times> int)" where
  "setinfo_via send E var val d =
     (let value = snprintf ST_MAX_VALUE_LEN val in
      case dmono E d of (d, now) \<Rightarrow>
      case state_setinfo now (d_dtree_root d) var value of (root, ret) \<Rightarrow>
        let d = d\<lparr>d_dtree_root := root\<rparr> in
        if ret = 1
        then and_then (send (''SETINFO '' @ var @ '' '' @ [QUOTE] @ value @ [QUOTE, NL]) d) (\<lambda>d. Inr (d, ret))
        else Inr (d, ret))"

definition note_synchronous ::
  "(cstr \<Rightarrow> drv \<Rightarrow> fault + drv) \<Rightarrow> denv \<Rightarrow> drv \<Rightarrow> fault + drv" where
  "note_synchronous send E d =
     and_then (setinfo_via send E ''driver.parameter.synchronous'' (sync_text (d_do_synchronous d)) d)
       (\<lambda>(d, ret). Inr d)"

text \<open>
  The loop of send_to_all() from the pointer conn; n bounds the steps, failed stands for
  the dstate_setinfo() after a dropped connection.
\<close>

fun bcast_loop ::
  "(drv \<Rightarrow> fault + drv) \<Rightarrow> denv \<Rightarrow> cstr \<Rightarrow> nat \<Rightarrow> nat option \<Rightarrow> drv \<Rightarrow> fault + drv" where
  "bcast_loop failed E buf n None d = Inr d"
| "bcast_loop failed E buf 0 (Some a) d = Inl Endless"
| "bcast_loop failed E buf (Suc n) (Some a) d =
     and_then (deref a d) (\<lambda>conn.
       let cnext = next_addr a (d_connhead d) in
       if k_nobroadcast conn then bcast_loop failed E buf n cnext d
       else case dwrite E (k_fd conn) buf d of (d, ret, again) \<Rightarrow>
         if write_failed ret buf then
           and_then (sock_disconnect a d) (\<lambda>d.
             and_then (failed (fall_back ret again d)) (\<lambda>d. bcast_loop failed E buf n cnext d))
         else bcast_loop failed E buf n cnext d)"

text \<open>
  send_to_all() with at most m nested calls: each one happens after a connection was
  dropped, so the number of connections bounds them.
\<close>

fun broadcast :: "nat \<Rightarrow> denv \<Rightarrow> cstr \<Rightarrow> drv \<Rightarrow> fault + drv" where
  "broadcast 0 E msg d =
     (if msg = [] then Inr d
      else bcast_loop (\<lambda>d. Inl Endless) E (snprintf ST_SOCK_BUF_LEN msg)
             (length (d_connhead d)) (first_addr (d_connhead d)) d)"
| "broadcast (Suc m) E msg d =
     (if msg = [] then Inr d
      else bcast_loop (note_synchronous (broadcast m E) E) E (snprintf ST_SOCK_BUF_LEN msg)
             (length (d_connhead d)) (first_addr (d_connhead d)) d)"

definition send_to_all :: "denv \<Rightarrow> cstr \<Rightarrow> drv \<Rightarrow> fault + drv" where
  "send_to_all E msg d = broadcast (length (d_connhead d)) E msg d"

section \<open>The dstate interface\<close>

definition dstate_setinfo :: "denv \<Rightarrow> cstr \<Rightarrow> cstr \<Rightarrow> drv \<Rightarrow> fault + (drv \<times> int)" where
  "dstate_setinfo E var val d = setinfo_via (send_to_all E) E var val d"

text \<open>dstate_setinfo() whose result the caller ignores.\<close>

definition dstate_put :: "denv \<Rightarrow> cstr \<Rightarrow> cstr \<Rightarrow> drv \<Rightarrow> fault + drv" where
  "dstate_put E var val d = and_then (dstate_setinfo E var val d) (\<lambda>(d, ret). Inr d)"

text \<open>Changing the tree or the list, then telling the readers when the result is 1.\<close>

definition told :: "denv \<Rightarrow> cstr \<Rightarrow> drv \<times> int \<Rightarrow> fault + (drv \<times> int)" where
  "told E msg r = (case r of (d, ret) \<Rightarrow>
     if ret = 1 then and_then (send_to_all E msg d) (\<lambda>d. Inr (d, ret)) else Inr (d, ret))"

definition on_root :: "denv \<Rightarrow> (int \<Rightarrow> st_tree \<Rightarrow> st_tree \<times> int) \<Rightarrow> drv \<Rightarrow> drv \<times> int" where
  "on_root E f d = (case dmono E d of (d, now) \<Rightarrow>
     case f now (d_dtree_root d) of (root, ret) \<Rightarrow> (d\<lparr>d_dtree_root := root\<rparr>, ret))"

definition dstate_addenum :: "denv \<Rightarrow> cstr \<Rightarrow> cstr \<Rightarrow> drv \<Rightarrow> fault + (drv \<times> int)" where
  "dstate_addenum E var val d =
     (let value = snprintf ST_MAX_VALUE_LEN val in
      told E (''ADDENUM '' @ var @ '' '' @ [QUOTE] @ value @ [QUOTE, NL])
        (on_root E (\<lambda>now t. state_addenum now t var value) d))"

definition flag_words :: "32 word \<Rightarrow> cstr list" where
  "flag_words flags =
     (if has_flag flags ST_FLAG_RW then [''RW''] else []) @
     (if has_flag flags ST_FLAG_STRING then [''STRING''] else []) @
     (if has_flag flags ST_FLAG_NUMBER then [''NUMBER''] else [])"

text \<open>The list of a SETFLAGS line, built in a buffer of SMALLBUF bytes.\<close>

definition flag_list :: "cstr \<Rightarrow> 32 word \<Rightarrow> cstr" where
  "flag_list var flags =
     fold (\<lambda>w flist. snprintfcat flist SMALLBUF ('' '' @ w)) (flag_words flags) (snprintf SMALLBUF var)"

definition dstate_setflags :: "denv \<Rightarrow> cstr \<Rightarrow> 32 word \<Rightarrow> drv \<Rightarrow> fault + drv" where
  "dstate_setflags E var flags d =
     (case state_tree_find (d_dtree_root d) var of
        None \<Rightarrow> Inr d
      | Some sttmp \<Rightarrow>
          (if has_flag (n_flags sttmp) ST_FLAG_IMMUTABLE then Inr d
           else if n_flags sttmp = flags then Inr d
           else send_to_all E (''SETFLAGS '' @ flag_list var flags @ [NL])
                  (d\<lparr>d_dtree_root := state_tree_write var (\<lambda>n. n\<lparr>n_flags := flags\<rparr>) (d_dtree_root d)\<rparr>)))"

definition dstate_addflags :: "denv \<Rightarrow> cstr \<Rightarrow> 32 word \<Rightarrow> drv \<Rightarrow> fault + drv" where
  "dstate_addflags E var addflags d =
     (let flags = state_getflags (d_dtree_root d) var in
      if flags = -1 then Inr d
      else if flags AND addflags = addflags then Inr d
      else dstate_setflags E var (flags OR addflags) d)"

definition dstate_delflags :: "denv \<Rightarrow> cstr \<Rightarrow> 32 word \<Rightarrow> drv \<Rightarrow> fault + drv" where
  "dstate_delflags E var delflags d =
     (let flags = state_getflags (d_dtree_root d) var in
      if flags = -1 then Inr d
      else if flags AND delflags = 0 then Inr d
      else dstate_setflags E var (flags AND NOT delflags) d)"

definition dstate_addrange :: "denv \<Rightarrow> cstr \<Rightarrow> int \<Rightarrow> int \<Rightarrow> drv \<Rightarrow> fault + (drv \<times> int)" where
  "dstate_addrange E var mn mx d =
     (case on_root E (\<lambda>now t. state_addrange now t var mn mx) d of (d, ret) \<Rightarrow>
        if ret = 1
        then and_then (send_to_all E (''ADDRANGE '' @ var @ '' '' @ show_int mn @ '' '' @ show_int mx @ [NL]) d)
               (\<lambda>d. and_then (dstate_addflags E var ST_FLAG_NUMBER d) (\<lambda>d. Inr (d, ret)))
        else Inr (d, ret))"

definition dstate_setaux :: "denv \<Rightarrow> cstr \<Rightarrow> int \<Rightarrow> drv \<Rightarrow> fault + drv" where
  "dstate_setaux E var aux d =
     (case state_tree_find (d_dtree_root d) var of
        None \<Rightarrow> Inr d
      | Some sttmp \<Rightarrow>
          (if n_aux sttmp = aux then Inr d
           else send_to_all E (''SETAUX '' @ var @ '' '' @ show_int aux @ [NL])
                  (d\<lparr>d_dtree_root := state_tree_write var (\<lambda>n. n\<lparr>n_aux := aux\<rparr>) (d_dtree_root d)\<rparr>)))"

definition dstate_getinfo :: "drv \<Rightarrow> cstr \<Rightarrow> cstr option" where
  "dstate_getinfo d var = state_getinfo (d_dtree_root d) var"

definition dstate_addcmd :: "denv \<Rightarrow> cstr \<Rightarrow> drv \<Rightarrow> fault + drv" where
  "dstate_addcmd E cmdname d =
     (case state_addcmd (d_cmdhead d) cmdname of (cs, ret) \<Rightarrow>
        and_then (told E (''ADDCMD '' @ cmdname @ [NL]) (d\<lparr>d_cmdhead := cs\<rparr>, ret)) (\<lambda>(d, ret). Inr d))"

definition dstate_delinfo :: "denv \<Rightarrow> cstr \<Rightarrow> drv \<Rightarrow> fault + (drv \<times> int)" where
  "dstate_delinfo E var d =
     (case state_delinfo (d_dtree_root d) var of (root, ret) \<Rightarrow>
        told E (''DELINFO '' @ var @ [NL]) (d\<lparr>d_dtree_root := root\<rparr>, ret))"

definition dstate_delinfo_olderthan :: "denv \<Rightarrow> cstr \<Rightarrow> int option \<Rightarrow> drv \<Rightarrow> fault + (drv \<times> int)" where
  "dstate_delinfo_olderthan E var cutoff d =
     (case state_delinfo_olderthan (d_dtree_root d) var cutoff of (root, ret) \<Rightarrow>
        told E (''DELINFO '' @ var @ [NL]) (d\<lparr>d_dtree_root := root\<rparr>, ret))"

definition dstate_delenum :: "denv \<Rightarrow> cstr \<Rightarrow> cstr \<Rightarrow> drv \<Rightarrow> fault + (drv \<times> int)" where
  "dstate_delenum E var val d =
     told E (''DELENUM '' @ var @ '' '' @ [QUOTE] @ val @ [QUOTE, NL])
       (on_root E (\<lambda>now t. state_delenum now t var val) d)"

definition dstate_delrange :: "denv \<Rightarrow> cstr \<Rightarrow> int \<Rightarrow> int \<Rightarrow> drv \<Rightarrow> fault + (drv \<times> int)" where
  "dstate_delrange E var mn mx d =
     told E (''DELRANGE '' @ var @ '' '' @ show_int mn @ '' '' @ show_int mx @ [NL])
       (on_root E (\<lambda>now t. state_delrange now t var mn mx) d)"

definition dstate_delcmd :: "denv \<Rightarrow> cstr \<Rightarrow> drv \<Rightarrow> fault + (drv \<times> int)" where
  "dstate_delcmd E cmd d =
     (case state_delcmd (d_cmdhead d) cmd of (cs, ret) \<Rightarrow>
        told E (''DELCMD '' @ cmd @ [NL]) (d\<lparr>d_cmdhead := cs\<rparr>, ret))"

definition dstate_dataok :: "denv \<Rightarrow> drv \<Rightarrow> fault + drv" where
  "dstate_dataok E d =
     (if d_stale d then send_to_all E (''DATAOK'' @ [NL]) (d\<lparr>d_stale := False\<rparr>) else Inr d)"

definition dstate_datastale :: "denv \<Rightarrow> drv \<Rightarrow> fault + drv" where
  "dstate_datastale E d =
     (if \<not> d_stale d then send_to_all E (''DATASTALE'' @ [NL]) (d\<lparr>d_stale := True\<rparr>) else Inr d)"

definition dstate_is_stale :: "drv \<Rightarrow> bool" where
  "dstate_is_stale d = d_stale d"

definition sock_close :: "drv \<Rightarrow> drv" where
  "sock_close d = d\<lparr>d_sockfd := ERROR_FD, d_connhead := []\<rparr>"

definition dstate_free :: "drv \<Rightarrow> drv" where
  "dstate_free d =
     sock_close (d\<lparr>d_dtree_root := state_infofree (d_dtree_root d), d_cmdhead := state_cmdfree (d_cmdhead d)\<rparr>)"

section \<open>Status, mode buzzwords and alarms\<close>

definition upd_status :: "(dstatus \<Rightarrow> dstatus) \<Rightarrow> drv \<Rightarrow> drv" where
  "upd_status f d = d\<lparr>d_status := f (d_status d)\<rparr>"

definition status_init :: "drv \<Rightarrow> drv" where
  "status_init d = upd_status (\<lambda>s. s\<lparr>s_ignorelb := dstate_getinfo d ''driver.flag.ignorelb'' \<noteq> None,
     s_status_buf := [], s_alarm_status := False, s_alarm_legacy_status := False\<rparr>) d"

definition status_get :: "drv \<Rightarrow> cstr \<Rightarrow> bool" where
  "status_get d buf = str_contains_token (s_status_buf (d_status d)) buf"

definition status_set_callback :: "cstr \<Rightarrow> nat \<Rightarrow> cstr \<Rightarrow> dstatus \<Rightarrow> dstatus \<times> int" where
  "status_set_callback tgt tgtsize token s =
     (if s_ignorelb s \<and> strcasecmp token ''LB'' = 0 then (s, 0)
      else if strcasecmp token ''ALARM'' = 0 then (s\<lparr>s_alarm_legacy_status := True\<rparr>, 0)
      else (s, 1))"

definition status_set :: "cstr \<Rightarrow> drv \<Rightarrow> drv" where
  "status_set buf d = upd_status (\<lambda>s.
     case str_add_unique_token (Some status_set_callback) None ST_MAX_VALUE_LEN buf (s_status_buf s, s) of
       ((tgt, s), ret) \<Rightarrow> s\<lparr>s_status_buf := tgt\<rparr>) d"

text \<open>val && low && strtol(val) < strtol(low).\<close>

definition below :: "drv \<Rightarrow> cstr \<Rightarrow> cstr \<Rightarrow> bool" where
  "below d val low = (case (dstate_getinfo d val, dstate_getinfo d low) of
     (Some v, Some l) \<Rightarrow> fst (strtol v 10) < fst (strtol l 10) | _ \<Rightarrow> False)"

definition append_lb :: "drv \<Rightarrow> drv" where
  "append_lb d = upd_status (\<lambda>s. s\<lparr>s_status_buf := snprintfcat (s_status_buf s) ST_MAX_VALUE_LEN '' LB''\<rparr>) d"

definition status_commit :: "denv \<Rightarrow> drv \<Rightarrow> fault + drv" where
  "status_commit E d =
     (let d = (if s_ignorelb (d_status d) \<and>
                  (below d ''battery.charge'' ''battery.charge.low'' \<or>
                   below d ''battery.runtime'' ''battery.runtime.low'')
               then append_lb d else d);
          s = d_status d in
      if s_alarm_active s \<noteq> 0 \<or> s_alarm_legacy_status s
      then dstate_put E ''ups.status'' (if s_status_buf s \<noteq> [] then ''ALARM '' @ s_status_buf s else ''ALARM'') d
      else and_then (dstate_put E ''ups.status'' (s_status_buf s) d)
             (\<lambda>d. Inr (upd_status (\<lambda>s. s\<lparr>s_alarm_legacy_status := False\<rparr>) d)))"

definition buzzmode_init :: "drv \<Rightarrow> drv" where
  "buzzmode_init d = upd_status (\<lambda>s. s\<lparr>s_buzzmode_buf := []\<rparr>) d"

definition buzzmode_get :: "drv \<Rightarrow> cstr \<Rightarrow> bool" where
  "buzzmode_get d buf = str_contains_token (s_buzzmode_buf (d_status d)) buf"

definition buzzmode_set :: "cstr \<Rightarrow> drv \<Rightarrow> drv" where
  "buzzmode_set buf d = upd_status (\<lambda>s.
     case str_add_unique_token None None ST_MAX_VALUE_LEN buf (s_buzzmode_buf s, s) of
       ((tgt, s), ret) \<Rightarrow> s\<lparr>s_buzzmode_buf := tgt\<rparr>) d"

definition BUZZWORDS :: cstr where
  "BUZZWORDS = ''experimental.ups.mode.buzzwords''"

definition buzzmode_commit :: "denv \<Rightarrow> drv \<Rightarrow> fault + drv" where
  "buzzmode_commit E d =
     (if s_buzzmode_buf (d_status d) = []
      then and_then (dstate_delinfo E BUZZWORDS d) (\<lambda>(d, ret). Inr d)
      else dstate_put E BUZZWORDS (s_buzzmode_buf (d_status d)) d)"

definition device_alarm_init :: "drv \<Rightarrow> drv" where
  "device_alarm_init d = upd_status (\<lambda>s. s\<lparr>s_alarm_buf := []\<rparr>) d"

definition alarm_init :: "drv \<Rightarrow> drv" where
  "alarm_init d = device_alarm_init (upd_status (\<lambda>s. s\<lparr>s_alarm_active := 0\<rparr>) d)"

text \<open>alarm_set() without its messages about a truncated text.\<close>

definition alarm_set :: "cstr \<Rightarrow> drv \<Rightarrow> drv" where
  "alarm_set buf d = upd_status (\<lambda>s. s\<lparr>s_alarm_buf :=
     (if length (s_alarm_buf s) < 1 \<or> (s_alarm_status s \<and> s_alarm_buf s = ''[N/A]'')
      then snprintf ST_MAX_VALUE_LEN buf
      else snprintfcat (s_alarm_buf s) ST_MAX_VALUE_LEN ('' '' @ buf))\<rparr>) d"

definition alarm_commit :: "denv \<Rightarrow> drv \<Rightarrow> fault + drv" where
  "alarm_commit E d =
     (if 0 < length (s_alarm_buf (d_status d))
      then and_then (dstate_put E ''ups.alarm'' (s_alarm_buf (d_status d)) d)
             (\<lambda>d. Inr (upd_status (\<lambda>s. s\<lparr>s_alarm_active := 1\<rparr>) d))
      else and_then (dstate_delinfo E ''ups.alarm'' d)
             (\<lambda>(d, ret). Inr (upd_status (\<lambda>s. s\<lparr>s_alarm_active := 0\<rparr>) d)))"

definition device_alarm_commit :: "denv \<Rightarrow> int \<Rightarrow> drv \<Rightarrow> fault + drv" where
  "device_alarm_commit E device_number d =
     (let info_name = snprintf 20 (if device_number \<noteq> 0
            then ''device.'' @ show_int device_number @ ''.ups.alarm'' else ''ups.alarm'') in
      if 0 < length (s_alarm_buf (d_status d))
      then and_then (dstate_put E info_name (s_alarm_buf (d_status d)) d)
             (\<lambda>d. Inr (upd_status (\<lambda>s. s\<lparr>s_alarm_active := c_int (s_alarm_active s + 1)\<rparr>) d))
      else and_then (dstate_delinfo E info_name d) (\<lambda>(d, ret). Inr d))"

end
