(* ===== verification/DriverMain.thy ===== *)
theory DriverMain
  imports DriverState StrLib
begin

text \<open>
  The part of drivers/main.c that answers a reader: the commands and settings that every
  driver understands (main_instcmd(), main_setvar()), the list of shutdown commands, the
  debug level and the live reload.

  What a device driver itself provides is the record device: upsh.setvar and upsh.instcmd,
  None for a NULL pointer, and upsdrv_shutdown(); v_read_upsconf stands for the pass over
  ups.conf with the callbacks of main.c.
\<close>

record device =
  v_setvar :: "(cstr \<Rightarrow> cstr \<Rightarrow> drv \<Rightarrow> fault + (drv \<times> int)) option"
  v_instcmd :: "(cstr \<Rightarrow> cstr option \<Rightarrow> drv \<Rightarrow> fault + (drv \<times> int)) option"
  v_shutdown :: "drv \<Rightarrow> fault + drv"
  v_read_upsconf :: "drv \<Rightarrow> fault + drv"

section \<open>Result codes, signals and flags\<close>

definition STAT_INSTCMD_HANDLED :: int where "STAT_INSTCMD_HANDLED = 0"
definition STAT_INSTCMD_UNKNOWN :: int where "STAT_INSTCMD_UNKNOWN = 1"
definition STAT_INSTCMD_INVALID :: int where "STAT_INSTCMD_INVALID = 2"
definition STAT_SET_HANDLED :: int where "STAT_SET_HANDLED = 0"
definition STAT_SET_UNKNOWN :: int where "STAT_SET_UNKNOWN = 1"
definition STAT_SET_INVALID :: int where "STAT_SET_INVALID = 2"

lemmas drv_stat_defs = STAT_INSTCMD_HANDLED_def STAT_INSTCMD_UNKNOWN_def STAT_INSTCMD_INVALID_def
  STAT_SET_HANDLED_def STAT_SET_UNKNOWN_def STAT_SET_INVALID_def

definition EF_EXIT_FAILURE :: int where "EF_EXIT_FAILURE = -1"
definition EF_EXIT_SUCCESS :: int where "EF_EXIT_SUCCESS = -2"

text \<open>SIGHUP, SIGUSR1 and SIGTERM with their numbers on Linux.\<close>

definition SIGCMD_RELOAD :: int where "SIGCMD_RELOAD = 1"
definition SIGCMD_EXIT :: int where "SIGCMD_EXIT = -15"
definition SIGCMD_RELOAD_OR_ERROR :: int where "SIGCMD_RELOAD_OR_ERROR = - SIGCMD_RELOAD"
definition SIGCMD_RELOAD_OR_EXIT :: int where "SIGCMD_RELOAD_OR_EXIT = 10"

definition upd_main :: "(dmain \<Rightarrow> dmain) \<Rightarrow> drv \<Rightarrow> drv" where
  "upd_main f d = d\<lparr>d_main := f (d_main d)\<rparr>"

definition set_exit_flag :: "int \<Rightarrow> drv \<Rightarrow> drv" where
  "set_exit_flag sig d = upd_main (\<lambda>m. m\<lparr>m_exit_flag := sig\<rparr>) d"

definition set_reload_flag :: "int \<Rightarrow> drv \<Rightarrow> drv" where
  "set_reload_flag sig d =
     (if sig = SIGCMD_RELOAD_OR_EXIT then upd_main (\<lambda>m. m\<lparr>m_reload_flag := 2\<rparr>) d
      else if sig = SIGCMD_EXIT then set_exit_flag EF_EXIT_SUCCESS d
      else upd_main (\<lambda>m. m\<lparr>m_reload_flag := 1\<rparr>) d)"

section \<open>Debug level and reload\<close>

definition upsconf_debug_level :: "dmain \<Rightarrow> int" where
  "upsconf_debug_level m =
     (if 0 \<le> m_debug_level_global m \<and> 0 \<le> m_debug_level_driver m then m_debug_level_driver m
      else if 0 \<le> m_debug_level_driver m then m_debug_level_driver m
      else if 0 \<le> m_debug_level_global m then m_debug_level_global m
      else -1)"

definition assign_debug_level :: "denv \<Rightarrow> drv \<Rightarrow> fault + drv" where
  "assign_debug_level E d =
     (let m = d_main d;
          level = (if 0 \<le> m_debug_level_protocol m then m_debug_level_protocol m
                   else if m_debug_level_args m < upsconf_debug_level m then upsconf_debug_level m
                   else m_debug_level_args m);
          d = upd_main (\<lambda>m. m\<lparr>m_debug_level := level\<rparr>) d in
      and_then (dstate_put E ''driver.debug'' (show_int level) d) (\<lambda>d.
        dstate_setflags E ''driver.debug'' (ST_FLAG_RW OR ST_FLAG_NUMBER) d))"

definition handle_reload_flag :: "denv \<Rightarrow> device \<Rightarrow> drv \<Rightarrow> fault + (drv \<times> int)" where
  "handle_reload_flag E V d =
     (if m_reload_flag (d_main d) = 0 \<or> m_exit_flag (d_main d) \<noteq> 0 then Inr (d, STAT_INSTCMD_INVALID)
      else and_then (dstate_put E ''driver.state'' ''reloading'' d) (\<lambda>d.
        let d = upd_main (\<lambda>m. m\<lparr>m_debug_level_global := -1, m_debug_level_driver := -1,
                               m_reload_requires_restart := -1\<rparr>) d in
        and_then (v_read_upsconf V d) (\<lambda>d.
        let ret = (if m_reload_requires_restart (d_main d) < 1
                   then STAT_INSTCMD_HANDLED else STAT_INSTCMD_INVALID) in
        and_then (assign_debug_level E d) (\<lambda>d.
        let d = upd_main (\<lambda>m. m\<lparr>m_reload_flag := 0\<rparr>) d in
        and_then (dstate_put E ''driver.state'' ''quiet'' d) (\<lambda>d. Inr (d, ret))))))"

section \<open>Shutdown commands\<close>

definition MAX_SDCOMMANDS_DEPTH :: int where
  "MAX_SDCOMMANDS_DEPTH = 15"

text \<open>strtok(s, ","): the pieces between commas, without the empty ones.\<close>

fun strtok_all :: "cstr \<Rightarrow> cstr \<Rightarrow> cstr list" where
  "strtok_all cur [] = (if cur = [] then [] else [cur])"
| "strtok_all cur (c # s) =
     (if c = CHR '','' then (if cur = [] then [] else [cur]) @ strtok_all [] s
      else strtok_all (cur @ [c]) s)"

text \<open>The commands in turn until one is handled; the last result and the command that worked.\<close>

fun try_sdcommands ::
  "device \<Rightarrow> (cstr \<Rightarrow> cstr option \<Rightarrow> drv \<Rightarrow> fault + (drv \<times> int)) \<Rightarrow> cstr list \<Rightarrow> int \<Rightarrow> drv \<Rightarrow>
   fault + (drv \<times> int \<times> cstr option)" where
  "try_sdcommands V instcmd [] cmdret d = Inr (d, cmdret, None)"
| "try_sdcommands V instcmd (s # ss) cmdret d =
     and_then
       (if s = ''shutdown.default''
        then and_then (v_shutdown V d) (\<lambda>d. Inr (d, STAT_INSTCMD_HANDLED))
        else instcmd s None d)
       (\<lambda>(d, cmdret). if cmdret = STAT_INSTCMD_HANDLED then Inr (d, cmdret, Some s)
                      else try_sdcommands V instcmd ss cmdret d)"

text \<open>"shutdown.default" as an element of the list, looked for at its first occurrence.\<close>

definition lists_default :: "cstr \<Rightarrow> bool" where
  "lists_default sdcmds = (case strstr sdcmds ''shutdown.default'' of
     None \<Rightarrow> False
   | Some k \<Rightarrow> (k = 0 \<or> sdcmds ! (k - 1) = CHR '','') \<and>
       (drop (k + length ''shutdown.default'') sdcmds = [] \<or>
        hd (drop (k + length ''shutdown.default'') sdcmds) = CHR '',''))"

definition do_loop_shutdown_commands ::
  "device \<Rightarrow> cstr option \<Rightarrow> drv \<Rightarrow> fault + (drv \<times> int \<times> cstr option)" where
  "do_loop_shutdown_commands V sdcmds d =
     (let d = upd_main (\<lambda>m. m\<lparr>m_call_depth := m_call_depth m + 1\<rparr>) d in
      if MAX_SDCOMMANDS_DEPTH < m_call_depth (d_main d) then Inl Fatal_exit
      else and_then
        (case sdcmds of
           None \<Rightarrow> Inr (d, STAT_INSTCMD_UNKNOWN, None)
         | Some s \<Rightarrow>
             (if s = [] then Inr (d, STAT_INSTCMD_UNKNOWN, None)
              else case v_instcmd V of
                None \<Rightarrow>
                  (if lists_default s
                   then and_then (v_shutdown V d)
                          (\<lambda>d. Inr (d, STAT_INSTCMD_HANDLED, Some ''shutdown.default''))
                   else Inr (d, STAT_INSTCMD_UNKNOWN, None))
              | Some instcmd \<Rightarrow> try_sdcommands V instcmd (strtok_all [] s) STAT_INSTCMD_UNKNOWN d))
        (\<lambda>(d, cmdret, cmdused).
           Inr (upd_main (\<lambda>m. m\<lparr>m_call_depth := m_call_depth m - 1\<rparr>) d,
                if cmdret \<noteq> STAT_INSTCMD_HANDLED then STAT_INSTCMD_INVALID else cmdret, cmdused)))"

definition loop_shutdown_commands ::
  "device \<Rightarrow> cstr option \<Rightarrow> drv \<Rightarrow> fault + (drv \<times> int \<times> cstr option)" where
  "loop_shutdown_commands V sdcmds_default d =
     (let custom = (case m_device_sdcommands (d_main d) of
                      Some s \<Rightarrow> Some s | None \<Rightarrow> dstate_getinfo d ''driver.parameter.sdcommands'') in
      do_loop_shutdown_commands V (case custom of Some s \<Rightarrow> Some s | None \<Rightarrow> sdcmds_default) d)"

definition upsdrv_shutdown_sdcommands_or_default ::
  "device \<Rightarrow> cstr option \<Rightarrow> drv \<Rightarrow> fault + (drv \<times> int)" where
  "upsdrv_shutdown_sdcommands_or_default V sdcmds_default d =
     and_then (loop_shutdown_commands V
         (Some (case sdcmds_default of Some s \<Rightarrow> s | None \<Rightarrow> ''shutdown.default'')) d)
       (\<lambda>(d, sdret, sdcmd_used).
          Inr (if 0 < m_handling_upsdrv_shutdown (d_main d)
               then set_exit_flag (if sdret = STAT_INSTCMD_HANDLED then EF_EXIT_SUCCESS else EF_EXIT_FAILURE) d
               else d, sdret))"

section \<open>Commands and settings of every driver\<close>

definition main_instcmd :: "denv \<Rightarrow> device \<Rightarrow> cstr \<Rightarrow> drv \<Rightarrow> fault + (drv \<times> int)" where
  "main_instcmd E V cmdname d =
     (if cmdname = ''shutdown.default''
      then and_then (v_shutdown V d) (\<lambda>d. Inr (d, STAT_INSTCMD_HANDLED))
      else if cmdname = ''driver.killpower'' then
        (case dstate_getinfo d ''driver.flag.allow_killpower'' of
           None \<Rightarrow> Inl Null_access
         | Some allow \<Rightarrow>
             (if allow = ''1'' then
                (let d = (if m_handling_upsdrv_shutdown (d_main d) = 0
                          then upd_main (\<lambda>m. m\<lparr>m_handling_upsdrv_shutdown := 1\<rparr>) d else d) in
                 and_then (dstate_put E ''driver.state'' ''fsd.killpower'' d) (\<lambda>d.
                 and_then (upsdrv_shutdown_sdcommands_or_default V None d) (\<lambda>(d, sdret).
                 and_then (dstate_put E ''driver.state'' ''quiet'' d) (\<lambda>d.
                 Inr (d, STAT_INSTCMD_HANDLED)))))
              else Inr (d, STAT_INSTCMD_INVALID)))
      else if cmdname = ''driver.exit'' then Inr (set_reload_flag SIGCMD_EXIT d, STAT_INSTCMD_HANDLED)
      else if cmdname = ''driver.reload'' then Inr (set_reload_flag SIGCMD_RELOAD d, STAT_INSTCMD_HANDLED)
      else if cmdname = ''driver.reload-or-exit''
      then Inr (set_reload_flag SIGCMD_RELOAD_OR_EXIT d, STAT_INSTCMD_HANDLED)
      else if cmdname = ''driver.reload-or-error''
      then handle_reload_flag E V (set_reload_flag SIGCMD_RELOAD_OR_ERROR d)
      else Inr (d, STAT_INSTCMD_UNKNOWN))"

definition main_setvar :: "denv \<Rightarrow> cstr \<Rightarrow> cstr \<Rightarrow> drv \<Rightarrow> fault + (drv \<times> int)" where
  "main_setvar E varname val d =
     (if varname = ''driver.debug'' then
        (case str_to_int (Some val) 10 of
           Inl e \<Rightarrow> Inr (d, STAT_SET_INVALID)
         | Inr num \<Rightarrow>
             and_then (assign_debug_level E
                 (upd_main (\<lambda>m. m\<lparr>m_debug_level_protocol := (if num < 0 then -1 else num)\<rparr>) d))
               (\<lambda>d. Inr (d, STAT_SET_HANDLED)))
      else if varname = ''driver.flag.allow_killpower'' then
        (let num = (case str_to_int (Some val) 10 of
               Inr num \<Rightarrow> (if num \<le> 0 then 0 else 1)
             | Inl e \<Rightarrow> (if strneq val ''enable'' 6 \<or> val = ''true'' \<or> val = ''yes'' \<or> val = ''on''
                         then 1 else 0)) in
         and_then (dstate_put E ''driver.flag.allow_killpower'' (show_int num) d)
           (\<lambda>d. Inr (d, STAT_SET_HANDLED)))
      else Inr (d, STAT_SET_UNKNOWN))"

end
