(* ===== verification/DriverSock.thy ===== *)
theory DriverSock
  imports DriverMain
begin

text \<open>
  drivers/dstate.c, the half that serves the readers: accepting a connection, the dumps,
  the requests of sock_arg(), reading a connection and the poll of all of them.
\<close>

section \<open>Writing to one reader\<close>

text \<open>A first write() below zero is tried once more.\<close>

definition send_to_one :: "denv \<Rightarrow> nat \<Rightarrow> cstr \<Rightarrow> drv \<Rightarrow> fault + (drv \<times> bool)" where
  "send_to_one E a msg d =
     (if msg = [] then Inr (d, True)
      else and_then (deref a d) (\<lambda>conn.
        let buf = snprintf ST_SOCK_BUF_LEN msg in
        case (case dwrite E (k_fd conn) buf d of (d, ret, again) \<Rightarrow>
                if ret < 0 then dwrite E (k_fd conn) buf d else (d, ret, again)) of
          (d, ret, again) \<Rightarrow>
            if write_failed ret buf then
              and_then (sock_disconnect a d) (\<lambda>d.
                and_then (note_synchronous (send_to_all E) E (fall_back ret again d))
                  (\<lambda>d. Inr (d, False)))
            else Inr (d, True)))"

text \<open>send_to_one() whose result the caller ignores.\<close>

definition tell :: "denv \<Rightarrow> nat \<Rightarrow> cstr \<Rightarrow> drv \<Rightarrow> fault + drv" where
  "tell E a msg d = and_then (send_to_one E a msg d) (\<lambda>(d, sent). Inr d)"

text \<open>Messages in order up to the first one that could not be sent.\<close>

fun send_each :: "denv \<Rightarrow> nat \<Rightarrow> cstr list \<Rightarrow> drv \<Rightarrow> fault + (drv \<times> bool)" where
  "send_each E a [] d = Inr (d, True)"
| "send_each E a (m # ms) d =
     and_then (send_to_one E a m d) (\<lambda>(d, sent). if \<not> sent then Inr (d, False) else send_each E a ms d)"

section \<open>Dumps\<close>

definition node_lines :: "st_node \<Rightarrow> cstr list" where
  "node_lines node =
     [''SETINFO '' @ n_var node @ '' '' @ [QUOTE] @ n_val node @ [QUOTE, NL]] @
     map (\<lambda>e. ''ADDENUM '' @ n_var node @ '' '' @ [QUOTE] @ e @ [QUOTE, NL]) (n_enum_list node) @
     map (\<lambda>(mn, mx). ''ADDRANGE '' @ n_var node @ '' '' @ show_int mn @ '' '' @ show_int mx @ [NL])
       (n_range_list node) @
     (if n_aux node \<noteq> 0 then [''SETAUX '' @ n_var node @ '' '' @ show_int (n_aux node) @ [NL]] else []) @
     (if n_flags node \<noteq> 0 then [''SETFLAGS '' @ flag_list (n_var node) (n_flags node) @ [NL]] else [])"

definition st_tree_dump_conn_one_node :: "denv \<Rightarrow> st_node \<Rightarrow> nat \<Rightarrow> drv \<Rightarrow> fault + (drv \<times> bool)" where
  "st_tree_dump_conn_one_node E node a d = send_each E a (node_lines node) d"

fun st_tree_dump_conn :: "denv \<Rightarrow> st_tree \<Rightarrow> nat \<Rightarrow> drv \<Rightarrow> fault + (drv \<times> bool)" where
  "st_tree_dump_conn E Leaf a d = Inr (d, True)"
| "st_tree_dump_conn E (Node l node r) a d =
     and_then (st_tree_dump_conn E l a d) (\<lambda>(d, ret).
       if \<not> ret then Inr (d, False)
       else and_then (st_tree_dump_conn_one_node E node a d) (\<lambda>(d, ret).
         if \<not> ret then Inr (d, False) else st_tree_dump_conn E r a d))"

definition cmd_dump_conn :: "denv \<Rightarrow> nat \<Rightarrow> drv \<Rightarrow> fault + (drv \<times> bool)" where
  "cmd_dump_conn E a d = send_each E a (map (\<lambda>c. ''ADDCMD '' @ c @ [NL]) (d_cmdhead d)) d"

text \<open>DUMPALL, DUMPSTATUS and DUMPVALUE; the answer is always 1.\<close>

definition sock_dump :: "denv \<Rightarrow> nat \<Rightarrow> cstr list \<Rightarrow> drv \<Rightarrow> fault + (drv \<times> int)" where
  "sock_dump E a arg d =
     and_then (if d_stale d then send_to_one E a (''DATASTALE'' @ [NL]) d else Inr (d, True)) (\<lambda>(d, ok).
       if \<not> ok then Inr (d, 1)
       else and_then
         (if strcasecmp (arg ! 0) ''DUMPALL'' = 0 then
            and_then (st_tree_dump_conn E (d_dtree_root d) a d) (\<lambda>(d, ok).
              if \<not> ok then Inr (d, False) else cmd_dump_conn E a d)
          else
            (let varname = (if strcasecmp (arg ! 0) ''DUMPSTATUS'' = 0 then ''ups.status'' else arg ! 1) in
             case state_tree_find (d_dtree_root d) varname of
               None \<Rightarrow> Inr (d, True)
             | Some sttmp \<Rightarrow> st_tree_dump_conn_one_node E sttmp a d))
         (\<lambda>(d, ok). if \<not> ok then Inr (d, 1)
           else and_then (if \<not> d_stale d then send_to_one E a (''DATAOK'' @ [NL]) d else Inr (d, True))
             (\<lambda>(d, ok). if \<not> ok then Inr (d, 1)
               else and_then (tell E a (''DUMPDONE'' @ [NL]) d) (\<lambda>d. Inr (d, 1)))))"

section \<open>Requests\<close>

definition send_tracking :: "denv \<Rightarrow> nat \<Rightarrow> cstr \<Rightarrow> int \<Rightarrow> drv \<Rightarrow> fault + drv" where
  "send_tracking E a tid status d =
     tell E a (''TRACKING '' @ tid @ '' '' @ show_int status @ [NL]) d"

text \<open>The report of a result, when an identifier was given; the request counts as handled.\<close>

definition report :: "denv \<Rightarrow> nat \<Rightarrow> cstr option \<Rightarrow> int \<Rightarrow> drv \<Rightarrow> fault + (drv \<times> int)" where
  "report E a tid ret d =
     and_then (case tid of None \<Rightarrow> Inr d | Some i \<Rightarrow> send_tracking E a i ret d) (\<lambda>d. Inr (d, 1))"

text \<open>The parameter and the identifier of INSTCMD; None for a malformed request.\<close>

definition instcmd_args :: "cstr list \<Rightarrow> (cstr option \<times> cstr option) option" where
  "instcmd_args arg =
     (let numarg = length arg in
      if numarg = 3 then Some (Some (arg ! 2), None)
      else if numarg = 4 \<and> strcasecmp (arg ! 2) ''TRACKING'' = 0 then Some (None, Some (arg ! 3))
      else if numarg = 5 \<and> strcasecmp (arg ! 3) ''TRACKING'' = 0 then Some (Some (arg ! 2), Some (arg ! 4))
      else if numarg \<noteq> 2 then None
      else Some (None, None))"

definition sock_instcmd :: "denv \<Rightarrow> device \<Rightarrow> nat \<Rightarrow> cstr list \<Rightarrow> drv \<Rightarrow> fault + (drv \<times> int)" where
  "sock_instcmd E V a arg d =
     (case instcmd_args arg of
        None \<Rightarrow> Inr (d, 0)
      | Some (cmdparam, cmdid) \<Rightarrow>
          and_then (main_instcmd E V (arg ! 1) d) (\<lambda>(d, ret).
            if ret \<noteq> STAT_INSTCMD_UNKNOWN then report E a cmdid ret d
            else case v_instcmd V of
              Some instcmd \<Rightarrow> and_then (instcmd (arg ! 1) cmdparam d) (\<lambda>(d, ret). report E a cmdid ret d)
            | None \<Rightarrow> report E a cmdid ret d))"

definition sock_set :: "denv \<Rightarrow> device \<Rightarrow> nat \<Rightarrow> cstr list \<Rightarrow> drv \<Rightarrow> fault + (drv \<times> int)" where
  "sock_set E V a arg d =
     (if length arg = 5 \<and> strcasecmp (arg ! 3) ''TRACKING'' \<noteq> 0 then Inr (d, 0)
      else
        (let setid = (if length arg = 5 then Some (arg ! 4) else None) in
         and_then (main_setvar E (arg ! 1) (arg ! 2) d) (\<lambda>(d, ret).
           if ret \<noteq> STAT_SET_UNKNOWN then report E a setid ret d
           else case v_setvar V of
             Some setvar \<Rightarrow> and_then (setvar (arg ! 1) (arg ! 2) d) (\<lambda>(d, ret). report E a setid ret d)
           | None \<Rightarrow> Inr (d, 1))))"

definition sock_arg :: "denv \<Rightarrow> device \<Rightarrow> nat \<Rightarrow> cstr list \<Rightarrow> drv \<Rightarrow> fault + (drv \<times> int)" where
  "sock_arg E V a arg d =
     (let numarg = length arg; is_verb = (\<lambda>v. strcasecmp (arg ! 0) v = 0) in
      if numarg < 1 then Inr (d, 0)
      else if is_verb ''LOGOUT'' then
        and_then (tell E a (''OK Goodbye'' @ [NL]) d) (\<lambda>d.
        and_then (deref a d) (\<lambda>conn. Inr (with_conn a (\<lambda>k. k\<lparr>k_closing := True\<rparr>) d, 2)))
      else if is_verb ''GETPID'' then
        and_then (tell E a (''PID '' @ show_int (de_pid E) @ [NL]) d) (\<lambda>d. Inr (d, 1))
      else if is_verb ''DUMPALL'' \<or> is_verb ''DUMPSTATUS'' \<or> (is_verb ''DUMPVALUE'' \<and> 1 < numarg)
      then sock_dump E a arg d
      else if is_verb ''PING'' then and_then (tell E a (''PONG'' @ [NL]) d) (\<lambda>d. Inr (d, 1))
      else if is_verb ''NOBROADCAST'' then Inr (with_conn a (\<lambda>k. k\<lparr>k_nobroadcast := True\<rparr>) d, 1)
      else if is_verb ''BROADCAST'' then
        (let off = (1 < numarg \<and> (case str_to_int (Some (arg ! 1)) 10 of Inl e \<Rightarrow> False | Inr i \<Rightarrow> i < 1))
         in Inr (with_conn a (\<lambda>k. k\<lparr>k_nobroadcast := off\<rparr>) d, 1))
      else if numarg < 2 then Inr (d, 0)
      else if is_verb ''INSTCMD'' then sock_instcmd E V a arg d
      else if numarg < 3 then Inr (d, 0)
      else if is_verb ''SET'' then sock_set E V a arg d
      else Inr (d, 0))"

section \<open>Reading\<close>

text \<open>
  The bytes of one read(); after an unknown command its words are logged from the context
  of the connection, after LOGOUT the rest of the bytes is dropped.
\<close>

fun sock_read_loop :: "denv \<Rightarrow> device \<Rightarrow> nat \<Rightarrow> drv \<Rightarrow> cstr \<Rightarrow> fault + drv" where
  "sock_read_loop E V a d [] = Inr d"
| "sock_read_loop E V a d (c # cs) =
     and_then (deref a d) (\<lambda>conn.
       case pconf_char (k_ctx conn) c of (ctx, r) \<Rightarrow>
         let d = with_conn a (\<lambda>k. k\<lparr>k_ctx := ctx\<rparr>) d in
         if r = 0 then sock_read_loop E V a d cs
         else if r = 1 then
           and_then (sock_arg E V a (pconf_args ctx) d) (\<lambda>(d, ret_arg).
             if ret_arg = 0 then and_then (deref a d) (\<lambda>conn. sock_read_loop E V a d cs)
             else if ret_arg = 2 then Inr d
             else sock_read_loop E V a d cs)
         else Inr d)"

definition DSTATE_CONN_READZERO_THROTTLE_MAX :: int where
  "DSTATE_CONN_READZERO_THROTTLE_MAX = 5"

definition sock_read :: "denv \<Rightarrow> device \<Rightarrow> nat \<Rightarrow> drv \<Rightarrow> fault + drv" where
  "sock_read E V a d =
     and_then (deref a d) (\<lambda>conn.
       let tick = d_tick d; d = d\<lparr>d_tick := Suc tick\<rparr> in
       case de_read E tick (k_fd conn) of
         ReadRetry \<Rightarrow> Inr d
       | ReadError \<Rightarrow> sock_disconnect a d
       | ReadBytes bytes \<Rightarrow>
           (if bytes = [] then
              (if de_is_nonblock E tick (k_fd conn) then sock_disconnect a d
               else
                 (let d = with_conn a (\<lambda>k. k\<lparr>k_readzero := k_readzero k + 1\<rparr>) d in
                  if DSTATE_CONN_READZERO_THROTTLE_MAX < k_readzero conn + 1
                  then sock_disconnect a d else Inr d))
            else sock_read_loop E V a (with_conn a (\<lambda>k. k\<lparr>k_readzero := 0\<rparr>) d) (take SMALLBUF bytes)))"

section \<open>Accepting and polling\<close>

text \<open>The memory of xcalloc(), before pconf_init().\<close>

definition zero_ctx :: pconf_ctx where
  "zero_ctx = \<lparr>pc_f = None, pc_state = ST_FINDWORDSTART, pc_ch = 0, pc_arglist = [], pc_argsize = [],
     pc_numargs = 0, pc_maxargs = 0, pc_wordbuf = [], pc_wordbufsize = 0, pc_linenum = 0,
     pc_error = False, pc_errmsg = [], pc_magic = 0, pc_arg_limit = 0, pc_wordlen_limit = 0\<rparr>"

definition sock_connect :: "denv \<Rightarrow> drv \<Rightarrow> drv" where
  "sock_connect E d =
     (let tick = d_tick d; d = d\<lparr>d_tick := Suc tick\<rparr>; fd = de_accept E tick in
      if fd < 0 then d
      else if d_do_synchronous d < 1 \<and> \<not> de_set_nonblock E tick fd then d
      else d\<lparr>d_connhead :=
               \<lparr>k_addr = d_fresh d, k_fd = fd, k_ctx = pconf_init zero_ctx, k_nobroadcast = False,
                k_readzero = 0, k_closing = False\<rparr> # d_connhead d,
             d_fresh := Suc (d_fresh d)\<rparr>)"

text \<open>The loop that reads every ready connection; n bounds its steps.\<close>

fun poll_loop :: "denv \<Rightarrow> device \<Rightarrow> int list \<Rightarrow> nat \<Rightarrow> nat option \<Rightarrow> drv \<Rightarrow> fault + drv" where
  "poll_loop E V ready n None d = Inr d"
| "poll_loop E V ready 0 (Some a) d = Inl Endless"
| "poll_loop E V ready (Suc n) (Some a) d =
     and_then (deref a d) (\<lambda>conn.
       let cnext = next_addr a (d_connhead d) in
       and_then (if k_fd conn \<in> set ready then sock_read E V a d else Inr d)
         (\<lambda>d. poll_loop E V ready n cnext d))"

text \<open>The time left until the deadline, and whether none is left (overrun).\<close>

definition time_left :: "int \<times> int \<Rightarrow> int \<times> int \<Rightarrow> (int \<times> int) \<times> int" where
  "time_left timeout now =
     (let (sec, usec) = (if snd timeout < snd now then (fst timeout - 1, snd timeout + 1000000) else timeout)
      in if sec < fst now then ((0, 0), 1) else ((sec - fst now, usec - snd now), 0))"

definition dstate_poll_fds :: "denv \<Rightarrow> device \<Rightarrow> int \<times> int \<Rightarrow> int \<Rightarrow> drv \<Rightarrow> fault + (drv \<times> int)" where
  "dstate_poll_fds E V timeout extrafd d =
     (let tick = d_tick d; d = d\<lparr>d_tick := Suc (Suc tick)\<rparr>;
          (left, overrun) = time_left timeout (de_now E tick);
          fds = d_sockfd d # (if valid_fd extrafd then [extrafd] else []) @ map k_fd (d_connhead d);
          (ret, ready) = de_select E (Suc tick) fds left in
      if ret = 0 then Inr (d, 1)
      else if ret < 0 then Inr (d, overrun)
      else
        (let d = (if d_sockfd d \<in> set ready then sock_connect E d else d) in
         and_then (poll_loop E V ready (length (d_connhead d)) (first_addr (d_connhead d)) d) (\<lambda>d.
           let d = d\<lparr>d_connhead := filter (\<lambda>k. \<not> k_closing k) (d_connhead d)\<rparr> in
           Inr (d, if valid_fd extrafd \<and> extrafd \<in> set ready then 1 else overrun))))"

end
