(* ===== verification/DriverFacts.thy ===== *)
theory DriverFacts
  imports DriverSock
begin

text \<open>
  What every operation of a driver keeps: the addresses of the connections are distinct
  and only disappear, the parser contexts, the tree, the command list and the text buffers
  stay well formed, the loops end, and while write() takes what it is given no freed
  connection is touched.
\<close>

named_theorems drv_keeps \<open>operations that keep the invariant of a driver\<close>

section \<open>Addresses\<close>

abbreviation addrs :: "drv \<Rightarrow> nat list" where
  "addrs d \<equiv> map k_addr (d_connhead d)"

definition sfx :: "nat \<Rightarrow> nat list \<Rightarrow> nat list" where
  "sfx a xs = dropWhile (\<lambda>x. x \<noteq> a) xs"

lemma sfx_simps [simp]: "sfx a [] = []" "sfx a (x # xs) = (if x = a then x # xs else sfx a xs)"
  by (simp_all add: sfx_def)

lemma sfx_empty: "sfx a xs = [] \<longleftrightarrow> a \<notin> set xs"
  by (induction xs) auto

lemma length_sfx_filter: "length (sfx b (filter P xs)) \<le> length (sfx b xs)"
proof (induction xs)
  case (Cons x xs)
  have "sfx b (filter P xs) = []" if "\<not> P b" using that by (simp add: sfx_empty)
  then show ?case using Cons by (auto simp: le_SucI)
qed simp

lemma length_sfx_le: "length (sfx b xs) \<le> length xs"
  by (simp add: sfx_def length_dropWhile_le)

lemma next_addr_sfx:
  "next_addr a ks = (case sfx a (map k_addr ks) of x # y # r \<Rightarrow> Some y | _ \<Rightarrow> None)"
  by (induction ks) (auto simp: first_addr_def split: list.split)

lemma sfx_next:
  "distinct xs \<Longrightarrow> sfx a xs = x # y # r \<Longrightarrow> x = a \<and> y \<in> set xs \<and> length (sfx y xs) < length (sfx a xs)"
proof (induction xs)
  case (Cons z xs)
  show ?case
  proof (cases "z = a")
    case True
    then have "xs = y # r" "y \<noteq> z" using Cons.prems by auto
    then show ?thesis using Cons.prems True by auto
  next
    case False
    then have IH: "x = a" "y \<in> set xs" "length (sfx y xs) < length (sfx a xs)" using Cons by auto
    moreover have "z \<noteq> y" using Cons.prems IH(2) by auto
    ultimately show ?thesis using False by auto
  qed
qed simp

lemma find_conn_Some: "find_conn a d = Some k \<Longrightarrow> k \<in> set (d_connhead d) \<and> k_addr k = a"
  by (auto simp: find_conn_def find_Some_iff)

lemma find_None_all: "List.find P xs = None \<longleftrightarrow> (\<forall>x\<in>set xs. \<not> P x)"
  by (induction xs) auto

lemma find_conn_None: "find_conn a d = None \<longleftrightarrow> a \<notin> set (addrs d)"
  unfolding find_conn_def find_None_all by auto

lemma deref_Inr: "deref a d = Inr k \<Longrightarrow> k \<in> set (d_connhead d) \<and> k_addr k = a"
  by (auto simp: deref_def find_conn_Some split: option.splits)

lemma deref_Inl: "deref a d = Inl e \<longleftrightarrow> e = Freed_access \<and> a \<notin> set (addrs d)"
  by (auto simp: deref_def find_conn_None dest: find_conn_Some split: option.splits)

section \<open>The invariant\<close>

definition conn_wf :: "nat \<Rightarrow> dconn \<Rightarrow> bool" where
  "conn_wf fresh k \<longleftrightarrow> k_addr k < fresh \<and> pconf_wf (k_ctx k)"

definition status_wf :: "dstatus \<Rightarrow> bool" where
  "status_wf s \<longleftrightarrow> length (s_status_buf s) < ST_MAX_VALUE_LEN \<and>
     length (s_alarm_buf s) < ST_MAX_VALUE_LEN \<and> length (s_buzzmode_buf s) < ST_MAX_VALUE_LEN"

definition drv_inv :: "drv \<Rightarrow> bool" where
  "drv_inv d \<longleftrightarrow> distinct (addrs d) \<and> (\<forall>k\<in>set (d_connhead d). conn_wf (d_fresh d) k) \<and>
     tree_wf (d_dtree_root d) \<and> cmds_sorted (d_cmdhead d) \<and> status_wf (d_status d)"

text \<open>Connections only disappear; with alive, none does.\<close>

definition fewer :: "bool \<Rightarrow> drv \<Rightarrow> drv \<Rightarrow> bool" where
  "fewer alive d d' \<longleftrightarrow> (\<exists>P. addrs d' = filter P (addrs d)) \<and> (alive \<longrightarrow> addrs d' = addrs d)"

lemma fewer_refl [simp]: "fewer alive d d"
  by (auto simp: fewer_def intro: exI [of _ "\<lambda>x. True"])

lemma fewer_trans: "fewer alive a b \<Longrightarrow> fewer alive b c \<Longrightarrow> fewer alive a c"
  unfolding fewer_def by (metis filter_filter)

lemma fewer_same: "addrs d' = addrs d \<Longrightarrow> fewer alive d d'"
  by (auto simp: fewer_def intro: exI [of _ "\<lambda>x. True"])

lemma fewer_length: "fewer alive d d' \<Longrightarrow> length (d_connhead d') \<le> length (d_connhead d)"
  unfolding fewer_def by (metis length_filter_le length_map)

lemma fewer_mem: "fewer alive d d' \<Longrightarrow> a \<in> set (addrs d') \<Longrightarrow> a \<in> set (addrs d)"
  unfolding fewer_def by (metis filter_is_subset subset_iff)

lemma fewer_alive: "fewer True d d' \<Longrightarrow> addrs d' = addrs d"
  by (simp add: fewer_def)

text \<open>
  A result that keeps the invariant: a fault is not Endless and, with alive, not an access
  to a freed connection.
\<close>

definition good :: "bool \<Rightarrow> ('a \<Rightarrow> drv) \<Rightarrow> drv \<Rightarrow> fault + 'a \<Rightarrow> bool" where
  "good alive st d r = (case r of
     Inl e \<Rightarrow> e \<noteq> Endless \<and> (alive \<longrightarrow> e \<noteq> Freed_access)
   | Inr x \<Rightarrow> drv_inv (st x) \<and> fewer alive d (st x))"

abbreviation keeps :: "bool \<Rightarrow> (drv \<Rightarrow> fault + drv) \<Rightarrow> bool" where
  "keeps alive f \<equiv> \<forall>d. drv_inv d \<longrightarrow> good alive (\<lambda>x. x) d (f d)"

abbreviation keeps_ret :: "bool \<Rightarrow> (drv \<Rightarrow> fault + (drv \<times> 'r)) \<Rightarrow> bool" where
  "keeps_ret alive f \<equiv> \<forall>d. drv_inv d \<longrightarrow> good alive fst d (f d)"

lemma good_Inr [simp]: "good alive st d (Inr x) \<longleftrightarrow> drv_inv (st x) \<and> fewer alive d (st x)"
  by (simp add: good_def)

lemma good_Inl [simp]: "good alive st d (Inl e) \<longleftrightarrow> e \<noteq> Endless \<and> (alive \<longrightarrow> e \<noteq> Freed_access)"
  by (simp add: good_def)

lemma good_then:
  assumes "good alive st d m" "\<And>x. m = Inr x \<Longrightarrow> drv_inv (st x) \<Longrightarrow> fewer alive d (st x) \<Longrightarrow> good alive st' (st x) (f x)"
  shows "good alive st' d (and_then m f)"
proof (cases m)
  case (Inl e)
  then show ?thesis using assms(1) by simp
next
  case (Inr x)
  then have x: "drv_inv (st x)" "fewer alive d (st x)" using assms(1) by simp_all
  then have "good alive st' (st x) (f x)" using assms(2) Inr by blast
  then show ?thesis
    using Inr x(2) by (auto simp: good_def split: sum.splits intro: fewer_trans)
qed

lemma good_from: "good alive st d' r \<Longrightarrow> fewer alive d d' \<Longrightarrow> good alive st d r"
  by (auto simp: good_def split: sum.splits intro: fewer_trans)

lemma good_drop: "good alive fst d r \<Longrightarrow> good alive (\<lambda>x. x) d (and_then r (\<lambda>(d, ret). Inr d))"
  by (rule good_then [where st = fst]) auto

text \<open>Changes that touch no connection.\<close>

definition same_conns :: "drv \<Rightarrow> drv \<Rightarrow> bool" where
  "same_conns d d' \<longleftrightarrow> d_connhead d' = d_connhead d \<and> d_fresh d' = d_fresh d"

lemma inv_same_conns:
  "drv_inv d \<Longrightarrow> same_conns d d' \<Longrightarrow> tree_wf (d_dtree_root d') \<Longrightarrow> cmds_sorted (d_cmdhead d') \<Longrightarrow>
   status_wf (d_status d') \<Longrightarrow> drv_inv d' \<and> fewer alive d d'"
  by (auto simp: drv_inv_def same_conns_def intro: fewer_same)

lemma drv_inv_inert [simp]:
  "drv_inv (d\<lparr>d_tick := n\<rparr>) = drv_inv d" "drv_inv (d\<lparr>d_wire := w\<rparr>) = drv_inv d"
  "drv_inv (d\<lparr>d_do_synchronous := s\<rparr>) = drv_inv d" "drv_inv (d\<lparr>d_stale := b\<rparr>) = drv_inv d"
  "drv_inv (d\<lparr>d_main := m\<rparr>) = drv_inv d"
  by (simp_all add: drv_inv_def)

lemma fewer_inert [simp]:
  "fewer alive d0 (d\<lparr>d_tick := n\<rparr>) = fewer alive d0 d" "fewer alive d0 (d\<lparr>d_wire := w\<rparr>) = fewer alive d0 d"
  "fewer alive d0 (d\<lparr>d_do_synchronous := s\<rparr>) = fewer alive d0 d"
  "fewer alive d0 (d\<lparr>d_stale := b\<rparr>) = fewer alive d0 d" "fewer alive d0 (d\<lparr>d_main := m\<rparr>) = fewer alive d0 d"
  "fewer alive d0 (d\<lparr>d_dtree_root := t\<rparr>) = fewer alive d0 d" "fewer alive d0 (d\<lparr>d_cmdhead := cs\<rparr>) = fewer alive d0 d"
  "fewer alive d0 (d\<lparr>d_status := st\<rparr>) = fewer alive d0 d"
  by (simp_all add: fewer_def)

lemma inv_root: "drv_inv d \<Longrightarrow> tree_wf t \<Longrightarrow> drv_inv (d\<lparr>d_dtree_root := t\<rparr>)"
  by (simp add: drv_inv_def)

lemma drv_inv_cmds: "drv_inv d \<Longrightarrow> cmds_sorted cs \<Longrightarrow> drv_inv (d\<lparr>d_cmdhead := cs\<rparr>)"
  by (simp add: drv_inv_def)

lemma inv_status: "drv_inv d \<Longrightarrow> status_wf s \<Longrightarrow> drv_inv (d\<lparr>d_status := s\<rparr>)"
  by (simp add: drv_inv_def)

lemma inv_parts: "drv_inv d \<Longrightarrow> tree_wf (d_dtree_root d)" "drv_inv d \<Longrightarrow> cmds_sorted (d_cmdhead d)"
  "drv_inv d \<Longrightarrow> status_wf (d_status d)" "drv_inv d \<Longrightarrow> distinct (addrs d)"
  by (simp_all add: drv_inv_def)

lemma fall_back_inert [simp]:
  "drv_inv (fall_back ret again d) = drv_inv d" "fewer alive d0 (fall_back ret again d) = fewer alive d0 d"
  "d_connhead (fall_back ret again d) = d_connhead d"
  by (simp_all add: fall_back_def)

section \<open>Disconnecting and changing one connection\<close>

lemma disconnect_good:
  assumes "drv_inv d"
  shows "good False (\<lambda>x. x) d (sock_disconnect a d)"
proof (cases "deref a d")
  case (Inr k)
  have eq: "map k_addr (filter (\<lambda>k. k_addr k \<noteq> a) ks) = filter (\<lambda>x. x \<noteq> a) (map k_addr ks)" for ks
    by (induction ks) auto
  have "drv_inv (d\<lparr>d_connhead := filter (\<lambda>k. k_addr k \<noteq> a) (d_connhead d)\<rparr>)"
    using assms by (auto simp: drv_inv_def eq)
  then show ?thesis
    using Inr by (auto simp: sock_disconnect_def fewer_def eq)
next
  case (Inl e)
  then show ?thesis using deref_Inl [of a d e] by (simp add: sock_disconnect_def)
qed

lemma disconnect_length:
  "sock_disconnect a d = Inr d' \<Longrightarrow> length (d_connhead d') < length (d_connhead d)"
  by (auto simp: sock_disconnect_def and_then_Inr dest!: deref_Inr intro!: length_filter_less)

lemma addrs_with_conn [simp]: "\<forall>k. k_addr (f k) = k_addr k \<Longrightarrow> addrs (with_conn a f d) = addrs d"
  by (simp add: with_conn_def)

lemma with_conn_good:
  assumes "drv_inv d" "\<forall>k. k_addr (f k) = k_addr k" "\<And>k. pconf_wf (k_ctx k) \<Longrightarrow> pconf_wf (k_ctx (f k))"
  shows "drv_inv (with_conn a f d)" "fewer alive d (with_conn a f d)"
proof -
  have "addrs (with_conn a f d) = addrs d" using assms(2) by (rule addrs_with_conn)
  then show "fewer alive d (with_conn a f d)" by (rule fewer_same)
  have "conn_wf n k \<Longrightarrow> conn_wf n (f k)" for n k using assms(2,3) by (simp add: conn_wf_def)
  then show "drv_inv (with_conn a f d)"
    using assms(1) \<open>addrs (with_conn a f d) = addrs d\<close>
    unfolding drv_inv_def by (auto simp: with_conn_def simp del: map_map list.map_comp map_eq_conv)
qed

section \<open>Broadcasting\<close>

definition dwrites :: "denv \<Rightarrow> bool" where
  "dwrites E \<longleftrightarrow> (\<forall>n fd s. de_write E n fd s = int (length s))"

text \<open>The pointer to the next connection, after connections may have gone.\<close>

lemma next_step:
  assumes "drv_inv d" "next_addr a (d_connhead d) = Some b" "length (sfx a (addrs d)) \<le> Suc n"
    "fewer alive d d'"
  shows "0 < n \<and> length (sfx b (addrs d')) \<le> n \<and> b \<in> set (addrs d) \<and> b \<noteq> a"
proof -
  obtain x r where s: "sfx a (addrs d) = x # b # r"
    using assms(2) by (auto simp: next_addr_sfx split: list.splits)
  have "length (sfx b (addrs d)) < length (sfx a (addrs d))" "b \<in> set (addrs d)"
    using sfx_next [OF inv_parts(4) [OF assms(1)] s] by auto
  moreover have "1 < length (sfx a (addrs d))" using s by simp
  moreover have "length (sfx b (addrs d')) \<le> length (sfx b (addrs d))"
    using assms(4) length_sfx_filter unfolding fewer_def by metis
  ultimately show ?thesis using assms(3) by auto
qed

lemma bcast_loop_good:
  assumes failed: "\<And>d. drv_inv d \<Longrightarrow> length (d_connhead d) < L \<Longrightarrow> good False (\<lambda>x. x) d (failed d)"
    and alive: "alive \<Longrightarrow> dwrites E" and buf: "buf \<noteq> []"
  shows "drv_inv d \<Longrightarrow> length (d_connhead d) \<le> L \<Longrightarrow>
    (\<forall>a. cur = Some a \<longrightarrow> 0 < n \<and> length (sfx a (addrs d)) \<le> n \<and> (alive \<longrightarrow> a \<in> set (addrs d))) \<Longrightarrow>
    good alive (\<lambda>x. x) d (bcast_loop failed E buf n cur d)"
proof (induction n arbitrary: cur d)
  case 0
  then show ?case by (cases cur) auto
next
  case (Suc n)
  show ?case
  proof (cases cur)
    case None
    then show ?thesis using Suc.prems by simp
  next
    case (Some a)
    show ?thesis
    proof (cases "deref a d")
      case (Inl e)
      then have "e = Freed_access" "\<not> alive" using Some Suc.prems(3) by (auto simp: deref_Inl)
      then show ?thesis using Some Inl by simp
    next
      case (Inr k)
      then have a: "a \<in> set (addrs d)" using deref_Inr by fastforce
      let ?next = "next_addr a (d_connhead d)"
      have next_ok: "\<forall>b. ?next = Some b \<longrightarrow> 0 < n \<and> length (sfx b (addrs d')) \<le> n \<and>
          (alive \<longrightarrow> b \<in> set (addrs d'))" if "fewer alive d d'" for d'
        using next_step [OF Suc.prems(1) _ _ that, of a _ n] Suc.prems(3) Some that
        by (auto simp: fewer_def)
      have go: "good alive (\<lambda>x. x) d (bcast_loop failed E buf n ?next d')"
        if "drv_inv d'" "fewer alive d d'" for d'
        using Suc.IH [OF that(1) _ next_ok [OF that(2)]] fewer_length [OF that(2)] Suc.prems(2) that(2)
        by (auto intro: good_from)
      obtain d1 ret again where w: "dwrite E (k_fd k) buf d = (d1, ret, again)"
        by (metis prod_cases3)
      have d1: "drv_inv d1" "fewer alive d d1" "d_connhead d1 = d_connhead d"
        using w Suc.prems(1) by (auto simp: dwrite_def)
      have dead: "good alive (\<lambda>x. x) d (and_then (sock_disconnect a d1) (\<lambda>d.
          and_then (failed (fall_back ret again d)) (\<lambda>d. bcast_loop failed E buf n ?next d)))"
        if bad: "write_failed ret buf"
      proof -
        have "ret = int (length buf)" if alive
          using w alive that by (auto simp: dwrite_def dwrites_def)
        then have off: "\<not> alive" using bad buf by (cases buf) (auto simp: write_failed_def)
        then have [simp]: "alive = False" by simp
        have "good False (\<lambda>x. x) d1 (sock_disconnect a d1)" by (rule disconnect_good [OF d1(1)])
        then have "good False (\<lambda>x. x) d1 (and_then (sock_disconnect a d1) (\<lambda>d.
            and_then (failed (fall_back ret again d)) (\<lambda>d. bcast_loop failed E buf n ?next d)))"
        proof (rule good_then)
          fix d2 assume d2: "sock_disconnect a d1 = Inr d2" "drv_inv d2" "fewer False d1 d2"
          have "length (d_connhead d2) < L"
            using disconnect_length [OF d2(1)] d1(3) Suc.prems(2) by simp
          then have "good False (\<lambda>x. x) (fall_back ret again d2) (failed (fall_back ret again d2))"
            using d2(2) by (intro failed) simp_all
          then have "good False (\<lambda>x. x) (fall_back ret again d2)
              (and_then (failed (fall_back ret again d2)) (\<lambda>d. bcast_loop failed E buf n ?next d))"
          proof (rule good_then)
            fix d3 assume d3: "drv_inv d3" "fewer False (fall_back ret again d2) d3"
            have f3: "fewer False d2 d3"
              using d3(2) by (auto intro: fewer_trans [where b = "fall_back ret again d2"])
            have "fewer False d d3"
              using fewer_trans [OF fewer_trans [OF _ d2(3)] f3] d1(2) by simp
            then have "\<forall>b. ?next = Some b \<longrightarrow> 0 < n \<and> length (sfx b (addrs d3)) \<le> n \<and> (alive \<longrightarrow> b \<in> set (addrs d3))"
              using next_ok [of d3] by simp
            moreover have "length (d_connhead d3) \<le> L"
              using fewer_length [OF \<open>fewer False d d3\<close>] Suc.prems(2) by simp
            ultimately show "good False (\<lambda>x. x) d3 (bcast_loop failed E buf n ?next d3)"
              using Suc.IH [OF d3(1)] by simp
          qed
          then show "good False (\<lambda>x. x) d2
              (and_then (failed (fall_back ret again d2)) (\<lambda>d. bcast_loop failed E buf n ?next d))"
            by (rule good_from) simp
        qed
        then show ?thesis using d1(2) by (auto intro: good_from)
      qed
      show ?thesis
        using Some Inr w go [of d] go [OF d1(1,2)] Suc.prems(1) dead
        by (auto simp: Let_def)
    qed
  qed
qed

lemma good_weaken: "good alive st d r \<Longrightarrow> good False st d r"
  by (auto simp: good_def fewer_def split: sum.splits)

lemma first_addr_sfx: "first_addr (d_connhead d) = Some a \<Longrightarrow>
    0 < length (d_connhead d) \<and> length (sfx a (addrs d)) \<le> length (d_connhead d) \<and> a \<in> set (addrs d)"
  using length_sfx_le [of a "addrs d"] by (auto simp: first_addr_def split: list.splits)

lemma snprintf_not_Nil: "msg \<noteq> [] \<Longrightarrow> snprintf ST_SOCK_BUF_LEN msg \<noteq> []"
  by (cases msg) (simp_all add: snprintf_def ST_SOCK_BUF_LEN_def)

lemma setinfo_via_good:
  assumes send: "\<And>d msg. drv_inv d \<Longrightarrow> length (d_connhead d) \<le> L \<Longrightarrow> good alive (\<lambda>x. x) d (send msg d)"
    and d: "drv_inv d" "length (d_connhead d) \<le> L"
  shows "good alive fst d (setinfo_via send E var val d)"
proof -
  let ?v = "snprintf ST_MAX_VALUE_LEN val"
  let ?now = "de_mono E (d_tick d)"
  let ?root = "fst (state_setinfo ?now (d_dtree_root d) var ?v)"
  let ?d = "d\<lparr>d_tick := Suc (d_tick d), d_dtree_root := ?root\<rparr>"
  have inv: "drv_inv ?d"
    using d(1) by (intro inv_root setinfo_wf) (simp_all add: inv_parts)
  have "good alive fst ?d (and_then (send msg ?d) (\<lambda>d. Inr (d, r)))" for msg and r :: int
    by (rule good_then [OF send]) (use inv d(2) in simp_all)
  then have "good alive fst d (and_then (send msg ?d) (\<lambda>d. Inr (d, r)))" for msg and r :: int
    by (rule good_from) simp
  then show ?thesis
    using inv by (auto simp: setinfo_via_def Let_def dmono_def split: prod.split)
qed

lemma broadcast_good:
  "drv_inv d \<Longrightarrow> length (d_connhead d) \<le> m \<Longrightarrow> good (dwrites E) (\<lambda>x. x) d (broadcast m E msg d)"
proof (induction m arbitrary: msg d)
  case 0
  then show ?case by (simp add: first_addr_def)
next
  case (Suc m)
  have weak: "good False (\<lambda>x. x) d (broadcast m E msg d)"
    if "drv_inv d" "length (d_connhead d) \<le> m" for d msg
    using Suc.IH [OF that] by (rule good_weaken)
  have nested: "good False (\<lambda>x. x) d (note_synchronous (broadcast m E) E d)"
    if "drv_inv d" "length (d_connhead d) < Suc m" for d
    unfolding note_synchronous_def
    by (rule good_drop, rule setinfo_via_good [where L = m]) (use weak that in auto)
  show ?case
    using bcast_loop_good [where L = "Suc m" and alive = "dwrites E", OF nested _ snprintf_not_Nil]
      Suc.prems first_addr_sfx [of d] by auto
qed

lemma send_to_all_good [drv_keeps]:
  "drv_inv d \<Longrightarrow> good (dwrites E) (\<lambda>x. x) d (send_to_all E msg d)"
  unfolding send_to_all_def by (rule broadcast_good) simp_all

section \<open>The dstate interface\<close>

lemma dstate_setinfo_good [drv_keeps]:
  "drv_inv d \<Longrightarrow> good (dwrites E) fst d (dstate_setinfo E var val d)"
  unfolding dstate_setinfo_def
  by (rule setinfo_via_good [where L = "length (d_connhead d)"]) (simp_all add: send_to_all_good)

lemma dstate_put_good [drv_keeps]: "drv_inv d \<Longrightarrow> good (dwrites E) (\<lambda>x. x) d (dstate_put E var val d)"
  unfolding dstate_put_def by (rule good_drop) (rule dstate_setinfo_good)

lemma note_synchronous_good [drv_keeps]:
  "drv_inv d \<Longrightarrow> good (dwrites E) (\<lambda>x. x) d (note_synchronous (send_to_all E) E d)"
  unfolding note_synchronous_def
  by (rule good_drop, rule setinfo_via_good [where L = "length (d_connhead d)"]) (simp_all add: send_to_all_good)

text \<open>A changed tree or list and the message that tells it.\<close>

lemma told_good:
  assumes "drv_inv (fst r)" "fewer (dwrites E) d (fst r)"
  shows "good (dwrites E) fst d (told E msg r)"
proof -
  obtain d1 ret where r: "r = (d1, ret)" by fastforce
  have "good (dwrites E) fst d1 (and_then (send_to_all E msg d1) (\<lambda>d. Inr (d, ret)))"
    by (rule good_then [OF send_to_all_good]) (use assms r in simp_all)
  then show ?thesis using assms r by (auto simp: told_def intro: good_from)
qed

lemma on_root_good:
  assumes "drv_inv d" "\<And>now. tree_wf (d_dtree_root d) \<Longrightarrow> tree_wf (fst (f now (d_dtree_root d)))"
  shows "drv_inv (fst (on_root E f d))" "fewer alive d (fst (on_root E f d))"
proof -
  obtain t ret where f: "f (de_mono E (d_tick d)) (d_dtree_root d) = (t, ret)" by fastforce
  then have "tree_wf t" using assms(2) [of "de_mono E (d_tick d)"] assms(1) by (simp add: inv_parts)
  then show "drv_inv (fst (on_root E f d))" "fewer alive d (fst (on_root E f d))"
    using assms(1) f by (simp_all add: on_root_def dmono_def inv_root)
qed

lemmas tree_steps_wf = tree_step_wf [OF tree_step.addenum] tree_step_wf [OF tree_step.addrange]
  tree_step_wf [OF tree_step.delenum] tree_step_wf [OF tree_step.delrange]
  tree_step_wf [OF tree_step.delinfo] tree_step_wf [OF tree_step.delinfo_olderthan]

lemma dstate_ret_good [drv_keeps]:
  assumes "drv_inv d"
  shows "good (dwrites E) fst d (dstate_addenum E var val d)"
    "good (dwrites E) fst d (dstate_delenum E var val d)"
    "good (dwrites E) fst d (dstate_delrange E var mn mx d)"
    "good (dwrites E) fst d (dstate_delinfo E var d)"
    "good (dwrites E) fst d (dstate_delinfo_olderthan E var cutoff d)"
    "good (dwrites E) fst d (dstate_delcmd E cmd d)"
proof -
  note d = assms inv_parts(1,2) [OF assms]
  show "good (dwrites E) fst d (dstate_addenum E var val d)"
    "good (dwrites E) fst d (dstate_delenum E var val d)"
    "good (dwrites E) fst d (dstate_delrange E var mn mx d)"
    unfolding dstate_addenum_def dstate_delenum_def dstate_delrange_def Let_def
    by (rule told_good; intro on_root_good d tree_steps_wf; assumption)+
  show "good (dwrites E) fst d (dstate_delinfo E var d)"
    using d(1) tree_steps_wf(5) [OF d(2), of var]
    by (auto simp: dstate_delinfo_def split: prod.split intro!: told_good inv_root)
  show "good (dwrites E) fst d (dstate_delinfo_olderthan E var cutoff d)"
    using d(1) tree_steps_wf(6) [OF d(2), of var cutoff]
    by (auto simp: dstate_delinfo_olderthan_def split: prod.split intro!: told_good inv_root)
  show "good (dwrites E) fst d (dstate_delcmd E cmd d)"
    using d(1) delcmd_sorted [OF d(3), of cmd]
    by (auto simp: dstate_delcmd_def split: prod.split intro!: told_good drv_inv_cmds)
qed

lemma send_changed:
  "drv_inv d' \<Longrightarrow> fewer (dwrites E) d d' \<Longrightarrow> good (dwrites E) (\<lambda>x. x) d (send_to_all E msg d')"
  by (rule good_from [OF send_to_all_good])

lemma write_node_wf:
  "tree_wf t \<Longrightarrow> tree_wf (state_tree_write var (\<lambda>n. n\<lparr>n_flags := x\<rparr>) t)"
  "tree_wf t \<Longrightarrow> tree_wf (state_tree_write var (\<lambda>n. n\<lparr>n_aux := y\<rparr>) t)"
  by (rule write_wf; simp add: node_wf_def)+

lemma dstate_setflags_good [drv_keeps]:
  "drv_inv d \<Longrightarrow> good (dwrites E) (\<lambda>x. x) d (dstate_setflags E var flags d)"
  by (auto simp: dstate_setflags_def inv_root inv_parts write_node_wf split: option.split intro!: send_changed)

lemma dstate_void_good [drv_keeps]:
  assumes "drv_inv d"
  shows "good (dwrites E) (\<lambda>x. x) d (dstate_addflags E var flags d)"
    "good (dwrites E) (\<lambda>x. x) d (dstate_delflags E var flags d)"
    "good (dwrites E) (\<lambda>x. x) d (dstate_setaux E var aux d)"
    "good (dwrites E) (\<lambda>x. x) d (dstate_dataok E d)"
    "good (dwrites E) (\<lambda>x. x) d (dstate_datastale E d)"
    "good (dwrites E) (\<lambda>x. x) d (dstate_addcmd E cmd d)"
proof -
  show "good (dwrites E) (\<lambda>x. x) d (dstate_addcmd E cmd d)"
    using assms addcmd_sorted [OF inv_parts(2) [OF assms], of cmd]
    by (auto simp: dstate_addcmd_def split: prod.split intro!: good_drop told_good drv_inv_cmds)
qed (use assms in \<open>auto simp: dstate_addflags_def dstate_delflags_def dstate_setaux_def dstate_dataok_def
    dstate_datastale_def Let_def dstate_setflags_good inv_root inv_parts write_node_wf
    split: option.split intro!: send_changed\<close>)

lemma dstate_addrange_good [drv_keeps]:
  assumes "drv_inv d"
  shows "good (dwrites E) fst d (dstate_addrange E var mn mx d)"
proof -
  obtain d1 ret where r: "on_root E (\<lambda>now t. state_addrange now t var mn mx) d = (d1, ret)" by fastforce
  let ?f = "\<lambda>now t. state_addrange now t var mn mx"
  have "\<And>now. tree_wf (d_dtree_root d) \<Longrightarrow> tree_wf (fst (?f now (d_dtree_root d)))" by (rule tree_steps_wf(2))
  then have d1: "drv_inv d1" "fewer (dwrites E) d d1"
    using on_root_good [where f = ?f and E = E, OF assms] r by auto
  have "good (dwrites E) fst d1 (and_then (send_to_all E msg d1)
      (\<lambda>d. and_then (dstate_addflags E var ST_FLAG_NUMBER d) (\<lambda>d. Inr (d, ret))))" for msg
    by (rule good_then [OF send_to_all_good [OF d1(1)]], rule good_then [OF dstate_void_good(1)]) simp_all
  then show ?thesis using d1 r by (auto simp: dstate_addrange_def intro: good_from)
qed

section \<open>The code of a device\<close>

lemma good_if: "(P \<Longrightarrow> good alive st d a) \<Longrightarrow> (\<not> P \<Longrightarrow> good alive st d b) \<Longrightarrow> good alive st d (if P then a else b)"
  by simp

lemma good_option:
  "(x = None \<Longrightarrow> good alive st d a) \<Longrightarrow> (\<And>y. x = Some y \<Longrightarrow> good alive st d (f y)) \<Longrightarrow>
   good alive st d (case x of None \<Rightarrow> a | Some y \<Rightarrow> f y)"
  by (cases x) simp_all

lemma good_pair: "good alive (\<lambda>x. x) d r \<Longrightarrow> good alive fst d (and_then r (\<lambda>d. Inr (d, x)))"
  by (rule good_then) auto

lemma upd_main_good [simp]: "drv_inv (upd_main f d) = drv_inv d" "fewer alive d0 (upd_main f d) = fewer alive d0 d"
  by (simp_all add: upd_main_def)

lemma set_flags_good [simp]:
  "drv_inv (set_exit_flag sig d) = drv_inv d" "fewer alive d0 (set_exit_flag sig d) = fewer alive d0 d"
  "drv_inv (set_reload_flag sig d) = drv_inv d" "fewer alive d0 (set_reload_flag sig d) = fewer alive d0 d"
  by (simp_all add: set_exit_flag_def set_reload_flag_def)

lemma assign_debug_level_good [drv_keeps]:
  assumes "drv_inv d"
  shows "good (dwrites E) (\<lambda>x. x) d (assign_debug_level E d)"
  unfolding assign_debug_level_def Let_def
  by (rule good_from [where d' = "upd_main f d" for f], rule good_then [OF dstate_put_good])
    (use assms in \<open>simp_all add: dstate_setflags_good\<close>)

lemma main_setvar_good [drv_keeps]:
  assumes "drv_inv d"
  shows "good (dwrites E) fst d (main_setvar E var val d)"
proof -
  have "good (dwrites E) fst d (and_then (assign_debug_level E (upd_main f d)) (\<lambda>d. Inr (d, r)))" for f and r :: int
    by (rule good_from [where d' = "upd_main f d"], rule good_pair, rule assign_debug_level_good)
      (use assms in simp_all)
  then show ?thesis
    using assms by (auto simp: main_setvar_def Let_def dstate_put_good good_pair split: sum.split)
qed

text \<open>
  What the rest of the program relies on: the handlers of a device driver go through the
  dstate interface, so they keep the invariant and end.
\<close>

locale device_code =
  fixes E :: denv and V :: device
  assumes setvar_keeps: "v_setvar V = Some f \<Longrightarrow> drv_inv d \<Longrightarrow> good (dwrites E) fst d (f var val d)"
    and instcmd_keeps: "v_instcmd V = Some g \<Longrightarrow> drv_inv d \<Longrightarrow> good (dwrites E) fst d (g cmd param d)"
    and shutdown_keeps: "drv_inv d \<Longrightarrow> good (dwrites E) (\<lambda>x. x) d (v_shutdown V d)"
    and read_upsconf_keeps: "drv_inv d \<Longrightarrow> good (dwrites E) (\<lambda>x. x) d (v_read_upsconf V d)"
begin

lemma handle_reload_flag_good:
  assumes "drv_inv d"
  shows "good (dwrites E) fst d (handle_reload_flag E V d)"
proof -
  have last: "good (dwrites E) fst d (and_then (dstate_put E a b (upd_main f d)) (\<lambda>d. Inr (d, r)))"
    if "drv_inv d" for a b f d and r :: int
    by (rule good_from [where d' = "upd_main f d"], rule good_pair, rule dstate_put_good) (use that in simp_all)
  have "good (dwrites E) fst d (and_then (v_read_upsconf V (upd_main g d)) (\<lambda>d.
        let ret = F d in and_then (assign_debug_level E d) (\<lambda>d.
          and_then (dstate_put E a b (upd_main f d)) (\<lambda>d. Inr (d, ret)))))"
    if "drv_inv d" for F :: "drv \<Rightarrow> int" and g f a b d
    by (rule good_from [where d' = "upd_main g d"], rule good_then [OF read_upsconf_keeps],
        use that in simp, simp add: Let_def, rule good_then [OF assign_debug_level_good])
      (use that last in simp_all)
  then show ?thesis
    using assms unfolding handle_reload_flag_def Let_def
    by (auto intro!: good_then [OF dstate_put_good])
qed

lemma try_sdcommands_good:
  assumes "v_instcmd V = Some g"
  shows "drv_inv d \<Longrightarrow> good (dwrites E) fst d (try_sdcommands V g ss r d)"
proof (induction ss arbitrary: r d)
  case (Cons s ss)
  have "good (dwrites E) fst d (if s = ''shutdown.default''
      then and_then (v_shutdown V d) (\<lambda>d. Inr (d, STAT_INSTCMD_HANDLED)) else g s None d)"
    using Cons.prems by (auto intro: good_pair shutdown_keeps instcmd_keeps [OF assms])
  then show ?case
    unfolding try_sdcommands.simps by (rule good_then) (use Cons.IH in \<open>auto split: prod.split\<close>)
qed simp

lemma shutdown_commands_good:
  assumes "drv_inv d"
  shows "good (dwrites E) fst d (do_loop_shutdown_commands V sd d)"
proof -
  let ?d = "upd_main (\<lambda>m. m\<lparr>m_call_depth := m_call_depth m + 1\<rparr>) d"
  have body: "good (dwrites E) fst ?d
      (case sd of None \<Rightarrow> Inr (?d, STAT_INSTCMD_UNKNOWN, None)
       | Some s \<Rightarrow> (if s = [] then Inr (?d, STAT_INSTCMD_UNKNOWN, None)
          else case v_instcmd V of
            None \<Rightarrow> (if lists_default s
               then and_then (v_shutdown V ?d) (\<lambda>d. Inr (d, STAT_INSTCMD_HANDLED, Some ''shutdown.default''))
               else Inr (?d, STAT_INSTCMD_UNKNOWN, None))
          | Some instcmd \<Rightarrow> try_sdcommands V instcmd (strtok_all [] s) STAT_INSTCMD_UNKNOWN ?d))"
    using assms by (auto intro: good_pair [OF shutdown_keeps] try_sdcommands_good split: option.split)
  show ?thesis
    unfolding do_loop_shutdown_commands_def Let_def
    by (rule good_from [where d' = ?d], rule good_if, simp, rule good_then [OF body]) (auto split: prod.split)
qed

lemma sdcommands_or_default_good:
  "drv_inv d \<Longrightarrow> good (dwrites E) fst d (upsdrv_shutdown_sdcommands_or_default V sd d)"
  unfolding upsdrv_shutdown_sdcommands_or_default_def loop_shutdown_commands_def Let_def
  by (rule good_then [OF shutdown_commands_good]) (auto split: prod.split)

lemma main_instcmd_good:
  assumes "drv_inv d"
  shows "good (dwrites E) fst d (main_instcmd E V cmd d)"
proof -
  have put_pair: "good (dwrites E) fst d (and_then (dstate_put E a b d) (\<lambda>d. Inr (d, r)))"
    if "drv_inv d" for a b d and r :: int
    by (rule good_pair) (rule dstate_put_good [OF that])
  have kill: "good (dwrites E) fst d (and_then (dstate_put E a b d) (\<lambda>d.
      and_then (upsdrv_shutdown_sdcommands_or_default V None d) (\<lambda>(d, sdret).
      and_then (dstate_put E a' b' d) (\<lambda>d. Inr (d, r)))))"
    if "drv_inv d" for d a b a' b' and r :: int
    by (rule good_then [OF dstate_put_good [OF that]], rule good_then [OF sdcommands_or_default_good])
      (use put_pair in \<open>auto split: prod.split\<close>)
  have "good (dwrites E) fst d (and_then (dstate_put E a b (upd_main f d)) (\<lambda>d.
      and_then (upsdrv_shutdown_sdcommands_or_default V None d) (\<lambda>(d, sdret).
      and_then (dstate_put E a' b' d) (\<lambda>d. Inr (d, r)))))" for f a b a' b' and r :: int
    by (rule good_from [where d' = "upd_main f d"], rule kill) (use assms in simp_all)
  moreover have "good (dwrites E) fst d (handle_reload_flag E V (set_reload_flag sig d))" for sig
    by (rule good_from [where d' = "set_reload_flag sig d"], rule handle_reload_flag_good) (use assms in simp_all)
  ultimately show ?thesis
    using assms kill [OF assms] unfolding main_instcmd_def Let_def if_distribR
    by (intro good_if good_option) (auto intro: good_pair [OF shutdown_keeps])
qed

end

end
