(* ===== verification/DriverSafe.thy ===== *)
theory DriverSafe
  imports DriverFacts
begin

text \<open>
  Serving the readers keeps the invariant: dumps, requests, reading and polling.  A reader
  whose connection ends is the only one that goes, as long as write() takes everything.
\<close>

section \<open>Writing to one reader\<close>

text \<open>While nothing is dropped, the connection that is served is there.\<close>

definition here :: "denv \<Rightarrow> nat \<Rightarrow> drv \<Rightarrow> bool" where
  "here E a d \<longleftrightarrow> (dwrites E \<longrightarrow> a \<in> set (addrs d))"

lemma here_fewer: "here E a d \<Longrightarrow> fewer (dwrites E) d d' \<Longrightarrow> here E a d'"
  by (auto simp: here_def fewer_def)

lemma here_inert [simp]:
  "here E a (d\<lparr>d_tick := n\<rparr>) = here E a d" "here E a (d\<lparr>d_wire := w\<rparr>) = here E a d"
  by (simp_all add: here_def)

lemma deref_then:
  assumes "here E a d" "\<And>k. deref a d = Inr k \<Longrightarrow> good (dwrites E) st d (f k)"
  shows "good (dwrites E) st d (and_then (deref a d) f)"
proof (cases "deref a d")
  case (Inl e)
  then have "e = Freed_access" "a \<notin> set (addrs d)" by (simp_all add: deref_Inl)
  then show ?thesis using Inl assms(1) by (simp add: here_def)
qed (use assms(2) in simp)

lemma drop_good:
  assumes "\<not> dwrites E" "drv_inv d"
  shows "good (dwrites E) fst d (and_then (sock_disconnect a d) (\<lambda>d.
    and_then (note_synchronous (send_to_all E) E (fall_back r g d)) (\<lambda>d. Inr (d, x))))"
proof -
  have [simp]: "dwrites E = False" using assms(1) by simp
  have "good False (\<lambda>x. x) d (sock_disconnect a d)" by (rule disconnect_good [OF assms(2)])
  then have "good False fst d (and_then (sock_disconnect a d) (\<lambda>d.
      and_then (note_synchronous (send_to_all E) E (fall_back r g d)) (\<lambda>d. Inr (d, x))))"
  proof (rule good_then)
    fix d2 assume "drv_inv d2"
    then have "good False (\<lambda>x. x) (fall_back r g d2) (note_synchronous (send_to_all E) E (fall_back r g d2))"
      using note_synchronous_good [of "fall_back r g d2" E] by simp
    then have "good False fst (fall_back r g d2)
        (and_then (note_synchronous (send_to_all E) E (fall_back r g d2)) (\<lambda>d. Inr (d, x)))"
      by (rule good_pair)
    then show "good False fst d2
        (and_then (note_synchronous (send_to_all E) E (fall_back r g d2)) (\<lambda>d. Inr (d, x)))"
      by (rule good_from) simp
  qed
  then show ?thesis by simp
qed

lemma send_to_one_good:
  assumes "drv_inv d" "here E a d"
  shows "good (dwrites E) fst d (send_to_one E a msg d)"
proof -
  have main: "good (dwrites E) fst d
      (case (case dwrite E fd buf d of (d, ret, again) \<Rightarrow>
               if ret < 0 then dwrite E fd buf d else (d, ret, again)) of
        (d, ret, again) \<Rightarrow>
          if write_failed ret buf then
            and_then (sock_disconnect a d) (\<lambda>d.
              and_then (note_synchronous (send_to_all E) E (fall_back ret again d)) (\<lambda>d. Inr (d, False)))
          else Inr (d, True))" if buf: "buf \<noteq> []" for fd buf
  proof -
    let ?w = "case dwrite E fd buf d of (d, ret, again) \<Rightarrow>
        if ret < 0 then dwrite E fd buf d else (d, ret, again)"
    obtain d1 ret again where w: "?w = (d1, ret, again)" by (cases ?w) simp
    have d1: "drv_inv d1" "fewer (dwrites E) d d1" "dwrites E \<Longrightarrow> ret = int (length buf)"
      using w assms(1) by (auto simp: dwrite_def dwrites_def split: if_splits)
    have off: "\<not> dwrites E" if "write_failed ret buf"
      using that d1(3) buf by (cases buf) (auto simp: write_failed_def)
    have "good (dwrites E) fst d1
        (if write_failed ret buf then
           and_then (sock_disconnect a d1) (\<lambda>d.
             and_then (note_synchronous (send_to_all E) E (fall_back ret again d)) (\<lambda>d. Inr (d, False)))
         else Inr (d1, True))"
      by (rule good_if, rule drop_good [OF off d1(1)], assumption) (use d1(1) in simp)
    then show ?thesis using w d1(2) by (auto intro: good_from)
  qed
  show ?thesis
  proof (cases "msg = []")
    case False
    show ?thesis
      unfolding send_to_one_def Let_def if_not_P [OF False]
      by (rule deref_then [OF assms(2)]) (rule main [OF snprintf_not_Nil [OF False]])
  qed (use assms(1) in \<open>simp add: send_to_one_def\<close>)
qed

lemma tell_good: "drv_inv d \<Longrightarrow> here E a d \<Longrightarrow> good (dwrites E) (\<lambda>x. x) d (tell E a msg d)"
  unfolding tell_def by (rule good_drop) (rule send_to_one_good)

section \<open>Dumps\<close>

text \<open>Going on only after a success.\<close>

lemma good_stop:
  assumes "good (dwrites E) fst d m" "here E a d"
    "\<And>d'. drv_inv d' \<Longrightarrow> here E a d' \<Longrightarrow> good (dwrites E) fst d' (f d')"
  shows "good (dwrites E) fst d (and_then m (\<lambda>(d, ok). if \<not> ok then Inr (d, x) else f d))"
proof (rule good_then [OF assms(1)])
  fix y :: "drv \<times> bool" assume "drv_inv (fst y)" "fewer (dwrites E) d (fst y)"
  then show "good (dwrites E) fst (fst y) (case y of (d, ok) \<Rightarrow> if \<not> ok then Inr (d, x) else f d)"
    using assms(3) here_fewer [OF assms(2)] by (cases y) simp
qed

lemma send_each_good:
  "drv_inv d \<Longrightarrow> here E a d \<Longrightarrow> good (dwrites E) fst d (send_each E a ms d)"
proof (induction ms arbitrary: d)
  case (Cons m ms)
  show ?case
    unfolding send_each.simps by (rule good_stop [OF send_to_one_good]) (use Cons in auto)
qed simp

lemma tree_dump_good:
  "drv_inv d \<Longrightarrow> here E a d \<Longrightarrow> good (dwrites E) fst d (st_tree_dump_conn E t a d)"
proof (induction t arbitrary: d)
  case (Node l n r)
  have one: "good (dwrites E) fst d (and_then (st_tree_dump_conn_one_node E n a d)
      (\<lambda>(d, ok). if \<not> ok then Inr (d, False) else st_tree_dump_conn E r a d))"
    if "drv_inv d" "here E a d" for d
    unfolding st_tree_dump_conn_one_node_def by (rule good_stop [OF send_each_good]) (use that Node.IH(2) in auto)
  show ?case
    unfolding st_tree_dump_conn.simps by (rule good_stop [OF Node.IH(1)]) (use Node.prems one in auto)
qed simp

lemma cmd_dump_good: "drv_inv d \<Longrightarrow> here E a d \<Longrightarrow> good (dwrites E) fst d (cmd_dump_conn E a d)"
  unfolding cmd_dump_conn_def by (rule send_each_good)

lemma sock_dump_good:
  assumes "drv_inv d" "here E a d"
  shows "good (dwrites E) fst d (sock_dump E a arg d)"
proof -
  have last: "good (dwrites E) fst d (and_then (if \<not> d_stale d then send_to_one E a m d else Inr (d, True))
      (\<lambda>(d, ok). if \<not> ok then Inr (d, 1) else and_then (tell E a m' d) (\<lambda>d. Inr (d, 1))))"
    if "drv_inv d" "here E a d" for d m m'
    by (rule good_stop) (use that in \<open>auto intro!: good_if send_to_one_good good_pair tell_good\<close>)
  have all: "good (dwrites E) fst d (and_then (st_tree_dump_conn E (d_dtree_root d) a d) (\<lambda>(d, ok).
      if \<not> ok then Inr (d, False) else cmd_dump_conn E a d))" if "drv_inv d" "here E a d" for d
    by (rule good_stop [OF tree_dump_good]) (use that cmd_dump_good in auto)
  have one: "good (dwrites E) fst d (case state_tree_find (d_dtree_root d) v of
      None \<Rightarrow> Inr (d, True) | Some n \<Rightarrow> st_tree_dump_conn_one_node E n a d)"
    if "drv_inv d" "here E a d" for d v
    using that by (auto simp: st_tree_dump_conn_one_node_def intro: send_each_good split: option.split)
  show ?thesis
    unfolding sock_dump_def Let_def
    by (rule good_stop [OF good_if], rule send_to_one_good [OF assms], use assms in simp, rule assms(2),
        rule good_stop [OF good_if], rule all, assumption, assumption, rule one, assumption, assumption,
        assumption, rule last)
qed

section \<open>Requests\<close>

lemma report_good: "drv_inv d \<Longrightarrow> here E a d \<Longrightarrow> good (dwrites E) fst d (report E a tid r d)"
  unfolding report_def send_tracking_def by (rule good_pair) (auto intro: tell_good split: option.split)

text \<open>A handler and the report of its result.\<close>

lemma good_report:
  fixes m :: "fault + (drv \<times> 'r)"
  assumes "good (dwrites E) fst d m" "here E a d"
    "\<And>d' r. drv_inv d' \<Longrightarrow> here E a d' \<Longrightarrow> good (dwrites E) fst d' (f d' r)"
  shows "good (dwrites E) fst d (and_then m (\<lambda>(d, r). f d r))"
proof (rule good_then [OF assms(1)])
  fix y :: "drv \<times> 'r" assume "drv_inv (fst y)" "fewer (dwrites E) d (fst y)"
  then show "good (dwrites E) fst (fst y) (case y of (d, r) \<Rightarrow> f d r)"
    using assms(3) here_fewer [OF assms(2)] by (cases y) simp
qed

lemma flag_conn_good:
  assumes "drv_inv d" "\<And>k. k_addr (f k) = k_addr k \<and> k_ctx (f k) = k_ctx k"
  shows "good alive fst d (Inr (with_conn a f d, r))"
  using with_conn_good(1) [OF assms(1), of f a] with_conn_good(2) [OF assms(1), of f] assms(2) by simp

context device_code begin

lemma sock_instcmd_good:
  assumes "drv_inv d" "here E a d"
  shows "good (dwrites E) fst d (sock_instcmd E V a arg d)"
proof -
  have "good (dwrites E) fst d (and_then (main_instcmd E V cmd d) (\<lambda>(d, ret).
      if ret \<noteq> STAT_INSTCMD_UNKNOWN then report E a tid ret d
      else case v_instcmd V of
        Some instcmd \<Rightarrow> and_then (instcmd cmd param d) (\<lambda>(d, ret). report E a tid ret d)
      | None \<Rightarrow> report E a tid ret d))" for cmd param tid
    by (rule good_report [OF main_instcmd_good])
      (use assms in \<open>auto intro!: report_good good_report [OF instcmd_keeps] split: option.split\<close>)
  then show ?thesis using assms(1) by (auto simp: sock_instcmd_def simp del: One_nat_def split: option.split)
qed

lemma sock_set_good:
  assumes "drv_inv d" "here E a d"
  shows "good (dwrites E) fst d (sock_set E V a arg d)"
proof -
  have "good (dwrites E) fst d (and_then (main_setvar E var val d) (\<lambda>(d, ret).
      if ret \<noteq> STAT_SET_UNKNOWN then report E a tid ret d
      else case v_setvar V of
        Some setvar \<Rightarrow> and_then (setvar var val d) (\<lambda>(d, ret). report E a tid ret d)
      | None \<Rightarrow> Inr (d, 1)))" for var val tid
    by (rule good_report [OF main_setvar_good])
      (use assms in \<open>auto intro!: report_good good_report [OF setvar_keeps] split: option.split\<close>)
  then show ?thesis using assms(1) by (auto simp: sock_set_def Let_def simp del: One_nat_def)
qed

lemma sock_arg_good:
  assumes "drv_inv d" "here E a d"
  shows "good (dwrites E) fst d (sock_arg E V a arg d)"
proof -
  have logout: "good (dwrites E) fst d (and_then (tell E a m d) (\<lambda>d.
      and_then (deref a d) (\<lambda>conn. Inr (with_conn a (\<lambda>k. k\<lparr>k_closing := True\<rparr>) d, 2))))" for m
    by (rule good_then [OF tell_good], use assms in simp, use assms in simp, rule deref_then)
      (use assms in \<open>auto intro: here_fewer intro!: flag_conn_good simp del: good_Inr\<close>)
  have told: "good (dwrites E) fst d (and_then (tell E a m d) (\<lambda>d. Inr (d, 1)))" for m
    by (rule good_pair) (rule tell_good [OF assms])
  show ?thesis
    unfolding sock_arg_def Let_def
    by (intro good_if logout told sock_dump_good sock_instcmd_good sock_set_good assms flag_conn_good)
      (use assms in auto)
qed

lemma sock_read_loop_good:
  "drv_inv d \<Longrightarrow> here E a d \<Longrightarrow> good (dwrites E) (\<lambda>x. x) d (sock_read_loop E V a d cs)"
proof (induction cs arbitrary: d)
  case (Cons c cs)
  show ?case
    unfolding sock_read_loop.simps
  proof (rule deref_then [OF Cons.prems(2)])
    fix k assume k: "deref a d = Inr k"
    obtain ctx r where p: "pconf_char (k_ctx k) c = (ctx, r)" by fastforce
    have "pconf_wf (k_ctx k)"
      using Cons.prems(1) deref_Inr [OF k] by (auto simp: drv_inv_def conn_wf_def)
    then have ctx: "pconf_wf ctx" using pconf_char_wf [of "k_ctx k" c] p by simp
    let ?d = "with_conn a (\<lambda>k. k\<lparr>k_ctx := ctx\<rparr>) d"
    have d: "drv_inv ?d" "fewer (dwrites E) d ?d" by (rule with_conn_good; use Cons.prems(1) ctx in simp)+
    have h: "here E a ?d" by (rule here_fewer [OF Cons.prems(2) d(2)])
    have line: "good (dwrites E) (\<lambda>x. x) ?d (and_then (sock_arg E V a args ?d) (\<lambda>(d, ret_arg).
        if ret_arg = 0 then and_then (deref a d) (\<lambda>conn. sock_read_loop E V a d cs)
        else if ret_arg = 2 then Inr d else sock_read_loop E V a d cs))" for args
    proof (rule good_then [OF sock_arg_good [OF d(1) h]])
      fix y :: "drv \<times> int" assume y: "drv_inv (fst y)" "fewer (dwrites E) ?d (fst y)"
      note next_line = Cons.IH [OF y(1) here_fewer [OF h y(2)]]
      have "good (dwrites E) (\<lambda>x. x) (fst y)
          (and_then (deref a (fst y)) (\<lambda>conn. sock_read_loop E V a (fst y) cs))"
        by (rule deref_then [OF here_fewer [OF h y(2)]]) (rule next_line)
      then show "good (dwrites E) (\<lambda>x. x) (fst y) (case y of (d, ret_arg) \<Rightarrow>
          if ret_arg = 0 then and_then (deref a d) (\<lambda>conn. sock_read_loop E V a d cs)
          else if ret_arg = 2 then Inr d else sock_read_loop E V a d cs)"
        using next_line y(1) by (cases y) simp
    qed
    show "good (dwrites E) (\<lambda>x. x) d (case pconf_char (k_ctx k) c of (ctx, r) \<Rightarrow>
        let d = with_conn a (\<lambda>k. k\<lparr>k_ctx := ctx\<rparr>) d in
        if r = 0 then sock_read_loop E V a d cs
        else if r = 1 then and_then (sock_arg E V a (pconf_args ctx) d) (\<lambda>(d, ret_arg).
          if ret_arg = 0 then and_then (deref a d) (\<lambda>conn. sock_read_loop E V a d cs)
          else if ret_arg = 2 then Inr d else sock_read_loop E V a d cs)
        else Inr d)"
      by (rule good_from [OF _ d(2)]) (use p line Cons.IH [OF d(1) h] d in \<open>simp add: Let_def\<close>)
  qed
qed simp

end

section \<open>Reading and polling\<close>

text \<open>What may happen while one connection is read: only that one goes, when writes work.\<close>

definition read_good :: "denv \<Rightarrow> nat \<Rightarrow> drv \<Rightarrow> fault + drv \<Rightarrow> bool" where
  "read_good E a d r = (case r of
     Inl e \<Rightarrow> e \<noteq> Endless \<and> (dwrites E \<longrightarrow> e \<noteq> Freed_access)
   | Inr x \<Rightarrow> drv_inv x \<and> fewer False d x \<and>
       (dwrites E \<longrightarrow> filter (\<lambda>b. b \<noteq> a) (addrs x) = filter (\<lambda>b. b \<noteq> a) (addrs d)))"

lemma good_read: "good (dwrites E) (\<lambda>x. x) d r \<Longrightarrow> read_good E a d r"
  by (auto simp: good_def read_good_def fewer_def split: sum.splits)

lemma read_good_from:
  "read_good E a d' r \<Longrightarrow> fewer True d d' \<Longrightarrow> read_good E a d r"
  by (auto simp: read_good_def fewer_def split: sum.splits)

lemma disconnect_read_good:
  assumes "drv_inv d" "here E a d"
  shows "read_good E a d (sock_disconnect a d)"
proof (cases "deref a d")
  case (Inl e)
  then have "e = Freed_access" "a \<notin> set (addrs d)" by (simp_all add: deref_Inl)
  then show ?thesis using Inl assms(2) by (simp add: sock_disconnect_def read_good_def here_def)
next
  case (Inr k)
  let ?d = "d\<lparr>d_connhead := filter (\<lambda>k. k_addr k \<noteq> a) (d_connhead d)\<rparr>"
  have eq: "map k_addr (filter (\<lambda>k. k_addr k \<noteq> a) ks) = filter (\<lambda>b. b \<noteq> a) (map k_addr ks)" for ks
    by (induction ks) auto
  have "sock_disconnect a d = Inr ?d" using Inr by (simp add: sock_disconnect_def)
  moreover have "good False (\<lambda>x. x) d (sock_disconnect a d)" by (rule disconnect_good [OF assms(1)])
  ultimately show ?thesis by (simp add: read_good_def eq)
qed

lemma ends_then:
  assumes "case m of Inl e \<Rightarrow> P e | Inr x \<Rightarrow> drv_inv x \<and> Q x"
  shows "case and_then m (\<lambda>d. Inr (d\<lparr>d_connhead := filter R (d_connhead d)\<rparr>, r :: int)) of
    Inl e \<Rightarrow> P e | Inr (x, ret) \<Rightarrow> drv_inv x"
  using assms by (cases m) (simp_all add: drv_inv_def distinct_map_filter)

text \<open>Accepting adds one connection under a new address.\<close>

lemma sock_connect_inv: "drv_inv d \<Longrightarrow> drv_inv (sock_connect E d)"
proof -
  assume d: "drv_inv d"
  have "d_fresh d \<notin> set (addrs d)" using d by (auto simp: drv_inv_def conn_wf_def)
  moreover have "conn_wf n k \<Longrightarrow> conn_wf (Suc n) k" for n k by (simp add: conn_wf_def)
  ultimately show ?thesis
    using d by (auto simp: sock_connect_def Let_def drv_inv_def conn_wf_def pconf_init_wf)
qed

context device_code begin

lemma sock_read_good:
  assumes "drv_inv d" "here E a d"
  shows "read_good E a d (sock_read E V a d)"
proof (cases "deref a d")
  case (Inl e)
  then have "e = Freed_access" "a \<notin> set (addrs d)" by (simp_all add: deref_Inl)
  then show ?thesis using Inl assms(2) by (simp add: sock_read_def read_good_def here_def)
next
  case (Inr k)
  let ?t = "d\<lparr>d_tick := Suc (d_tick d)\<rparr>"
  have t: "drv_inv ?t" "here E a ?t" "fewer True d ?t" using assms by simp_all
  have zero: "drv_inv (with_conn a (\<lambda>k. k\<lparr>k_readzero := n k\<rparr>) ?t)"
    "fewer True ?t (with_conn a (\<lambda>k. k\<lparr>k_readzero := n k\<rparr>) ?t)" for n
    by (rule with_conn_good; use t in simp)+
  have h: "here E a (with_conn a (\<lambda>k. k\<lparr>k_readzero := n k\<rparr>) ?t)" for n
    using t(2) zero(2) [of n] by (auto simp: here_def fewer_def)
  have from_zero: "read_good E a d r" if "read_good E a (with_conn a (\<lambda>k. k\<lparr>k_readzero := n k\<rparr>) ?t) r" for n r
    using that fewer_trans [OF t(3) zero(2) [of n]] by (rule read_good_from)
  have gone: "read_good E a d (sock_disconnect a ?t)"
    by (rule read_good_from [OF disconnect_read_good [OF t(1,2)] t(3)])
  have still: "read_good E a d (Inr ?t)" using t(1) by (auto simp: read_good_def)
  show ?thesis
  proof (cases "de_read E (d_tick d) (k_fd k)")
    case ReadRetry
    then show ?thesis using Inr still by (simp add: sock_read_def Let_def)
  next
    case ReadError
    then show ?thesis using Inr gone by (simp add: sock_read_def Let_def)
  next
    case (ReadBytes bytes)
    have waits: "read_good E a d (Inr (with_conn a (\<lambda>k. k\<lparr>k_readzero := k_readzero k + 1\<rparr>) ?t))"
      by (rule from_zero [where n = "\<lambda>k. k_readzero k + 1"]) (use zero(1) in \<open>simp add: read_good_def\<close>)
    have quits: "read_good E a d (sock_disconnect a (with_conn a (\<lambda>k. k\<lparr>k_readzero := k_readzero k + 1\<rparr>) ?t))"
      by (rule from_zero [OF disconnect_read_good [OF zero(1) h]])
    have reads: "read_good E a d (sock_read_loop E V a (with_conn a (\<lambda>k. k\<lparr>k_readzero := 0\<rparr>) ?t) cs)" for cs
      by (rule from_zero [OF good_read [OF sock_read_loop_good [OF zero(1) h]]])
    show ?thesis
      unfolding sock_read_def Inr and_then_simps Let_def ReadBytes read_result.case
      by (simp only: gone waits quits reads split: if_split) simp
  qed
qed

lemma poll_loop_good:
  "drv_inv d \<Longrightarrow>
   (\<forall>a. cur = Some a \<longrightarrow> 0 < n \<and> length (sfx a (addrs d)) \<le> n \<and> here E a d) \<Longrightarrow>
   (case poll_loop E V ready n cur d of
      Inl e \<Rightarrow> e \<noteq> Endless \<and> (dwrites E \<longrightarrow> e \<noteq> Freed_access)
    | Inr x \<Rightarrow> drv_inv x \<and> fewer False d x)"
proof (induction n arbitrary: cur d)
  case 0
  then show ?case by (cases cur) auto
next
  case (Suc n)
  show ?case
  proof (cases cur)
    case (Some a)
    then have h: "here E a d" and len: "length (sfx a (addrs d)) \<le> Suc n" using Suc.prems(2) by auto
    show ?thesis
    proof (cases "deref a d")
      case (Inl e)
      then have "e = Freed_access" "a \<notin> set (addrs d)" by (simp_all add: deref_Inl)
      then show ?thesis using Some Inl h by (simp add: here_def)
    next
      case (Inr k)
      let ?next = "next_addr a (d_connhead d)"
      have "read_good E a d (if k_fd k \<in> set ready then sock_read E V a d else Inr d)"
        using sock_read_good [OF Suc.prems(1) h] Suc.prems(1) by (simp add: read_good_def)
      then consider e where "(if k_fd k \<in> set ready then sock_read E V a d else Inr d) = Inl e"
          "e \<noteq> Endless" "dwrites E \<longrightarrow> e \<noteq> Freed_access"
        | x where "(if k_fd k \<in> set ready then sock_read E V a d else Inr d) = Inr x" "drv_inv x"
          "fewer False d x" "dwrites E \<longrightarrow> filter (\<lambda>b. b \<noteq> a) (addrs x) = filter (\<lambda>b. b \<noteq> a) (addrs d)"
        unfolding read_good_def by (auto split: sum.splits)
      then show ?thesis
      proof cases
        case 1
        then show ?thesis using Some Inr by (simp add: Let_def)
      next
        case (2 x)
        have "\<forall>b. ?next = Some b \<longrightarrow> 0 < n \<and> length (sfx b (addrs x)) \<le> n \<and> here E b x"
        proof (intro allI impI)
          fix b assume b: "?next = Some b"
          note s = next_step [OF Suc.prems(1) b len 2(3)]
          have "dwrites E \<longrightarrow> b \<in> set (filter (\<lambda>b. b \<noteq> a) (addrs x))" using 2(4) s by auto
          then show "0 < n \<and> length (sfx b (addrs x)) \<le> n \<and> here E b x"
            using s by (auto simp: here_def)
        qed
        note Suc.IH [OF 2(2) this]
        then have "case poll_loop E V ready n ?next x of
            Inl e \<Rightarrow> e \<noteq> Endless \<and> (dwrites E \<longrightarrow> e \<noteq> Freed_access)
          | Inr y \<Rightarrow> drv_inv y \<and> fewer False d y"
          using fewer_trans [OF 2(3)] by (auto split: sum.splits)
        then show ?thesis using Some Inr 2(1) by (simp add: Let_def)
      qed
    qed
  qed (use Suc.prems(1) in simp)
qed

lemma poll_good:
  assumes "drv_inv d"
  shows "case dstate_poll_fds E V timeout extrafd d of
      Inl e \<Rightarrow> e \<noteq> Endless \<and> (dwrites E \<longrightarrow> e \<noteq> Freed_access)
    | Inr (x, ret) \<Rightarrow> drv_inv x"
proof -
  let ?t = "d\<lparr>d_tick := Suc (Suc (d_tick d))\<rparr>"
  define c where "c ready = (if d_sockfd ?t \<in> set ready then sock_connect E ?t else ?t)" for ready
  have c: "drv_inv (c ready)" for ready
    using assms sock_connect_inv [of ?t E] by (simp add: c_def)
  have "case poll_loop E V ready (length (d_connhead (c ready))) (first_addr (d_connhead (c ready))) (c ready) of
      Inl e \<Rightarrow> e \<noteq> Endless \<and> (dwrites E \<longrightarrow> e \<noteq> Freed_access) | Inr x \<Rightarrow> drv_inv x \<and> fewer False (c ready) x" for ready
    by (rule poll_loop_good [OF c]) (use first_addr_sfx in \<open>auto simp: here_def\<close>)
  then have loop: "case and_then (poll_loop E V ready (length (d_connhead (c ready))) (first_addr (d_connhead (c ready))) (c ready))
        (\<lambda>d. Inr (d\<lparr>d_connhead := filter P (d_connhead d)\<rparr>, r :: int)) of
      Inl e \<Rightarrow> e \<noteq> Endless \<and> (dwrites E \<longrightarrow> e \<noteq> Freed_access) | Inr (x, ret) \<Rightarrow> drv_inv x" for ready P r
    by (rule ends_then)
  show ?thesis
    using assms loop by (auto simp: dstate_poll_fds_def Let_def c_def split: prod.split)
qed

end

end
