(* ===== verification/DummyUps.thy ===== *)
theory DummyUps
  imports DriverSafe ConfFile
begin

unbundle bit_operations_syntax

text \<open>
  drivers/dummy-ups.c in its dummy modes, with the table of dummy-ups.h: a complete device
  driver over the dstate interface.  Its handlers are the provider of the interface that
  dstate.c and main.c expect from the code of a device.

  y_ctx and y_next_update are the static variables ctx and next_update; the definition file
  is what de_file gives when it is opened.  The repeater modes are not modelled.
\<close>

section \<open>The table of variables\<close>

record dummy_info =
  info_type :: cstr
  info_flags :: "32 word"
  info_len :: int
  default_value :: "cstr option"
  du_flag_init :: bool

abbreviation item :: "cstr \<Rightarrow> 32 word \<Rightarrow> int \<Rightarrow> cstr option \<Rightarrow> bool \<Rightarrow> dummy_info" where
  "item n f l dv i \<equiv> \<lparr>info_type = n, info_flags = f, info_len = l, default_value = dv, du_flag_init = i\<rparr>"

definition nut_data :: "dummy_info list" where
  "nut_data = [
   item ''ups.mfr'' (ST_FLAG_STRING OR ST_FLAG_RW) 32 (Some ''Dummy Manufacturer'') True,
   item ''ups.model'' (ST_FLAG_STRING OR ST_FLAG_RW) 32 (Some ''Dummy UPS'') True,
   item ''ups.status'' (ST_FLAG_STRING OR ST_FLAG_RW) 32 (Some ''OL'') True,
   item ''ups.serial'' (ST_FLAG_STRING OR ST_FLAG_RW) 32 None False,
   item ''ups.load'' ST_FLAG_RW 32 None False,
   item ''ups.alarm'' (ST_FLAG_STRING OR ST_FLAG_RW) 32 None False,
   item ''ups.time'' (ST_FLAG_STRING OR ST_FLAG_RW) 16 None False,
   item ''ups.date'' (ST_FLAG_STRING OR ST_FLAG_RW) 16 None False,
   item ''ups.mfr.date'' (ST_FLAG_STRING OR ST_FLAG_RW) 16 None False,
   item ''ups.serial'' (ST_FLAG_STRING OR ST_FLAG_RW) 16 None False,
   item ''ups.firmware'' (ST_FLAG_STRING OR ST_FLAG_RW) 16 None False,
   item ''ups.firmware.aux'' (ST_FLAG_STRING OR ST_FLAG_RW) 16 None False,
   item ''ups.temperature'' ST_FLAG_RW 1 None False,
   item ''ups.id'' (ST_FLAG_STRING OR ST_FLAG_RW) 16 None False,
   item ''ups.delay.start'' ST_FLAG_RW 1 None False,
   item ''ups.delay.reboot'' ST_FLAG_RW 1 None False,
   item ''ups.delay.shutdown'' ST_FLAG_RW 1 None False,
   item ''ups.test.interval'' ST_FLAG_RW 1 None False,
   item ''ups.test.result'' (ST_FLAG_STRING OR ST_FLAG_RW) 16 None False,
   item ''input.voltage'' ST_FLAG_RW 1 None False,
   item ''input.voltage.maximum'' ST_FLAG_RW 1 None False,
   item ''input.voltage.minimum'' ST_FLAG_RW 1 None False,
   item ''input.voltage.nominal'' ST_FLAG_RW 1 None False,
   item ''input.transfer.reason'' (ST_FLAG_STRING OR ST_FLAG_RW) 1 None False,
   item ''input.transfer.low'' ST_FLAG_RW 1 None False,
   item ''input.transfer.high'' ST_FLAG_RW 1 None False,
   item ''input.sensitivity'' (ST_FLAG_STRING OR ST_FLAG_RW) 1 None False,
   item ''input.quality'' (ST_FLAG_STRING OR ST_FLAG_RW) 6 None False,
   item ''input.frequency'' ST_FLAG_RW 1 None False,
   item ''input.transfer.boost.low'' ST_FLAG_RW 1 None False,
   item ''input.transfer.boost.high'' ST_FLAG_RW 1 None False,
   item ''input.transfer.trim.low'' ST_FLAG_RW 1 None False,
   item ''input.transfer.trim.high'' ST_FLAG_RW 1 None False,
   item ''output.voltage'' ST_FLAG_RW 1 None False,
   item ''output.frequency'' ST_FLAG_RW 1 None False,
   item ''output.current'' ST_FLAG_RW 1 None False,
   item ''battery.charge'' ST_FLAG_RW 1 None False,
   item ''battery.charge.low'' ST_FLAG_RW 1 None False,
   item ''battery.voltage'' ST_FLAG_RW 1 None False,
   item ''battery.current'' ST_FLAG_RW 1 None False,
   item ''battery.runtime'' ST_FLAG_RW 1 None False,
   item ''battery.runtime.low'' ST_FLAG_RW 1 None False,
   item ''battery.charge.restart'' ST_FLAG_RW 1 None False,
   item ''battery.temperature'' ST_FLAG_RW 1 None False,
   item ''battery.voltage.nominal'' ST_FLAG_RW 1 None False,
   item ''ambient.temperature'' ST_FLAG_RW 1 None False,
   item ''ambient.temperature.alarm'' ST_FLAG_RW 1 None False,
   item ''ambient.temperature.high'' ST_FLAG_RW 1 None False,
   item ''ambient.temperature.low'' ST_FLAG_RW 1 None False,
   item ''ambient.humidity'' ST_FLAG_RW 1 None False,
   item ''ambient.humidity.alarm'' ST_FLAG_RW 1 None False,
   item ''ambient.humidity.high'' ST_FLAG_RW 1 None False,
   item ''ambient.humidity.low'' ST_FLAG_RW 1 None False
  ]"

definition find_info :: "cstr \<Rightarrow> dummy_info option" where
  "find_info varname = find (\<lambda>i. strcasecmp (info_type i) varname = 0) nut_data"

text \<open>Unknown names and values are accepted as well.\<close>

definition is_valid_data :: "cstr \<Rightarrow> bool" where
  "is_valid_data varname = (case find_info varname of Some i \<Rightarrow> True | None \<Rightarrow> True)"

definition is_valid_value :: "cstr \<Rightarrow> cstr \<Rightarrow> bool" where
  "is_valid_value varname val = (case find_info varname of Some i \<Rightarrow> True | None \<Rightarrow> True)"

section \<open>Handlers\<close>

definition dummy_instcmd :: "cstr \<Rightarrow> cstr option \<Rightarrow> drv \<Rightarrow> fault + (drv \<times> int)" where
  "dummy_instcmd cmdname extra d = Inr (d, STAT_INSTCMD_UNKNOWN)"

definition dummy_shutdown :: "drv \<Rightarrow> fault + drv" where
  "dummy_shutdown d =
     Inr (if 0 < m_handling_upsdrv_shutdown (d_main d) then set_exit_flag EF_EXIT_FAILURE d else d)"

definition dummy_setvar :: "denv \<Rightarrow> cstr \<Rightarrow> cstr \<Rightarrow> drv \<Rightarrow> fault + (drv \<times> int)" where
  "dummy_setvar E varname val d =
     (if strneq varname ''ups.status'' 10 then
        and_then (status_commit E (status_set val (status_init d))) (\<lambda>d. Inr (d, STAT_SET_HANDLED))
      else if \<not> is_valid_data varname then Inr (d, STAT_SET_UNKNOWN)
      else if \<not> is_valid_value varname val then Inr (d, STAT_SET_UNKNOWN)
      else and_then
        (if length val = 0 then and_then (dstate_delinfo E varname d) (\<lambda>(d, ret). Inr d)
         else and_then (dstate_put E varname val d) (\<lambda>d.
           case find_info varname of
             Some i \<Rightarrow>
               and_then (dstate_setflags E (info_type i) (info_flags i) d) (\<lambda>d.
                 if has_flag (info_flags i) ST_FLAG_STRING
                 then dstate_setaux E (info_type i) (info_len i) d else Inr d)
           | None \<Rightarrow>
               and_then (dstate_setflags E varname (ST_FLAG_STRING OR ST_FLAG_RW) d) (\<lambda>d.
                 dstate_setaux E varname 32 d)))
        (\<lambda>d. Inr (d, STAT_SET_HANDLED)))"

section \<open>The definition file\<close>

definition VAR_VALUE_LEN :: nat where
  "VAR_VALUE_LEN = 128"

text \<open>The words of a line after the first, joined by spaces in the buffer var_value.\<close>

definition join_words :: "cstr list \<Rightarrow> cstr option \<Rightarrow> cstr option" where
  "join_words ws var_value = (case ws of
     [] \<Rightarrow> var_value
   | w # r \<Rightarrow> Some (fold (\<lambda>w buf. snprintfcat buf VAR_VALUE_LEN ('' '' @ w)) r (snprintf VAR_VALUE_LEN w)))"

text \<open>
  One line that is not TIMER.  var_value is the local buffer, None while nothing was
  written to it; a variable without a value uses what the buffer holds.
\<close>

definition data_line ::
  "denv \<Rightarrow> cstr list \<Rightarrow> cstr option \<times> drv \<Rightarrow> fault + (cstr option \<times> drv)" where
  "data_line E arg st = (case st of (var_value, d) \<Rightarrow>
     if arg = [] then Inr (var_value, d)
     else if strneq (arg ! 0) ''ALARM'' 5 then
       (if 1 < length arg then
          (let var_value = join_words (tl arg) var_value in
           case var_value of
             Some (c # v) \<Rightarrow> Inr (var_value, alarm_set (c # v) d)
           | _ \<Rightarrow> Inr (var_value, alarm_init d))
        else Inr (var_value, alarm_init d))
     else
       (let name = takeWhile (\<lambda>c. c \<noteq> CHR '':'') (arg ! 0) in
        if strneq name ''driver.'' 7 then Inr (var_value, d)
        else if strneq name ''ups.status'' 10 then
          and_then (status_commit E (fold status_set (tl arg) (status_init d))) (\<lambda>d. Inr (var_value, d))
        else
          (let var_value = join_words (tl arg) var_value in
           case var_value of
             None \<Rightarrow> Inl Stray_read
           | Some v \<Rightarrow> and_then (dummy_setvar E name v d) (\<lambda>(d, ret). Inr (var_value, d)))))"

text \<open>
  The loop over the lines.  TIMER leaves it: the third component is the new next_update.
  Its argument is read from the array of words, whether or not the line has it.
\<close>

function data_loop ::
  "denv \<Rightarrow> pconf_ctx \<Rightarrow> cstr option \<Rightarrow> drv \<Rightarrow> fault + (pconf_ctx \<times> drv \<times> int)" where
  "data_loop E ctx var_value d =
     (case pconf_file_next ctx of
        (ctx, False) \<Rightarrow> Inr (ctx, d, -1)
      | (ctx, True) \<Rightarrow>
          (case pconf_parse_error ctx of
             (ctx, True) \<Rightarrow> data_loop E ctx var_value d
           | (ctx, False) \<Rightarrow>
               (if pconf_args ctx \<noteq> [] \<and> strneq (pconf_args ctx ! 0) ''TIMER'' 5 then
                  (if length (pc_arglist ctx) \<le> 1 then Inl Stray_read
                   else Inr (ctx, d\<lparr>d_tick := Suc (d_tick d)\<rparr>,
                             fst (de_now E (d_tick d)) + atoi (pc_arglist ctx ! 1)))
                else (case data_line E (pconf_args ctx) (var_value, d) of
                  Inl e \<Rightarrow> Inl e
                | Inr (var_value, d) \<Rightarrow> data_loop E ctx var_value d))))"
  by pat_completeness auto
termination
  by (relation "measure (\<lambda>(E, ctx, v, d). stream_len ctx)") (auto intro: next_line_shorter [OF sym sym])

declare data_loop.simps [simp del]

record dummy_vars =
  y_ctx :: "pconf_ctx option"
  y_next_update :: int

definition parse_data_file :: "denv \<Rightarrow> dummy_vars \<Rightarrow> drv \<Rightarrow> fault + (dummy_vars \<times> drv \<times> int)" where
  "parse_data_file E y d =
     (let now = fst (de_now E (d_tick d)); d = d\<lparr>d_tick := Suc (d_tick d)\<rparr> in
      if now < y_next_update y then Inr (y, d, 1)
      else and_then
        (case y_ctx y of
           Some ctx \<Rightarrow> Inr (ctx, d)
         | None \<Rightarrow>
             (case pconf_file_begin (pconf_init zero_ctx) [] (de_file E (d_tick d)) of
                (ctx, False) \<Rightarrow> Inl Fatal_exit
              | (ctx, True) \<Rightarrow> Inr (ctx, alarm_init (status_init (d\<lparr>d_tick := Suc (d_tick d)\<rparr>)))))
        (\<lambda>(ctx, d). and_then (data_loop E ctx None d) (\<lambda>(ctx, d, upd).
           and_then (alarm_commit E d) (\<lambda>d. and_then (status_commit E d) (\<lambda>d.
             Inr (if upd = -1 then \<lparr>y_ctx = None, y_next_update = upd\<rparr>
                  else \<lparr>y_ctx = Some ctx, y_next_update = upd\<rparr>, d, 1))))))"

text \<open>upsdrv_initinfo() in the dummy modes; a failed parse is only logged.\<close>

fun init_items :: "denv \<Rightarrow> dummy_info list \<Rightarrow> drv \<Rightarrow> fault + drv" where
  "init_items E [] d = Inr d"
| "init_items E (i # is) d =
     (if du_flag_init i then
        and_then (dstate_put E (info_type i) (case default_value i of None \<Rightarrow> [] | Some v \<Rightarrow> v) d) (\<lambda>d.
        and_then (dstate_setflags E (info_type i) (info_flags i) d) (\<lambda>d.
        and_then (if has_flag (info_flags i) ST_FLAG_STRING
                  then dstate_setaux E (info_type i) (info_len i) d else Inr d)
          (init_items E is)))
      else init_items E is d)"

definition dummy_initinfo :: "denv \<Rightarrow> dummy_vars \<Rightarrow> drv \<Rightarrow> fault + (dummy_vars \<times> drv)" where
  "dummy_initinfo E y d =
     and_then (init_items E nut_data d) (\<lambda>d.
     and_then (parse_data_file E y d) (\<lambda>(y, d, ret).
     and_then (dstate_dataok E d) (\<lambda>d.
     and_then (dstate_addcmd E ''load.off'' d) (\<lambda>d. Inr (y, d)))))"

text \<open>The handlers after upsdrv_initinfo(); reading ups.conf again is the given function.\<close>

definition dummy_device :: "denv \<Rightarrow> (drv \<Rightarrow> fault + drv) \<Rightarrow> device" where
  "dummy_device E conf =
     \<lparr>v_setvar = Some (dummy_setvar E), v_instcmd = Some dummy_instcmd, v_shutdown = dummy_shutdown,
      v_read_upsconf = conf\<rparr>"

end
