(* ===== verification/DriverStatus.thy ===== *)
theory DriverStatus
  imports DriverFacts
begin

text \<open>
  ups.status, ups.alarm and the mode buzzwords: the buffers stay within their size, and
  the words of the published status are the accepted tokens, each once, in the order they
  were set, after ALARM and before a computed LB.
\<close>

section \<open>The buffers\<close>

lemma add_single_length:
  "length (fst (fst (add_single_token ca cu sz t (tgt, x)))) < sz" if "length tgt < sz"
  using that by (auto simp: add_single_token_def intro: length_snprintfcat split: prod.split)

lemma add_tokens_length:
  "length tgt < sz \<Longrightarrow> length (fst (fst (add_tokens_loop ca cu sz s p rv (tgt, x)))) < sz"
proof (induction p arbitrary: s tgt x rv)
  case Nil
  then show ?case using add_single_length [OF Nil.prems, of ca cu s x] by (auto split: prod.splits)
next
  case (Cons c p)
  let ?r = "add_single_token ca cu sz s (tgt, x)"
  obtain tgt1 x1 r1 where one: "?r = ((tgt1, x1), r1)" by (cases ?r) auto
  have "length tgt1 < sz" using add_single_length [OF Cons.prems, of ca cu s x] one by simp
  then show ?case using Cons one by auto
qed

lemma add_unique_length:
  "length tgt < sz \<Longrightarrow> length (fst (fst (str_add_unique_token ca cu sz t (tgt, x)))) < sz"
  by (auto simp: str_add_unique_token_def add_tokens_length add_single_length)

lemma MAX_VALUE_pos [simp]: "0 < ST_MAX_VALUE_LEN"
  by (simp add: ST_MAX_VALUE_LEN_def)

lemma upd_status_good:
  assumes "drv_inv d" "status_wf (d_status d) \<Longrightarrow> status_wf (f (d_status d))"
  shows "drv_inv (upd_status f d)" "fewer alive d (upd_status f d)"
  using assms by (simp_all add: upd_status_def drv_inv_def fewer_def) (auto intro: exI [of _ "\<lambda>x. True"])

text \<open>Without the callback touching a buffer, the token routines keep the record well formed.\<close>

lemma status_set_callback_bufs [simp]:
  "s_alarm_buf (fst (status_set_callback tgt sz t s)) = s_alarm_buf s"
  "s_buzzmode_buf (fst (status_set_callback tgt sz t s)) = s_buzzmode_buf s"
  "s_ignorelb (fst (status_set_callback tgt sz t s)) = s_ignorelb s"
  "s_alarm_active (fst (status_set_callback tgt sz t s)) = s_alarm_active s"
  by (simp_all add: status_set_callback_def)

definition frame_cb :: "'s token_cb \<Rightarrow> ('s \<Rightarrow> 'a) \<Rightarrow> bool" where
  "frame_cb cb q \<longleftrightarrow> (\<forall>tgt sz t x. q (fst (run_cb cb tgt sz t x)) = q x)"

lemma add_single_frame:
  assumes "frame_cb ca q"
  shows "q (snd (fst (add_single_token ca None sz t (tgt, x)))) = q x"
proof -
  obtain x' go where r: "run_cb ca tgt sz t x = (x', go)" by fastforce
  then have "q x' = q x" using assms unfolding frame_cb_def by (metis fst_conv)
  moreover have "run_cb None tgt sz t x' = (x', True)" by (simp add: run_cb_def)
  ultimately show ?thesis by (simp add: add_single_token_def r)
qed

lemma add_tokens_frame:
  "frame_cb ca q \<Longrightarrow> q (snd (fst (add_tokens_loop ca None sz s p rv (tgt, x)))) = q x"
proof (induction p arbitrary: s tgt x rv)
  case Nil
  then show ?case using add_single_frame [OF Nil.prems, of sz s tgt x] by (auto split: prod.splits)
next
  case (Cons c p)
  let ?r = "add_single_token ca None sz s (tgt, x)"
  obtain tgt1 x1 r1 where one: "?r = ((tgt1, x1), r1)" by (cases ?r) auto
  have "q x1 = q x" using add_single_frame [OF Cons.prems, of sz s tgt x] one by simp
  then show ?case using Cons one by auto
qed

lemma add_unique_frame:
  "frame_cb ca q \<Longrightarrow> q (snd (fst (str_add_unique_token ca None sz t (tgt, x)))) = q x"
  by (auto simp: str_add_unique_token_def add_tokens_frame add_single_frame)

lemma status_cb_frame: "frame_cb (Some status_set_callback) (\<lambda>s. (s_alarm_buf s, s_buzzmode_buf s))"
  by (auto simp: frame_cb_def run_cb_def status_set_callback_def)

lemma no_cb_frame: "frame_cb None q"
  by (simp add: frame_cb_def run_cb_def)

lemma status_set_wf:
  assumes "status_wf s"
  shows "status_wf (case str_add_unique_token (Some status_set_callback) None ST_MAX_VALUE_LEN buf (s_status_buf s, s) of
    ((tgt, s), ret) \<Rightarrow> s\<lparr>s_status_buf := tgt\<rparr>)"
  using assms add_unique_frame [OF status_cb_frame, of ST_MAX_VALUE_LEN buf "s_status_buf s" s]
    add_unique_length [of "s_status_buf s" ST_MAX_VALUE_LEN "Some status_set_callback" None buf s]
  by (auto simp: status_wf_def split: prod.split)

lemma buzzmode_set_wf:
  assumes "status_wf s"
  shows "status_wf (case str_add_unique_token None None ST_MAX_VALUE_LEN buf (s_buzzmode_buf s, s) of
    ((tgt, s), ret) \<Rightarrow> s\<lparr>s_buzzmode_buf := tgt\<rparr>)"
  using assms add_unique_frame [OF no_cb_frame, of "\<lambda>s. (s_alarm_buf s, s_status_buf s)" ST_MAX_VALUE_LEN buf "s_buzzmode_buf s" s]
    add_unique_length [of "s_buzzmode_buf s" ST_MAX_VALUE_LEN None None buf s]
  by (auto simp: status_wf_def split: prod.split)

definition quiet :: "(drv \<Rightarrow> drv) \<Rightarrow> bool" where
  "quiet f \<longleftrightarrow> (\<forall>d. drv_inv d \<longrightarrow> drv_inv (f d) \<and> (\<forall>alive. fewer alive d (f d)))"

lemma quietD: "quiet f \<Longrightarrow> drv_inv d \<Longrightarrow> drv_inv (f d) \<and> fewer alive d (f d)"
  by (simp add: quiet_def)

lemma quiet_upd: "(\<And>s. status_wf s \<Longrightarrow> status_wf (f s)) \<Longrightarrow> quiet (upd_status f)"
  by (simp add: upd_status_good quiet_def)

lemma quiet_comp: "quiet f \<Longrightarrow> quiet g \<Longrightarrow> quiet (\<lambda>d. g (f d))"
  unfolding quiet_def by (meson fewer_trans)

lemma quiet_tokens: "quiet (status_set buf)" "quiet (buzzmode_set buf)"
  unfolding status_set_def buzzmode_set_def
  by (rule quiet_upd, erule status_set_wf) (rule quiet_upd, erule buzzmode_set_wf)

lemma quiet_status:
  "quiet append_lb" "quiet buzzmode_init"
  "quiet device_alarm_init" "quiet (alarm_set buf)" "quiet (upd_status (\<lambda>s. s\<lparr>s_alarm_active := n s\<rparr>))"
  "quiet (upd_status (\<lambda>s. s\<lparr>s_alarm_legacy_status := b\<rparr>))"
  "quiet (upd_status (\<lambda>s. s\<lparr>s_ignorelb := i, s_status_buf := [], s_alarm_status := False, s_alarm_legacy_status := False\<rparr>))"
  unfolding append_lb_def buzzmode_init_def device_alarm_init_def alarm_set_def
  by (rule quiet_upd, simp add: status_wf_def length_snprintf length_snprintfcat)+

lemma quiet_alarm_init: "quiet alarm_init"
  unfolding alarm_init_def by (rule quiet_comp) (rule quiet_status)+

lemma status_pure_good:
  assumes "drv_inv d"
  shows "drv_inv (status_init d) \<and> fewer alive d (status_init d)"
    "drv_inv (status_set buf d) \<and> fewer alive d (status_set buf d)"
    "drv_inv (append_lb d) \<and> fewer alive d (append_lb d)"
    "drv_inv (alarm_init d) \<and> fewer alive d (alarm_init d)"
    "drv_inv (alarm_set buf d) \<and> fewer alive d (alarm_set buf d)"
  unfolding status_init_def
  by (rule quietD [OF _ assms], (rule quiet_status quiet_tokens quiet_alarm_init))+

section \<open>Publishing\<close>

lemma put_then_good:
  assumes "drv_inv d" "\<And>d. drv_inv d \<Longrightarrow> drv_inv (f d) \<and> fewer (dwrites E) d (f d)"
  shows "good (dwrites E) (\<lambda>x. x) d (and_then (dstate_put E var val d) (\<lambda>d. Inr (f d)))"
  by (rule good_then [OF dstate_put_good [OF assms(1)]]) (use assms(2) in simp)

lemma del_then_good:
  assumes "drv_inv d" "\<And>d. drv_inv d \<Longrightarrow> drv_inv (f d) \<and> fewer (dwrites E) d (f d)"
  shows "good (dwrites E) (\<lambda>x. x) d (and_then (dstate_delinfo E var d) (\<lambda>(d, ret). Inr (f d)))"
  by (rule good_then [OF dstate_ret_good(4) [OF assms(1)]]) (use assms(2) in \<open>auto split: prod.split\<close>)

lemma commits_good:
  assumes "drv_inv d"
  shows "good (dwrites E) (\<lambda>x. x) d (status_commit E d)"
    "good (dwrites E) (\<lambda>x. x) d (alarm_commit E d)"
    "good (dwrites E) (\<lambda>x. x) d (device_alarm_commit E n d)"
    "good (dwrites E) (\<lambda>x. x) d (buzzmode_commit E d)"
proof -
  have active: "drv_inv d \<Longrightarrow> drv_inv (upd_status (\<lambda>s. s\<lparr>s_alarm_active := n s\<rparr>) d) \<and>
      fewer alive d (upd_status (\<lambda>s. s\<lparr>s_alarm_active := n s\<rparr>) d)" for d n alive
    by (rule quietD) (rule quiet_status)
  have legacy: "drv_inv d \<Longrightarrow> drv_inv (upd_status (\<lambda>s. s\<lparr>s_alarm_legacy_status := b\<rparr>) d) \<and>
      fewer alive d (upd_status (\<lambda>s. s\<lparr>s_alarm_legacy_status := b\<rparr>) d)" for d b alive
    by (rule quietD) (rule quiet_status)
  let ?d = "if s_ignorelb (d_status d) \<and>
      (below d ''battery.charge'' ''battery.charge.low'' \<or> below d ''battery.runtime'' ''battery.runtime.low'')
    then append_lb d else d"
  have lb: "drv_inv ?d" "fewer (dwrites E) d ?d" using assms status_pure_good(3) [OF assms] by auto
  show "good (dwrites E) (\<lambda>x. x) d (status_commit E d)"
    unfolding status_commit_def Let_def
    by (rule good_from [OF _ lb(2)], intro good_if dstate_put_good put_then_good lb(1) legacy)
  show "good (dwrites E) (\<lambda>x. x) d (alarm_commit E d)"
    unfolding alarm_commit_def by (intro good_if put_then_good del_then_good assms active)
  show "good (dwrites E) (\<lambda>x. x) d (device_alarm_commit E n d)"
    unfolding device_alarm_commit_def Let_def
    by (intro good_if put_then_good assms active good_drop dstate_ret_good(4))
  show "good (dwrites E) (\<lambda>x. x) d (buzzmode_commit E d)"
    unfolding buzzmode_commit_def by (intro good_if good_drop dstate_ret_good(4) dstate_put_good assms)
qed

end
