(* ===== verification/DriverLink.thy ===== *)
theory DriverLink
  imports DriverSafe DriverStatus
begin

text \<open>
  What the readers of a driver get while write() takes everything: each broadcast is
  written once to every connection that wants broadcasts, in order, and each line of an
  answer once to the connection that asked.
\<close>

section \<open>Broadcasts\<close>

definition listeners :: "drv \<Rightarrow> int list" where
  "listeners d = map k_fd (filter (\<lambda>k. \<not> k_nobroadcast k) (d_connhead d))"

definition posted :: "(int \<times> cstr) list \<Rightarrow> drv \<Rightarrow> drv" where
  "posted ms d = d\<lparr>d_tick := d_tick d + length ms, d_wire := d_wire d @ ms\<rparr>"

definition shouted :: "cstr \<Rightarrow> drv \<Rightarrow> drv" where
  "shouted msg d = posted (map (\<lambda>fd. (fd, snprintf ST_SOCK_BUF_LEN msg)) (listeners d)) d"

lemma posted_fields [simp]:
  "d_connhead (posted ms d) = d_connhead d" "d_dtree_root (posted ms d) = d_dtree_root d"
  "d_cmdhead (posted ms d) = d_cmdhead d" "d_stale (posted ms d) = d_stale d"
  "d_status (posted ms d) = d_status d" "d_main (posted ms d) = d_main d"
  "d_do_synchronous (posted ms d) = d_do_synchronous d" "d_fresh (posted ms d) = d_fresh d"
  "listeners (posted ms d) = listeners d" "d_wire (posted ms d) = d_wire d @ ms"
  by (simp_all add: posted_def listeners_def)

lemma posted_Nil [simp]: "posted [] d = d"
  by (simp add: posted_def)

lemma posted_posted [simp]: "posted b (posted a d) = posted (a @ b) d"
  by (simp add: posted_def ac_simps)

lemma shouted_fields [simp]:
  "d_connhead (shouted msg d) = d_connhead d" "d_dtree_root (shouted msg d) = d_dtree_root d"
  "d_cmdhead (shouted msg d) = d_cmdhead d" "d_stale (shouted msg d) = d_stale d"
  "d_status (shouted msg d) = d_status d" "d_main (shouted msg d) = d_main d"
  "listeners (shouted msg d) = listeners d"
  by (simp_all add: shouted_def)

lemma dwrite_posted:
  "dwrites E \<Longrightarrow> dwrite E fd s d = (posted [(fd, s)] d, int (length s), de_again E (d_tick d))"
  by (simp add: dwrite_def dwrites_def posted_def)

lemma next_addr_append:
  "k_addr k \<notin> k_addr ` set pre \<Longrightarrow> next_addr (k_addr k) (pre @ k # ks) = first_addr ks"
  by (induction pre) auto

lemma deref_append:
  assumes "d_connhead d = pre @ k # ks" "distinct (addrs d)"
  shows "deref (k_addr k) d = Inr k"
proof -
  have "k_addr k \<notin> k_addr ` set pre" using assms by auto
  then have "List.find (\<lambda>x. k_addr x = k_addr k) (pre @ k # ks) = Some k"
    by (induction pre) auto
  then show ?thesis using assms(1) by (simp add: deref_def find_conn_def)
qed

lemma bcast_loop_posted:
  "dwrites E \<Longrightarrow> buf \<noteq> [] \<Longrightarrow> distinct (addrs d) \<Longrightarrow> d_connhead d = pre @ ks \<Longrightarrow> length ks \<le> n \<Longrightarrow>
   bcast_loop failed E buf n (first_addr ks) d =
     Inr (posted (map (\<lambda>k. (k_fd k, buf)) (filter (\<lambda>k. \<not> k_nobroadcast k) ks)) d)"
proof (induction ks arbitrary: n d pre)
  case Nil
  then show ?case by (simp add: first_addr_def)
next
  case (Cons k ks)
  then obtain m where n: "n = Suc m" "length ks \<le> m" by (cases n) auto
  have at: "deref (k_addr k) d = Inr k" by (rule deref_append [OF Cons.prems(4,3)])
  have "k_addr k \<notin> k_addr ` set pre" using Cons.prems(3,4) by auto
  then have nx: "next_addr (k_addr k) (d_connhead d) = first_addr ks"
    using next_addr_append Cons.prems(4) by simp
  have len: "0 < length buf" using Cons.prems(2) by simp
  have IH: "bcast_loop failed E buf m (first_addr ks) d' =
      Inr (posted (map (\<lambda>k. (k_fd k, buf)) (filter (\<lambda>k. \<not> k_nobroadcast k) ks)) d')"
    if "d_connhead d' = d_connhead d" for d'
    using Cons.IH [of d' "pre @ [k]" m] Cons.prems n(2) that by simp
  show ?case
    using Cons.prems(1) at nx len IH by (simp add: first_addr_def n(1) Let_def dwrite_posted write_failed_def Suc_leI)
qed

lemma send_to_all_posted:
  assumes "dwrites E" "distinct (addrs d)" "msg \<noteq> []"
  shows "send_to_all E msg d = Inr (shouted msg d)"
proof -
  have "broadcast m E msg d = Inr (shouted msg d)" for m
    using bcast_loop_posted [OF assms(1) snprintf_not_Nil [OF assms(3)] assms(2), of "[]" "d_connhead d"] assms(3)
    by (cases m) (simp_all add: shouted_def listeners_def comp_def)
  then show ?thesis by (simp add: send_to_all_def)
qed

section \<open>Answers\<close>

definition told_to :: "nat \<Rightarrow> cstr list \<Rightarrow> drv \<Rightarrow> drv" where
  "told_to a msgs d =
     posted (map (\<lambda>m. (k_fd (projr (deref a d)), snprintf ST_SOCK_BUF_LEN m)) msgs) d"

lemma deref_posted [simp]: "deref b (posted ms d) = deref b d"
  by (simp add: deref_def find_conn_def)

lemma told_to_fields [simp]:
  "d_connhead (told_to a msgs d) = d_connhead d" "d_dtree_root (told_to a msgs d) = d_dtree_root d"
  "d_cmdhead (told_to a msgs d) = d_cmdhead d" "d_stale (told_to a msgs d) = d_stale d"
  "d_status (told_to a msgs d) = d_status d" "d_main (told_to a msgs d) = d_main d"
  "deref b (told_to a msgs d) = deref b d"
  by (simp_all add: told_to_def)

lemma told_to_Nil [simp]: "told_to a [] d = d"
  by (simp add: told_to_def)

lemma told_to_append [simp]: "told_to a ms (told_to a ls d) = told_to a (ls @ ms) d"
  unfolding told_to_def by simp

lemma here_deref: "a \<in> set (addrs d) \<Longrightarrow> \<exists>k. deref a d = Inr k"
  by (cases "deref a d") (auto simp: deref_Inl)

lemma send_to_one_posted:
  assumes "dwrites E" "a \<in> set (addrs d)" "msg \<noteq> []"
  shows "send_to_one E a msg d = Inr (told_to a [msg] d, True)"
proof -
  obtain k where k: "deref a d = Inr k" using here_deref [OF assms(2)] ..
  have "0 < length (snprintf ST_SOCK_BUF_LEN msg)" using snprintf_not_Nil [OF assms(3)] by simp
  then show ?thesis
    using assms k by (simp add: send_to_one_def Let_def dwrite_posted write_failed_def told_to_def Suc_leI)
qed

lemma tell_posted:
  "dwrites E \<Longrightarrow> a \<in> set (addrs d) \<Longrightarrow> msg \<noteq> [] \<Longrightarrow> tell E a msg d = Inr (told_to a [msg] d)"
  by (simp add: tell_def send_to_one_posted)

lemma send_each_posted:
  "dwrites E \<Longrightarrow> a \<in> set (addrs d) \<Longrightarrow> [] \<notin> set msgs \<Longrightarrow> send_each E a msgs d = Inr (told_to a msgs d, True)"
proof (induction msgs arbitrary: d)
  case (Cons m ms)
  then show ?case by (auto simp: send_to_one_posted)
qed simp

lemma node_lines_not_Nil: "[] \<notin> set (node_lines n)"
  by (auto simp: node_lines_def)

definition tree_lines :: "st_tree \<Rightarrow> cstr list" where
  "tree_lines t = concat (map node_lines (inorder t))"

lemma tree_lines_simps [simp]:
  "tree_lines Leaf = []" "tree_lines (Node l n r) = tree_lines l @ node_lines n @ tree_lines r"
  by (simp_all add: tree_lines_def)

lemma tree_dump_posted:
  "dwrites E \<Longrightarrow> a \<in> set (addrs d) \<Longrightarrow>
   st_tree_dump_conn E t a d = Inr (told_to a (tree_lines t) d, True)"
proof (induction t arbitrary: d)
  case (Node l n r)
  then show ?case
    by (simp add: st_tree_dump_conn_one_node_def send_each_posted node_lines_not_Nil)
qed simp

text \<open>Everything a DUMPALL answers.\<close>

definition dumpall_lines :: "drv \<Rightarrow> cstr list" where
  "dumpall_lines d =
     (if d_stale d then [''DATASTALE'' @ [NL]] else []) @ tree_lines (d_dtree_root d) @
     map (\<lambda>c. ''ADDCMD '' @ c @ [NL]) (d_cmdhead d) @
     (if \<not> d_stale d then [''DATAOK'' @ [NL]] else []) @ [''DUMPDONE'' @ [NL]]"

lemma dumpall_posted:
  assumes "dwrites E" "a \<in> set (addrs d)"
  shows "sock_arg E V a [''DUMPALL''] d = Inr (told_to a (dumpall_lines d) d, 1)"
  using assms
  by (simp add: sock_arg_def sock_dump_def Let_def ci_simps c_tolower_def send_to_one_posted tree_dump_posted
      cmd_dump_conn_def send_each_posted tell_posted dumpall_lines_def image_iff)

end
