(* ===== verification/Replica.thy ===== *)
theory Replica
  imports DriverLink SState
begin

unbundle bit_operations_syntax

text \<open>
  The protocol between a driver and upsd, as an abstract specification: the messages a
  driver sends about its state, their text on the socket, and what each one does to the
  copy (replica) that upsd keeps.  The reader of upsd implements it byte by byte; two
  copies agree when upsd would answer every question as the driver would.
\<close>

section \<open>Messages\<close>

datatype dmsg =
    SetInfo cstr cstr | AddEnum cstr cstr | AddRange cstr int int | SetAux cstr int
  | SetFlags cstr "32 word" | DelInfo cstr | DelEnum cstr cstr | DelRange cstr int int
  | AddCmd cstr | DelCmd cstr | DataOk | DataStale | DumpDone

fun msg_items :: "dmsg \<Rightarrow> item list" where
  "msg_items (SetInfo var val) = [Bare ''SETINFO'', Bare var, Quoted val]"
| "msg_items (AddEnum var val) = [Bare ''ADDENUM'', Bare var, Quoted val]"
| "msg_items (AddRange var mn mx) = [Bare ''ADDRANGE'', Bare var, Bare (show_int mn), Bare (show_int mx)]"
| "msg_items (SetAux var aux) = [Bare ''SETAUX'', Bare var, Bare (show_int aux)]"
| "msg_items (SetFlags var flags) = Bare ''SETFLAGS'' # Bare var # map Bare (flag_words flags)"
| "msg_items (DelInfo var) = [Bare ''DELINFO'', Bare var]"
| "msg_items (DelEnum var val) = [Bare ''DELENUM'', Bare var, Quoted val]"
| "msg_items (DelRange var mn mx) = [Bare ''DELRANGE'', Bare var, Bare (show_int mn), Bare (show_int mx)]"
| "msg_items (AddCmd cmd) = [Bare ''ADDCMD'', Bare cmd]"
| "msg_items (DelCmd cmd) = [Bare ''DELCMD'', Bare cmd]"
| "msg_items DataOk = [Bare ''DATAOK'']"
| "msg_items DataStale = [Bare ''DATASTALE'']"
| "msg_items DumpDone = [Bare ''DUMPDONE'']"

definition msg_text :: "dmsg \<Rightarrow> cstr" where
  "msg_text m = line_text (msg_items m)"

text \<open>The copy of a driver that upsd keeps.\<close>

record replica =
  r_tree :: st_tree
  r_cmds :: "cstr list"
  r_data_ok :: bool
  r_dumpdone :: bool

text \<open>
  What a message does to it, at the clock value now.  A SETFLAGS line without a flag has
  too few words and is refused.
\<close>

fun msg_fx :: "int \<Rightarrow> dmsg \<Rightarrow> replica \<Rightarrow> replica" where
  "msg_fx now (SetInfo var val) r = r\<lparr>r_tree := fst (state_setinfo now (r_tree r) var val)\<rparr>"
| "msg_fx now (AddEnum var val) r = r\<lparr>r_tree := fst (state_addenum now (r_tree r) var val)\<rparr>"
| "msg_fx now (AddRange var mn mx) r = r\<lparr>r_tree := fst (state_addrange now (r_tree r) var mn mx)\<rparr>"
| "msg_fx now (SetAux var aux) r = r\<lparr>r_tree := fst (state_setaux now (r_tree r) var (show_int aux))\<rparr>"
| "msg_fx now (SetFlags var flags) r =
     (if flag_words flags = [] then r
      else r\<lparr>r_tree := state_setflags now (r_tree r) var (flag_words flags)\<rparr>)"
| "msg_fx now (DelInfo var) r = r\<lparr>r_tree := fst (state_delinfo (r_tree r) var)\<rparr>"
| "msg_fx now (DelEnum var val) r = r\<lparr>r_tree := fst (state_delenum now (r_tree r) var val)\<rparr>"
| "msg_fx now (DelRange var mn mx) r = r\<lparr>r_tree := fst (state_delrange now (r_tree r) var mn mx)\<rparr>"
| "msg_fx now (AddCmd cmd) r = r\<lparr>r_cmds := fst (state_addcmd (r_cmds r) cmd)\<rparr>"
| "msg_fx now (DelCmd cmd) r = r\<lparr>r_cmds := fst (state_delcmd (r_cmds r) cmd)\<rparr>"
| "msg_fx now DataOk r = r\<lparr>r_data_ok := True\<rparr>"
| "msg_fx now DataStale r = r\<lparr>r_data_ok := False\<rparr>"
| "msg_fx now DumpDone r = r\<lparr>r_dumpdone := True\<rparr>"

text \<open>A sequence of messages, each taken at some clock value.\<close>

inductive replays :: "dmsg list \<Rightarrow> replica \<Rightarrow> replica \<Rightarrow> bool" where
  none: "replays [] r r"
| more: "replays ms (msg_fx now m r) r' \<Longrightarrow> replays (m # ms) r r'"

inductive_simps replays_Nil [simp]: "replays [] r r'"
inductive_simps replays_Cons: "replays (m # ms) r r'"

lemma replays_append: "replays (a @ b) r r' \<longleftrightarrow> (\<exists>q. replays a r q \<and> replays b q r')"
  by (induction a arbitrary: r) (auto simp: replays_Cons)

section \<open>upsd reads the messages\<close>

definition upsd_replica :: "ups \<Rightarrow> replica" where
  "upsd_replica u = \<lparr>r_tree = u_inforoot u, r_cmds = u_cmdlist u, r_data_ok = u_data_ok u,
     r_dumpdone = u_dumpdone u\<rparr>"

text \<open>A message that fits the readers and the 512 byte buffers.\<close>

fun msg_numbers_ok :: "dmsg \<Rightarrow> bool" where
  "msg_numbers_ok (AddRange var mn mx) \<longleftrightarrow> INT_MIN \<le> mn \<and> mn \<le> INT_MAX \<and> INT_MIN \<le> mx \<and> mx \<le> INT_MAX"
| "msg_numbers_ok (DelRange var mn mx) \<longleftrightarrow> INT_MIN \<le> mn \<and> mn \<le> INT_MAX \<and> INT_MIN \<le> mx \<and> mx \<le> INT_MAX"
| "msg_numbers_ok (SetAux var aux) \<longleftrightarrow> LONG_MIN \<le> aux \<and> aux \<le> LONG_MAX"
| "msg_numbers_ok m \<longleftrightarrow> True"

definition msg_ok :: "dmsg \<Rightarrow> bool" where
  "msg_ok m \<longleftrightarrow> list_all (item_ok PCONF_DEFAULT_WORDLEN_LIMIT) (msg_items m) \<and>
     length (msg_text m) < ST_SOCK_BUF_LEN \<and> msg_numbers_ok m"

lemma atoi_show_int: "INT_MIN \<le> i \<Longrightarrow> i \<le> INT_MAX \<Longrightarrow> atoi (show_int i) = i"
  by (simp add: atoi_def atol_def strtol_show_int c_int_id LONG_MIN_def LONG_MAX_def INT_MIN_def INT_MAX_def)

lemma parse_args_msg:
  assumes "i < length (sd_firstups S)" "msg_numbers_ok m"
  shows "\<exists>now. upsd_replica (the_ups (fst (parse_args E i (map item_word (msg_items m)) S)) i) =
    msg_fx now m (upsd_replica (the_ups S i))"
  using assms
  by (cases m)
    (auto simp: parse_args_def Let_def ci_simps c_tolower_def on_inforoot_def do_mono_def the_ups_with_ups
      upsd_replica_def atoi_show_int comp_def Suc_le_eq)

text \<open>The default limits of the parser, which upsd uses for every driver.\<close>

definition driver_ctx :: "pconf_ctx \<Rightarrow> bool" where
  "driver_ctx ctx \<longleftrightarrow> line_start ctx \<and> pc_arg_limit ctx = PCONF_DEFAULT_ARG_LIMIT \<and>
     pc_wordlen_limit ctx = PCONF_DEFAULT_WORDLEN_LIMIT"

lemma driver_ctx_init: "driver_ctx (pconf_init ctx)"
  by (simp add: driver_ctx_def line_start_def pconf_init_wf) (simp add: pconf_init_def tok_ended_def)

lemma msg_line_fits:
  assumes "driver_ctx ctx" "msg_ok m"
  shows "line_fits ctx (msg_items m)"
proof -
  have "length (flag_words f) \<le> 30" for f by (simp add: flag_words_def)
  then have "length (msg_items m) \<le> 32" by (cases m) simp_all
  moreover have "msg_items m \<noteq> []" by (cases m) simp_all
  ultimately show ?thesis
    using assms by (auto simp: line_fits_def driver_ctx_def msg_ok_def PCONF_DEFAULT_ARG_LIMIT_def)
qed

lemma driver_line_replica:
  assumes "i < length (sd_firstups S)"
  shows "upsd_replica (the_ups (driver_line E i S) i) =
    upsd_replica (the_ups (fst (parse_args E i (pconf_args (u_sock_ctx (the_ups S i))) S)) i)"
proof -
  let ?p = "parse_args E i (pconf_args (u_sock_ctx (the_ups S i))) S"
  obtain S1 b where p: "?p = (S1, b)" by fastforce
  have "i < length (sd_firstups S1)"
    using parse_args_effect [of i S E "pconf_args (u_sock_ctx (the_ups S i))"] p assms
    by (simp add: line_effect_def)
  then show ?thesis
    by (cases b) (simp_all add: driver_line_def p do_time_def the_ups_with_ups upsd_replica_def)
qed

text \<open>Reading the text of messages replays them, each at some clock value.\<close>

lemma read_msgs:
  assumes "i < length (sd_firstups S)" "driver_ctx (u_sock_ctx (the_ups S i))" "\<forall>m\<in>set ms. msg_ok m"
  shows "replays ms (upsd_replica (the_ups S i))
      (upsd_replica (the_ups (sstate_read_loop E i S (concat (map msg_text ms))) i)) \<and>
    length (sd_firstups (sstate_read_loop E i S (concat (map msg_text ms)))) = length (sd_firstups S) \<and>
    driver_ctx (u_sock_ctx (the_ups (sstate_read_loop E i S (concat (map msg_text ms))) i))"
  using assms
proof (induction ms arbitrary: S)
  case Nil
  then show ?case by simp
next
  case (Cons m ms)
  let ?rest = "concat (map msg_text ms)"
  have ok: "msg_ok m" using Cons.prems(3) by simp
  obtain ctx where ctx: "sstate_read_loop E i S (line_text (msg_items m) @ ?rest) =
      sstate_read_loop E i (driver_line E i (with_ups i (\<lambda>u. u\<lparr>u_sock_ctx := ctx\<rparr>) S)) ?rest"
    "line_start ctx" "same_limits ctx (u_sock_ctx (the_ups S i))" "pconf_args ctx = map item_word (msg_items m)"
    using driver_reader.scan.loop_line [OF Cons.prems(1) _ msg_line_fits [OF Cons.prems(2) ok], of E ?rest]
      Cons.prems(2) by (auto simp: driver_ctx_def)
  let ?S1 = "with_ups i (\<lambda>u. u\<lparr>u_sock_ctx := ctx\<rparr>) S"
  let ?S2 = "driver_line E i ?S1"
  have i1: "i < length (sd_firstups ?S1)" using Cons.prems(1) by simp
  have S1: "u_sock_ctx (the_ups ?S1 i) = ctx" "upsd_replica (the_ups ?S1 i) = upsd_replica (the_ups S i)"
    using Cons.prems(1) by (simp_all add: the_ups_with_ups upsd_replica_def)
  have frame: "length (sd_firstups ?S2) = length (sd_firstups S)" "u_sock_ctx (the_ups ?S2 i) = ctx"
    using driver_line_effect [of i ?S1 E] i1 S1(1) by (auto simp: line_effect_def ups_frame_def)
  obtain now where "upsd_replica (the_ups (fst (parse_args E i (map item_word (msg_items m)) ?S1)) i) =
      msg_fx now m (upsd_replica (the_ups ?S1 i))"
    using parse_args_msg [OF i1] ok by (auto simp: msg_ok_def)
  then have fx: "upsd_replica (the_ups ?S2 i) = msg_fx now m (upsd_replica (the_ups S i))"
    using driver_line_replica [OF i1, of E] S1 ctx(4) by simp
  have "driver_ctx (u_sock_ctx (the_ups ?S2 i))"
    using Cons.prems(2) ctx(2,3) frame(2) by (simp add: driver_ctx_def same_limits_def)
  then have "replays ms (upsd_replica (the_ups ?S2 i)) (upsd_replica (the_ups (sstate_read_loop E i ?S2 ?rest) i))"
    "length (sd_firstups (sstate_read_loop E i ?S2 ?rest)) = length (sd_firstups ?S2)"
    "driver_ctx (u_sock_ctx (the_ups (sstate_read_loop E i ?S2 ?rest) i))"
    using Cons.IH [of ?S2] Cons.prems frame by auto
  then show ?case
    using ctx(1) fx frame(1) by (auto simp: replays_Cons msg_text_def [of m])
qed

end
