(* ===== verification/ReplicaSync.thy ===== *)
theory ReplicaSync
  imports Replica
begin

unbundle bit_operations_syntax

text \<open>
  Agreement of a driver and the copy in upsd: what DUMPALL establishes and what the
  broadcasts of the dstate interface maintain.
\<close>

section \<open>Agreement\<close>

text \<open>The flags that SETFLAGS can carry; IMMUTABLE stays in the driver.\<close>

definition shown_flags :: "32 word \<Rightarrow> 32 word" where
  "shown_flags f = f AND (ST_FLAG_RW OR ST_FLAG_STRING OR ST_FLAG_NUMBER)"

definition same_data :: "st_node \<Rightarrow> st_node \<Rightarrow> bool" where
  "same_data n m \<longleftrightarrow> n_raw m = n_raw n \<and> n_enum_list m = n_enum_list n \<and>
     n_range_list m = n_range_list n \<and> n_aux m = n_aux n \<and> n_flags m = shown_flags (n_flags n)"

definition tree_agree :: "st_tree \<Rightarrow> st_tree \<Rightarrow> bool" where
  "tree_agree t u \<longleftrightarrow> (\<forall>v. rel_option same_data (state_tree_find t v) (state_tree_find u v))"

definition agree :: "drv \<Rightarrow> replica \<Rightarrow> bool" where
  "agree d r \<longleftrightarrow> tree_agree (d_dtree_root d) (r_tree r) \<and> tree_wf (r_tree r) \<and>
     r_cmds r = d_cmdhead d \<and> r_data_ok r = (\<not> d_stale d)"

text \<open>Agreeing copies show the same text for every variable.\<close>

lemma agree_value:
  assumes "agree d r" "drv_inv d"
  shows "state_getinfo (r_tree r) var = dstate_getinfo d var"
proof -
  have wf: "tree_wf (d_dtree_root d)" "tree_wf (r_tree r)"
    using assms by (simp_all add: agree_def drv_inv_def)
  have "rel_option same_data (state_tree_find (d_dtree_root d) var) (state_tree_find (r_tree r) var)"
    using assms(1) by (simp add: agree_def tree_agree_def)
  then show ?thesis
    using wf by (auto simp: state_getinfo_def dstate_getinfo_def option_rel_Some1 rel_option_iff same_data_def tree_wf_def
        node_wf_def dest!: find_in_set split: option.splits)
qed

section \<open>Flags in words\<close>

lemma flag_bits:
  "has_flag f ST_FLAG_RW \<longleftrightarrow> bit f 0" "has_flag f ST_FLAG_STRING \<longleftrightarrow> bit f 1"
  "has_flag f ST_FLAG_NUMBER \<longleftrightarrow> bit f 2" "has_flag f ST_FLAG_IMMUTABLE \<longleftrightarrow> bit f 3"
proof -
  have "(f AND push_bit n 1 \<noteq> 0) = bit f n" for n
    by (simp add: bit_iff_and_push_bit_not_eq_0)
  from this [of 0] this [of 1] this [of 2] this [of 3]
  show "has_flag f ST_FLAG_RW \<longleftrightarrow> bit f 0" "has_flag f ST_FLAG_STRING \<longleftrightarrow> bit f 1"
    "has_flag f ST_FLAG_NUMBER \<longleftrightarrow> bit f 2" "has_flag f ST_FLAG_IMMUTABLE \<longleftrightarrow> bit f 3"
    by (simp_all add: has_flag_def ST_FLAG_RW_def ST_FLAG_STRING_def ST_FLAG_NUMBER_def
        ST_FLAG_IMMUTABLE_def push_bit_eq_mult)
qed

lemma shown_bits: "bit (shown_flags f) n \<longleftrightarrow> bit f n \<and> n < 3"
proof -
  have seven: "(7 :: 32 word) = mask 3" by (simp add: mask_eq_exp_minus_1)
  have "bit (7 :: 32 word) n \<longleftrightarrow> n < 3" unfolding seven bit_mask_iff by auto
  then show ?thesis
    by (auto simp: shown_flags_def ST_FLAG_RW_def ST_FLAG_STRING_def ST_FLAG_NUMBER_def bit_and_iff)
qed

lemma shown_not_immutable [simp]: "\<not> has_flag (shown_flags f) ST_FLAG_IMMUTABLE"
  by (simp add: flag_bits shown_bits)

lemma shown_0 [simp]: "shown_flags 0 = 0"
  by (simp add: shown_flags_def)

lemma one_bit: "bit ST_FLAG_RW n \<longleftrightarrow> n = 0" "bit ST_FLAG_STRING n \<longleftrightarrow> n = 1" "bit ST_FLAG_NUMBER n \<longleftrightarrow> n = 2"
proof -
  have b: "bit (push_bit k 1 :: 32 word) n \<longleftrightarrow> n = k" if "k < 32" for k
    unfolding bit_push_bit_iff bit_1_iff using that by auto
  have "ST_FLAG_RW = push_bit 0 1" "ST_FLAG_STRING = push_bit 1 1" "ST_FLAG_NUMBER = push_bit 2 1"
    by (simp_all add: ST_FLAG_RW_def ST_FLAG_STRING_def ST_FLAG_NUMBER_def push_bit_eq_mult)
  then show "bit ST_FLAG_RW n \<longleftrightarrow> n = 0" "bit ST_FLAG_STRING n \<longleftrightarrow> n = 1" "bit ST_FLAG_NUMBER n \<longleftrightarrow> n = 2"
    using b [of 0] b [of 1] b [of 2] by simp_all
qed

lemma flags_of_words_known:
  "flags_of_words (''RW'' # fs) f = flags_of_words fs (f OR ST_FLAG_RW)"
  "flags_of_words (''STRING'' # fs) f = flags_of_words fs (f OR ST_FLAG_STRING)"
  "flags_of_words (''NUMBER'' # fs) f = flags_of_words fs (f OR ST_FLAG_NUMBER)"
  by (simp_all add: ci_simps c_tolower_def)

lemma flags_of_flag_words: "flags_of_words (flag_words f) 0 = shown_flags f"
proof -
  have "flags_of_words (flag_words f) 0 = (if bit f 0 then ST_FLAG_RW else 0) OR
      (if bit f 1 then ST_FLAG_STRING else 0) OR (if bit f 2 then ST_FLAG_NUMBER else 0)"
    by (simp add: flag_words_def flag_bits flags_of_words_known ac_simps del: flags_of_words.simps(2))
  also have "\<dots> = shown_flags f"
  proof (rule bit_word_eqI)
    fix n :: nat
    consider "n = 0" | "n = 1" | "n = 2" | "3 \<le> n" by linarith
    then show "bit ((if bit f 0 then ST_FLAG_RW else 0) OR (if bit f 1 then ST_FLAG_STRING else 0) OR
        (if bit f 2 then ST_FLAG_NUMBER else 0)) n = bit (shown_flags f) n"
      by cases (simp_all add: bit_or_iff one_bit shown_bits)
  qed
  finally show ?thesis .
qed

lemma no_flag_words: "flag_words f = [] \<longleftrightarrow> shown_flags f = 0"
proof -
  have "flag_words f = [] \<longleftrightarrow> (\<forall>n<3. \<not> bit f n)"
    by (auto simp: flag_words_def flag_bits less_Suc_eq numeral_3_eq_3 numeral_2_eq_2)
  also have "\<dots> \<longleftrightarrow> shown_flags f = 0"
  proof
    assume "\<forall>n<3. \<not> bit f n"
    then show "shown_flags f = 0" by (intro bit_word_eqI) (auto simp: shown_bits)
  next
    assume "shown_flags f = 0"
    then have "\<not> bit (shown_flags f) n" for n by simp
    then show "\<forall>n<3. \<not> bit f n" by (auto simp: shown_bits)
  qed
  finally show ?thesis .
qed

section \<open>The text of a dump\<close>

fun unescape :: "cstr \<Rightarrow> cstr" where
  "unescape [] = []"
| "unescape [c] = [c]"
| "unescape (c # c' # s) = (if c = BSLASH then c' # unescape s else c # unescape (c' # s))"

lemma unescape_cons: "c \<noteq> BSLASH \<Longrightarrow> unescape (c # s) = c # unescape s"
  by (cases s) simp_all

lemma unescape_escape [simp]: "unescape (escape s) = s"
  by (induction s) (auto simp: unescape_cons pconf_escape_def)

text \<open>An enumeration entry is stored encoded; it has to be complete to be sent back and forth.\<close>

definition enum_ok :: "cstr \<Rightarrow> bool" where
  "enum_ok e \<longleftrightarrow> escape (unescape e) = e \<and> length e < ST_MAX_VALUE_LEN"

definition node_msgs :: "st_node \<Rightarrow> dmsg list" where
  "node_msgs n =
     [SetInfo (n_var n) (n_raw n)] @ map (\<lambda>e. AddEnum (n_var n) (unescape e)) (n_enum_list n) @
     map (\<lambda>(mn, mx). AddRange (n_var n) mn mx) (n_range_list n) @
     (if n_aux n \<noteq> 0 then [SetAux (n_var n) (n_aux n)] else []) @
     (if n_flags n \<noteq> 0 then [SetFlags (n_var n) (n_flags n)] else [])"

definition node_sendable :: "st_node \<Rightarrow> bool" where
  "node_sendable n \<longleftrightarrow> lists_ok n \<and> length (escape (n_raw n)) < ST_MAX_VALUE_LEN \<and>
     list_all enum_ok (n_enum_list n) \<and> list_all msg_ok (node_msgs n)"

lemma msg_text_simps:
  "msg_text (SetInfo var val) = ''SETINFO '' @ var @ '' '' @ [QUOTE] @ escape val @ [QUOTE, NL]"
  "msg_text (AddEnum var val) = ''ADDENUM '' @ var @ '' '' @ [QUOTE] @ escape val @ [QUOTE, NL]"
  "msg_text (AddRange var mn mx) = ''ADDRANGE '' @ var @ '' '' @ show_int mn @ '' '' @ show_int mx @ [NL]"
  "msg_text (SetAux var aux) = ''SETAUX '' @ var @ '' '' @ show_int aux @ [NL]"
  "msg_text (DelInfo var) = ''DELINFO '' @ var @ [NL]"
  "msg_text (DelEnum var val) = ''DELENUM '' @ var @ '' '' @ [QUOTE] @ escape val @ [QUOTE, NL]"
  "msg_text (DelRange var mn mx) = ''DELRANGE '' @ var @ '' '' @ show_int mn @ '' '' @ show_int mx @ [NL]"
  "msg_text (AddCmd cmd) = ''ADDCMD '' @ cmd @ [NL]"
  "msg_text (DelCmd cmd) = ''DELCMD '' @ cmd @ [NL]"
  "msg_text DataOk = ''DATAOK'' @ [NL]" "msg_text DataStale = ''DATASTALE'' @ [NL]"
  "msg_text DumpDone = ''DUMPDONE'' @ [NL]"
  by (simp_all add: msg_text_def)

lemma line_text_bares:
  "line_text (Bare v # map Bare ws) = v @ concat (map (\<lambda>w. '' '' @ w) ws) @ [NL]"
  by (induction ws arbitrary: v) auto

lemma msg_text_flags:
  "msg_text (SetFlags var f) = ''SETFLAGS '' @ var @ concat (map (\<lambda>w. '' '' @ w) (flag_words f)) @ [NL]"
  using line_text_bares [of var "flag_words f"] by (simp add: msg_text_def)

lemma fold_cat_fits:
  "length buf + length (concat (map (\<lambda>w. '' '' @ w) ws)) + 2 \<le> sz \<Longrightarrow>
   fold (\<lambda>w flist. snprintfcat flist sz ('' '' @ w)) ws buf = buf @ concat (map (\<lambda>w. '' '' @ w) ws)"
  by (induction ws arbitrary: buf) (auto simp: snprintfcat_fits)

lemma flags_text:
  assumes "length (msg_text (SetFlags var f)) < ST_SOCK_BUF_LEN"
  shows "''SETFLAGS '' @ flag_list var f @ [NL] = msg_text (SetFlags var f)"
proof -
  have "length var + length (concat (map (\<lambda>w. '' '' @ w) (flag_words f))) + 2 \<le> SMALLBUF"
    using assms by (simp add: msg_text_flags ST_SOCK_BUF_LEN_def SMALLBUF_def)
  then show ?thesis
    using fold_cat_fits [of var "flag_words f" SMALLBUF]
    by (simp add: flag_list_def msg_text_flags snprintf_fits)
qed

lemma msg_ok_snprintf: "msg_ok m \<Longrightarrow> snprintf ST_SOCK_BUF_LEN (msg_text m) = msg_text m"
  by (simp add: msg_ok_def snprintf_fits)

lemma node_lines_text:
  assumes "node_wf n" "node_sendable n"
  shows "node_lines n = map msg_text (node_msgs n)"
proof -
  have "n_val n = escape (n_raw n)"
    using assms by (simp add: node_wf_def node_sendable_def pconf_encode_fits)
  moreover have "escape (unescape e) = e" if "e \<in> set (n_enum_list n)" for e
    using assms(2) that by (auto simp: node_sendable_def list_all_iff enum_ok_def)
  moreover have "n_flags n \<noteq> 0 \<Longrightarrow> ''SETFLAGS '' @ flag_list (n_var n) (n_flags n) @ [NL] =
      msg_text (SetFlags (n_var n) (n_flags n))"
    using assms(2) by (intro flags_text) (auto simp: node_sendable_def node_msgs_def msg_ok_def)
  ultimately show ?thesis
    by (auto simp: node_lines_def node_msgs_def msg_text_simps)
qed

section \<open>What the messages of one variable build\<close>

text \<open>The tree of the replica is t with the node m for the variable var.\<close>

definition built :: "replica \<Rightarrow> st_tree \<Rightarrow> cstr \<Rightarrow> st_node \<Rightarrow> bool" where
  "built r t var m \<longleftrightarrow> (\<forall>v. state_tree_find (r_tree r) v =
     (if ci_key v = ci_key var then Some m else state_tree_find t v))"

text \<open>The rest of the replica is not touched.\<close>

definition rest_same :: "replica \<Rightarrow> replica \<Rightarrow> bool" where
  "rest_same r r' \<longleftrightarrow> r_cmds r' = r_cmds r \<and> r_data_ok r' = r_data_ok r \<and> r_dumpdone r' = r_dumpdone r"

lemma rest_same_refl [simp]: "rest_same r r"
  by (simp add: rest_same_def)

lemma rest_same_trans: "rest_same a b \<Longrightarrow> rest_same b c \<Longrightarrow> rest_same a c"
  by (simp add: rest_same_def)

lemma rest_same_tree [simp]: "rest_same r (r\<lparr>r_tree := t\<rparr>)"
  by (simp add: rest_same_def)

lemma built_find: "built r t var m \<Longrightarrow> state_tree_find (r_tree r) var = Some m"
  by (simp add: built_def)

lemma built_write:
  assumes "built r t var m" "\<And>n. n_var (f n) = n_var n"
  shows "built (r\<lparr>r_tree := state_tree_write var f (r_tree r)\<rparr>) t var (f m)"
  using assms by (simp add: built_def find_write)

text \<open>Two nodes that differ only in what the next messages set.\<close>

definition node_like :: "st_node \<Rightarrow> cstr list \<Rightarrow> (int \<times> int) list \<Rightarrow> int \<Rightarrow> 32 word \<Rightarrow> cstr \<Rightarrow> bool" where
  "node_like m es rs aux f raw \<longleftrightarrow> n_enum_list m = es \<and> n_range_list m = rs \<and> n_aux m = aux \<and>
     n_flags m = f \<and> n_raw m = raw"

lemma replay_enums:
  assumes "replays (map (\<lambda>e. AddEnum var (unescape e)) es) r r'" "built r t var m"
    "node_like m es0 rs aux f raw" "distinct (es0 @ es)" "list_all enum_ok es"
  shows "\<exists>m'. built r' t var m' \<and> node_like m' (es0 @ es) rs aux f raw \<and> rest_same r r'"
  using assms
proof (induction es arbitrary: r m es0)
  case Nil
  then show ?case by auto
next
  case (Cons e es)
  obtain now where step: "replays (map (\<lambda>e. AddEnum var (unescape e)) es) (msg_fx now (AddEnum var (unescape e)) r) r'"
    using Cons.prems(1) by (auto simp: replays_Cons)
  have enc: "pconf_encode (unescape e) ST_MAX_VALUE_LEN = e"
    using Cons.prems(5) pconf_encode_fits [of "unescape e" ST_MAX_VALUE_LEN] by (simp add: enum_ok_def)
  let ?f = "\<lambda>n. (st_tree_node_refresh_timestamp now n)\<lparr>n_enum_list := es0 @ [e]\<rparr>"
  have fx: "msg_fx now (AddEnum var (unescape e)) r = r\<lparr>r_tree := state_tree_write var ?f (r_tree r)\<rparr>"
    using Cons.prems(3,4) enc built_find [OF Cons.prems(2)]
    by (simp add: state_addenum_def st_tree_enum_add_def node_like_def)
  have "built (msg_fx now (AddEnum var (unescape e)) r) t var (?f m)"
    unfolding fx by (rule built_write [OF Cons.prems(2)]) (simp add: st_tree_node_refresh_timestamp_def)
  moreover have "node_like (?f m) (es0 @ [e]) rs aux f raw"
    using Cons.prems(3) by (simp add: node_like_def st_tree_node_refresh_timestamp_def)
  ultimately show ?case
    using Cons.IH [OF step, of "?f m" "es0 @ [e]"] Cons.prems(4,5) fx rest_same_tree
    by (auto simp: rest_same_def)
qed

lemma replay_ranges:
  assumes "replays (map (\<lambda>(mn, mx). AddRange var mn mx) rs) r r'" "built r t var m"
    "node_like m es rs0 aux f raw" "ranges_ok (rs0 @ rs)"
  shows "\<exists>m'. built r' t var m' \<and> node_like m' es (rs0 @ rs) aux f raw \<and> rest_same r r'"
  using assms
proof (induction rs arbitrary: r m rs0)
  case Nil
  then show ?case by auto
next
  case (Cons a rs)
  obtain mn mx where a: "a = (mn, mx)" by fastforce
  obtain now where step: "replays (map (\<lambda>(mn, mx). AddRange var mn mx) rs) (msg_fx now (AddRange var mn mx) r) r'"
    using Cons.prems(1) by (auto simp: a replays_Cons)
  let ?f = "\<lambda>n. (st_tree_node_refresh_timestamp now n)\<lparr>n_range_list := rs0 @ [a]\<rparr>"
  have "mn \<le> mx" "\<not> list_ex (range_hit mn mx) rs0"
    using Cons.prems(4) a by (auto simp: ranges_ok_def sorted_wrt_append list_ex_iff)
  then have fx: "msg_fx now (AddRange var mn mx) r = r\<lparr>r_tree := state_tree_write var ?f (r_tree r)\<rparr>"
    using Cons.prems(3) built_find [OF Cons.prems(2)] a
    by (simp add: state_addrange_def st_tree_range_add_def node_like_def)
  have "built (msg_fx now (AddRange var mn mx) r) t var (?f m)"
    unfolding fx by (rule built_write [OF Cons.prems(2)]) (simp add: st_tree_node_refresh_timestamp_def)
  moreover have "node_like (?f m) es (rs0 @ [a]) aux f raw"
    using Cons.prems(3) by (simp add: node_like_def st_tree_node_refresh_timestamp_def)
  ultimately show ?case
    using Cons.IH [OF step, of "?f m" "rs0 @ [a]"] Cons.prems(4) fx
    by (auto simp: rest_same_def)
qed

lemma replay_aux:
  assumes "replays (if aux \<noteq> 0 then [SetAux var aux] else []) r r'" "built r t var m"
    "node_like m es rs 0 f raw" "LONG_MIN \<le> aux" "aux \<le> LONG_MAX"
  shows "\<exists>m'. built r' t var m' \<and> node_like m' es rs aux f raw \<and> rest_same r r'"
proof (cases "aux = 0")
  case False
  then obtain now where r': "r' = msg_fx now (SetAux var aux) r"
    using assms(1) by (auto simp: replays_Cons)
  let ?f = "\<lambda>n. (st_tree_node_refresh_timestamp now n)\<lparr>n_aux := aux\<rparr>"
  have fx: "r' = r\<lparr>r_tree := state_tree_write var ?f (r_tree r)\<rparr>"
    using False assms(3-5) built_find [OF assms(2)] r'
    by (simp add: state_setaux_def node_like_def strtol_show_int Let_def)
  have "built r' t var (?f m)"
    unfolding fx by (rule built_write [OF assms(2)]) (simp add: st_tree_node_refresh_timestamp_def)
  moreover have "node_like (?f m) es rs aux f raw"
    using assms(3) by (simp add: node_like_def st_tree_node_refresh_timestamp_def)
  ultimately show ?thesis using fx by auto
qed (use assms in auto)

lemma replay_flags:
  assumes "replays (if f \<noteq> 0 then [SetFlags var f] else []) r r'" "built r t var m"
    "node_like m es rs aux 0 raw"
  shows "\<exists>m'. built r' t var m' \<and> node_like m' es rs aux (shown_flags f) raw \<and> rest_same r r'"
proof (cases "shown_flags f = 0")
  case True
  then have "r' = r" using assms(1) by (auto simp: replays_Cons no_flag_words split: if_splits)
  then show ?thesis using True assms by auto
next
  case False
  then have "f \<noteq> 0" by auto
  then obtain now where r': "r' = msg_fx now (SetFlags var f) r"
    using assms(1) by (auto simp: replays_Cons)
  let ?f = "\<lambda>n. (st_tree_node_refresh_timestamp now n)\<lparr>n_flags := shown_flags f\<rparr>"
  have fx: "r' = r\<lparr>r_tree := state_tree_write var ?f (r_tree r)\<rparr>"
    using False built_find [OF assms(2)] r'
    by (simp add: state_setflags_def flags_of_flag_words no_flag_words)
  have "built r' t var (?f m)"
    unfolding fx by (rule built_write [OF assms(2)]) (simp add: st_tree_node_refresh_timestamp_def)
  moreover have "node_like (?f m) es rs aux (shown_flags f) raw"
    using assms(3) by (simp add: node_like_def st_tree_node_refresh_timestamp_def)
  ultimately show ?thesis using fx by auto
qed

text \<open>
  The variable may be there already, bare as upsd itself creates ups.status; a value that
  differs only in case would not be replaced.
\<close>

definition bare_node :: "cstr \<Rightarrow> st_node \<Rightarrow> bool" where
  "bare_node raw m \<longleftrightarrow> n_enum_list m = [] \<and> n_range_list m = [] \<and> n_aux m = 0 \<and> n_flags m = 0 \<and>
     (ci_key (n_raw m) = ci_key raw \<longrightarrow> n_raw m = raw)"

lemma replay_node:
  assumes "replays (node_msgs n) r r'" "node_sendable n"
    "\<forall>m. state_tree_find (r_tree r) (n_var n) = Some m \<longrightarrow> bare_node (n_raw n) m"
  shows "\<exists>m. built r' (r_tree r) (n_var n) m \<and> same_data n m \<and> rest_same r r'"
proof -
  let ?var = "n_var n"
  obtain now r1 r2 r3 where steps:
    "replays (map (\<lambda>e. AddEnum ?var (unescape e)) (n_enum_list n)) (msg_fx now (SetInfo ?var (n_raw n)) r) r1"
    "replays (map (\<lambda>(mn, mx). AddRange ?var mn mx) (n_range_list n)) r1 r2"
    "replays (if n_aux n \<noteq> 0 then [SetAux ?var (n_aux n)] else []) r2 r3"
    "replays (if n_flags n \<noteq> 0 then [SetFlags ?var (n_flags n)] else []) r3 r'"
    using assms(1) unfolding node_msgs_def replays_append by (auto simp: replays_Cons)
  let ?m0 = "case state_tree_find (r_tree r) ?var of
      None \<Rightarrow> new_node now ?var (n_raw n) | Some m \<Rightarrow> setinfo_node now (n_raw n) m"
  have b0: "built (msg_fx now (SetInfo ?var (n_raw n)) r) (r_tree r) ?var ?m0"
    by (simp add: built_def find_setinfo)
  have "n_raw (setinfo_node now (n_raw n) m) = n_raw n" if "bare_node (n_raw n) m" for m
    using that by (auto simp: setinfo_node_def Let_def bare_node_def ci_simps st_tree_node_refresh_timestamp_def has_flag_def)
  then have l0: "node_like ?m0 [] [] 0 0 (n_raw n)"
    using assms(3) by (auto simp: node_like_def bare_node_def split: option.split)
  have ok: "distinct (n_enum_list n)" "ranges_ok (n_range_list n)" "list_all enum_ok (n_enum_list n)"
    "LONG_MIN \<le> n_aux n" "n_aux n \<le> LONG_MAX"
    using assms(2) by (auto simp: node_sendable_def lists_ok_def node_msgs_def msg_ok_def LONG_MIN_def LONG_MAX_def split: if_splits)
  obtain m1 where m1: "built r1 (r_tree r) ?var m1" "node_like m1 (n_enum_list n) [] 0 0 (n_raw n)"
    "rest_same (msg_fx now (SetInfo ?var (n_raw n)) r) r1"
    using replay_enums [OF steps(1) b0 l0] ok by auto
  obtain m2 where m2: "built r2 (r_tree r) ?var m2" "node_like m2 (n_enum_list n) (n_range_list n) 0 0 (n_raw n)"
    "rest_same r1 r2"
    using replay_ranges [OF steps(2) m1(1,2)] ok by auto
  obtain m3 where m3: "built r3 (r_tree r) ?var m3" "node_like m3 (n_enum_list n) (n_range_list n) (n_aux n) 0 (n_raw n)"
    "rest_same r2 r3"
    using replay_aux [OF steps(3) m2(1,2)] ok by auto
  obtain m4 where m4: "built r' (r_tree r) ?var m4"
    "node_like m4 (n_enum_list n) (n_range_list n) (n_aux n) (shown_flags (n_flags n)) (n_raw n)" "rest_same r3 r'"
    using replay_flags [OF steps(4) m3(1,2)] by auto
  have "rest_same r r'"
    using m1(3) m2(3) m3(3) m4(3) by (simp add: rest_same_def)
  then show ?thesis using m4 by (auto simp: same_data_def node_like_def)
qed

end
