(* ===== verification/DumpSync.thy ===== *)
theory DumpSync
  imports ReplicaSync Delivery
begin

text \<open>
  DUMPALL from the tree of the driver to the tree of upsd: the bytes that the driver
  writes, read byte by byte by upsd, leave the two in agreement.
\<close>

section \<open>Several variables\<close>

lemma replay_nodes:
  assumes "replays (concat (map node_msgs ns)) r r'" "distinct (map vkey ns)" "list_all node_sendable ns"
    "\<And>n m. n \<in> set ns \<Longrightarrow> state_tree_find (r_tree r) (n_var n) = Some m \<Longrightarrow> bare_node (n_raw n) m"
  shows "rest_same r r' \<and>
    (\<forall>v. (\<forall>n\<in>set ns. vkey n = ci_key v \<longrightarrow> (\<exists>m. state_tree_find (r_tree r') v = Some m \<and> same_data n m)) \<and>
         (ci_key v \<notin> vkey ` set ns \<longrightarrow> state_tree_find (r_tree r') v = state_tree_find (r_tree r) v))"
  using assms
proof (induction ns arbitrary: r)
  case Nil
  then show ?case by simp
next
  case (Cons n ns)
  obtain q where q: "replays (node_msgs n) r q" "replays (concat (map node_msgs ns)) q r'"
    using Cons.prems(1) by (auto simp: replays_append)
  obtain m where m: "built q (r_tree r) (n_var n) m" "same_data n m" "rest_same r q"
    using replay_node [OF q(1)] Cons.prems(3,4) by auto
  have other: "state_tree_find (r_tree q) (n_var n') = state_tree_find (r_tree r) (n_var n')" if "n' \<in> set ns" for n'
  proof -
    have "vkey n' \<in> vkey ` set ns" using that by blast
    then have "ci_key (n_var n') \<noteq> ci_key (n_var n)" using Cons.prems(2) by (simp del: image_eqI) force
    then show ?thesis using m(1) by (simp add: built_def)
  qed
  have IH: "rest_same q r' \<and>
    (\<forall>v. (\<forall>n\<in>set ns. vkey n = ci_key v \<longrightarrow> (\<exists>m. state_tree_find (r_tree r') v = Some m \<and> same_data n m)) \<and>
         (ci_key v \<notin> vkey ` set ns \<longrightarrow> state_tree_find (r_tree r') v = state_tree_find (r_tree q) v))"
    by (rule Cons.IH [OF q(2)]) (use Cons.prems(2-4) other in auto)
  have "rest_same r r'" using m(3) IH rest_same_trans by blast
  moreover have "\<exists>m. state_tree_find (r_tree r') v = Some m \<and> same_data n' m"
    if "n' \<in> set (n # ns)" "vkey n' = ci_key v" for n' v
  proof (cases "n' \<in> set ns")
    case False
    then have n': "n' = n" using that(1) by simp
    then have "ci_key v \<notin> vkey ` set ns" using Cons.prems(2) that(2) by auto
    then show ?thesis using IH m(1,2) that(2) n' by (auto simp: built_def)
  qed (use IH that(2) in blast)
  moreover have "state_tree_find (r_tree r') v = state_tree_find (r_tree r) v" if "ci_key v \<notin> vkey ` set (n # ns)" for v
    using IH m(1) that by (auto simp: built_def)
  ultimately show ?case by blast
qed

lemma addcmd_last: "\<forall>c\<in>set cs. ci_key c < ci_key cmd \<Longrightarrow> fst (state_addcmd cs cmd) = cs @ [cmd]"
  by (induction cs) (auto simp: ci_simps split: prod.splits)

lemma replay_cmds:
  "replays (map AddCmd cs) r r' \<Longrightarrow> cmds_sorted (r_cmds r @ cs) \<Longrightarrow> r' = r\<lparr>r_cmds := r_cmds r @ cs\<rparr>"
proof (induction cs arbitrary: r)
  case (Cons c cs)
  obtain now where step: "replays (map AddCmd cs) (msg_fx now (AddCmd c) r) r'"
    using Cons.prems(1) by (auto simp: replays_Cons)
  have "\<forall>x\<in>set (r_cmds r). ci_key x < ci_key c"
    using Cons.prems(2) by (auto simp: cmds_sorted_def sorted_wrt_append)
  then have fx: "msg_fx now (AddCmd c) r = r\<lparr>r_cmds := r_cmds r @ [c]\<rparr>" by (simp add: addcmd_last)
  have "r' = (r\<lparr>r_cmds := r_cmds r @ [c]\<rparr>)\<lparr>r_cmds := r_cmds (r\<lparr>r_cmds := r_cmds r @ [c]\<rparr>) @ cs\<rparr>"
    by (rule Cons.IH [OF step [unfolded fx]]) (use Cons.prems(2) in simp)
  then show ?case by simp
qed simp

section \<open>The whole dump\<close>

definition drv_sendable :: "drv \<Rightarrow> bool" where
  "drv_sendable d \<longleftrightarrow> (\<forall>n\<in>set_tree (d_dtree_root d). node_sendable n) \<and>
     (\<forall>c\<in>set (d_cmdhead d). msg_ok (AddCmd c))"

definition dump_msgs :: "drv \<Rightarrow> dmsg list" where
  "dump_msgs d =
     (if d_stale d then [DataStale] else []) @ concat (map node_msgs (inorder (d_dtree_root d))) @
     map AddCmd (d_cmdhead d) @ (if \<not> d_stale d then [DataOk] else []) @ [DumpDone]"

lemma dump_lines_text:
  assumes "drv_inv d" "drv_sendable d"
  shows "dumpall_lines d = map msg_text (dump_msgs d)"
proof -
  have "node_lines n = map msg_text (node_msgs n)" if "n \<in> set (inorder (d_dtree_root d))" for n
    using assms that by (auto simp: drv_inv_def tree_wf_def drv_sendable_def set_inorder intro: node_lines_text)
  then have "map node_lines (inorder (d_dtree_root d)) = map (map msg_text \<circ> node_msgs) (inorder (d_dtree_root d))"
    by (intro map_cong refl) simp
  then have "tree_lines (d_dtree_root d) = map msg_text (concat (map node_msgs (inorder (d_dtree_root d))))"
    by (simp only: tree_lines_def map_concat map_map)
  then show ?thesis
    by (simp add: dumpall_lines_def dump_msgs_def msg_text_simps comp_def)
qed

lemma dump_msgs_ok:
  assumes "drv_sendable d"
  shows "\<forall>m\<in>set (dump_msgs d). msg_ok m"
proof -
  have "msg_ok DataStale" "msg_ok DataOk" "msg_ok DumpDone"
    by (simp_all add: msg_ok_def item_ok_def bare_char_def word_char_def isspace_def pconf_escape_def
        msg_text_def ST_SOCK_BUF_LEN_def PCONF_DEFAULT_WORDLEN_LIMIT_def)
  then show ?thesis
    using assms by (auto simp: dump_msgs_def drv_sendable_def node_sendable_def list_all_iff set_inorder)
qed

text \<open>
  A replica that is fresh for a driver: no command yet, and only variables that the driver
  has too, bare as sstate_connect() leaves them.
\<close>

definition fresh_for :: "drv \<Rightarrow> replica \<Rightarrow> bool" where
  "fresh_for d r \<longleftrightarrow> r_cmds r = [] \<and>
     (\<forall>v m. state_tree_find (r_tree r) v = Some m \<longrightarrow>
        (\<exists>n. state_tree_find (d_dtree_root d) v = Some n \<and> bare_node (n_raw n) m))"

lemma replays_wf: "replays ms r r' \<Longrightarrow> tree_wf (r_tree r) \<Longrightarrow> tree_wf (r_tree r')"
proof (induction rule: replays.induct)
  case (more ms now m r r')
  have "tree_wf (r_tree (msg_fx now m r))"
    using more.prems by (cases m) (auto intro: tree_step_wf tree_step.intros)
  then show ?case using more.IH by blast
qed

lemma dump_agrees:
  assumes "replays (dump_msgs d) r r'" "drv_inv d" "drv_sendable d" "fresh_for d r" "tree_wf (r_tree r)"
  shows "agree d r' \<and> r_dumpdone r'"
proof -
  let ?ns = "inorder (d_dtree_root d)"
  have wf: "tree_wf (d_dtree_root d)" "st_bst (d_dtree_root d)" "cmds_sorted (d_cmdhead d)"
    using assms(2) by (simp_all add: drv_inv_def tree_wf_def)
  obtain r1 r2 r3 r4 where steps: "replays (if d_stale d then [DataStale] else []) r r1"
    "replays (concat (map node_msgs ?ns)) r1 r2" "replays (map AddCmd (d_cmdhead d)) r2 r3"
    "replays (if \<not> d_stale d then [DataOk] else []) r3 r4" "replays [DumpDone] r4 r'"
    using assms(1) unfolding dump_msgs_def replays_append by blast
  have r1: "r_tree r1 = r_tree r" "r_cmds r1 = []" "d_stale d \<longrightarrow> \<not> r_data_ok r1"
    using steps(1) assms(4) by (auto simp: replays_Cons fresh_for_def split: if_splits)
  have keys: "sorted_wrt (<) (map vkey ?ns)" by (rule inorder_keys [OF wf(2)])
  then have "distinct (map vkey ?ns)" by (simp add: strict_sorted_iff)
  moreover have "list_all node_sendable ?ns"
    using assms(3) by (simp add: drv_sendable_def list_all_iff set_inorder)
  moreover have "bare_node (n_raw n) m" if "n \<in> set ?ns" "state_tree_find (r_tree r1) (n_var n) = Some m" for n m
  proof -
    have "state_tree_find (d_dtree_root d) (n_var n) = Some n"
      using find_iff [OF wf(2), of "n_var n" n] that(1) by (simp add: set_inorder)
    then show ?thesis using assms(4) that(2) r1(1) by (force simp: fresh_for_def)
  qed
  ultimately have nodes: "rest_same r1 r2"
    "\<And>v n. n \<in> set ?ns \<Longrightarrow> vkey n = ci_key v \<Longrightarrow> \<exists>m. state_tree_find (r_tree r2) v = Some m \<and> same_data n m"
    "\<And>v. ci_key v \<notin> vkey ` set ?ns \<Longrightarrow> state_tree_find (r_tree r2) v = state_tree_find (r_tree r1) v"
    using replay_nodes [OF steps(2)] by blast+
  have tree: "rel_option same_data (state_tree_find (d_dtree_root d) v) (state_tree_find (r_tree r2) v)" for v
  proof (cases "state_tree_find (d_dtree_root d) v")
    case None
    then have "ci_key v \<notin> vkey ` set ?ns" using find_None_iff [OF wf(2), of v] by (auto simp: set_inorder)
    moreover have "state_tree_find (r_tree r) v = None"
    proof (rule ccontr)
      assume "state_tree_find (r_tree r) v \<noteq> None"
      then obtain m where "state_tree_find (r_tree r) v = Some m" by blast
      then obtain n where "state_tree_find (d_dtree_root d) v = Some n"
        using assms(4) unfolding fresh_for_def by blast
      then show False using None by simp
    qed
    ultimately show ?thesis using nodes(3) r1(1) None by simp
  next
    case (Some n)
    then have "n \<in> set ?ns" "vkey n = ci_key v" using find_iff [OF wf(2), of v n] by (simp_all add: set_inorder)
    then show ?thesis using nodes(2) Some by fastforce
  qed
  have r3: "r3 = r2\<lparr>r_cmds := d_cmdhead d\<rparr>"
    using replay_cmds [OF steps(3)] nodes(1) r1(2) wf(3) by (simp add: rest_same_def)
  have r4: "r_tree r4 = r_tree r2" "r_cmds r4 = d_cmdhead d" "r_data_ok r4 = (\<not> d_stale d)"
    using steps(4) r3 nodes(1) r1(3) by (auto simp: replays_Cons rest_same_def split: if_splits)
  moreover have "r' = r4\<lparr>r_dumpdone := True\<rparr>" using steps(5) by (auto simp: replays_Cons)
  ultimately show ?thesis
    using tree replays_wf [OF assms(1,5)] by (simp add: agree_def tree_agree_def)
qed

text \<open>The lines a driver wrote to a descriptor between two of its states.\<close>

definition wrote :: "int \<Rightarrow> drv \<Rightarrow> drv \<Rightarrow> cstr" where
  "wrote fd d d' = concat (map snd (filter (\<lambda>w. fst w = fd) (drop (length (d_wire d)) (d_wire d'))))"

lemma wrote_posted: "wrote fd d (posted ms d) = concat (map snd (filter (\<lambda>w. fst w = fd) ms))"
  by (simp add: wrote_def)

lemma told_to_wrote:
  assumes "deref a d = Inr k"
  shows "wrote (k_fd k) d (told_to a msgs d) = concat (map (snprintf ST_SOCK_BUF_LEN) msgs)"
  using assms by (simp add: told_to_def wrote_posted filter_map comp_def)

lemma dumpall_syncs:
  assumes "dwrites DE" "drv_inv d" "deref a d = Inr k" "drv_sendable d" "sock_arg DE V a [''DUMPALL''] d = Inr (d', ret)"
    "i < length (sd_firstups S)" "driver_ctx (u_sock_ctx (the_ups S i))" "tree_wf (u_inforoot (the_ups S i))"
    "fresh_for d (upsd_replica (the_ups S i))"
    "S' = sstate_read_loop E i S (wrote (k_fd k) d d')"
  shows "agree d' (upsd_replica (the_ups S' i)) \<and> u_dumpdone (the_ups S' i)"
proof -
  have a: "a \<in> set (addrs d)" using deref_Inr [OF assms(3)] by auto
  have d': "d' = told_to a (dumpall_lines d) d"
    using dumpall_posted [OF assms(1) a, of V] assms(5) by simp
  have ok: "\<forall>m\<in>set (dump_msgs d). msg_ok m" by (rule dump_msgs_ok [OF assms(4)])
  have "wrote (k_fd k) d d' = concat (map msg_text (dump_msgs d))"
    using ok by (simp add: d' told_to_wrote [OF assms(3)] dump_lines_text [OF assms(2,4)] msg_ok_snprintf
        comp_def cong: map_cong)
  then have "replays (dump_msgs d) (upsd_replica (the_ups S i)) (upsd_replica (the_ups S' i))"
    using read_msgs [OF assms(6,7) ok] assms(10) by simp
  moreover have "agree d' r = agree d r" for r by (simp add: d' told_to_def agree_def)
  moreover have "tree_wf (r_tree (upsd_replica (the_ups S i)))"
    using assms(8) by (simp add: upsd_replica_def)
  ultimately have "agree d (upsd_replica (the_ups S' i)) \<and> r_dumpdone (upsd_replica (the_ups S' i))"
    using dump_agrees [OF _ assms(2,4,9)] by blast
  then show ?thesis
    by (simp add: \<open>\<And>r. agree d' r = agree d r\<close>) (simp add: upsd_replica_def)
qed

end
