(* ===== verification/BcastSync.thy ===== *)
theory BcastSync
  imports DumpSync
begin

unbundle bit_operations_syntax

text \<open>
  The broadcasts of a driver keep the copy of upsd in agreement: every operation of the
  dstate interface is simulated by the messages that it sends to the listeners.
\<close>

section \<open>Trees that agree\<close>

lemma agree_at:
  assumes "tree_agree t u"
  shows "(state_tree_find t v = None \<and> state_tree_find u v = None) \<or>
    (\<exists>n m. state_tree_find t v = Some n \<and> state_tree_find u v = Some m \<and> same_data n m)"
proof -
  have "rel_option same_data (state_tree_find t v) (state_tree_find u v)"
    using assms by (simp add: tree_agree_def)
  then show ?thesis by (cases rule: option.rel_cases) auto
qed

lemma setinfo_ret:
  "snd (state_setinfo now t var val) = (case state_tree_find t var of None \<Rightarrow> 1
     | Some n \<Rightarrow> if ci_key (n_raw n) = ci_key val \<or> has_flag (n_flags n) ST_FLAG_IMMUTABLE then 0 else 1)"
proof (induction t)
  case (Node l x r)
  then show ?case
    by (auto simp: state_setinfo_node ci_simps simp del: state_setinfo.simps)
qed simp

lemma same_refresh [simp]:
  "same_data (st_tree_node_refresh_timestamp now n) m = same_data n m"
  by (simp add: same_data_def st_tree_node_refresh_timestamp_def)

lemma same_new [simp]: "same_data (new_node now var val) (new_node now' var val)"
  by (simp add: same_data_def)

lemma same_not_immutable: "same_data n m \<Longrightarrow> \<not> has_flag (n_flags m) ST_FLAG_IMMUTABLE"
  by (simp add: same_data_def)

lemma setinfo_node_cases:
  "setinfo_node now val n =
     (if ci_key (n_raw n) = ci_key val \<or> has_flag (n_flags n) ST_FLAG_IMMUTABLE
      then st_tree_node_refresh_timestamp now n
      else val_escape (st_tree_node_refresh_timestamp now n
        \<lparr>n_rawsize := max (n_rawsize n) (length val + 1), n_raw := val\<rparr>))"
  by (simp add: setinfo_node_def Let_def ci_simps st_tree_node_refresh_timestamp_def)

lemma agree_setinfo:
  assumes "tree_agree t u" "snd (state_setinfo now t var val) = 1"
  shows "tree_agree (fst (state_setinfo now t var val)) (fst (state_setinfo now' u var val))"
  unfolding tree_agree_def
proof
  fix v
  show "rel_option same_data (state_tree_find (fst (state_setinfo now t var val)) v)
      (state_tree_find (fst (state_setinfo now' u var val)) v)"
    using agree_at [OF assms(1), of v] agree_at [OF assms(1), of var] assms(2)
    by (auto simp: find_setinfo setinfo_ret setinfo_node_cases same_data_def st_tree_node_refresh_timestamp_def
        split: if_splits)
qed

lemma agree_setinfo_silent:
  assumes "tree_agree t u" "snd (state_setinfo now t var val) \<noteq> 1"
  shows "tree_agree (fst (state_setinfo now t var val)) u"
  unfolding tree_agree_def
proof
  fix v
  show "rel_option same_data (state_tree_find (fst (state_setinfo now t var val)) v) (state_tree_find u v)"
    using agree_at [OF assms(1), of v] agree_at [OF assms(1), of var] assms(2) find_cong_key [of v var u]
    by (auto simp: find_setinfo setinfo_ret setinfo_node_cases split: if_splits)
qed

lemma agree_write:
  assumes "tree_agree t u" "\<And>n. n_var (f n) = n_var n" "\<And>n. n_var (g n) = n_var n"
    "\<And>n m. state_tree_find t var = Some n \<Longrightarrow> state_tree_find u var = Some m \<Longrightarrow> same_data n m \<Longrightarrow>
       same_data (f n) (g m)"
  shows "tree_agree (state_tree_write var f t) (state_tree_write var g u)"
  unfolding tree_agree_def
proof
  fix v
  show "rel_option same_data (state_tree_find (state_tree_write var f t) v)
      (state_tree_find (state_tree_write var g u) v)"
  proof (cases "ci_key v = ci_key var")
    case True
    have "state_tree_find t v = state_tree_find t var" "state_tree_find u v = state_tree_find u var"
      using find_cong_key [OF True] by auto
    then show ?thesis
      using agree_at [OF assms(1), of var] assms(4) True by (auto simp: find_write assms(2,3))
  next
    case False
    then show ?thesis using assms(1) by (simp add: find_write assms(2,3) tree_agree_def)
  qed
qed

lemma agree_write_silent:
  assumes "tree_agree t u" "\<And>n. n_var (f n) = n_var n"
    "\<And>n m. state_tree_find t var = Some n \<Longrightarrow> state_tree_find u var = Some m \<Longrightarrow> same_data n m \<Longrightarrow>
       same_data (f n) m"
  shows "tree_agree (state_tree_write var f t) u"
  using agree_write [OF assms(1,2), of "\<lambda>m. m" var] assms(3) by simp

lemma agree_delinfo:
  assumes "tree_agree t u" "st_bst t" "st_bst u" "snd (state_delinfo t var) = 1"
  shows "tree_agree (fst (state_delinfo t var)) (fst (state_delinfo u var))"
  unfolding tree_agree_def
proof
  fix v
  show "rel_option same_data (state_tree_find (fst (state_delinfo t var)) v)
      (state_tree_find (fst (state_delinfo u var)) v)"
    using agree_at [OF assms(1), of v] agree_at [OF assms(1), of var] assms(4) find_cong_key [of v var t]
    by (auto simp: find_delinfo assms(2,3) delinfo_ret deletable_def dest: same_not_immutable split: if_splits)
qed

lemma delinfo_silent: "snd (state_delinfo t var) \<noteq> 1 \<Longrightarrow> fst (state_delinfo t var) = t"
proof (induction t)
  case (Node l x r)
  then show ?case by (auto split: prod.splits if_splits)
qed simp

section \<open>Simulation\<close>

text \<open>
  The driver went from d to d' by telling its listeners ms, and a copy that agreed with d
  and takes ms agrees with d'.
\<close>

definition relays :: "dmsg list \<Rightarrow> drv \<Rightarrow> drv \<Rightarrow> bool" where
  "relays ms d d' \<longleftrightarrow> drv_inv d' \<and> d_connhead d' = d_connhead d \<and>
     d_wire d' = d_wire d @ concat (map (\<lambda>m. map (\<lambda>fd. (fd, msg_text m)) (listeners d)) ms) \<and>
     list_all msg_ok ms \<and> (\<forall>r r'. agree d r \<longrightarrow> replays ms r r' \<longrightarrow> agree d' r')"

lemma relays_append:
  assumes "relays a d d1" "relays b d1 d2"
  shows "relays (a @ b) d d2"
proof -
  have "listeners d1 = listeners d" using assms(1) by (simp add: relays_def listeners_def)
  then show ?thesis using assms by (auto simp: relays_def replays_append)
qed

lemma relays_silent:
  assumes "drv_inv d'" "d_connhead d' = d_connhead d" "d_wire d' = d_wire d" "\<And>r. agree d r \<Longrightarrow> agree d' r"
  shows "relays [] d d'"
  using assms by (simp add: relays_def)

lemma relays_refl: "drv_inv d \<Longrightarrow> relays [] d d"
  by (rule relays_silent) simp_all

lemma agree_shouted [simp]: "agree (shouted msg d) r = agree d r"
  by (simp add: agree_def)

lemma msg_fx_wf: "tree_wf (r_tree r) \<Longrightarrow> tree_wf (r_tree (msg_fx now m r))"
  using replays_wf [of "[m]" r "msg_fx now m r"] by (simp add: replays.intros)

lemma relays_shout:
  assumes "drv_inv d'" "d_connhead d' = d_connhead d" "d_wire d' = d_wire d" "msg_ok m"
    "\<And>r now. agree d r \<Longrightarrow> agree d' (msg_fx now m r)"
  shows "relays [m] d (shouted (msg_text m) d')"
proof -
  have "drv_inv (shouted (msg_text m) d')"
    using assms(1) by (simp add: shouted_def posted_def)
  then show ?thesis
    using assms msg_ok_snprintf [OF assms(4)]
    by (auto simp: relays_def shouted_def listeners_def replays_Cons)
       (auto simp: agree_def)
qed

lemma text_not_Nil: "msg_text m \<noteq> []"
  by (cases m) (simp_all add: msg_text_def)

lemma send_text:
  assumes "dwrites E" "drv_inv d"
  shows "send_to_all E (msg_text m) d = Inr (shouted (msg_text m) d)"
  using send_to_all_posted [OF assms(1) _ text_not_Nil] assms(2) by (simp add: drv_inv_def)

section \<open>Values that need no quoting\<close>

text \<open>
  dstate_setinfo() and dstate_addenum() put the value between quotes as it is; a value
  with a quote, a backslash or a byte that the parser drops does not arrive.
\<close>

definition plain :: "cstr \<Rightarrow> bool" where
  "plain s \<longleftrightarrow> list_all (\<lambda>c. \<not> pconf_escape c) s \<and> length s < ST_MAX_VALUE_LEN"

lemma escape_plain: "list_all (\<lambda>c. \<not> pconf_escape c) s \<Longrightarrow> escape s = s"
  by (induction s) auto

lemma plain_facts:
  assumes "plain s"
  shows "escape s = s" "snprintf ST_MAX_VALUE_LEN s = s"
  using assms by (simp_all add: plain_def escape_plain snprintf_fits)

section \<open>The operations\<close>

datatype dop =
    Op_setinfo cstr cstr | Op_addenum cstr cstr | Op_setflags cstr "32 word" | Op_addflags cstr "32 word"
  | Op_delflags cstr "32 word" | Op_addrange cstr int int | Op_setaux cstr int | Op_addcmd cstr
  | Op_delinfo cstr | Op_olderthan cstr "int option" | Op_delenum cstr cstr | Op_delrange cstr int int
  | Op_delcmd cstr | Op_dataok | Op_datastale

definition only_state :: "fault + (drv \<times> int) \<Rightarrow> fault + drv" where
  "only_state r = and_then r (\<lambda>(d, ret). Inr d)"

fun run_op :: "denv \<Rightarrow> dop \<Rightarrow> drv \<Rightarrow> fault + drv" where
  "run_op E (Op_setinfo var val) d = only_state (dstate_setinfo E var val d)"
| "run_op E (Op_addenum var val) d = only_state (dstate_addenum E var val d)"
| "run_op E (Op_setflags var f) d = dstate_setflags E var f d"
| "run_op E (Op_addflags var f) d = dstate_addflags E var f d"
| "run_op E (Op_delflags var f) d = dstate_delflags E var f d"
| "run_op E (Op_addrange var mn mx) d = only_state (dstate_addrange E var mn mx d)"
| "run_op E (Op_setaux var aux) d = dstate_setaux E var aux d"
| "run_op E (Op_addcmd cmd) d = dstate_addcmd E cmd d"
| "run_op E (Op_delinfo var) d = only_state (dstate_delinfo E var d)"
| "run_op E (Op_olderthan var cutoff) d = only_state (dstate_delinfo_olderthan E var cutoff d)"
| "run_op E (Op_delenum var val) d = only_state (dstate_delenum E var val d)"
| "run_op E (Op_delrange var mn mx) d = only_state (dstate_delrange E var mn mx d)"
| "run_op E (Op_delcmd cmd) d = only_state (dstate_delcmd E cmd d)"
| "run_op E Op_dataok d = dstate_dataok E d"
| "run_op E Op_datastale d = dstate_datastale E d"

fun run_ops :: "denv \<Rightarrow> dop list \<Rightarrow> drv \<Rightarrow> fault + drv" where
  "run_ops E [] d = Inr d"
| "run_ops E (op # ops) d = and_then (run_op E op d) (run_ops E ops)"

text \<open>
  Operations whose message arrives as it was meant: the line fits the buffers and a value
  has no quote, backslash or #.
\<close>

definition flag_name :: "cstr \<Rightarrow> bool" where
  "flag_name var \<longleftrightarrow> (\<forall>f. msg_ok (SetFlags var f))"

fun plain_op :: "dop \<Rightarrow> bool" where
  "plain_op (Op_setinfo var val) \<longleftrightarrow> msg_ok (SetInfo var val) \<and> plain val"
| "plain_op (Op_addenum var val) \<longleftrightarrow> msg_ok (AddEnum var val) \<and> plain val"
| "plain_op (Op_setflags var f) \<longleftrightarrow> msg_ok (SetFlags var f)"
| "plain_op (Op_addflags var f) \<longleftrightarrow> flag_name var"
| "plain_op (Op_delflags var f) \<longleftrightarrow> flag_name var"
| "plain_op (Op_addrange var mn mx) \<longleftrightarrow> msg_ok (AddRange var mn mx) \<and> flag_name var"
| "plain_op (Op_setaux var aux) \<longleftrightarrow> msg_ok (SetAux var aux)"
| "plain_op (Op_addcmd cmd) \<longleftrightarrow> msg_ok (AddCmd cmd)"
| "plain_op (Op_delinfo var) \<longleftrightarrow> msg_ok (DelInfo var)"
| "plain_op (Op_olderthan var cutoff) \<longleftrightarrow> msg_ok (DelInfo var)"
| "plain_op (Op_delenum var val) \<longleftrightarrow> msg_ok (DelEnum var val) \<and> plain val"
| "plain_op (Op_delrange var mn mx) \<longleftrightarrow> msg_ok (DelRange var mn mx)"
| "plain_op (Op_delcmd cmd) \<longleftrightarrow> msg_ok (DelCmd cmd)"
| "plain_op Op_dataok \<longleftrightarrow> True"
| "plain_op Op_datastale \<longleftrightarrow> True"

text \<open>
  upsd refuses a SETFLAGS line without a flag, so the last of the flags RW, STRING and NUMBER
  must not be taken from a variable: keeps_flag says of a change to the flags f that this does
  not happen in the state d, and ops_keep that it never happens during a sequence.
\<close>

definition keeps_flag :: "cstr \<Rightarrow> 32 word \<Rightarrow> drv \<Rightarrow> bool" where
  "keeps_flag var f d \<longleftrightarrow> shown_flags f \<noteq> 0 \<or>
     (case state_tree_find (d_dtree_root d) var of None \<Rightarrow> True | Some n \<Rightarrow> shown_flags (n_flags n) = 0)"

fun op_keeps :: "dop \<Rightarrow> drv \<Rightarrow> bool" where
  "op_keeps (Op_setflags var f) d \<longleftrightarrow> keeps_flag var f d"
| "op_keeps (Op_delflags var f) d \<longleftrightarrow> keeps_flag var (state_getflags (d_dtree_root d) var AND NOT f) d"
| "op_keeps op d \<longleftrightarrow> True"

fun ops_keep :: "denv \<Rightarrow> dop list \<Rightarrow> drv \<Rightarrow> bool" where
  "ops_keep E [] d \<longleftrightarrow> True"
| "ops_keep E (op # ops) d \<longleftrightarrow> op_keeps op d \<and>
     (case run_op E op d of Inl e \<Rightarrow> True | Inr d' \<Rightarrow> ops_keep E ops d')"

definition simulated :: "drv \<Rightarrow> fault + drv \<Rightarrow> bool" where
  "simulated d r \<longleftrightarrow> (\<exists>d' ms. r = Inr d' \<and> relays ms d d')"

lemma simulated_silent:
  "drv_inv d' \<Longrightarrow> d_connhead d' = d_connhead d \<Longrightarrow> d_wire d' = d_wire d \<Longrightarrow>
   (\<And>r. agree d r \<Longrightarrow> agree d' r) \<Longrightarrow> simulated d (Inr d')"
  unfolding simulated_def by (intro exI conjI) (rule refl, rule relays_silent)

lemma simulated_shout:
  assumes "dwrites E" "drv_inv d'" "d_connhead d' = d_connhead d" "d_wire d' = d_wire d" "msg_ok m"
    "\<And>r now. agree d r \<Longrightarrow> agree d' (msg_fx now m r)"
  shows "simulated d (send_to_all E (msg_text m) d')"
  using relays_shout [OF assms(2-6)] send_text [OF assms(1,2)] by (auto simp: simulated_def)

lemma simulated_then:
  assumes "simulated d a" "\<And>d1. a = Inr d1 \<Longrightarrow> drv_inv d1 \<Longrightarrow> simulated d1 (f d1)"
  shows "simulated d (and_then a f)"
proof -
  obtain d1 ms where d1: "a = Inr d1" "relays ms d d1" using assms(1) by (auto simp: simulated_def)
  then obtain d2 ns where "f d1 = Inr d2" "relays ns d1 d2"
    using assms(2) by (auto simp: simulated_def relays_def)
  then show ?thesis using d1 relays_append [OF d1(2)] by (simp add: simulated_def) blast
qed

section \<open>Each operation is simulated\<close>

lemma simulated_told:
  assumes "dwrites E" "drv_inv d" "msg_ok m"
    "\<And>now. tree_wf (fst (f now (d_dtree_root d)))"
    "\<And>now now' r. agree d r \<Longrightarrow> snd (f now (d_dtree_root d)) = 1 \<Longrightarrow>
       agree (d\<lparr>d_dtree_root := fst (f now (d_dtree_root d))\<rparr>) (msg_fx now' m r)"
    "\<And>now r. agree d r \<Longrightarrow> snd (f now (d_dtree_root d)) \<noteq> 1 \<Longrightarrow>
       agree (d\<lparr>d_dtree_root := fst (f now (d_dtree_root d))\<rparr>) r"
  shows "simulated d (only_state (told E (msg_text m) (on_root E f d)))"
proof -
  define now where "now = snd (dmono E d)"
  define d1 where "d1 = d\<lparr>d_tick := Suc (d_tick d), d_dtree_root := fst (f now (d_dtree_root d))\<rparr>"
  have root: "on_root E f d = (d1, snd (f now (d_dtree_root d)))"
    by (simp add: on_root_def dmono_def now_def d1_def split: prod.split)
  have d1: "drv_inv d1" "d_connhead d1 = d_connhead d" "d_wire d1 = d_wire d"
    "agree d1 r = agree (d\<lparr>d_dtree_root := fst (f now (d_dtree_root d))\<rparr>) r" for r
    using assms(2) assms(4) [of now] by (simp_all add: d1_def drv_inv_def agree_def)
  show ?thesis
  proof (cases "snd (f now (d_dtree_root d)) = 1")
    case True
    have "simulated d (send_to_all E (msg_text m) d1)"
      by (rule simulated_shout [OF assms(1) d1(1-3) assms(3)]) (simp add: d1(4) assms(5) True)
    then have "simulated d (and_then (and_then (send_to_all E (msg_text m) d1) (\<lambda>d. Inr (d, 1))) (\<lambda>(d, ret). Inr d))"
      by (auto simp: simulated_def)
    then show ?thesis using True by (simp add: only_state_def told_def root)
  next
    case False
    have "simulated d (Inr d1)"
      by (rule simulated_silent [OF d1(1-3)]) (simp add: d1(4) assms(6) False)
    then show ?thesis using False by (simp add: only_state_def told_def root)
  qed
qed

lemma agree_parts:
  "agree d r \<Longrightarrow> tree_agree (d_dtree_root d) (r_tree r)" "agree d r \<Longrightarrow> tree_wf (r_tree r)"
  by (simp_all add: agree_def)

lemma agree_root:
  "agree d r \<Longrightarrow> tree_agree t u \<Longrightarrow> tree_wf u \<Longrightarrow> agree (d\<lparr>d_dtree_root := t\<rparr>) (r\<lparr>r_tree := u\<rparr>)"
  by (simp add: agree_def)

lemma agree_root_only:
  "agree d r \<Longrightarrow> tree_agree t (r_tree r) \<Longrightarrow> agree (d\<lparr>d_dtree_root := t\<rparr>) r"
  by (simp add: agree_def)

lemma setinfo_simulated:
  assumes "dwrites E" "drv_inv d" "plain_op (Op_setinfo var val)"
  shows "simulated d (run_op E (Op_setinfo var val) d)"
proof -
  have val: "escape val = val" "snprintf ST_MAX_VALUE_LEN val = val" "msg_ok (SetInfo var val)"
    using assms(3) plain_facts by auto
  have eq: "dstate_setinfo E var val d = told E (msg_text (SetInfo var val)) (on_root E (\<lambda>now t. state_setinfo now t var val) d)"
    by (simp add: dstate_setinfo_def setinfo_via_def told_def on_root_def msg_text_simps val Let_def split: prod.split)
  show ?thesis
    unfolding run_op.simps eq
  proof (rule simulated_told [OF assms(1,2) val(3)])
    fix now now' r
    assume r: "agree d r" and 1: "snd (state_setinfo now (d_dtree_root d) var val) = 1"
    show "agree (d\<lparr>d_dtree_root := fst (state_setinfo now (d_dtree_root d) var val)\<rparr>) (msg_fx now' (SetInfo var val) r)"
      unfolding msg_fx.simps
      by (rule agree_root [OF r agree_setinfo [OF agree_parts(1) [OF r] 1] setinfo_wf [OF agree_parts(2) [OF r]]])
  next
    fix now r
    assume r: "agree d r" and 0: "snd (state_setinfo now (d_dtree_root d) var val) \<noteq> 1"
    show "agree (d\<lparr>d_dtree_root := fst (state_setinfo now (d_dtree_root d) var val)\<rparr>) r"
      by (rule agree_root_only [OF r agree_setinfo_silent [OF agree_parts(1) [OF r] 0]])
  qed (simp add: setinfo_wf inv_parts(1) [OF assms(2)])
qed

lemma write_simulated:
  assumes "dwrites E" "drv_inv d" "msg_ok m" "\<And>n. n_var (f n) = n_var n" "\<And>n. node_wf n \<Longrightarrow> node_wf (f n)"
    "\<And>now r n. agree d r \<Longrightarrow> state_tree_find (d_dtree_root d) var = Some n \<Longrightarrow>
       agree (d\<lparr>d_dtree_root := state_tree_write var f (d_dtree_root d)\<rparr>) (msg_fx now m r)"
    "state_tree_find (d_dtree_root d) var = Some n"
  shows "simulated d (send_to_all E (msg_text m) (d\<lparr>d_dtree_root := state_tree_write var f (d_dtree_root d)\<rparr>))"
  by (rule simulated_shout [OF assms(1)])
    (use assms in \<open>auto intro!: inv_root write_wf inv_parts(1)\<close>)

text \<open>The operations that rewrite the list of one node: f gives its new list and the result.\<close>

definition list_op :: "(st_node \<Rightarrow> 'a \<times> int) \<Rightarrow> ('a \<Rightarrow> st_node \<Rightarrow> st_node) \<Rightarrow> int \<Rightarrow> st_tree \<Rightarrow> cstr \<Rightarrow> st_tree \<times> int" where
  "list_op f upd now t var = (case state_tree_find t var of None \<Rightarrow> (t, 0)
     | Some node \<Rightarrow> (state_tree_write var (\<lambda>n. upd (fst (f node)) (st_tree_node_refresh_timestamp now n)) t, snd (f node)))"

abbreviation enums :: "cstr list \<Rightarrow> st_node \<Rightarrow> st_node" where
  "enums es n \<equiv> n\<lparr>n_enum_list := es\<rparr>"

abbreviation ranges :: "(int \<times> int) list \<Rightarrow> st_node \<Rightarrow> st_node" where
  "ranges rs n \<equiv> n\<lparr>n_range_list := rs\<rparr>"

lemma list_ops:
  "state_addenum now t var val =
     list_op (\<lambda>n. st_tree_enum_add (n_enum_list n) (pconf_encode val ST_MAX_VALUE_LEN)) enums now t var"
  "state_delenum now t var val = list_op (\<lambda>n. st_tree_del_enum (n_enum_list n) val) enums now t var"
  "mn \<le> mx \<Longrightarrow> state_addrange now t var mn mx = list_op (\<lambda>n. st_tree_range_add (n_range_list n) mn mx) ranges now t var"
  "state_delrange now t var mn mx = list_op (\<lambda>n. st_tree_del_range (n_range_list n) mn mx) ranges now t var"
  by (simp_all add: state_addenum_def state_delenum_def state_addrange_def state_delrange_def list_op_def
      split: option.split prod.split)

definition list_field :: "(st_node \<Rightarrow> 'a \<times> int) \<Rightarrow> ('a \<Rightarrow> st_node \<Rightarrow> st_node) \<Rightarrow> bool" where
  "list_field f upd \<longleftrightarrow>
     (\<forall>x n. n_var (upd x n) = n_var n) \<and>
     (\<forall>x n m now now'. same_data n m \<longrightarrow> same_data (upd x (st_tree_node_refresh_timestamp now n))
        (upd x (st_tree_node_refresh_timestamp now' m))) \<and>
     (\<forall>n m. same_data n m \<longrightarrow> f n = f m) \<and>
     (\<forall>n m now. same_data n m \<longrightarrow> snd (f m) \<noteq> 1 \<longrightarrow> same_data (upd (fst (f m)) (st_tree_node_refresh_timestamp now n)) m)"

lemma refresh_var [simp]: "n_var (st_tree_node_refresh_timestamp now n) = n_var n"
  by (simp add: st_tree_node_refresh_timestamp_def)

lemma agree_list_op:
  assumes "tree_agree t u" "list_field f upd"
  shows "snd (list_op f upd now t var) = 1 \<Longrightarrow> tree_agree (fst (list_op f upd now t var)) (fst (list_op f upd now' u var))"
    "snd (list_op f upd now t var) \<noteq> 1 \<Longrightarrow> tree_agree (fst (list_op f upd now t var)) u"
proof -
  have upd: "n_var (upd x n) = n_var n" for x n using assms(2) by (simp add: list_field_def)
  assume 1: "snd (list_op f upd now t var) = 1"
  show "tree_agree (fst (list_op f upd now t var)) (fst (list_op f upd now' u var))"
  proof (cases "state_tree_find t var")
    case None
    then show ?thesis using 1 by (simp add: list_op_def)
  next
    case (Some n)
    then obtain m where m: "state_tree_find u var = Some m" "same_data n m"
      using agree_at [OF assms(1), of var] by auto
    have fm: "f m = f n" using m(2) assms(2) by (simp add: list_field_def)
    have "tree_agree (state_tree_write var (\<lambda>k. upd (fst (f n)) (st_tree_node_refresh_timestamp now k)) t)
        (state_tree_write var (\<lambda>k. upd (fst (f n)) (st_tree_node_refresh_timestamp now' k)) u)"
      by (rule agree_write [OF assms(1)]) (use assms(2) upd in \<open>simp_all add: list_field_def\<close>)
    then show ?thesis using Some m(1) fm by (simp add: list_op_def)
  qed
next
  have upd: "n_var (upd x n) = n_var n" for x n using assms(2) by (simp add: list_field_def)
  assume 0: "snd (list_op f upd now t var) \<noteq> 1"
  show "tree_agree (fst (list_op f upd now t var)) u"
  proof (cases "state_tree_find t var")
    case None
    then show ?thesis using assms(1) by (simp add: list_op_def)
  next
    case (Some n)
    have "tree_agree (state_tree_write var (\<lambda>k. upd (fst (f n)) (st_tree_node_refresh_timestamp now k)) t) u"
      by (rule agree_write_silent [OF assms(1)])
        (use assms(2) upd Some 0 in \<open>simp_all add: list_field_def list_op_def\<close>)
    then show ?thesis using Some by (simp add: list_op_def)
  qed
qed

lemma del_enum_silent: "snd (st_tree_del_enum es val) \<noteq> 1 \<Longrightarrow> fst (st_tree_del_enum es val) = es"
  by (induction es) (auto split: prod.splits if_splits)

lemma del_range_silent: "snd (st_tree_del_range rs mn mx) \<noteq> 1 \<Longrightarrow> fst (st_tree_del_range rs mn mx) = rs"
  by (induction rs) (auto split: prod.splits if_splits)

lemma list_fields:
  "list_field (\<lambda>n. st_tree_enum_add (n_enum_list n) e) enums"
  "list_field (\<lambda>n. st_tree_del_enum (n_enum_list n) val) enums"
  "list_field (\<lambda>n. st_tree_range_add (n_range_list n) mn mx) ranges"
  "list_field (\<lambda>n. st_tree_del_range (n_range_list n) mn mx) ranges"
  using del_enum_silent del_range_silent
  by (auto simp: list_field_def same_data_def st_tree_node_refresh_timestamp_def st_tree_enum_add_def
      st_tree_range_add_def split: if_splits)

lemma list_op_simulated:
  assumes "dwrites E" "drv_inv d" "msg_ok m" "list_field f upd"
    "\<And>now t. tree_wf t \<Longrightarrow> tree_wf (fst (list_op f upd now t var))"
    "\<And>now r. msg_fx now m r = r\<lparr>r_tree := fst (list_op f upd now (r_tree r) var)\<rparr>"
  shows "simulated d (only_state (told E (msg_text m) (on_root E (\<lambda>now t. list_op f upd now t var) d)))"
proof (rule simulated_told [OF assms(1-3)])
  fix now now' r
  assume r: "agree d r" and 1: "snd (list_op f upd now (d_dtree_root d) var) = 1"
  show "agree (d\<lparr>d_dtree_root := fst (list_op f upd now (d_dtree_root d) var)\<rparr>) (msg_fx now' m r)"
    unfolding assms(6)
    by (rule agree_root [OF r agree_list_op(1) [OF agree_parts(1) [OF r] assms(4) 1] assms(5) [OF agree_parts(2) [OF r]]])
next
  fix now r
  assume r: "agree d r" and 0: "snd (list_op f upd now (d_dtree_root d) var) \<noteq> 1"
  show "agree (d\<lparr>d_dtree_root := fst (list_op f upd now (d_dtree_root d) var)\<rparr>) r"
    by (rule agree_root_only [OF r agree_list_op(2) [OF agree_parts(1) [OF r] assms(4) 0]])
qed (rule assms(5) [OF inv_parts(1) [OF assms(2)]])

lemma lists_simulated:
  assumes "dwrites E" "drv_inv d"
  shows "plain_op (Op_addenum var val) \<Longrightarrow> simulated d (run_op E (Op_addenum var val) d)"
    "plain_op (Op_delenum var val) \<Longrightarrow> simulated d (run_op E (Op_delenum var val) d)"
    "plain_op (Op_delrange var mn mx) \<Longrightarrow> simulated d (run_op E (Op_delrange var mn mx) d)"
proof -
  note wf = inv_parts(1) [OF assms(2)]
  { assume ok: "plain_op (Op_addenum var val)"
    have eq: "run_op E (Op_addenum var val) d =
      only_state (told E (msg_text (AddEnum var val)) (on_root E (\<lambda>now t. state_addenum now t var val) d))"
      using ok plain_facts by (simp add: dstate_addenum_def msg_text_simps Let_def)
    show "simulated d (run_op E (Op_addenum var val) d)"
      unfolding eq list_ops
      by (rule list_op_simulated [OF assms _ list_fields(1)])
        (use ok wf in \<open>simp_all add: list_ops(1) [symmetric] tree_steps_wf\<close>) }
  { assume ok: "plain_op (Op_delenum var val)"
    have eq: "run_op E (Op_delenum var val) d =
      only_state (told E (msg_text (DelEnum var val)) (on_root E (\<lambda>now t. state_delenum now t var val) d))"
      using ok plain_facts by (simp add: dstate_delenum_def msg_text_simps)
    show "simulated d (run_op E (Op_delenum var val) d)"
      unfolding eq list_ops
      by (rule list_op_simulated [OF assms _ list_fields(2)])
        (use ok wf in \<open>simp_all add: list_ops(2) [symmetric] tree_steps_wf\<close>) }
  { assume ok: "plain_op (Op_delrange var mn mx)"
    have eq: "run_op E (Op_delrange var mn mx) d =
      only_state (told E (msg_text (DelRange var mn mx)) (on_root E (\<lambda>now t. state_delrange now t var mn mx) d))"
      by (simp add: dstate_delrange_def msg_text_simps)
    show "simulated d (run_op E (Op_delrange var mn mx) d)"
      unfolding eq list_ops
      by (rule list_op_simulated [OF assms _ list_fields(4)])
        (use ok wf in \<open>simp_all add: list_ops(4) [symmetric] tree_steps_wf\<close>) }
qed

lemma flags_simulated:
  assumes "dwrites E" "drv_inv d" "msg_ok (SetFlags var f)"
    "\<And>n. state_tree_find (d_dtree_root d) var = Some n \<Longrightarrow> shown_flags f = 0 \<Longrightarrow> shown_flags (n_flags n) = 0"
  shows "simulated d (dstate_setflags E var f d)"
proof -
  have same: "simulated d (Inr d)" by (rule simulated_silent [OF assms(2)]) simp_all
  have line: "''SETFLAGS '' @ flag_list var f @ [NL] = msg_text (SetFlags var f)"
    using assms(3) by (intro flags_text) (simp add: msg_ok_def)
  have "simulated d (send_to_all E (msg_text (SetFlags var f))
      (d\<lparr>d_dtree_root := state_tree_write var (\<lambda>n. n\<lparr>n_flags := f\<rparr>) (d_dtree_root d)\<rparr>))"
    if n: "state_tree_find (d_dtree_root d) var = Some n" for n
  proof (rule write_simulated [OF assms(1-3)])
    fix now r
    assume r: "agree d r"
    then have t: "tree_agree (d_dtree_root d) (r_tree r)" by (rule agree_parts)
    obtain m where m: "state_tree_find (r_tree r) var = Some m" "same_data n m"
      using agree_at [OF t, of var] n by auto
    have "tree_agree (state_tree_write var (\<lambda>n. n\<lparr>n_flags := f\<rparr>) (d_dtree_root d)) (r_tree (msg_fx now (SetFlags var f) r))"
    proof (cases "shown_flags f = 0")
      case True
      then show ?thesis
        using assms(4) [OF n] n t by (auto simp: no_flag_words same_data_def intro!: agree_write_silent)
    next
      case False
      then show ?thesis
        using m t by (auto simp: no_flag_words state_setflags_def flags_of_flag_words same_data_def
            st_tree_node_refresh_timestamp_def intro!: agree_write)
    qed
    moreover have "msg_fx now (SetFlags var f) r = r\<lparr>r_tree := r_tree (msg_fx now (SetFlags var f) r)\<rparr>" by simp
    ultimately show "agree (d\<lparr>d_dtree_root := state_tree_write var (\<lambda>n. n\<lparr>n_flags := f\<rparr>) (d_dtree_root d)\<rparr>) (msg_fx now (SetFlags var f) r)"
      using agree_root [OF r _ msg_fx_wf [OF agree_parts(2) [OF r]]] by metis
  qed (simp_all add: n node_wf_def)
  then show ?thesis
    unfolding dstate_setflags_def line using same by (simp split: option.split)
qed

lemma shown_or: "shown_flags (a OR b) = shown_flags a OR shown_flags b"
  by (simp add: shown_flags_def bit.conj_disj_distrib2)



lemma or_eq_0: "a OR b = 0 \<Longrightarrow> b = (0 :: 32 word)"
proof (rule bit_word_eqI)
  fix n assume z: "a OR b = 0"
  have "\<not> bit (a OR b) n" using z by simp
  then show "bit b n = bit 0 n" by (simp add: bit_or_iff)
qed

lemma some_flags_simulated:
  assumes "dwrites E" "drv_inv d"
  shows "plain_op (Op_setflags var f) \<Longrightarrow> op_keeps (Op_setflags var f) d \<Longrightarrow> simulated d (run_op E (Op_setflags var f) d)"
    "plain_op (Op_addflags var f) \<Longrightarrow> simulated d (run_op E (Op_addflags var f) d)"
    "plain_op (Op_delflags var f) \<Longrightarrow> op_keeps (Op_delflags var f) d \<Longrightarrow> simulated d (run_op E (Op_delflags var f) d)"
proof -
  have same: "simulated d (Inr d)" by (rule simulated_silent [OF assms(2)]) simp_all
  have set_it: "simulated d (dstate_setflags E var g d)" if "msg_ok (SetFlags var g)" "keeps_flag var g d" for g
    using that by (intro flags_simulated [OF assms]) (auto simp: keeps_flag_def)
  show "plain_op (Op_setflags var f) \<Longrightarrow> op_keeps (Op_setflags var f) d \<Longrightarrow> simulated d (run_op E (Op_setflags var f) d)"
    by (auto intro: set_it)
  { assume ok: "plain_op (Op_addflags var f)"
    have "keeps_flag var (state_getflags (d_dtree_root d) var OR f) d"
      using or_eq_0 [of "shown_flags f"]
      by (auto simp: keeps_flag_def shown_or state_getflags_def or.commute split: option.split)
    then show "simulated d (run_op E (Op_addflags var f) d)"
      using same ok set_it by (simp add: dstate_addflags_def Let_def flag_name_def) }
  { assume ok: "plain_op (Op_delflags var f)" "op_keeps (Op_delflags var f) d"
    then show "simulated d (run_op E (Op_delflags var f) d)"
      using same set_it by (simp add: dstate_delflags_def Let_def flag_name_def) }
qed

lemma range_simulated:
  assumes "dwrites E" "drv_inv d" "plain_op (Op_addrange var mn mx)"
  shows "simulated d (run_op E (Op_addrange var mn mx) d)"
proof (cases "mn \<le> mx")
  case True
  note wf = inv_parts(1) [OF assms(2)]
  let ?m = "AddRange var mn mx"
  let ?a = "on_root E (\<lambda>now t. state_addrange now t var mn mx) d"
  have step: "simulated d (only_state (told E (msg_text ?m) ?a))"
    unfolding list_ops(3) [OF True]
    by (rule list_op_simulated [OF assms(1,2) _ list_fields(3)])
      (use assms(3) wf True in \<open>simp_all add: list_ops(3) [symmetric] tree_steps_wf\<close>)

  obtain d1 ret where a: "?a = (d1, ret)" by fastforce
  show ?thesis
  proof (cases "ret = 1")
    case True
    have "simulated d (send_to_all E (msg_text ?m) d1)"
      using step True unfolding a told_def only_state_def
      by (cases "send_to_all E (msg_text ?m) d1") (auto simp: simulated_def)
    then have "simulated d (and_then (send_to_all E (msg_text ?m) d1) (dstate_addflags E var ST_FLAG_NUMBER))"
      using simulated_then some_flags_simulated(2) [OF assms(1)] assms(3) by simp
    moreover have "run_op E (Op_addrange var mn mx) d =
        and_then (send_to_all E (msg_text ?m) d1) (dstate_addflags E var ST_FLAG_NUMBER)"
      using True unfolding run_op.simps dstate_addrange_def a only_state_def msg_text_simps
      by (cases "send_to_all E (''ADDRANGE '' @ var @ '' '' @ show_int mn @ '' '' @ show_int mx @ [NL]) d1")
        (auto simp: and_then_def split: sum.split)
    ultimately show ?thesis by simp
  next
    case False
    then show ?thesis
      using step unfolding run_op.simps dstate_addrange_def a told_def by simp
  qed
next
  case False
  have "simulated d (Inr (d\<lparr>d_tick := Suc (d_tick d)\<rparr>))"
    by (rule simulated_silent) (use assms(2) in \<open>simp_all add: agree_def\<close>)
  then show ?thesis
    using False by (simp add: dstate_addrange_def on_root_def dmono_def state_addrange_def only_state_def)
qed

lemma aux_simulated:
  assumes "dwrites E" "drv_inv d" "plain_op (Op_setaux var aux)"
  shows "simulated d (run_op E (Op_setaux var aux) d)"
proof -
  have same: "simulated d (Inr d)" by (rule simulated_silent [OF assms(2)]) simp_all
  have ok: "msg_ok (SetAux var aux)" "LONG_MIN \<le> aux" "aux \<le> LONG_MAX"
    using assms(3) by (simp_all add: msg_ok_def)
  have "simulated d (send_to_all E (msg_text (SetAux var aux))
      (d\<lparr>d_dtree_root := state_tree_write var (\<lambda>n. n\<lparr>n_aux := aux\<rparr>) (d_dtree_root d)\<rparr>))"
    if n: "state_tree_find (d_dtree_root d) var = Some n" "n_aux n \<noteq> aux" for n
  proof (rule write_simulated [OF assms(1,2) ok(1)])
    fix now r
    assume r: "agree d r"
    then have t: "tree_agree (d_dtree_root d) (r_tree r)" by (rule agree_parts)
    obtain m where m: "state_tree_find (r_tree r) var = Some m" "same_data n m"
      using agree_at [OF t, of var] n by auto
    then have "tree_agree (state_tree_write var (\<lambda>n. n\<lparr>n_aux := aux\<rparr>) (d_dtree_root d)) (r_tree (msg_fx now (SetAux var aux) r))"
      using n t ok(2,3) by (auto simp: state_setaux_def strtol_show_int Let_def same_data_def
          st_tree_node_refresh_timestamp_def intro!: agree_write)
    moreover have "msg_fx now (SetAux var aux) r = r\<lparr>r_tree := r_tree (msg_fx now (SetAux var aux) r)\<rparr>" by simp
    ultimately show "agree (d\<lparr>d_dtree_root := state_tree_write var (\<lambda>n. n\<lparr>n_aux := aux\<rparr>) (d_dtree_root d)\<rparr>) (msg_fx now (SetAux var aux) r)"
      using agree_root [OF r _ msg_fx_wf [OF agree_parts(2) [OF r]]] by metis
  qed (simp_all add: n node_wf_def)
  then show ?thesis
    unfolding run_op.simps dstate_setaux_def using same by (simp add: msg_text_simps split: option.split)
qed

lemma delinfo_told:
  assumes "dwrites E" "drv_inv d" "msg_ok (DelInfo var)"
  shows "simulated d (only_state (told E (msg_text (DelInfo var))
    (d\<lparr>d_dtree_root := fst (state_delinfo (d_dtree_root d) var)\<rparr>, snd (state_delinfo (d_dtree_root d) var))))"
proof -
  note wf = inv_parts(1) [OF assms(2)]
  let ?t = "fst (state_delinfo (d_dtree_root d) var)" and ?ret = "snd (state_delinfo (d_dtree_root d) var)"
  show ?thesis
  proof (cases "?ret = 1")
    case True
    have "simulated d (send_to_all E (msg_text (DelInfo var)) (d\<lparr>d_dtree_root := ?t\<rparr>))"
    proof (rule simulated_shout [OF assms(1) _ _ _ assms(3)])
      fix r now
      assume r: "agree d r"
      have "st_bst (d_dtree_root d)" "st_bst (r_tree r)"
        using wf agree_parts(2) [OF r] by (simp_all add: tree_wf_def)
      then show "agree (d\<lparr>d_dtree_root := ?t\<rparr>) (msg_fx now (DelInfo var) r)"
        unfolding msg_fx.simps
        by (intro agree_root r agree_delinfo agree_parts(1) True delinfo_wf agree_parts(2) [OF r])
    qed (simp_all add: inv_root assms(2) delinfo_wf wf)
    then show ?thesis
      using True by (cases "send_to_all E (msg_text (DelInfo var)) (d\<lparr>d_dtree_root := ?t\<rparr>)")
        (auto simp: simulated_def told_def only_state_def)
  next
    case False
    then show ?thesis
      using simulated_silent [OF assms(2)] delinfo_silent [OF False] by (simp add: told_def only_state_def)
  qed
qed

lemma delinfo_simulated:
  assumes "dwrites E" "drv_inv d"
  shows "plain_op (Op_delinfo var) \<Longrightarrow> simulated d (run_op E (Op_delinfo var) d)"
    "plain_op (Op_olderthan var cutoff) \<Longrightarrow> simulated d (run_op E (Op_olderthan var cutoff) d)"
proof -
  have same: "simulated d (Inr d)" by (rule simulated_silent [OF assms(2)]) simp_all
  { assume ok: "plain_op (Op_delinfo var)"
    then show "simulated d (run_op E (Op_delinfo var) d)"
      using delinfo_told [OF assms] by (simp add: dstate_delinfo_def msg_text_simps split_beta) }
  { assume ok: "plain_op (Op_olderthan var cutoff)"
    then show "simulated d (run_op E (Op_olderthan var cutoff) d)"
      using delinfo_told [OF assms, of var] same
      by (auto simp: dstate_delinfo_olderthan_def delinfo_olderthan_cases msg_text_simps split_beta told_def [of E m "(d, 0)" for m]
          only_state_def [of "Inr x" for x] split: option.splits) }
qed

lemma cmd_silent:
  "snd (state_addcmd cs c) \<noteq> 1 \<Longrightarrow> fst (state_addcmd cs c) = cs"
  "snd (state_delcmd cs c) \<noteq> 1 \<Longrightarrow> fst (state_delcmd cs c) = cs"
  by (induction cs) (auto split: prod.splits if_splits)

lemma told_cmds_simulated:
  assumes "dwrites E" "drv_inv d" "msg_ok m" "cmds_sorted cs"
    "\<And>r now. agree d r \<Longrightarrow> agree (d\<lparr>d_cmdhead := cs\<rparr>) (msg_fx now m r)" "ret \<noteq> 1 \<Longrightarrow> cs = d_cmdhead d"
  shows "simulated d (only_state (told E (msg_text m) (d\<lparr>d_cmdhead := cs\<rparr>, ret)))"
proof (cases "ret = 1")
  case True
  have "simulated d (send_to_all E (msg_text m) (d\<lparr>d_cmdhead := cs\<rparr>))"
    by (rule simulated_shout [OF assms(1) _ _ _ assms(3)]) (use drv_inv_cmds [OF assms(2,4)] assms(5) in simp_all)
  then show ?thesis
    using True by (cases "send_to_all E (msg_text m) (d\<lparr>d_cmdhead := cs\<rparr>)")
      (auto simp: simulated_def told_def only_state_def)
next
  case False
  then show ?thesis using assms(2,6) simulated_silent [OF assms(2)] by (simp add: told_def only_state_def)
qed

lemma cmds_simulated:
  assumes "dwrites E" "drv_inv d"
  shows "plain_op (Op_addcmd cmd) \<Longrightarrow> simulated d (run_op E (Op_addcmd cmd) d)"
    "plain_op (Op_delcmd cmd) \<Longrightarrow> simulated d (run_op E (Op_delcmd cmd) d)"
proof -
  have sorted: "cmds_sorted (d_cmdhead d)" using inv_parts(2) [OF assms(2)] .
  { assume ok: "plain_op (Op_addcmd cmd)"
    have "simulated d (only_state (told E (msg_text (AddCmd cmd))
        (d\<lparr>d_cmdhead := fst (state_addcmd (d_cmdhead d) cmd)\<rparr>, snd (state_addcmd (d_cmdhead d) cmd))))"
      by (rule told_cmds_simulated [OF assms])
        (use ok cmd_silent(1) in \<open>auto simp: addcmd_sorted sorted agree_def\<close>)
    then show "simulated d (run_op E (Op_addcmd cmd) d)"
      by (simp add: dstate_addcmd_def only_state_def msg_text_simps split_beta) }
  { assume ok: "plain_op (Op_delcmd cmd)"
    have "simulated d (only_state (told E (msg_text (DelCmd cmd))
        (d\<lparr>d_cmdhead := fst (state_delcmd (d_cmdhead d) cmd)\<rparr>, snd (state_delcmd (d_cmdhead d) cmd))))"
      by (rule told_cmds_simulated [OF assms])
        (use ok cmd_silent(2) in \<open>auto simp: delcmd_sorted sorted agree_def\<close>)
    then show "simulated d (run_op E (Op_delcmd cmd) d)"
      by (simp add: dstate_delcmd_def only_state_def msg_text_simps split_beta) }
qed

lemma stale_msgs_ok: "msg_ok DataStale" "msg_ok DataOk" "msg_ok DumpDone"
  by (simp_all add: msg_ok_def item_ok_def bare_char_def word_char_def isspace_def pconf_escape_def
      msg_text_def ST_SOCK_BUF_LEN_def PCONF_DEFAULT_WORDLEN_LIMIT_def)

lemma stale_simulated:
  assumes "dwrites E" "drv_inv d"
  shows "simulated d (run_op E Op_dataok d)" "simulated d (run_op E Op_datastale d)"
proof -
  have same: "simulated d (Inr d)" by (rule simulated_silent [OF assms(2)]) simp_all
  have ok: "simulated d (send_to_all E (msg_text DataOk) (d\<lparr>d_stale := False\<rparr>))"
    by (rule simulated_shout [OF assms(1) _ _ _ stale_msgs_ok(2)]) (use assms(2) in \<open>simp_all add: agree_def\<close>)
  have stale: "simulated d (send_to_all E (msg_text DataStale) (d\<lparr>d_stale := True\<rparr>))"
    by (rule simulated_shout [OF assms(1) _ _ _ stale_msgs_ok(1)]) (use assms(2) in \<open>simp_all add: agree_def\<close>)
  show "simulated d (run_op E Op_dataok d)" "simulated d (run_op E Op_datastale d)"
    using same ok stale by (simp_all add: dstate_dataok_def dstate_datastale_def msg_text_simps)
qed

lemma op_simulated:
  assumes "dwrites E" "drv_inv d" "plain_op op" "op_keeps op d"
  shows "simulated d (run_op E op d)"
proof (cases op)
  case (Op_setflags var f)
  then show ?thesis using some_flags_simulated(1) [OF assms(1,2)] assms(3,4) by metis
next
  case (Op_addflags var f)
  then show ?thesis using some_flags_simulated(2) [OF assms(1,2)] assms(3) by metis
next
  case (Op_delflags var f)
  then show ?thesis using some_flags_simulated(3) [OF assms(1,2)] assms(3,4) by metis
qed (use assms in \<open>simp_all del: run_op.simps plain_op.simps add: setinfo_simulated lists_simulated
      range_simulated aux_simulated cmds_simulated delinfo_simulated stale_simulated\<close>)

lemma ops_simulated:
  "dwrites E \<Longrightarrow> drv_inv d \<Longrightarrow> list_all plain_op ops \<Longrightarrow> ops_keep E ops d \<Longrightarrow> simulated d (run_ops E ops d)"
proof (induction ops arbitrary: d)
  case (Cons op ops)
  then show ?case by (auto intro: simulated_then op_simulated)
qed (simp add: simulated_silent)

text \<open>Operations that keep a flag whatever the state.\<close>

fun flagged_op :: "dop \<Rightarrow> bool" where
  "flagged_op (Op_setflags var f) \<longleftrightarrow> shown_flags f \<noteq> 0"
| "flagged_op (Op_delflags var f) \<longleftrightarrow> False"
| "flagged_op op \<longleftrightarrow> True"

lemma flagged_keeps: "flagged_op op \<Longrightarrow> op_keeps op d"
  by (cases op) (auto simp: keeps_flag_def)

lemma flagged_ops_keep: "list_all flagged_op ops \<Longrightarrow> ops_keep E ops d"
  by (induction ops arbitrary: d) (auto simp: flagged_keeps split: sum.split)

section \<open>upsd listens\<close>

lemma relays_wrote:
  assumes "relays ms d d'" "count_list (listeners d) fd = 1"
  shows "wrote fd d d' = concat (map msg_text ms)"
proof -
  have one: "concat (map snd (filter (\<lambda>w. fst w = fd) (map (\<lambda>fd. (fd, t)) fds))) =
      concat (replicate (count_list fds fd) t)" for t :: cstr and fds
    by (induction fds) auto
  have "concat (map snd (filter (\<lambda>w. fst w = fd) (concat (map (\<lambda>m. map (\<lambda>fd. (fd, msg_text m)) (listeners d)) ms)))) =
      concat (map msg_text ms)"
    by (induction ms) (simp_all add: one assms(2))
  then show ?thesis using assms(1) by (simp add: wrote_def relays_def)
qed

text \<open>The theorem behind the whole design: what upsd shows follows what the driver does.\<close>

lemma broadcasts_sync:
  assumes "dwrites DE" "drv_inv d" "list_all plain_op ops" "ops_keep DE ops d" "count_list (listeners d) fd = 1"
    "i < length (sd_firstups S)" "driver_ctx (u_sock_ctx (the_ups S i))" "agree d (upsd_replica (the_ups S i))"
  shows "\<exists>d'. run_ops DE ops d = Inr d' \<and>
    agree d' (upsd_replica (the_ups (sstate_read_loop E i S (wrote fd d d')) i))"
proof -
  obtain d' ms where d': "run_ops DE ops d = Inr d'" "relays ms d d'"
    using ops_simulated [OF assms(1-4)] by (auto simp: simulated_def)
  have "\<forall>m\<in>set ms. msg_ok m" using d'(2) by (simp add: relays_def list_all_iff)
  then have "replays ms (upsd_replica (the_ups S i)) (upsd_replica (the_ups (sstate_read_loop E i S (wrote fd d d')) i))"
    using read_msgs [OF assms(6,7)] relays_wrote [OF d'(2) assms(5)] by simp
  then show ?thesis using d' assms(8) unfolding relays_def by blast
qed

end
