(* ===== verification/DummyFacts.thy ===== *)
theory DummyFacts
  imports DummyUps BcastSync
begin

unbundle bit_operations_syntax

text \<open>
  dummy-ups as a device of the driver core: its handlers meet the contract of the locale
  device_code, so the reader loop of the core is safe with them; and what SET does to the
  variables of the device.
\<close>

section \<open>The contract\<close>

lemma flags_aux_good:
  assumes "drv_inv d"
  shows "good (dwrites E) (\<lambda>x. x) d (and_then (dstate_setflags E v f d) (\<lambda>d. dstate_setaux E v n d))"
    "good (dwrites E) (\<lambda>x. x) d (and_then (dstate_setflags E v f d) (\<lambda>d. if b then dstate_setaux E v n d else Inr d))"
  by (rule good_then [OF dstate_setflags_good [OF assms]], rule dstate_void_good, assumption)
    (rule good_then [OF dstate_setflags_good [OF assms]], intro good_if dstate_void_good; simp)

lemma all_valid: "is_valid_data var" "is_valid_value var val"
  by (simp_all add: is_valid_data_def is_valid_value_def split: option.split)

lemma dummy_setvar_good:
  assumes "drv_inv d"
  shows "good (dwrites E) fst d (dummy_setvar E var val d)"
proof -
  have commit: "good (dwrites E) (\<lambda>x. x) d (status_commit E (status_set val (status_init d)))"
  proof -
    have 1: "drv_inv (status_init d)" "fewer (dwrites E) d (status_init d)"
      using status_pure_good(1) [OF assms] by auto
    have 2: "drv_inv (status_set val (status_init d))" "fewer (dwrites E) (status_init d) (status_set val (status_init d))"
      using status_pure_good(2) [OF 1(1)] by auto
    show ?thesis by (rule good_from [OF commits_good(1) [OF 2(1)] fewer_trans [OF 1(2) 2(2)]])
  qed
  have put: "good (dwrites E) (\<lambda>x. x) d (and_then (dstate_put E var val d) (\<lambda>d.
      case find_info var of
        Some i \<Rightarrow> and_then (dstate_setflags E (info_type i) (info_flags i) d) (\<lambda>d.
            if has_flag (info_flags i) ST_FLAG_STRING then dstate_setaux E (info_type i) (info_len i) d else Inr d)
      | None \<Rightarrow> and_then (dstate_setflags E var (ST_FLAG_STRING OR ST_FLAG_RW) d) (\<lambda>d. dstate_setaux E var 32 d)))"
    by (rule good_then [OF dstate_put_good [OF assms]]) (auto intro: flags_aux_good split: option.split)
  have del: "good (dwrites E) (\<lambda>x. x) d (and_then (dstate_delinfo E var d) (\<lambda>(d, ret). Inr d))"
    by (intro good_drop dstate_ret_good(4) assms)
  show ?thesis
    unfolding dummy_setvar_def eqTrueI [OF all_valid(1)] eqTrueI [OF all_valid(2)] not_True_eq_False if_False
    by (intro good_if good_pair commit put del)
qed

lemma dummy_shutdown_good: "drv_inv d \<Longrightarrow> good alive (\<lambda>x. x) d (dummy_shutdown d)"
  by (simp add: dummy_shutdown_def)

interpretation dummy_code: device_code E "dummy_device E Inr" for E
proof
  show "good (dwrites E) fst d (f var val d)"
    if "v_setvar (dummy_device E Inr) = Some f" "drv_inv d" for f d var val
    using that dummy_setvar_good by (auto simp: dummy_device_def)
qed (auto simp: dummy_device_def dummy_instcmd_def dummy_shutdown_good)

section \<open>Loading the definition file\<close>

lemma fold_status_keeps: "drv_inv d \<Longrightarrow> drv_inv (fold status_set ws d) \<and> fewer alive d (fold status_set ws d)"
proof (induction ws arbitrary: d)
  case (Cons w ws)
  have 1: "drv_inv (status_set w d) \<and> fewer alive d (status_set w d)"
    by (rule status_pure_good(2) [OF Cons.prems])
  then show ?case using Cons.IH [of "status_set w d"] fewer_trans [of alive] by auto
qed simp

lemma data_line_good:
  assumes "drv_inv d"
  shows "good (dwrites E) snd d (data_line E arg (buf, d))"
proof -
  note pure = status_pure_good [OF assms]
  have status: "good (dwrites E) snd d (and_then (status_commit E (fold status_set ws (status_init d))) (\<lambda>d. Inr (b, d)))" for ws b
  proof -
    have keep: "drv_inv (fold status_set ws (status_init d)) \<and>
        fewer (dwrites E) (status_init d) (fold status_set ws (status_init d))"
      using fold_status_keeps [of "status_init d" ws "dwrites E"] pure(1) by blast
    then have "fewer (dwrites E) d (fold status_set ws (status_init d))"
      using pure(1) fewer_trans by blast
    then have "good (dwrites E) (\<lambda>x. x) d (status_commit E (fold status_set ws (status_init d)))"
      using good_from [OF commits_good(1)] keep by blast
    then show ?thesis by (rule good_then) simp
  qed
  have setvar: "good (dwrites E) snd d (and_then (dummy_setvar E name v d) (\<lambda>(d, ret). Inr (b, d)))" for name v b
    by (rule good_then [OF dummy_setvar_good [OF assms]]) auto
  show ?thesis
    unfolding data_line_def using assms pure status setvar
    by (auto simp: Let_def split: option.split list.split)
qed

lemma data_loop_good:
  "drv_inv d \<Longrightarrow> good (dwrites E) (\<lambda>(c, d, u). d) d (data_loop E ctx buf d)"
proof (induction E ctx buf d rule: data_loop.induct)
  case (1 E ctx buf d)
  show ?case
  proof (cases "pconf_file_next ctx")
    case (Pair ctx1 more)
    show ?thesis
    proof (cases more)
      case False
      then show ?thesis using Pair 1(3) by (simp add: data_loop.simps [of E ctx])
    next
      case True
      obtain ctx2 bad where err: "pconf_parse_error ctx1 = (ctx2, bad)" by fastforce
      show ?thesis
      proof (cases bad)
        case bad: True
        have "good (dwrites E) (\<lambda>(c, d, u). d) d (data_loop E ctx2 buf d)"
          by (rule 1(1) [OF Pair [symmetric] _ err [symmetric]]) (use Pair err True bad 1(3) in simp_all)
        then show ?thesis using Pair err True bad by (simp add: data_loop.simps [of E ctx])
      next
        case bad: False
        show ?thesis
        proof (cases "pconf_args ctx2 \<noteq> [] \<and> strneq (pconf_args ctx2 ! 0) ''TIMER'' 5")
          case timer: True
          then show ?thesis using Pair err True bad 1(3) by (simp add: data_loop.simps [of E ctx])
        next
          case line: False
          have unfold: "data_loop E ctx buf d = and_then (data_line E (pconf_args ctx2) (buf, d)) (\<lambda>(v, d). data_loop E ctx2 v d)"
            using Pair err True bad line
            by (auto simp: data_loop.simps [of E ctx] and_then_def split: sum.split)
          show ?thesis
            unfolding unfold
          proof (rule good_then [OF data_line_good [OF 1(3)]])
            fix x
            assume x: "data_line E (pconf_args ctx2) (buf, d) = Inr x" "drv_inv (snd x)"
            have "good (dwrites E) (\<lambda>(c, d, u). d) (snd x) (data_loop E ctx2 (fst x) (snd x))"
              by (rule 1(2) [OF Pair [symmetric] _ err [symmetric]]) (use True bad line x in simp_all)
            then show "good (dwrites E) (\<lambda>(c, d, u). d) (snd x) (case x of (v, d) \<Rightarrow> data_loop E ctx2 v d)"
              by (simp add: split_beta)
          qed
        qed
      qed
    qed
  qed
qed

lemma parse_data_file_good:
  assumes "drv_inv d"
  shows "good (dwrites E) (\<lambda>(y, d, r). d) d (parse_data_file E y d)"
proof -
  let ?d = "d\<lparr>d_tick := Suc (d_tick d)\<rparr>"
  have d: "drv_inv ?d" using assms by simp
  have fresh: "good (dwrites E) snd d (Inr (ctx, alarm_init (status_init (?d\<lparr>d_tick := n\<rparr>))))" for ctx :: pconf_ctx and n
  proof -
    have 1: "drv_inv (status_init (?d\<lparr>d_tick := n\<rparr>)) \<and> fewer (dwrites E) (?d\<lparr>d_tick := n\<rparr>) (status_init (?d\<lparr>d_tick := n\<rparr>))"
      by (rule status_pure_good(1)) (use d in simp)
    have 2: "drv_inv (alarm_init (status_init (?d\<lparr>d_tick := n\<rparr>))) \<and>
        fewer (dwrites E) (status_init (?d\<lparr>d_tick := n\<rparr>)) (alarm_init (status_init (?d\<lparr>d_tick := n\<rparr>)))"
      by (rule status_pure_good(4)) (use 1 in simp)
    have "fewer (dwrites E) d (?d\<lparr>d_tick := n\<rparr>)" by simp
    then have "fewer (dwrites E) d (alarm_init (status_init (?d\<lparr>d_tick := n\<rparr>)))"
      using fewer_trans [OF fewer_trans [OF _ conjunct2 [OF 1]] conjunct2 [OF 2]] by blast
    then show ?thesis using conjunct1 [OF 2] by (simp only: good_Inr snd_conv simp_thms)
  qed
  have start: "good (dwrites E) snd d (case y_ctx y of
           Some ctx \<Rightarrow> Inr (ctx, ?d)
         | None \<Rightarrow>
             (case pconf_file_begin (pconf_init zero_ctx) [] (de_file E (d_tick ?d)) of
                (ctx, False) \<Rightarrow> Inl Fatal_exit
              | (ctx, True) \<Rightarrow> Inr (ctx, alarm_init (status_init (?d\<lparr>d_tick := Suc (d_tick ?d)\<rparr>)))))"
    using d fresh by (auto split: option.split prod.split bool.split)
  have rest: "good (dwrites E) (\<lambda>(y, d, r). d) e (and_then (data_loop E ctx None e) (\<lambda>(ctx, d, upd).
           and_then (alarm_commit E d) (\<lambda>d. and_then (status_commit E d) (\<lambda>d.
             Inr (if upd = -1 then \<lparr>y_ctx = None, y_next_update = upd\<rparr>
                  else \<lparr>y_ctx = Some ctx, y_next_update = upd\<rparr>, d, 1)))))" if "drv_inv e" for ctx e
    by (rule good_then [OF data_loop_good [OF that]])
      (auto intro!: good_then [OF commits_good(2)] good_then [OF commits_good(1)])
  show ?thesis
    unfolding parse_data_file_def Let_def
    using d by (auto intro!: good_if good_then [OF start] rest)
qed

lemma init_items_good: "drv_inv d \<Longrightarrow> good (dwrites E) (\<lambda>x. x) d (init_items E is d)"
proof (induction "is" arbitrary: d)
  case (Cons i "is")
  show ?case
    unfolding init_items.simps
    by (intro good_if good_then [OF dstate_put_good] good_then [OF dstate_setflags_good] good_then [where st = "\<lambda>x. x"]
        dstate_void_good Cons.IH Cons.prems) (auto intro: Cons.IH)
qed simp

lemma dummy_initinfo_good:
  assumes "drv_inv d"
  shows "good (dwrites E) snd d (dummy_initinfo E y d)"
  unfolding dummy_initinfo_def
  by (rule good_then [OF init_items_good [OF assms]])
    (auto intro!: good_then [OF parse_data_file_good] good_then [OF dstate_void_good(4)] good_then [OF dstate_void_good(6)])

end
