(* ===== verification/DriverSet.thy ===== *)
theory DriverSet
  imports DummyFacts Delivery
begin

unbundle bit_operations_syntax

text \<open>
  A SET from upsd to the driver and back: the driver reads the line with the same byte loop
  as upsd (the locale line_scanner, interpreted here on sock_read()), its handler changes
  the variable, and the broadcast brings the change to the copy in upsd.
\<close>

section \<open>The driver reads lines\<close>

definition conn_ctx :: "nat \<Rightarrow> drv \<Rightarrow> pconf_ctx" where
  "conn_ctx a d = k_ctx (projr (deref a d))"

definition put_conn_ctx :: "nat \<Rightarrow> pconf_ctx \<Rightarrow> drv \<Rightarrow> drv" where
  "put_conn_ctx a ctx = with_conn a (\<lambda>k. k\<lparr>k_ctx := ctx\<rparr>)"

text \<open>What follows a complete line: the request, then the rest of the bytes.\<close>

definition on_request :: "denv \<Rightarrow> device \<Rightarrow> nat \<Rightarrow> drv \<Rightarrow> cstr \<Rightarrow> fault + drv" where
  "on_request E V a d cs = and_then (sock_arg E V a (pconf_args (conn_ctx a d)) d) (\<lambda>(d, ret_arg).
     if ret_arg = 0 then and_then (deref a d) (\<lambda>conn. sock_read_loop E V a d cs)
     else if ret_arg = 2 then Inr d
     else sock_read_loop E V a d cs)"

definition connected :: "nat \<Rightarrow> drv \<Rightarrow> bool" where
  "connected a d \<longleftrightarrow> a \<in> set (addrs d) \<and> distinct (addrs d)"

lemma find_map_conn:
  "List.find (\<lambda>k. k_addr k = a) (map (\<lambda>k. if k_addr k = b then f k else k) ks) =
     map_option (\<lambda>k. if k_addr k = b then f k else k) (List.find (\<lambda>k. k_addr k = a) ks)"
  if "\<And>k. k_addr (f k) = k_addr k"
  by (induction ks) (auto simp: that)

lemma deref_with_conn:
  assumes "\<And>k. k_addr (f k) = k_addr k"
  shows "deref a (with_conn a f d) = (case deref a d of Inl e \<Rightarrow> Inl e | Inr k \<Rightarrow> Inr (f k))"
proof -
  have "find_conn a (with_conn a f d) = map_option (\<lambda>k. if k_addr k = a then f k else k) (find_conn a d)"
    unfolding find_conn_def with_conn_def using find_map_conn [OF assms] by simp
  then show ?thesis
    by (cases "find_conn a d") (simp_all add: deref_def find_conn_Some)
qed

lemma connected_deref: "connected a d \<Longrightarrow> \<exists>k. deref a d = Inr k"
  by (auto simp: connected_def here_deref)

lemma put_conn_facts:
  assumes "connected a d"
  shows "conn_ctx a (put_conn_ctx a ctx d) = ctx" "connected a (put_conn_ctx a ctx d)"
    "put_conn_ctx a b (put_conn_ctx a c d) = put_conn_ctx a b d" "put_conn_ctx a (conn_ctx a d) d = d"
proof -
  obtain k where k: "deref a d = Inr k" using connected_deref [OF assms] by auto
  show "conn_ctx a (put_conn_ctx a ctx d) = ctx" "connected a (put_conn_ctx a ctx d)"
    using assms k by (simp_all add: conn_ctx_def put_conn_ctx_def deref_with_conn connected_def)
  show "put_conn_ctx a b (put_conn_ctx a c d) = put_conn_ctx a b d"
    by (simp add: put_conn_ctx_def with_conn_def)
  have "k' = k" if "k' \<in> set (d_connhead d)" "k_addr k' = a" for k'
    using that deref_Inr [OF k] assms by (auto simp: connected_def distinct_map inj_on_def)
  then have "map (\<lambda>k. if k_addr k = a then k\<lparr>k_ctx := conn_ctx a d\<rparr> else k) (d_connhead d) = d_connhead d"
    using k by (intro map_idI) (auto simp: conn_ctx_def)
  then show "put_conn_ctx a (conn_ctx a d) d = d"
    by (simp add: put_conn_ctx_def with_conn_def)
qed

interpretation sock_reader: line_scanner "conn_ctx a" "put_conn_ctx a" "on_request E V a"
  "sock_read_loop E V a" "connected a" for E V a
proof
  fix d c ctx cs
  assume d: "connected a d"
  obtain k where k: "deref a d = Inr k" using connected_deref [OF d] by auto
  show "sock_read_loop E V a d (c # cs) = sock_read_loop E V a (put_conn_ctx a ctx d) cs"
    if "pconf_char (conn_ctx a d) c = (ctx, 0)"
    using that k by (simp add: conn_ctx_def put_conn_ctx_def Let_def)
  show "sock_read_loop E V a d (c # cs) = on_request E V a (put_conn_ctx a ctx d) cs"
    if "pconf_char (conn_ctx a d) c = (ctx, 1)"
    using that k put_conn_facts(1) [OF d, of ctx]
    by (simp add: on_request_def put_conn_ctx_def conn_ctx_def Let_def)
qed (simp_all add: put_conn_facts)

section \<open>What SET does in dummy-ups\<close>

definition dummy_ops :: "cstr \<Rightarrow> cstr \<Rightarrow> dop list" where
  "dummy_ops var val = Op_setinfo var val #
     (case find_info var of
        Some i \<Rightarrow> Op_setflags (info_type i) (info_flags i) #
          (if has_flag (info_flags i) ST_FLAG_STRING then [Op_setaux (info_type i) (info_len i)] else [])
      | None \<Rightarrow> [Op_setflags var (ST_FLAG_STRING OR ST_FLAG_RW), Op_setaux var 32])"

text \<open>Every entry of the table shows a flag, so the operations keep one.\<close>

lemma table_shown: "list_all (\<lambda>i. shown_flags (info_flags i) \<noteq> 0) nut_data"
  by code_simp

lemma dummy_ops_flagged: "list_all flagged_op (dummy_ops var val)"
proof -
  have "shown_flags (info_flags i) \<noteq> 0" if "find_info var = Some i" for i
    using that table_shown by (auto simp: find_info_def find_Some_iff list_all_length)
  moreover have "shown_flags (ST_FLAG_STRING OR ST_FLAG_RW) \<noteq> 0" by code_simp
  ultimately show ?thesis by (auto simp: dummy_ops_def split: option.split)
qed

lemma and_then_assoc: "and_then (and_then m f) g = and_then m (\<lambda>x. and_then (f x) g)"
  by (cases m) simp_all

lemma and_then_unit [simp]: "and_then m Inr = m"
  by (cases m) simp_all

lemma dummy_setvar_ops:
  assumes "\<not> strneq var ''ups.status'' 10" "val \<noteq> []"
  shows "dummy_setvar E var val d = and_then (run_ops E (dummy_ops var val) d) (\<lambda>d. Inr (d, STAT_SET_HANDLED))"
  using assms
  by (simp add: dummy_setvar_def all_valid dummy_ops_def dstate_put_def only_state_def and_then_assoc split_def
      split: option.split)

text \<open>Flags and auxiliary data leave the values alone.\<close>

lemma raw_kept:
  assumes "dwrites E" "drv_inv d"
  shows "dstate_setflags E w f d = Inr d' \<Longrightarrow>
      map_option n_raw (state_tree_find (d_dtree_root d') v) = map_option n_raw (state_tree_find (d_dtree_root d) v)"
    "dstate_setaux E w x d = Inr d' \<Longrightarrow>
      map_option n_raw (state_tree_find (d_dtree_root d') v) = map_option n_raw (state_tree_find (d_dtree_root d) v)"
  using assms
  by (auto simp: dstate_setflags_def dstate_setaux_def send_to_all_posted drv_inv_def find_write
      option.map_comp comp_def split: option.splits if_splits)

text \<open>
  The value after a SET: the one asked for, but an old value that differs from it only in the
  case of its letters stays as it is.
\<close>

definition new_raw :: "cstr option \<Rightarrow> cstr \<Rightarrow> cstr" where
  "new_raw old val = (case old of None \<Rightarrow> val | Some w \<Rightarrow> if strcasecmp w val = 0 then w else val)"

lemma setinfo_raw:
  assumes "dwrites E" "drv_inv d" "plain_op (Op_setinfo var val)" "run_op E (Op_setinfo var val) d = Inr d'"
    "\<And>n. state_tree_find (d_dtree_root d) var = Some n \<Longrightarrow> deletable n"
  shows "map_option n_raw (state_tree_find (d_dtree_root d') var) =
    Some (new_raw (map_option n_raw (state_tree_find (d_dtree_root d) var)) val)"
proof -
  have val: "snprintf ST_MAX_VALUE_LEN val = val" using assms(3) plain_facts by auto
  have root: "d_dtree_root d' = fst (state_setinfo (de_mono E (d_tick d)) (d_dtree_root d) var val)"
    using assms(1,2,4)
    by (auto simp: only_state_def dstate_setinfo_def setinfo_via_def val dmono_def Let_def send_to_all_posted
        drv_inv_def split: prod.splits if_splits)
  show ?thesis
    using assms(5) by (auto simp: root find_setinfo setinfo_node_cases deletable_def new_raw_def strcasecmp_eq_0
        st_tree_node_refresh_timestamp_def split: option.split)
qed

lemma dummy_ops_raw:
  assumes "dwrites E" "drv_inv d" "list_all plain_op (dummy_ops var val)" "run_ops E (dummy_ops var val) d = Inr d'"
    "\<And>n. state_tree_find (d_dtree_root d) var = Some n \<Longrightarrow> deletable n"
  shows "\<exists>n. state_tree_find (d_dtree_root d') var = Some n \<and>
    n_raw n = new_raw (map_option n_raw (state_tree_find (d_dtree_root d) var)) val"
proof -
  have plain: "plain_op (Op_setinfo var val)" "list_all plain_op (tl (dummy_ops var val))"
    "list_all flagged_op (tl (dummy_ops var val))"
    using assms(3) dummy_ops_flagged [of var val] by (simp_all add: dummy_ops_def)
  have inv_step: "drv_inv e'" if "drv_inv e" "plain_op op" "flagged_op op" "run_op E op e = Inr e'" for e e' op
    using op_simulated [OF assms(1) that(1,2) flagged_keeps [OF that(3)]] that(4) by (auto simp: simulated_def relays_def)
  obtain d1 where d1: "run_op E (Op_setinfo var val) d = Inr d1" "run_ops E (tl (dummy_ops var val)) d1 = Inr d'"
    using assms(4) by (auto simp: dummy_ops_def and_then_Inr)
  have inv: "drv_inv d1" by (rule inv_step [OF assms(2) plain(1) _ d1(1)]) simp
  define quiet_op where "quiet_op op \<longleftrightarrow> (\<exists>w f. op = Op_setflags w f) \<or> (\<exists>w x. op = Op_setaux w x)" for op
  have "map_option n_raw (state_tree_find (d_dtree_root d') var) = map_option n_raw (state_tree_find (d_dtree_root e) var)"
    if "list_all quiet_op ops" "list_all plain_op ops" "drv_inv e" "run_ops E ops e = Inr d'"
      "list_all flagged_op ops" for ops e
    using that
  proof (induction ops arbitrary: e)
    case (Cons op ops)
    obtain e1 where e1: "run_op E op e = Inr e1" "run_ops E ops e1 = Inr d'"
      using Cons.prems(4) by (auto simp: and_then_Inr)
    have "drv_inv e1"
      using inv_step [of e op] Cons.prems e1(1) by simp
    moreover have "map_option n_raw (state_tree_find (d_dtree_root e1) var) = map_option n_raw (state_tree_find (d_dtree_root e) var)"
      using Cons.prems(1,3) e1(1) raw_kept [OF assms(1)] by (auto simp: quiet_op_def)
    ultimately show ?case using Cons.IH [of e1] Cons.prems(1,2,5) e1(2) by simp
  qed simp
  moreover have "list_all quiet_op (tl (dummy_ops var val))"
    by (auto simp: dummy_ops_def quiet_op_def split: option.split)
  ultimately have "map_option n_raw (state_tree_find (d_dtree_root d') var) =
      map_option n_raw (state_tree_find (d_dtree_root d1) var)"
    using plain(2,3) inv d1(2) by blast
  then show ?thesis
    using setinfo_raw [OF assms(1,2) plain(1) d1(1) assms(5)] by auto
qed

section \<open>The whole way\<close>

lemma sock_set_args:
  assumes "var \<noteq> ''driver.debug''" "var \<noteq> ''driver.flag.allow_killpower''"
  shows "sock_arg E (dummy_device E conf) a [''SET'', var, val] d =
    and_then (dummy_setvar E var val d) (\<lambda>(d, ret). Inr (d, 1))"
  using assms
  by (simp add: sock_arg_def sock_set_def main_setvar_def report_def dummy_device_def Let_def ci_simps c_tolower_def
      split_def)

lemma same_but_ctx:
  assumes "connected a d"
  shows "drv_inv d \<Longrightarrow> pconf_wf ctx \<Longrightarrow> drv_inv (put_conn_ctx a ctx d)"
    "listeners (put_conn_ctx a ctx d) = listeners d" "d_wire (put_conn_ctx a ctx d) = d_wire d"
    "agree (put_conn_ctx a ctx d) r = agree d r" "d_dtree_root (put_conn_ctx a ctx d) = d_dtree_root d"
proof -
  show "listeners (put_conn_ctx a ctx d) = listeners d"
    by (simp add: listeners_def put_conn_ctx_def with_conn_def filter_map comp_def if_distrib)
qed (simp_all add: put_conn_ctx_def with_conn_good, simp_all add: with_conn_def agree_def)

lemma set_reaches_device:
  assumes "dwrites E" "drv_inv d" "deref a d = Inr k" "line_start (k_ctx k)" "line_fits (k_ctx k) (set_line var val)"
    "var \<noteq> ''driver.debug''" "var \<noteq> ''driver.flag.allow_killpower''" "\<not> strneq var ''ups.status'' 10" "val \<noteq> []"
    "list_all plain_op (dummy_ops var val)"
  shows "\<exists>ctx d'. pconf_wf ctx \<and> run_ops E (dummy_ops var val) (put_conn_ctx a ctx d) = Inr d' \<and>
    sock_read_loop E (dummy_device E conf) a d (line_text (set_line var val)) = Inr d'"
proof -
  have conn: "connected a d"
    using assms(2,3) deref_Inr by (auto simp: connected_def drv_inv_def)
  have ctx: "conn_ctx a d = k_ctx k" using assms(3) by (simp add: conn_ctx_def)
  obtain ctx where c: "sock_read_loop E (dummy_device E conf) a d (line_text (set_line var val) @ []) =
      on_request E (dummy_device E conf) a (put_conn_ctx a ctx d) []"
    "line_start ctx" "pconf_args ctx = map item_word (set_line var val)"
    using sock_reader.loop_line [OF conn, of "set_line var val" E "dummy_device E conf" "[]"] assms(4,5) ctx by auto
  have wf: "pconf_wf ctx" using c(2) by (simp add: line_start_def)
  obtain d' where d': "run_ops E (dummy_ops var val) (put_conn_ctx a ctx d) = Inr d'"
    using ops_simulated [OF assms(1) same_but_ctx(1) [OF conn assms(2) wf] assms(10) flagged_ops_keep [OF dummy_ops_flagged]] by (auto simp: simulated_def)
  have "on_request E (dummy_device E conf) a (put_conn_ctx a ctx d) [] = Inr d'"
    using d' c(3) put_conn_facts(1) [OF conn]
    by (simp add: on_request_def set_line_def sock_set_args [OF assms(6,7)] dummy_setvar_ops [OF assms(8,9)])
  then show ?thesis using c(1) d' wf by auto
qed

end
