(* ===== verification/DriverProps.thy ===== *)
theory DriverProps
  imports DriverSet ServerProps
begin

text \<open>
  The properties of the driver side: what a driver publishes reaches the copy in upsd, the
  loop over the readers ends and stays within live memory, the list of status words; and
  the cases in which it goes wrong.
\<close>

section \<open>A concrete driver\<close>

text \<open>dummy-ups with one variable, one command and upsd connected on descriptor 7.\<close>

definition demo_denv :: denv where
  "demo_denv = \<lparr>de_write = (\<lambda>n fd s. int (length s)), de_again = (\<lambda>n. False), de_accept = (\<lambda>n. -1),
     de_set_nonblock = (\<lambda>n fd. True), de_is_nonblock = (\<lambda>n fd. True), de_read = (\<lambda>n fd. ReadRetry),
     de_now = (\<lambda>n. (1000, 0)), de_select = (\<lambda>n fds t. (1, [7])), de_mono = (\<lambda>n. int n), de_pid = 42,
     de_file = (\<lambda>n. Inl ''missing'')\<rparr>"

definition demo_conn :: "nat \<Rightarrow> int \<Rightarrow> dconn" where
  "demo_conn a fd = \<lparr>k_addr = a, k_fd = fd, k_ctx = demo_ctx [], k_nobroadcast = False, k_readzero = 0,
     k_closing = False\<rparr>"

definition demo_driver :: "dconn list \<Rightarrow> drv" where
  "demo_driver ks = \<lparr>d_connhead = ks, d_dtree_root = Node Leaf (new_node 0 ''ups.load'' ''7'') Leaf,
     d_cmdhead = [''load.off''], d_stale = False,
     d_status = \<lparr>s_alarm_active = 0, s_alarm_status = False, s_alarm_legacy_status = False,
       s_ignorelb = False, s_status_buf = [], s_alarm_buf = [], s_buzzmode_buf = []\<rparr>,
     d_do_synchronous = 0, d_sockfd = 3,
     d_main = \<lparr>m_reload_flag = 0, m_exit_flag = 0, m_handling_upsdrv_shutdown = 0, m_call_depth = 0,
       m_device_sdcommands = None, m_reload_requires_restart = -1, m_debug_level = 0,
       m_debug_level_args = 0, m_debug_level_global = -1, m_debug_level_driver = -1,
       m_debug_level_protocol = -1\<rparr>,
     d_fresh = 9, d_tick = 0, d_wire = []\<rparr>"

lemma demo_driver_fields [simp]:
  "d_connhead (demo_driver ks) = ks" "d_dtree_root (demo_driver ks) = Node Leaf (new_node 0 ''ups.load'' ''7'') Leaf"
  "d_cmdhead (demo_driver ks) = [''load.off'']" "d_stale (demo_driver ks) = False" "d_wire (demo_driver ks) = []"
  "k_addr (demo_conn a fd) = a" "k_fd (demo_conn a fd) = fd" "k_nobroadcast (demo_conn a fd) = False"
  by (simp_all add: demo_driver_def demo_conn_def)

lemma demo_dwrites [simp]: "dwrites demo_denv"
  by (simp add: dwrites_def demo_denv_def)

lemma demo_drv_inv:
  assumes "distinct (map k_addr ks)" "list_all (\<lambda>k. k_addr k < 9 \<and> k_ctx k = demo_ctx []) ks"
  shows "drv_inv (demo_driver ks)"
  using assms demo_ctx_wf [of "[]"]
  by (auto simp: drv_inv_def conn_wf_def tree_wf_def new_node_wf cmds_sorted_def status_wf_def list_all_iff
      ST_MAX_VALUE_LEN_def) (auto simp: demo_driver_def ST_MAX_VALUE_LEN_def)

lemma demo_one_inv: "drv_inv (demo_driver [demo_conn 1 7])"
  by (rule demo_drv_inv) (simp_all add: demo_conn_def)

section \<open>What the driver publishes reaches upsd\<close>

text \<open>C6. DUMPALL replicates a driver: when upsd reads, byte by byte, everything the driver
  writes in answer, its copy has every variable of the driver with its value, enumeration,
  ranges, auxiliary data and visible flags, no variable besides, the same commands and the
  same freshness.  This is for a driver whose data fit its messages (drv_sendable), writes that
  take everything, and a copy that has nothing yet that the driver lacks (fresh_for).\<close>

theorem dumpall_is_replicated:
  assumes "dwrites DE" "drv_inv d" "deref a d = Inr k" "drv_sendable d"
    "sock_arg DE V a [''DUMPALL''] d = Inr (d', ret)"
    "i < length (sd_firstups S)" "driver_ctx (u_sock_ctx (the_ups S i))" "tree_wf (u_inforoot (the_ups S i))"
    "fresh_for d (upsd_replica (the_ups S i))"
  shows "let u = the_ups (sstate_read_loop E i S (wrote (k_fd k) d d')) i in
    agree d' (upsd_replica u) \<and> u_dumpdone u \<and>
    (\<forall>var. state_getinfo (u_inforoot u) var = dstate_getinfo d var)"
proof -
  let ?u = "the_ups (sstate_read_loop E i S (wrote (k_fd k) d d')) i"
  have sync: "agree d' (upsd_replica ?u) \<and> u_dumpdone ?u"
    by (rule dumpall_syncs [OF assms refl])
  have d': "d' = told_to a (dumpall_lines d) d"
    using dumpall_posted [OF assms(1), of a d V] deref_Inr [OF assms(3)] assms(5) by auto
  have "agree d (upsd_replica ?u)"
    using sync by (simp add: d' agree_def)
  then have "state_getinfo (u_inforoot ?u) var = dstate_getinfo d var" for var
    using agree_value [OF _ assms(2), of "upsd_replica ?u" var] by (simp add: upsd_replica_def)
  then show ?thesis using sync by (simp add: Let_def)
qed

text \<open>A server that has nothing of its driver yet.\<close>

definition blank_server :: upsd where
  "blank_server = with_ups 0 (\<lambda>u. u\<lparr>u_inforoot := Leaf, u_cmdlist := []\<rparr>) (demo_server [] [])"

lemma blank_fields:
  "length (sd_firstups blank_server) = 1" "driver_ctx (u_sock_ctx (the_ups blank_server 0))"
  "u_inforoot (the_ups blank_server 0) = Leaf" "u_cmdlist (the_ups blank_server 0) = []"
  using demo_ctx_wf [of "[]"]
  by (simp_all add: blank_server_def the_ups_with_ups driver_ctx_def line_start_def)
    (simp add: demo_ctx_def tok_ended_def)

lemma bare_word: "list_all bare_char ''ups.load''" "list_all bare_char ''load.off''" "list_all bare_char ''SETINFO''"
    "list_all bare_char ''ADDCMD''" "list_all word_char ''7''" "list_all word_char ''8''"
  by code_simp+

lemma demo_msgs_ok: "msg_ok (SetInfo ''ups.load'' ''7'')" "msg_ok (SetInfo ''ups.load'' ''8'')" "msg_ok (AddCmd ''load.off'')"
  using bare_word
  by (simp_all add: msg_ok_def item_ok_def msg_text_def PCONF_DEFAULT_WORDLEN_LIMIT_def ST_SOCK_BUF_LEN_def pconf_escape_def)

lemma demo_sendable: "drv_sendable (demo_driver ks)"
  using demo_msgs_ok
  by (simp add: drv_sendable_def node_sendable_def lists_ok_def ranges_ok_def node_msgs_def pconf_escape_def
      ST_MAX_VALUE_LEN_def)

lemma dumpall_is_replicated_witness:
  "\<exists>d'. sock_arg demo_denv (dummy_device demo_denv Inr) 1 [''DUMPALL''] (demo_driver [demo_conn 1 7]) = Inr (d', 1) \<and>
    (let u = the_ups (sstate_read_loop demo_os 0 blank_server (wrote 7 (demo_driver [demo_conn 1 7]) d')) 0 in
     u_dumpdone u \<and> state_getinfo (u_inforoot u) ''ups.load'' = Some ''7'')"
proof -
  let ?d = "demo_driver [demo_conn 1 7]"
  have run: "sock_arg demo_denv (dummy_device demo_denv Inr) 1 [''DUMPALL''] ?d = Inr (told_to 1 (dumpall_lines ?d) ?d, 1)"
    by (rule dumpall_posted) simp_all
  have conn: "deref 1 ?d = Inr (demo_conn 1 7)" by (simp add: deref_def find_conn_def)
  have fresh: "fresh_for ?d (upsd_replica (the_ups blank_server 0))"
    by (simp add: fresh_for_def upsd_replica_def blank_fields)
  have "dstate_getinfo ?d ''ups.load'' = Some ''7''" by code_simp
  then show ?thesis
    using dumpall_is_replicated [OF demo_dwrites demo_one_inv conn demo_sendable run _ _ _ fresh, of demo_os] run
    by (simp add: blank_fields tree_wf_def Let_def)
qed

text \<open>C7. From then on the copy follows: a sequence of dstate operations succeeds, and once upsd
  has read the bytes broadcast to it, its copy agrees with the driver again and shows the
  driver's value for every variable.  The operations are those of plain_op and ops_keep: every line has
  printable ASCII words only, numbers in the range of their C type, and fits the buffers; no value
  that is set, or added to or deleted from an enumeration, has a quote, a backslash or a #, which
  dstate.c sends unescaped; and no change of flags takes the last of RW, STRING and NUMBER from
  a variable, since upsd refuses the line for that (dstate_delflags() of one of several such
  flags is covered, and so is any flag that upsd does not show).\<close>

theorem broadcasts_are_replicated:
  assumes "dwrites DE" "drv_inv d" "list_all plain_op ops" "ops_keep DE ops d" "count_list (listeners d) fd = 1"
    "i < length (sd_firstups S)" "driver_ctx (u_sock_ctx (the_ups S i))" "agree d (upsd_replica (the_ups S i))"
  shows "\<exists>d'. run_ops DE ops d = Inr d' \<and>
    (let u = the_ups (sstate_read_loop E i S (wrote fd d d')) i in
     agree d' (upsd_replica u) \<and> (\<forall>var. state_getinfo (u_inforoot u) var = dstate_getinfo d' var))"
proof -
  obtain d' where d': "run_ops DE ops d = Inr d'"
    "agree d' (upsd_replica (the_ups (sstate_read_loop E i S (wrote fd d d')) i))"
    using broadcasts_sync [OF assms] by blast
  have "drv_inv d'"
    using ops_simulated [OF assms(1-4)] d'(1) by (auto simp: simulated_def relays_def)
  then have "state_getinfo (u_inforoot (the_ups (sstate_read_loop E i S (wrote fd d d')) i)) var = dstate_getinfo d' var" for var
    using agree_value [OF d'(2), of var] by (simp add: upsd_replica_def)
  then show ?thesis using d' by (simp add: Let_def)
qed

definition demo_ops :: "dop list" where
  "demo_ops = [Op_setinfo ''ups.load'' ''8'', Op_setflags ''ups.load'' (ST_FLAG_RW OR ST_FLAG_STRING),
     Op_delflags ''ups.load'' ST_FLAG_RW, Op_datastale]"

lemma demo_ops_plain: "list_all plain_op demo_ops"
proof -
  have "list_all bare_char ''ups.load''" "list_all bare_char ''SETFLAGS''" "list_all bare_char ''RW''"
    "list_all bare_char ''STRING''" "list_all bare_char ''NUMBER''" by code_simp+
  then have "msg_ok (SetFlags ''ups.load'' f)" for f
    by (simp add: msg_ok_def item_ok_def msg_text_def flag_words_def
        PCONF_DEFAULT_WORDLEN_LIMIT_def ST_SOCK_BUF_LEN_def)
  then show ?thesis
    by (simp add: demo_ops_def flag_name_def demo_msgs_ok plain_def pconf_escape_def ST_MAX_VALUE_LEN_def)
qed

lemma broadcasts_are_replicated_witness:
  "\<exists>d'. run_ops demo_denv demo_ops (demo_driver [demo_conn 1 7]) = Inr d' \<and>
    state_getflags (d_dtree_root d') ''ups.load'' = ST_FLAG_STRING \<and>
    (let u = the_ups (sstate_read_loop demo_os 0
        (with_ups 0 (\<lambda>u. u\<lparr>u_inforoot := d_dtree_root (demo_driver [])\<rparr>) (demo_server [] []))
        (wrote 7 (demo_driver [demo_conn 1 7]) d')) 0 in
     \<not> u_data_ok u \<and> state_getinfo (u_inforoot u) ''ups.load'' = Some ''8'')"
proof -
  let ?d = "demo_driver [demo_conn 1 7]"
  let ?S = "with_ups 0 (\<lambda>u. u\<lparr>u_inforoot := d_dtree_root (demo_driver [])\<rparr>) (demo_server [] [])"
  have runs: "map_sum id (\<lambda>d. (dstate_getinfo d ''ups.load'', state_getflags (d_dtree_root d) ''ups.load'', d_stale d))
      (run_ops demo_denv demo_ops ?d) = Inr (Some ''8'', ST_FLAG_STRING, True)"
    by code_simp
  have ctx: "driver_ctx (u_sock_ctx (the_ups ?S 0))"
    using blank_fields(2) by (simp add: blank_server_def the_ups_with_ups)
  have "tree_wf (Node Leaf (new_node 0 ''ups.load'' ''7'') Leaf)"
    using demo_one_inv by (simp add: drv_inv_def)
  then have agree: "agree ?d (upsd_replica (the_ups ?S 0))"
    by (simp add: agree_def tree_agree_def upsd_replica_def the_ups_with_ups same_data_def option_rel_Some1
        option.rel_refl demo_ups_def)
  have keep: "ops_keep demo_denv demo_ops ?d" by code_simp
  have one: "count_list (listeners ?d) 7 = 1" by (simp add: listeners_def)
  show ?thesis
    using broadcasts_are_replicated [OF demo_dwrites demo_one_inv demo_ops_plain keep one _ ctx agree, of demo_os] runs
    by (auto simp: Let_def agree_def upsd_replica_def)
qed

section \<open>A SET comes back as the new value\<close>

text \<open>C8. The whole way of a SET: a request that upsd grants puts one line on the socket of the
  driver; dummy-ups reads it, changes the variable and broadcasts; and when upsd has read what
  was written to it, its copy has exactly the value that the client asked for, except that a
  value differing from the old one in the case of letters only leaves the old spelling.  This is
  for a variable that dummy-ups stores: not ups.status..., driver.debug or
  driver.flag.allow_killpower, which it handles apart, and none that it holds immutable; and for
  a value that is not empty (an empty one deletes), fits the line, is printable ASCII and has no
  quote, backslash or #, which the driver broadcasts unescaped.\<close>

theorem set_comes_back:
  assumes "get_ups_ptr S upsname = Some i" "may_set S c i var val" "all_written E"
    "c < length (sd_firstclient S)" "line_fits_buffer (set_line var val)"
    "dwrites DE" "drv_inv d" "deref a d = Inr k" "line_start (k_ctx k)" "line_fits (k_ctx k) (set_line var val)"
    "var \<noteq> ''driver.debug''" "var \<noteq> ''driver.flag.allow_killpower''" "\<not> strneq var ''ups.status'' 10" "val \<noteq> []"
    "list_all plain_op (dummy_ops var val)" "count_list (listeners d) (k_fd k) = 1"
    "\<And>n. state_tree_find (d_dtree_root d) var = Some n \<Longrightarrow> deletable n"
    "driver_ctx (u_sock_ctx (the_ups S i))" "agree d (upsd_replica (the_ups S i))"
  shows "\<exists>line d'.
    sd_wire (set_var E c upsname var val [] S) =
      sd_wire S @ [(u_sock_fd (the_ups S i), line), (c_sock_fd (the_client S c), ''OK'' @ [NL])] \<and>
    sock_read_loop DE (dummy_device DE Inr) a d line = Inr d' \<and>
    (let u = the_ups (sstate_read_loop E i (set_var E c upsname var val [] S) (wrote (k_fd k) d d')) i in
     \<exists>old new. state_tree_find (u_inforoot (the_ups S i)) var = Some old \<and>
       state_tree_find (u_inforoot u) var = Some new \<and>
       n_raw new = (if strcasecmp (n_raw old) val = 0 then n_raw old else val))"
proof -
  let ?S = "set_var E c upsname var val [] S"
  have sent: "?S = sent c [''OK'' @ [NL]] (S\<lparr>sd_tick := Suc (sd_tick S),
      sd_wire := sd_wire S @ [(u_sock_fd (the_ups S i), line_text (set_line var val))]\<rparr>)"
    by (rule set_var_sent [OF assms(1-5)])
  have conn: "connected a d"
    using assms(7,8) deref_Inr by (auto simp: connected_def drv_inv_def)
  obtain ctx d' where d': "pconf_wf ctx" "run_ops DE (dummy_ops var val) (put_conn_ctx a ctx d) = Inr d'"
    "sock_read_loop DE (dummy_device DE Inr) a d (line_text (set_line var val)) = Inr d'"
    using set_reaches_device [OF assms(6-15)] by blast
  let ?d = "put_conn_ctx a ctx d"
  note same = same_but_ctx [OF conn, of ctx]
  have inv: "drv_inv ?d" by (rule same(1) [OF assms(7) d'(1)])
  have ups: "sd_firstups ?S = sd_firstups S" by (simp add: sent)
  have i: "i < length (sd_firstups ?S)" using get_ups_ptr_bound [OF assms(1)] ups by simp
  have u: "the_ups ?S i = the_ups S i" by (simp add: ups)
  have "agree d' (upsd_replica (the_ups (sstate_read_loop E i ?S (wrote (k_fd k) ?d d')) i))"
    using broadcasts_sync [OF assms(6) inv assms(15) flagged_ops_keep [OF dummy_ops_flagged], of "k_fd k" i ?S E] assms(16,18,19) d'(2) i u same by auto
  moreover have "wrote (k_fd k) ?d d' = wrote (k_fd k) d d'" by (simp add: wrote_def same)
  moreover obtain n where n: "state_tree_find (d_dtree_root d') var = Some n"
    "n_raw n = new_raw (map_option n_raw (state_tree_find (d_dtree_root d) var)) val"
    using dummy_ops_raw [OF assms(6) inv assms(15) d'(2)] assms(17) same(5) by auto
  moreover obtain old k' where old: "state_tree_find (u_inforoot (the_ups S i)) var = Some old"
    "state_tree_find (d_dtree_root d) var = Some k'" "n_raw old = n_raw k'"
    using assms(2) agree_at [of "d_dtree_root d" "u_inforoot (the_ups S i)" var] assms(19)
    by (auto simp: may_set_def sstate_getnode_def agree_def upsd_replica_def same_data_def)
  ultimately obtain m where "state_tree_find (u_inforoot (the_ups (sstate_read_loop E i ?S (wrote (k_fd k) d d')) i)) var = Some m"
    "same_data n m"
    using agree_at [of "d_dtree_root d'" _ var] by (auto simp: agree_def upsd_replica_def)
  then show ?thesis
    using n(2) old d'(3) by (intro exI [of _ "line_text (set_line var val)"] exI [of _ d'])
      (auto simp: sent same_data_def new_raw_def Let_def sent_def snprintf_def NUT_NET_ANSWER_MAX_def SMALLBUF_def)
qed

definition demo_transfer :: drv where
  "demo_transfer = (demo_driver [demo_conn 1 7])\<lparr>d_dtree_root := Node Leaf demo_node Leaf\<rparr>"

lemma demo_transfer_ready:
  "drv_inv demo_transfer" "deref 1 demo_transfer = Inr (demo_conn 1 7)" "count_list (listeners demo_transfer) 7 = 1"
  "agree demo_transfer (upsd_replica demo_ups)" "driver_ctx (demo_ctx [])"
proof -
  show inv: "drv_inv demo_transfer"
    unfolding demo_transfer_def by (rule inv_root [OF demo_one_inv demo_tree_wf])
  have "same_data demo_node demo_node"
    by (simp add: same_data_def shown_flags_def ST_FLAG_RW_def ST_FLAG_STRING_def ST_FLAG_NUMBER_def)
  then show "agree demo_transfer (upsd_replica demo_ups)"
    using demo_tree_wf
    by (simp add: agree_def tree_agree_def upsd_replica_def demo_transfer_def) (simp add: demo_ups_def)
  show "driver_ctx (demo_ctx [])" using blank_fields(2) by (simp add: blank_server_def the_ups_with_ups)
qed (simp_all add: demo_transfer_def deref_def find_conn_def listeners_def)

lemma demo_set_ops: "list_all plain_op (dummy_ops ''input.transfer.low'' ''95'')"
proof -
  have find: "find_info ''input.transfer.low'' = Some (item ''input.transfer.low'' ST_FLAG_RW 1 None False)" by code_simp
  have "list_all bare_char ''input.transfer.low''" "list_all word_char ''95''" "list_all bare_char ''SETINFO''"
    "list_all bare_char ''SETFLAGS''" "list_all bare_char ''RW''" by code_simp+
  moreover have "flag_words ST_FLAG_RW = [''RW'']" "\<not> has_flag ST_FLAG_RW ST_FLAG_STRING" by code_simp+
  moreover have "shown_flags ST_FLAG_RW \<noteq> 0" by code_simp
  ultimately show ?thesis
    by (simp add: dummy_ops_def find plain_def pconf_escape_def ST_MAX_VALUE_LEN_def msg_ok_def item_ok_def msg_text_def
        PCONF_DEFAULT_WORDLEN_LIMIT_def ST_SOCK_BUF_LEN_def)
qed

lemma set_comes_back_witness:
  "\<exists>line d'. sd_wire (set_var demo_os 0 ''rack'' ''input.transfer.low'' ''95'' [] (demo_server [''SET''] [])) =
      [(5, line), (9, ''OK'' @ [NL])] \<and>
    sock_read_loop demo_denv (dummy_device demo_denv Inr) 1 demo_transfer line = Inr d' \<and>
    (let u = the_ups (sstate_read_loop demo_os 0
        (set_var demo_os 0 ''rack'' ''input.transfer.low'' ''95'' [] (demo_server [''SET''] []))
        (wrote 7 demo_transfer d')) 0 in
     \<exists>new. state_tree_find (u_inforoot u) ''input.transfer.low'' = Some new \<and> n_raw new = ''95'')"
proof -
  have k: "line_start (k_ctx (demo_conn 1 7))" "line_fits (k_ctx (demo_conn 1 7)) (set_line ''input.transfer.low'' ''95'')"
    using demo_set(3,4) by (simp_all add: demo_conn_def)
  have del: "deletable n" if "state_tree_find (d_dtree_root demo_transfer) ''input.transfer.low'' = Some n" for n
    using that by (auto simp: demo_transfer_def deletable_def flag_bits one_bit split: if_splits)
  have kept: "strcasecmp (n_raw demo_node) ''95'' \<noteq> 0"
    by (simp_all add: demo_node_def ci_simps c_tolower_def)
  show ?thesis
    using set_comes_back [OF demo_ups_ptr demo_set(1) demo_os_written _ demo_set(2) demo_dwrites demo_transfer_ready(1,2)
        k _ _ _ _ demo_set_ops _ del] demo_transfer_ready(3-5)
    by (simp add: strneq_def kept)
qed

section \<open>The loop over the readers\<close>

text \<open>C11. One round of dstate_poll_fds() with dummy-ups as the device always ends: whatever the
  readers send, however writes fail and connections vanish, the nested broadcasts and the
  walk over the connections come to an end, and the driver's data stay well formed.\<close>

theorem poll_round_ends:
  assumes "drv_inv d"
  shows "dstate_poll_fds E (dummy_device E Inr) timeout extrafd d \<noteq> Inl Endless"
  using dummy_code.poll_good [OF assms, of E timeout extrafd]
  by (auto split: sum.splits)

lemma poll_round_ends_witness:
  "dstate_poll_fds demo_denv (dummy_device demo_denv Inr) (2000, 0) (-1) (demo_driver [demo_conn 1 7]) \<noteq> Inl Endless"
  by (rule poll_round_ends [OF demo_one_inv])

text \<open>C23. Well-formedness is a type of the driver's state: a round that returns leaves a search
  tree of well-formed nodes, a sorted command list, status buffers that hold their text and
  connections with distinct addresses and parsers in bounds.\<close>

theorem poll_keeps_driver_wf:
  assumes "drv_inv d" "dstate_poll_fds E (dummy_device E Inr) timeout extrafd d = Inr (d', ret)"
  shows "drv_inv d'"
  using dummy_code.poll_good [OF assms(1), of E timeout extrafd] assms(2) by simp

lemma demo_poll: "dstate_poll_fds demo_denv (dummy_device demo_denv Inr) (2000, 0) (-1) (demo_driver [demo_conn 1 7]) =
    Inr ((demo_driver [demo_conn 1 7])\<lparr>d_tick := 3\<rparr>, 0)"
  by (simp add: dstate_poll_fds_def time_left_def demo_denv_def first_addr_def deref_def find_conn_def sock_read_def
      Let_def valid_fd_def) (simp add: demo_driver_def demo_conn_def)

lemma poll_keeps_driver_wf_witness:
  "drv_inv ((demo_driver [demo_conn 1 7])\<lparr>d_tick := 3\<rparr>)"
  by (rule poll_keeps_driver_wf [OF demo_one_inv demo_poll])

text \<open>C22. As long as write() takes what it is given, no round reads or writes a connection that
  has been freed.\<close>

theorem no_freed_access_while_writes_succeed:
  assumes "drv_inv d" "dwrites E"
  shows "dstate_poll_fds E (dummy_device E Inr) timeout extrafd d \<noteq> Inl Freed_access"
  using dummy_code.poll_good [OF assms(1), of E timeout extrafd] assms(2)
  by (auto split: sum.splits)

lemma no_freed_access_while_writes_succeed_witness:
  "dstate_poll_fds demo_denv (dummy_device demo_denv Inr) (2000, 0) (-1) (demo_driver [demo_conn 1 7]) \<noteq> Inl Freed_access"
  by (rule no_freed_access_while_writes_succeed [OF demo_one_inv demo_dwrites])

text \<open>C33. When the peer is gone, LOGOUT writes to freed memory: send_to_one() has disconnected
  and freed the connection, and sock_arg() goes on to set conn->closing.\<close>

theorem logout_of_dead_peer_uses_freed_connection:
  assumes "d_connhead d = [k]" "\<And>n s. de_write E n (k_fd k) s < 0"
  shows "sock_arg E V (k_addr k) [''LOGOUT''] d = Inl Freed_access"
proof -
  have conn: "deref (k_addr k) d = Inr k" using assms(1) by (simp add: deref_def find_conn_def)
  have quiet: "send_to_all E msg e = Inr e" if "d_connhead e = []" for msg e
    using that by (simp add: send_to_all_def first_addr_def)
  have note_quiet: "\<exists>e'. note_synchronous (send_to_all E) E e = Inr e' \<and> d_connhead e' = []" if "d_connhead e = []" for e
  proof -
    obtain root ret where set: "state_setinfo (de_mono E (d_tick e)) (d_dtree_root e) ''driver.parameter.synchronous''
        (snprintf ST_MAX_VALUE_LEN (sync_text (d_do_synchronous e))) = (root, ret)" by fastforce
    show ?thesis
      using that by (simp add: note_synchronous_def setinfo_via_def dmono_def set quiet Let_def)
  qed
  have one: "\<exists>e'. send_to_one E (k_addr k) msg d = Inr (e', False) \<and> d_connhead e' = []" if "msg \<noteq> []" for msg
  proof -
    let ?buf = "snprintf ST_SOCK_BUF_LEN msg"
    let ?d1 = "fst (dwrite E (k_fd k) ?buf d)"
    obtain d2 ret again where w: "dwrite E (k_fd k) ?buf ?d1 = (d2, ret, again)" using prod_cases3 by blast
    have d2: "d_connhead d2 = [k]" "ret < 0"
      using w assms by (auto simp: dwrite_def)
    let ?d3 = "fall_back ret again (d2\<lparr>d_connhead := []\<rparr>)"
    obtain e' where "note_synchronous (send_to_all E) E ?d3 = Inr e'" "d_connhead e' = []"
      using note_quiet [of ?d3] by auto
    moreover have "sock_disconnect (k_addr k) d2 = Inr (d2\<lparr>d_connhead := []\<rparr>)"
      using d2(1) by (simp add: sock_disconnect_def deref_def find_conn_def)
    moreover have "fst (snd (dwrite E (k_fd k) ?buf d)) < 0" using assms(2) by (simp add: dwrite_def)
    ultimately show ?thesis
      using that conn w d2(2) by (simp add: send_to_one_def Let_def write_failed_def split_beta)
  qed
  show ?thesis
    using one [of "''OK Goodbye'' @ [NL]"]
    by (auto simp: sock_arg_def tell_def Let_def ci_simps c_tolower_def deref_def find_conn_def)
qed

lemma logout_of_dead_peer_uses_freed_connection_witness:
  "sock_arg (demo_denv\<lparr>de_write := (\<lambda>n fd s. -1)\<rparr>) (dummy_device demo_denv Inr) 1 [''LOGOUT'']
     (demo_driver [demo_conn 1 7]) = Inl Freed_access"
  using logout_of_dead_peer_uses_freed_connection [of "demo_driver [demo_conn 1 7]" "demo_conn 1 7"
      "demo_denv\<lparr>de_write := (\<lambda>n fd s. -1)\<rparr>" "dummy_device demo_denv Inr"] by simp

text \<open>C34. Two readers that stall with EAGAIN while the driver is in its automatic mode, where
  driver.parameter.synchronous says so: the first failed write of a broadcast switches the
  mode and publishes that, the nested broadcast frees the second connection, and the outer
  loop goes on through its saved pointer to it.\<close>

theorem nested_broadcast_frees_next_connection:
  assumes "d_connhead d = [k, l]" "k_addr k \<noteq> k_addr l" "\<not> k_nobroadcast k" "\<not> k_nobroadcast l"
    "\<And>n fd s. de_write E n fd s < 0" "\<And>n. de_again E n" "d_do_synchronous d = -1"
    "state_tree_find (d_dtree_root d) ''driver.parameter.synchronous'' = Some n" "n_raw n = ''auto''"
    "\<not> has_flag (n_flags n) ST_FLAG_IMMUTABLE" "msg \<noteq> []"
  shows "send_to_all E msg d = Inl Freed_access"
proof -
  let ?name = "''driver.parameter.synchronous''"
  have ci: "ci_key ''auto'' \<noteq> ci_key ''yes''" by (simp add: ci_simps c_tolower_def)
  have yes: "snprintf ST_MAX_VALUE_LEN (sync_text 1) = ''yes''"
    by (simp add: sync_text_def snprintf_def ST_MAX_VALUE_LEN_def)
  have empty: "bcast_loop f E buf m (first_addr []) e = Inr e" for f buf m e by (simp add: first_addr_def)
  text \<open>The nested broadcast with the second connection only.\<close>
  have second: "\<exists>e'. broadcast (Suc m) E msg' e = Inr e' \<and> d_connhead e' = []"
    if e: "d_connhead e = [l]" "d_do_synchronous e = 1" and msg': "msg' \<noteq> []" for m msg' e
  proof -
    obtain e1 ret again where w: "dwrite E (k_fd l) (snprintf ST_SOCK_BUF_LEN msg') e = (e1, ret, again)"
      using prod_cases3 by blast
    have e1: "d_connhead e1 = [l]" "d_do_synchronous e1 = 1" "ret < 0" using w e assms(5) by (auto simp: dwrite_def)
    have gone: "sock_disconnect (k_addr l) e1 = Inr (e1\<lparr>d_connhead := []\<rparr>)"
      using e1(1) by (simp add: sock_disconnect_def deref_def find_conn_def)
    have quiet: "broadcast m E t x = Inr x" if "d_connhead x = []" for t x
      using that by (cases m) (simp_all add: first_addr_def)
    obtain root r where set: "state_setinfo (de_mono E (d_tick e1)) (d_dtree_root e1) ?name (snprintf ST_MAX_VALUE_LEN (sync_text 1)) = (root, r)"
      by fastforce
    show ?thesis
      using e msg' w e1 gone quiet assms(4)
      by (simp add: first_addr_def deref_def find_conn_def Let_def write_failed_def fall_back_def note_synchronous_def
          setinfo_via_def dmono_def set)
  qed
  obtain d1 ret again where w: "dwrite E (k_fd k) (snprintf ST_SOCK_BUF_LEN msg) d = (d1, ret, again)"
    using prod_cases3 by blast
  have d1: "d_connhead d1 = [k, l]" "d_do_synchronous d1 = -1" "ret < 0" again "d_dtree_root d1 = d_dtree_root d"
    using w assms(1,5,6,7) by (auto simp: dwrite_def)
  let ?d2 = "d1\<lparr>d_connhead := [l]\<rparr>"
  have gone: "sock_disconnect (k_addr k) d1 = Inr ?d2"
    using d1(1) assms(2) by (simp add: sock_disconnect_def deref_def find_conn_def)
  obtain root where set: "state_setinfo (de_mono E (d_tick d1)) (d_dtree_root d) ?name ''yes'' = (root, 1)"
    using setinfo_ret [of "de_mono E (d_tick d1)" "d_dtree_root d" ?name "''yes''"] assms(8-10) ci
    by (cases "state_setinfo (de_mono E (d_tick d1)) (d_dtree_root d) ?name ''yes''") simp
  let ?d3 = "d1\<lparr>d_connhead := [l], d_do_synchronous := 1, d_tick := Suc (d_tick d1), d_dtree_root := root\<rparr>"
  let ?m = "''SETINFO '' @ ?name @ '' '' @ [QUOTE] @ ''yes'' @ [QUOTE, NL]"
  have m: "?m \<noteq> []" by simp
  obtain e' where e2: "broadcast (Suc 0) E ?m ?d3 = Inr e'" "d_connhead e' = []"
  proof -
    have "d_connhead ?d3 = [l]" "d_do_synchronous ?d3 = 1" by simp_all
    then show ?thesis using second [OF _ _ m, of ?d3 0] that by blast
  qed
  have "fall_back ret again ?d2 = d1\<lparr>d_connhead := [l], d_do_synchronous := 1\<rparr>"
    using d1 by (simp add: fall_back_def)
  then have e': "note_synchronous (broadcast (Suc 0) E) E (fall_back ret again ?d2) = Inr e'"
    using e2(1) d1(5) set by (simp add: note_synchronous_def setinfo_via_def yes dmono_def Let_def del: broadcast.simps)
  show ?thesis
    using assms(1,2,3,11) w d1(3) gone e' e2(2)
    by (simp add: send_to_all_def first_addr_def numeral_2_eq_2 deref_def find_conn_def write_failed_def Let_def)
qed

definition demo_stalled :: drv where
  "demo_stalled = (demo_driver [demo_conn 1 7, demo_conn 2 8])\<lparr>d_do_synchronous := -1,
     d_dtree_root := Node Leaf (new_node 0 ''driver.parameter.synchronous'' ''auto'') Leaf\<rparr>"

lemma nested_broadcast_frees_next_connection_witness:
  "send_to_all (demo_denv\<lparr>de_write := (\<lambda>n fd s. -1), de_again := (\<lambda>n. True)\<rparr>) ''DATASTALE'' demo_stalled = Inl Freed_access"
  by (rule nested_broadcast_frees_next_connection [of _ "demo_conn 1 7" "demo_conn 2 8" _
        "new_node 0 ''driver.parameter.synchronous'' ''auto''"])
    (simp_all add: demo_stalled_def flag_bits)

section \<open>What does not reach upsd\<close>

lemma read_line:
  assumes "i < length (sd_firstups S)" "line_start (u_sock_ctx (the_ups S i))" "line_fits (u_sock_ctx (the_ups S i)) is"
  shows "\<exists>S1. sd_firstups S1 = (sd_firstups S)[i := the_ups S1 i] \<and> upsd_replica (the_ups S1 i) = upsd_replica (the_ups S i) \<and>
    upsd_replica (the_ups (sstate_read_loop E i S (line_text is)) i) =
    upsd_replica (the_ups (fst (parse_args E i (map item_word is) S1)) i)"
proof -
  obtain ctx where ctx: "sstate_read_loop E i S (line_text is @ []) =
      sstate_read_loop E i (driver_line E i (with_ups i (\<lambda>u. u\<lparr>u_sock_ctx := ctx\<rparr>) S)) []"
    "pconf_args ctx = map item_word is"
    using driver_reader.scan.loop_line [OF assms(1) _ assms(3), of E "[]"] assms(2) by auto
  let ?S1 = "with_ups i (\<lambda>u. u\<lparr>u_sock_ctx := ctx\<rparr>) S"
  have "upsd_replica (the_ups (driver_line E i ?S1) i) =
      upsd_replica (the_ups (fst (parse_args E i (map item_word is) ?S1)) i)"
    using driver_line_replica [of i ?S1 E] assms(1) ctx(2) by (simp add: the_ups_with_ups)
  moreover have "upsd_replica (the_ups ?S1 i) = upsd_replica (the_ups S i)"
    using assms(1) by (simp add: the_ups_with_ups upsd_replica_def)
  moreover have "sd_firstups ?S1 = (sd_firstups S)[i := the_ups ?S1 i]"
    using assms(1) by (simp add: with_ups_def)
  ultimately show ?thesis using ctx(1) by auto
qed

lemma shouted_wrote:
  assumes "count_list (listeners d) fd = 1" "length msg < ST_SOCK_BUF_LEN" "d_wire d1 = d_wire d" "d_connhead d1 = d_connhead d"
  shows "wrote fd d (shouted msg d1) = msg"
proof -
  have "listeners d1 = listeners d" using assms(4) by (simp add: listeners_def)
  moreover have "concat (map snd (filter (\<lambda>w. fst w = fd) (map (\<lambda>x. (x, t)) xs))) = concat (replicate (count_list xs fd) t)"
    for t :: cstr and xs by (induction xs) auto
  ultimately show ?thesis
    using assms by (simp add: wrote_def shouted_def posted_def snprintf_fits)
qed

text \<open>Flags that are taken away stay in upsd: when the last of RW, STRING and NUMBER of a
  variable is cleared, the driver broadcasts SETFLAGS with the name alone, which upsd
  refuses as too short; its copy is unchanged and no longer agrees with the driver.\<close>

theorem cleared_flags_stay:
  assumes "dwrites DE" "drv_inv d" "count_list (listeners d) fd = 1"
    "state_tree_find (d_dtree_root d) var = Some n" "shown_flags (n_flags n) \<noteq> 0"
    "\<not> has_flag (n_flags n) ST_FLAG_IMMUTABLE" "shown_flags (n_flags n AND NOT f) = 0" "flag_name var"
    "i < length (sd_firstups S)" "driver_ctx (u_sock_ctx (the_ups S i))" "agree d (upsd_replica (the_ups S i))"
  shows "\<exists>d'. dstate_delflags DE var f d = Inr d' \<and>
    (let u = the_ups (sstate_read_loop E i S (wrote fd d d')) i in
     upsd_replica u = upsd_replica (the_ups S i) \<and> \<not> agree d' (upsd_replica u))"
proof -
  let ?f = "n_flags n AND NOT f"
  let ?m = "SetFlags var ?f"
  let ?d1 = "d\<lparr>d_dtree_root := state_tree_write var (\<lambda>n. n\<lparr>n_flags := ?f\<rparr>) (d_dtree_root d)\<rparr>"
  have ok: "msg_ok ?m" using assms(8) by (simp add: flag_name_def)
  have line: "''SETFLAGS '' @ flag_list var ?f @ [NL] = msg_text ?m"
    using ok by (intro flags_text) (simp add: msg_ok_def)
  have "n_flags n \<noteq> -1" using assms(6) by (auto simp: flag_bits)
  moreover have "n_flags n AND f \<noteq> 0"
  proof
    assume z: "n_flags n AND f = 0"
    have "n_flags n AND NOT f = n_flags n"
    proof (rule bit_word_eqI)
      fix b assume b: "b < LENGTH(32)"
      have "\<not> bit (n_flags n AND f) b" using z by simp
      then show "bit (n_flags n AND NOT f) b = bit (n_flags n) b" using b by (auto simp: bit_and_iff bit_not_iff)
    qed
    then show False using assms(5,7) by simp
  qed
  moreover have "n_flags n \<noteq> ?f" using assms(5,7) by auto
  ultimately have run: "dstate_delflags DE var f d = send_to_all DE (msg_text ?m) ?d1"
    using assms(4,6) line by (simp add: dstate_delflags_def state_getflags_def dstate_setflags_def Let_def)
  have inv: "drv_inv ?d1"
    by (rule inv_root [OF assms(2)], rule write_wf) (simp_all add: node_wf_def inv_parts(1) [OF assms(2), unfolded node_wf_def])
  have d': "dstate_delflags DE var f d = Inr (shouted (msg_text ?m) ?d1)"
    using run send_text [OF assms(1) inv] by simp
  have wire: "wrote fd d (shouted (msg_text ?m) ?d1) = msg_text ?m"
    using ok by (intro shouted_wrote [OF assms(3)]) (simp_all add: msg_ok_def)
  let ?u = "the_ups (sstate_read_loop E i S (msg_text ?m)) i"
  have "replays [?m] (upsd_replica (the_ups S i)) (upsd_replica ?u)"
    using read_msgs [OF assms(9,10), of "[?m]" E] ok by simp
  then have same: "upsd_replica ?u = upsd_replica (the_ups S i)"
    using assms(7) by (auto simp: replays_Cons no_flag_words)
  have "\<not> agree (shouted (msg_text ?m) ?d1) (upsd_replica (the_ups S i))"
  proof
    assume "agree (shouted (msg_text ?m) ?d1) (upsd_replica (the_ups S i))"
    then have t: "tree_agree (state_tree_write var (\<lambda>n. n\<lparr>n_flags := ?f\<rparr>) (d_dtree_root d)) (r_tree (upsd_replica (the_ups S i)))"
      by (simp add: agree_def)
    have find: "state_tree_find (state_tree_write var (\<lambda>n. n\<lparr>n_flags := ?f\<rparr>) (d_dtree_root d)) var = Some (n\<lparr>n_flags := ?f\<rparr>)"
      using assms(4) by (simp add: find_write)
    show False
      using agree_at [OF t, of var] agree_at [OF agree_parts(1) [OF assms(11)], of var] find assms(4,5,7)
      by (auto simp: same_data_def)
  qed
  then show ?thesis using d' wire same by (simp add: Let_def)
qed

lemma flag_nameI:
  assumes "list_all bare_char var" "var \<noteq> []" "length var \<le> 400"
  shows "flag_name var"
proof -
  have "list_all bare_char ''SETFLAGS''" "list_all bare_char ''RW''" "list_all bare_char ''STRING''"
    "list_all bare_char ''NUMBER''" by code_simp+
  then show ?thesis
    using assms
    by (simp add: flag_name_def msg_ok_def msg_text_flags flag_words_def item_ok_def ST_SOCK_BUF_LEN_def
        PCONF_DEFAULT_WORDLEN_LIMIT_def)
qed

lemma demo_ctx_driver: "driver_ctx (demo_ctx [])"
  by (rule demo_transfer_ready(5))

lemma cleared_flags_stay_witness:
  "\<exists>d'. dstate_delflags demo_denv ''input.transfer.low'' ST_FLAG_RW demo_transfer = Inr d' \<and>
    (let u = the_ups (sstate_read_loop demo_os 0 (demo_server [] []) (wrote 7 demo_transfer d')) 0 in
     upsd_replica u = upsd_replica demo_ups \<and> \<not> agree d' (upsd_replica u))"
proof -
  have "list_all bare_char ''input.transfer.low''" by code_simp
  then have name: "flag_name ''input.transfer.low''" by (rule flag_nameI) simp_all
  have find: "state_tree_find (d_dtree_root demo_transfer) ''input.transfer.low'' = Some demo_node"
    by (simp add: demo_transfer_def)
  have flags: "shown_flags (n_flags demo_node) \<noteq> 0" "\<not> has_flag (n_flags demo_node) ST_FLAG_IMMUTABLE"
    "shown_flags (n_flags demo_node AND NOT ST_FLAG_RW) = 0"
    by (simp_all add: shown_flags_def flag_bits one_bit ST_FLAG_RW_def ST_FLAG_STRING_def ST_FLAG_NUMBER_def)
  show ?thesis
    using cleared_flags_stay [OF demo_dwrites demo_transfer_ready(1,3) find flags name, of 0 "demo_server [] []" demo_os]
      demo_transfer_ready(4) demo_ctx_driver by simp
qed

text \<open>A value with a quote is cut on the way: dstate_setinfo() broadcasts it between quotes
  without escaping, so upsd stores the part before the quote although the driver has the
  whole value.  A dump of the same variable sends it escaped.\<close>

theorem quoted_value_is_cut:
  assumes "dwrites DE" "drv_inv d" "count_list (listeners d) fd = 1"
    "state_tree_find (d_dtree_root d) var = None" "state_tree_find (u_inforoot (the_ups S i)) var = None"
    "list_all bare_char var" "var \<noteq> []" "length var \<le> 200"
    "list_all (\<lambda>c. word_char c \<and> \<not> pconf_escape c) a" "list_all (\<lambda>c. word_char c \<and> \<not> pconf_escape c) b"
    "length a + length b < 250"
    "i < length (sd_firstups S)" "driver_ctx (u_sock_ctx (the_ups S i))"
  shows "\<exists>d'. dstate_setinfo DE var (a @ [QUOTE] @ '' '' @ [QUOTE] @ b) d = Inr (d', 1) \<and>
    map_option n_raw (state_tree_find (d_dtree_root d') var) = Some (a @ [QUOTE] @ '' '' @ [QUOTE] @ b) \<and>
    (let u = the_ups (sstate_read_loop E i S (wrote fd d d')) i in
     map_option n_raw (state_tree_find (u_inforoot u) var) = Some a)"
proof -
  let ?val = "a @ [QUOTE] @ '' '' @ [QUOTE] @ b"
  let ?is = "[Bare ''SETINFO'', Bare var, Quoted a, Quoted b]"
  let ?t = "fst (state_setinfo (de_mono DE (d_tick d)) (d_dtree_root d) var ?val)"
  let ?d1 = "d\<lparr>d_tick := Suc (d_tick d), d_dtree_root := ?t\<rparr>"
  have "list_all bare_char ''SETINFO''" by code_simp
  then have fits: "line_fits (u_sock_ctx (the_ups S i)) ?is"
    using assms(6-11,13)
    by (auto simp: line_fits_def driver_ctx_def item_ok_def PCONF_DEFAULT_WORDLEN_LIMIT_def PCONF_DEFAULT_ARG_LIMIT_def list_all_iff)
  have plain: "escape a = a" "escape b = b"
    using assms(9,10) by (simp_all add: escape_plain list_all_iff)
  have line: "''SETINFO '' @ var @ '' '' @ [QUOTE] @ ?val @ [QUOTE, NL] = line_text ?is"
    by (simp add: plain)
  have val: "snprintf ST_MAX_VALUE_LEN ?val = ?val"
    using assms(11) by (intro snprintf_fits) (simp add: ST_MAX_VALUE_LEN_def)
  have ret: "snd (state_setinfo (de_mono DE (d_tick d)) (d_dtree_root d) var ?val) = 1"
    using assms(4) by (simp add: setinfo_ret)
  have inv: "drv_inv ?d1"
    using inv_root [OF assms(2) setinfo_wf [OF inv_parts(1) [OF assms(2)]]] by (simp add: drv_inv_def)
  have "send_to_all DE (line_text ?is) ?d1 = Inr (shouted (line_text ?is) ?d1)"
    by (rule send_to_all_posted [OF assms(1) inv_parts(4) [OF inv]]) simp
  then have run: "dstate_setinfo DE var ?val d = Inr (shouted (line_text ?is) ?d1, 1)"
    using ret unfolding dstate_setinfo_def setinfo_via_def val Let_def line
    by (cases "state_setinfo (de_mono DE (d_tick d)) (d_dtree_root d) var ?val")
      (simp add: dmono_def del: line_text.simps append.simps)
  have len: "length (line_text ?is) < ST_SOCK_BUF_LEN"
    using assms(8,11) by (simp add: plain ST_SOCK_BUF_LEN_def)
  have wire: "wrote fd d (shouted (line_text ?is) ?d1) = line_text ?is"
    by (rule shouted_wrote [OF assms(3) len]) simp_all
  obtain S1 where S1: "sd_firstups S1 = (sd_firstups S)[i := the_ups S1 i]"
    "upsd_replica (the_ups S1 i) = upsd_replica (the_ups S i)"
    "upsd_replica (the_ups (sstate_read_loop E i S (line_text ?is)) i) =
     upsd_replica (the_ups (fst (parse_args E i (map item_word ?is) S1)) i)"
    using read_line [OF assms(12) _ fits, of E] assms(13) by (auto simp: driver_ctx_def)
  have i1: "i < length (sd_firstups S1)" using S1(1) assms(12) by (metis length_list_update)
  have "\<exists>now. upsd_replica (the_ups (fst (parse_args E i (map item_word ?is) S1)) i) =
      msg_fx now (SetInfo var a) (upsd_replica (the_ups S1 i))"
    using i1 by (auto simp: parse_args_def Let_def ci_simps c_tolower_def on_inforoot_def do_mono_def the_ups_with_ups
        upsd_replica_def)
  then have "map_option n_raw (state_tree_find (u_inforoot (the_ups (sstate_read_loop E i S (line_text ?is)) i)) var) = Some a"
    using S1(2,3) assms(5) by (auto simp: upsd_replica_def find_setinfo)
  moreover have "map_option n_raw (state_tree_find ?t var) = Some ?val"
    using assms(4) by (simp add: find_setinfo)
  ultimately show ?thesis using run wire by (simp add: Let_def)
qed

lemma quoted_value_is_cut_witness:
  "\<exists>d'. dstate_setinfo demo_denv ''ups.mfr'' (''ACME'' @ [QUOTE] @ '' '' @ [QUOTE] @ ''Corp'') (demo_driver [demo_conn 1 7]) = Inr (d', 1) \<and>
    map_option n_raw (state_tree_find (d_dtree_root d') ''ups.mfr'') = Some (''ACME'' @ [QUOTE] @ '' '' @ [QUOTE] @ ''Corp'') \<and>
    (let u = the_ups (sstate_read_loop demo_os 0 (demo_server [] []) (wrote 7 (demo_driver [demo_conn 1 7]) d')) 0 in
     map_option n_raw (state_tree_find (u_inforoot u) ''ups.mfr'') = Some ''ACME'')"
proof (rule quoted_value_is_cut)
  show "state_tree_find (d_dtree_root (demo_driver [demo_conn 1 7])) ''ups.mfr'' = None" by code_simp
  show "state_tree_find (u_inforoot (the_ups (demo_server [] []) 0)) ''ups.mfr'' = None"
    by (simp add: ci_simps c_tolower_def)
  show "list_all bare_char ''ups.mfr''" by code_simp
  show "list_all (\<lambda>c. word_char c \<and> \<not> pconf_escape c) ''ACME''" by code_simp
  show "list_all (\<lambda>c. word_char c \<and> \<not> pconf_escape c) ''Corp''" by code_simp
qed (use demo_one_inv in \<open>simp_all add: listeners_def demo_ctx_driver\<close>)

section \<open>Lists of status words\<close>

text \<open>C32. The search of str_contains_token() is membership in the list of the words of the
  string: substrings of other words, before or after, are skipped and none is missed.\<close>

theorem contains_token_iff_word:
  assumes "SP \<notin> set token"
  shows "str_contains_token string token \<longleftrightarrow> token \<in> set (words string)"
  by (rule contains_token_word [OF assms])

lemma contains_token_iff_word_witness:
  "str_contains_token ''OLD LB OL'' ''OL'' \<longleftrightarrow> ''OL'' \<in> set (words ''OLD LB OL'')"
  by (rule contains_token_iff_word) simp

definition vetoed :: "dstatus \<Rightarrow> cstr \<Rightarrow> bool" where
  "vetoed s t \<longleftrightarrow> s_ignorelb s \<and> strcasecmp t ''LB'' = 0 \<or> strcasecmp t ''ALARM'' = 0"

lemma status_cb_spec:
  "cb_spec (Some status_set_callback)
     (\<lambda>t s. if \<not> (s_ignorelb s \<and> strcasecmp t ''LB'' = 0) \<and> strcasecmp t ''ALARM'' = 0
            then s\<lparr>s_alarm_legacy_status := True\<rparr> else s) (\<lambda>t s. \<not> vetoed s t)"
  by (auto simp: cb_spec_def run_cb_def status_set_callback_def vetoed_def)

text \<open>status_set() with one or several words, when there is room: the words of the status
  that was collected, then every new word once and in order, except LB while it is ignored
  and ALARM, which only raises the flag for status_commit().\<close>

theorem status_set_adds_words:
  assumes "length (s_status_buf (d_status d)) + length buf + 3 \<le> ST_MAX_VALUE_LEN"
  shows "words (s_status_buf (d_status (status_set buf d))) =
      add_new (words (s_status_buf (d_status d))) (filter (\<lambda>t. \<not> vetoed (d_status d) t) (words buf)) \<and>
    s_alarm_legacy_status (d_status (status_set buf d)) =
      (s_alarm_legacy_status (d_status d) \<or> list_ex (\<lambda>t. strcasecmp t ''ALARM'' = 0) (words buf))"
proof -
  let ?s = "d_status d"
  let ?u = "\<lambda>t s. if \<not> (s_ignorelb s \<and> strcasecmp t ''LB'' = 0) \<and> strcasecmp t ''ALARM'' = 0
            then s\<lparr>s_alarm_legacy_status := True\<rparr> else s"
  obtain tgt r where run: "str_add_unique_token (Some status_set_callback) None ST_MAX_VALUE_LEN buf (s_status_buf ?s, ?s) =
      ((tgt, fold ?u (words buf) ?s), r)"
    "words tgt = add_new (words (s_status_buf ?s)) (filter (\<lambda>t. \<not> vetoed ?s t) (words buf))"
    using add_unique_words [OF status_cb_spec assms, of ?s] by auto
  have differ: "strcasecmp t ''LB'' \<noteq> 0" if "strcasecmp t ''ALARM'' = 0" for t
    using that by (auto simp: ci_simps c_tolower_def)
  have "s_alarm_legacy_status (fold ?u ws s) = (s_alarm_legacy_status s \<or> list_ex (\<lambda>t. strcasecmp t ''ALARM'' = 0) ws)" for ws s
    using differ by (induction ws arbitrary: s) auto
  then show ?thesis
    using run by (simp add: status_set_def upd_status_def)
qed

lemma status_set_adds_words_witness:
  "words (s_status_buf (d_status (status_set ''OB LB OB'' (demo_driver [])))) = [''OB'', ''LB''] \<and>
   \<not> s_alarm_legacy_status (d_status (status_set ''OB LB OB'' (demo_driver [])))"
proof -
  have room: "length (s_status_buf (d_status (demo_driver []))) + length ''OB LB OB'' + 3 \<le> ST_MAX_VALUE_LEN"
    by (simp add: demo_driver_def ST_MAX_VALUE_LEN_def)
  have w: "words ''OB LB OB'' = [''OB'', ''LB'', ''OB'']" by code_simp
  have v: "\<not> vetoed (d_status (demo_driver [])) ''OB''" "\<not> vetoed (d_status (demo_driver [])) ''LB''" by code_simp+
  have a: "strcasecmp ''OB'' ''ALARM'' \<noteq> 0" "strcasecmp ''LB'' ''ALARM'' \<noteq> 0" by code_simp+
  have s: "s_status_buf (d_status (demo_driver [])) = []" "\<not> s_alarm_legacy_status (d_status (demo_driver []))"
    by (simp_all add: demo_driver_def)
  show ?thesis
    using status_set_adds_words [OF room] by (simp add: w v a s)
qed

text \<open>A token that exactly fills the buffer is accepted, loses its last character and is
  reported as added.\<close>

theorem filling_token_is_cut:
  assumes "tgt \<noteq> []" "SP \<notin> set token" "token \<noteq> []" "token \<notin> set (words tgt)"
    "length tgt + length token + 2 = sz"
  shows "str_add_unique_token None None sz token (tgt, x) = ((tgt @ '' '' @ butlast token, x), 1)"
proof -
  have "snprintfcat tgt sz ('' '' @ token) = tgt @ '' '' @ butlast token"
    using assms(3,5) by (cases "length token") (auto simp: snprintfcat_def Let_def butlast_conv_take take_Cons')
  then show ?thesis
    using assms by (simp add: str_add_unique_token_def strstr_space add_single_token_def run_cb_def contains_token_word)
qed

lemma filling_token_is_cut_witness:
  "str_add_unique_token None None 8 ''ABCD'' (''OL'', ()) = ((''OL ABC'', ()), 1)"
proof -
  have w: "''ABCD'' \<notin> set (words ''OL'')" by code_simp
  show ?thesis using filling_token_is_cut [of "''OL''" "''ABCD''" 8 "()"] w by simp
qed

end
