(* ===== verification/UpsmonTokens.thy ===== *)
theory UpsmonTokens
  imports DriverState
begin

text \<open>
  The tree of unknown status words that clients/upsmon.c keeps for every UPS
  (status_tokens): entries of common/state.c, but pruned by a loop of upsmon's own that
  writes the pointers of the nodes.  So the nodes are a heap here: an address that is not
  in it has been freed, and following it is the fault Freed_access.  A walk along pointers
  that is longer than the heap allows does not end (Endless).
\<close>

record tok_node =
  t_var :: cstr
  t_lastset :: int
  t_left :: "nat option"
  t_right :: "nat option"

type_synonym tok_heap = "nat \<Rightarrow> tok_node option"

record tokens =
  t_heap :: tok_heap
  t_next :: nat
  t_root :: "nat option"

definition no_tokens :: tokens where
  "no_tokens = \<lparr>t_heap = (\<lambda>a. None), t_next = 0, t_root = None\<rparr>"

definition tok_at :: "tok_heap \<Rightarrow> nat \<Rightarrow> fault + tok_node" where
  "tok_at h a = (case h a of None \<Rightarrow> Inl Freed_access | Some n \<Rightarrow> Inr n)"

definition tok_write :: "nat option \<Rightarrow> (tok_node \<Rightarrow> tok_node) \<Rightarrow> tok_heap \<Rightarrow> fault + tok_heap" where
  "tok_write p f h =
     (case p of None \<Rightarrow> Inr h | Some a \<Rightarrow> and_then (tok_at h a) (\<lambda>n. Inr (h(a \<mapsto> f n))))"

section \<open>state_tree_find(), state_setinfo() and state_infofree() on the nodes\<close>

fun tok_find :: "nat \<Rightarrow> tok_heap \<Rightarrow> cstr \<Rightarrow> nat option \<Rightarrow> fault + nat option" where
  "tok_find fuel h var None = Inr None"
| "tok_find 0 h var (Some a) = Inl Endless"
| "tok_find (Suc fuel) h var (Some a) = and_then (tok_at h a) (\<lambda>n.
     if 0 < strcasecmp (t_var n) var then tok_find fuel h var (t_left n)
     else if strcasecmp (t_var n) var < 0 then tok_find fuel h var (t_right n)
     else Inr (Some a))"

text \<open>
  The value is always "1", so an entry that is there only gets a new timestamp.  The result
  holds what the pointer to the subtree is afterwards; a is the address of a new node.
\<close>

fun tok_set :: "nat \<Rightarrow> int \<Rightarrow> nat \<Rightarrow> tok_heap \<Rightarrow> cstr \<Rightarrow> nat option \<Rightarrow> fault + tok_heap \<times> nat" where
  "tok_set fuel now new h var None =
     Inr (h(new \<mapsto> \<lparr>t_var = var, t_lastset = now, t_left = None, t_right = None\<rparr>), new)"
| "tok_set 0 now new h var (Some a) = Inl Endless"
| "tok_set (Suc fuel) now new h var (Some a) = and_then (tok_at h a) (\<lambda>n.
     if 0 < strcasecmp (t_var n) var then
       and_then (tok_set fuel now new h var (t_left n)) (\<lambda>(h, p).
         and_then (tok_write (Some a) (\<lambda>n. n\<lparr>t_left := Some p\<rparr>) h) (\<lambda>h. Inr (h, a)))
     else if strcasecmp (t_var n) var < 0 then
       and_then (tok_set fuel now new h var (t_right n)) (\<lambda>(h, p).
         and_then (tok_write (Some a) (\<lambda>n. n\<lparr>t_right := Some p\<rparr>) h) (\<lambda>h. Inr (h, a)))
     else Inr (h(a \<mapsto> n\<lparr>t_lastset := now\<rparr>), a))"

fun tok_free :: "nat \<Rightarrow> tok_heap \<Rightarrow> nat option \<Rightarrow> fault + tok_heap" where
  "tok_free fuel h None = Inr h"
| "tok_free 0 h (Some a) = Inl Endless"
| "tok_free (Suc fuel) h (Some a) = and_then (tok_at h a) (\<lambda>n.
     and_then (tok_free fuel h (t_left n)) (\<lambda>h.
       and_then (tok_at h a) (\<lambda>n.
         and_then (tok_free fuel h (t_right n)) (\<lambda>h.
           and_then (tok_at h a) (\<lambda>n. Inr (h(a := None)))))))"

definition walk_fuel :: "tokens \<Rightarrow> nat" where
  "walk_fuel s = Suc (t_next s)"

section \<open>One unknown word\<close>

text \<open>The flag says whether the word is new.\<close>

definition tok_note :: "int \<Rightarrow> cstr \<Rightarrow> tokens \<Rightarrow> fault + tokens \<times> bool" where
  "tok_note now word s =
     and_then (tok_find (walk_fuel s) (t_heap s) word (t_root s)) (\<lambda>sttmp.
       case sttmp of
         Some a \<Rightarrow> and_then (tok_write (Some a) (\<lambda>n. n\<lparr>t_lastset := now\<rparr>) (t_heap s))
                    (\<lambda>h. Inr (s\<lparr>t_heap := h\<rparr>, False))
       | None \<Rightarrow> and_then (tok_set (walk_fuel s) now (t_next s) (t_heap s) word (t_root s))
                    (\<lambda>(h, root). Inr (s\<lparr>t_heap := h, t_next := Suc (t_next s), t_root := Some root\<rparr>, True)))"

section \<open>Words that have disappeared\<close>

fun tok_leftmost :: "nat \<Rightarrow> tok_heap \<Rightarrow> nat \<Rightarrow> fault + nat" where
  "tok_leftmost 0 h a = Inl Endless"
| "tok_leftmost (Suc fuel) h a = and_then (tok_at h a) (\<lambda>n.
     case t_left n of None \<Rightarrow> Inr a | Some l \<Rightarrow> tok_leftmost fuel h l)"

text \<open>The unlinking of one node, as upsmon does it: the parent is not touched.\<close>

definition tok_unlink :: "nat \<Rightarrow> tok_node \<Rightarrow> tokens \<Rightarrow> fault + tokens" where
  "tok_unlink a n s =
     and_then (tok_write (t_right n) (\<lambda>r. r\<lparr>t_left := t_left n\<rparr>) (t_heap s)) (\<lambda>h.
       and_then (tok_write (t_left n) (\<lambda>l. l\<lparr>t_right := t_right n\<rparr>) h) (\<lambda>h.
         Inr (s\<lparr>t_heap := h(a := None),
               t_root := (if t_root s = Some a
                          then (if t_left n \<noteq> None then t_left n else t_right n) else t_root s)\<rparr>)))"

text \<open>The walk to the right: the number of words that have disappeared is returned too.\<close>

fun tok_prune :: "nat \<Rightarrow> int \<Rightarrow> nat option \<Rightarrow> nat \<Rightarrow> tokens \<Rightarrow> fault + tokens \<times> nat" where
  "tok_prune fuel start None gone s = Inr (s, gone)"
| "tok_prune 0 start (Some a) gone s = Inl Endless"
| "tok_prune (Suc fuel) start (Some a) gone s = and_then (tok_at (t_heap s) a) (\<lambda>n.
     if t_lastset n < start then
       and_then (tok_unlink a n s) (\<lambda>s. tok_prune fuel start (t_right n) (gone + 1) s)
     else tok_prune fuel start (t_right n) gone s)"

definition tok_evict :: "int \<Rightarrow> tokens \<Rightarrow> fault + tokens \<times> nat" where
  "tok_evict start s =
     (case t_root s of None \<Rightarrow> Inr (s, 0)
      | Some root \<Rightarrow> and_then (tok_leftmost (walk_fuel s) (t_heap s) root)
          (\<lambda>a. tok_prune (walk_fuel s * walk_fuel s) start (Some a) 0 s))"

definition tok_drop :: "tokens \<Rightarrow> fault + tokens" where
  "tok_drop s = and_then (tok_free (walk_fuel s) (t_heap s) (t_root s)) (\<lambda>h.
     Inr (s\<lparr>t_heap := h, t_root := None\<rparr>))"

end
