(* ===== verification/UpsClient.thy ===== *)
theory UpsClient
  imports ParseConf
begin

unbundle bit_operations_syntax

text \<open>
  clients/upsclient.c: the library every client of upsd uses.  A connection is UPSCONN_t
  and the network is outside the model: the record net gives, for a state of the network,
  what select() with read() or write(), getaddrinfo() and connect() answer, and the next
  state.  Calls that are simply repeated (EAI_AGAIN, EINTR, EAGAIN) give the answer that
  ends the repetition.  The build is the one without SSL.

  A request is answered by the words of a line; a routine that looks at a word the answer
  does not have reads past the array of words, which is CliBeyond here.
\<close>

section \<open>The network\<close>

datatype rd_result = RdError int | RdBytes cstr

datatype gai_result = GaiAddrs "nat list" | GaiNoname | GaiMemory | GaiSystem int | GaiOther

datatype dial_result = NoFamily | SockError int | DialNoFamily int | DialError int int | DialTimeout int | DialOk int

datatype family = AF_UNSPEC | AF_INET | AF_INET6

record 'n net =
  nt_write :: "'n \<Rightarrow> int \<Rightarrow> cstr \<Rightarrow> 'n \<times> int"
  nt_errno :: "'n \<Rightarrow> int"
  nt_read :: "'n \<Rightarrow> int \<Rightarrow> nat \<Rightarrow> 'n \<times> rd_result"
  nt_resolve :: "'n \<Rightarrow> cstr \<Rightarrow> cstr \<Rightarrow> family \<Rightarrow> 'n \<times> gai_result"
  nt_dial :: "'n \<Rightarrow> nat \<Rightarrow> 'n \<times> dial_result"
  nt_close :: "'n \<Rightarrow> int \<Rightarrow> 'n"
  nt_timeout :: bool
  nt_strerror :: "int \<Rightarrow> cstr"

section \<open>Constants\<close>

definition UPSCLI_NETBUF_LEN :: nat where "UPSCLI_NETBUF_LEN = 512"
definition UPSCLI_ERRBUF_LEN :: nat where "UPSCLI_ERRBUF_LEN = 256"
definition CLI_SMALLBUF :: nat where "CLI_SMALLBUF = 512"
definition CLI_PORT :: nat where "CLI_PORT = 3493"
definition ETIMEDOUT :: int where "ETIMEDOUT = 110"

definition UPSCLI_CONN_TRYSSL :: "32 word" where "UPSCLI_CONN_TRYSSL = 0x0001"
definition UPSCLI_CONN_REQSSL :: "32 word" where "UPSCLI_CONN_REQSSL = 0x0002"
definition UPSCLI_CONN_INET :: "32 word" where "UPSCLI_CONN_INET = 0x0004"
definition UPSCLI_CONN_INET6 :: "32 word" where "UPSCLI_CONN_INET6 = 0x0008"
definition UPSCLI_CONN_CERTVERIF :: "32 word" where "UPSCLI_CONN_CERTVERIF = 0x0010"

definition UPSCLI_ERR_NONE :: int where "UPSCLI_ERR_NONE = -1"
definition UPSCLI_ERR_UNKNOWN :: int where "UPSCLI_ERR_UNKNOWN = 0"
definition UPSCLI_ERR_NOSUCHHOST :: int where "UPSCLI_ERR_NOSUCHHOST = 2"
definition UPSCLI_ERR_UNKNOWNUPS :: int where "UPSCLI_ERR_UNKNOWNUPS = 4"
definition UPSCLI_ERR_UNKCOMMAND :: int where "UPSCLI_ERR_UNKCOMMAND = 25"
definition UPSCLI_ERR_INVALIDARG :: int where "UPSCLI_ERR_INVALIDARG = 26"
definition UPSCLI_ERR_SOCKFAILURE :: int where "UPSCLI_ERR_SOCKFAILURE = 29"
definition UPSCLI_ERR_CONNFAILURE :: int where "UPSCLI_ERR_CONNFAILURE = 31"
definition UPSCLI_ERR_WRITE :: int where "UPSCLI_ERR_WRITE = 32"
definition UPSCLI_ERR_READ :: int where "UPSCLI_ERR_READ = 33"
definition UPSCLI_ERR_SSLFAIL :: int where "UPSCLI_ERR_SSLFAIL = 36"
definition UPSCLI_ERR_SRVDISC :: int where "UPSCLI_ERR_SRVDISC = 38"
definition UPSCLI_ERR_DRVNOTCONN :: int where "UPSCLI_ERR_DRVNOTCONN = 39"
definition UPSCLI_ERR_NOMEM :: int where "UPSCLI_ERR_NOMEM = 40"
definition UPSCLI_ERR_PARSE :: int where "UPSCLI_ERR_PARSE = 41"
definition UPSCLI_ERR_PROTOCOL :: int where "UPSCLI_ERR_PROTOCOL = 42"
definition UPSCLI_ERR_MAX :: int where "UPSCLI_ERR_MAX = 42"

text \<open>upscli_errlist: how each error is shown.\<close>

definition upscli_errlist :: "(int \<times> cstr) list" where
  "upscli_errlist = [
     (0, ''Unknown error''), (0, ''Variable not supported by UPS''), (0, ''No such host''),
     (0, ''Invalid response from server''), (0, ''Unknown UPS''), (0, ''Invalid list type''),
     (0, ''Access denied''), (0, ''Password required''), (0, ''Password incorrect''),
     (0, ''Missing argument''), (0, ''Data stale''), (0, ''Variable unknown''),
     (0, ''Already logged in''), (0, ''Already set password''), (0, ''Unknown variable type''),
     (0, ''Unknown variable''), (0, ''Read-only variable''), (0, ''New value is too long''),
     (0, ''Invalid value for variable''), (0, ''Set command failed''),
     (0, ''Unknown instant command''), (0, ''Instant command failed''),
     (0, ''Instant command not supported''), (0, ''Invalid username''),
     (0, ''Already set username''), (0, ''Unknown command''), (0, ''Invalid argument''),
     (1, ''Send failure: ''), (1, ''Receive failure: ''), (1, ''socket failure: ''),
     (1, ''bind failure: ''), (1, ''Connection failure: ''), (1, ''Write error: ''),
     (1, ''Read error: ''), (0, ''Invalid password''), (0, ''Username required''),
     (0, ''SSL is not available''), (2, ''SSL error: ''), (0, ''Server disconnected''),
     (0, ''Driver not connected''), (0, ''Memory allocation failure''), (3, ''Parse error: ''),
     (0, ''Protocol error'')]"

text \<open>upsd_errlist: the errors of upsd as numbers of the library.\<close>

definition upsd_errlist :: "(int \<times> cstr) list" where
  "upsd_errlist = [
     (1, ''VAR-NOT-SUPPORTED''), (4, ''UNKNOWN-UPS''), (6, ''ACCESS-DENIED''),
     (7, ''PASSWORD-REQUIRED''), (8, ''PASSWORD-INCORRECT''), (9, ''MISSING-ARGUMENT''),
     (10, ''DATA-STALE''), (11, ''VAR-UNKNOWN''), (12, ''ALREADY-LOGGED-IN''),
     (13, ''ALREADY-SET-PASSWORD''), (14, ''UNKNOWN-TYPE''), (15, ''UNKNOWN-VAR''),
     (16, ''READONLY''), (17, ''TOO-LONG''), (18, ''INVALID-VALUE''), (19, ''SET-FAILED''),
     (20, ''UNKNOWN-INSTCMD''), (21, ''INSTCMD-FAILED''), (22, ''CMD-NOT-SUPPORTED''),
     (23, ''INVALID-USERNAME''), (24, ''ALREADY-SET-USERNAME''), (25, ''UNKNOWN-COMMAND''),
     (34, ''INVALID-PASSWORD''), (35, ''USERNAME-REQUIRED''), (39, ''DRIVER-NOT-CONNECTED'')]"

section \<open>A connection\<close>

record upsconn =
  uc_host :: "cstr option"
  uc_port :: nat
  uc_fd :: int
  uc_upserror :: int
  uc_syserrno :: int
  uc_magic :: bool
  uc_pc_ctx :: pconf_ctx
  uc_readbuf :: cstr

datatype 'a cli = CliErr | CliBeyond | CliOk 'a

text \<open>A context of zero bytes, and a connection cleared by memset() with its magic set.\<close>

definition cli_zero_ctx :: pconf_ctx where
  "cli_zero_ctx = \<lparr>pc_f = None, pc_state = ST_FINDWORDSTART, pc_ch = 0, pc_arglist = [], pc_argsize = [],
     pc_numargs = 0, pc_maxargs = 0, pc_wordbuf = [], pc_wordbufsize = 0, pc_linenum = 0,
     pc_error = False, pc_errmsg = [], pc_magic = 0, pc_arg_limit = 0, pc_wordlen_limit = 0\<rparr>"

definition zero_conn :: upsconn where
  "zero_conn = \<lparr>uc_host = None, uc_port = 0, uc_fd = 0, uc_upserror = 0, uc_syserrno = 0,
     uc_magic = False, uc_pc_ctx = cli_zero_ctx, uc_readbuf = []\<rparr>"

definition fresh_conn :: upsconn where
  "fresh_conn = zero_conn\<lparr>uc_magic := True, uc_fd := -1\<rparr>"

definition cli_fail :: "int \<Rightarrow> upsconn \<Rightarrow> upsconn" where
  "cli_fail e u = u\<lparr>uc_upserror := e\<rparr>"

definition upscli_fd :: "upsconn \<Rightarrow> int" where
  "upscli_fd u = (if uc_magic u then uc_fd u else -1)"

definition upscli_upserror :: "upsconn \<Rightarrow> int" where
  "upscli_upserror u = (if uc_magic u then uc_upserror u else -1)"

text \<open>upscli_strerror(): strerror() of the system is nt_strerror.\<close>

definition upscli_strerror :: "'n net \<Rightarrow> upsconn \<Rightarrow> cstr" where
  "upscli_strerror N u =
     (if \<not> uc_magic u then snd (upscli_errlist ! nat UPSCLI_ERR_INVALIDARG)
      else if uc_upserror u > UPSCLI_ERR_MAX then ''Invalid error number''
      else
        (let (flags, str) = upscli_errlist ! nat (uc_upserror u) in
         if flags = 0 then str
         else if flags = 1 then snprintf UPSCLI_ERRBUF_LEN (str @ nt_strerror N (uc_syserrno u))
         else if flags = 2 then
           snprintf UPSCLI_ERRBUF_LEN ''SSL error, but SSL wasn't enabled at compile-time''
         else if flags = 3 then snprintf UPSCLI_ERRBUF_LEN (str @ pc_errmsg (uc_pc_ctx u))
         else snprintf UPSCLI_ERRBUF_LEN (''Unknown error flag '' @ show_int flags)))"

section \<open>Reading and writing\<close>

definition net_write :: "'n net \<Rightarrow> upsconn \<Rightarrow> 'n \<Rightarrow> cstr \<Rightarrow> upsconn \<times> 'n \<times> int" where
  "net_write N u n buf =
     (case nt_write N n (uc_fd u) buf of (n, ret) \<Rightarrow>
        (if ret < 0 then u\<lparr>uc_upserror := UPSCLI_ERR_WRITE, uc_syserrno := nt_errno N n\<rparr>
         else if ret = 0 then cli_fail UPSCLI_ERR_SRVDISC u else u, n, ret))"

definition net_read :: "'n net \<Rightarrow> upsconn \<Rightarrow> 'n \<Rightarrow> nat \<Rightarrow> upsconn \<times> 'n \<times> cstr option" where
  "net_read N u n buflen =
     (case nt_read N n (uc_fd u) buflen of
        (n, RdError e) \<Rightarrow> (u\<lparr>uc_upserror := UPSCLI_ERR_READ, uc_syserrno := e\<rparr>, n, None)
      | (n, RdBytes bs) \<Rightarrow>
          (if bs = [] then (cli_fail UPSCLI_ERR_SRVDISC u, n, None) else (u, n, Some bs)))"

definition upscli_disconnect :: "'n net \<Rightarrow> upsconn \<Rightarrow> 'n \<Rightarrow> upsconn \<times> 'n" where
  "upscli_disconnect N u n =
     (if \<not> uc_magic u then (u, n)
      else
        (let u = u\<lparr>uc_pc_ctx := pconf_finish (uc_pc_ctx u), uc_host := None\<rparr> in
         if uc_fd u < 0 then (u, n)
         else
           (case net_write N u n (''LOGOUT'' @ [NL]) of (u, n, ret) \<Rightarrow>
              (u\<lparr>uc_fd := -1\<rparr>, nt_close N n (uc_fd u)))))"

text \<open>The result says whether the line was sent.\<close>

definition upscli_sendline :: "'n net \<Rightarrow> upsconn \<Rightarrow> 'n \<Rightarrow> cstr \<Rightarrow> upsconn \<times> 'n \<times> bool" where
  "upscli_sendline N u n buf =
     (if uc_fd u < 0 then (cli_fail UPSCLI_ERR_DRVNOTCONN u, n, False)
      else if length buf < 1 then (cli_fail UPSCLI_ERR_INVALIDARG u, n, False)
      else if \<not> uc_magic u then (cli_fail UPSCLI_ERR_INVALIDARG u, n, False)
      else case net_write N u n buf of (u, n, ret) \<Rightarrow>
        (if ret < 1 then (case upscli_disconnect N u n of (u, n) \<Rightarrow> (u, n, False))
         else (u, n, True)))"

text \<open>
  The loop of upscli_readline(): room for that many characters is left in buf.  The bytes
  of readbuf that have not been taken yet are kept for the next line.
\<close>

definition READBUF_LEN :: nat where "READBUF_LEN = 64"

fun readline_loop :: "'n net \<Rightarrow> nat \<Rightarrow> cstr \<Rightarrow> upsconn \<Rightarrow> 'n \<Rightarrow> upsconn \<times> 'n \<times> cstr option" where
  "readline_loop N 0 buf u n = (u, n, Some buf)"
| "readline_loop N (Suc room) buf u n =
     (case (if uc_readbuf u = [] then net_read N u n READBUF_LEN else (u, n, Some (uc_readbuf u))) of
        (u, n, None) \<Rightarrow> (case upscli_disconnect N u n of (u, n) \<Rightarrow> (u, n, None))
      | (u, n, Some bs) \<Rightarrow>
          (let c = hd bs; u = u\<lparr>uc_readbuf := tl bs\<rparr> in
           if c = NL then (u, n, Some buf) else readline_loop N room (buf @ [c]) u n))"

text \<open>What the caller sees of the buffer is the string up to the first null byte.\<close>

definition as_string :: "cstr \<Rightarrow> cstr" where
  "as_string s = takeWhile (\<lambda>c. c \<noteq> CHR 0x00) s"

definition upscli_readline :: "'n net \<Rightarrow> upsconn \<Rightarrow> 'n \<Rightarrow> nat \<Rightarrow> upsconn \<times> 'n \<times> cstr option" where
  "upscli_readline N u n buflen =
     (if uc_fd u < 0 then (cli_fail UPSCLI_ERR_DRVNOTCONN u, n, None)
      else if buflen < 1 then (cli_fail UPSCLI_ERR_INVALIDARG u, n, None)
      else if \<not> uc_magic u then (cli_fail UPSCLI_ERR_INVALIDARG u, n, None)
      else case readline_loop N (buflen - 1) [] u n of
        (u, n, line) \<Rightarrow> (u, n, map_option as_string line))"

section \<open>Requests and answers\<close>

text \<open>upscli_errcheck(): whether the answer is no error; an error sets upserror.\<close>

definition err_lookup :: "cstr \<Rightarrow> int" where
  "err_lookup text =
     (case List.find (\<lambda>(num, t). strneq text t (length t)) upsd_errlist of
        Some (num, t) \<Rightarrow> num | None \<Rightarrow> UPSCLI_ERR_UNKNOWN)"

definition upscli_errcheck :: "upsconn \<Rightarrow> cstr \<Rightarrow> upsconn \<times> bool" where
  "upscli_errcheck u buf =
     (if \<not> strneq buf ''ERR'' 3 then (u, True) else (cli_fail (err_lookup (drop 4 buf)) u, False))"

definition cmd_arg :: "cstr \<Rightarrow> cstr" where
  "cmd_arg arg =
     (let enc = pconf_encode arg UPSCLI_NETBUF_LEN in
      if CHR '' '' \<in> set arg then CHR '' '' # QUOTE # enc @ [QUOTE] else CHR '' '' # enc)"

definition build_cmd :: "nat \<Rightarrow> cstr \<Rightarrow> cstr list \<Rightarrow> cstr" where
  "build_cmd bufsize cmdname args =
     (let buf = foldl (\<lambda>buf arg. snprintfcat buf bufsize (cmd_arg arg)) (snprintf bufsize cmdname) args
      in buf @ snprintf (bufsize - length buf) [NL])"

text \<open>
  verify_resp(): the words of the answer against those of the request; the answer is the
  array from its first word on, which need not be long enough.
\<close>

fun verify_resp :: "cstr list \<Rightarrow> cstr list \<Rightarrow> bool cli" where
  "verify_resp [] a = CliOk True"
| "verify_resp (w # q) [] = CliBeyond"
| "verify_resp (w # q) (v # a) = (if strcasecmp w v \<noteq> 0 then CliOk False else verify_resp q a)"

text \<open>A request line sent and the line that answers it, unless that is an error.\<close>

definition ask :: "'n net \<Rightarrow> upsconn \<Rightarrow> 'n \<Rightarrow> cstr \<Rightarrow> cstr list \<Rightarrow> upsconn \<times> 'n \<times> cstr option" where
  "ask N u n verb query =
     (case upscli_sendline N u n (build_cmd UPSCLI_NETBUF_LEN verb query) of
        (u, n, False) \<Rightarrow> (u, n, None)
      | (u, n, True) \<Rightarrow>
          (case upscli_readline N u n UPSCLI_NETBUF_LEN of
             (u, n, None) \<Rightarrow> (u, n, None)
           | (u, n, Some tmp) \<Rightarrow>
               (case upscli_errcheck u tmp of
                  (u, False) \<Rightarrow> (u, n, None) | (u, True) \<Rightarrow> (u, n, Some tmp))))"

text \<open>pconf_line() on the answer.\<close>

definition parse_answer :: "upsconn \<Rightarrow> cstr \<Rightarrow> upsconn \<times> bool" where
  "parse_answer u tmp =
     (case pconf_line (uc_pc_ctx u) tmp of (ctx, ok) \<Rightarrow>
        (let u = u\<lparr>uc_pc_ctx := ctx\<rparr> in (if ok then u else cli_fail UPSCLI_ERR_PARSE u, ok)))"

text \<open>
  The result of upscli_get() is numa and answer: the number of words and the array of the
  parser, which may have more entries, left from earlier answers.
\<close>

definition upscli_get ::
    "'n net \<Rightarrow> upsconn \<Rightarrow> 'n \<Rightarrow> cstr list \<Rightarrow> upsconn \<times> 'n \<times> (nat \<times> cstr list) cli" where
  "upscli_get N u n query =
     (if length query < 1 then (cli_fail UPSCLI_ERR_INVALIDARG u, n, CliErr)
      else case ask N u n ''GET'' query of
        (u, n, None) \<Rightarrow> (u, n, CliErr)
      | (u, n, Some tmp) \<Rightarrow>
          (case parse_answer u tmp of
             (u, False) \<Rightarrow> (u, n, CliErr)
           | (u, True) \<Rightarrow>
               (let ctx = uc_pc_ctx u in
                if pc_numargs ctx < length query then (cli_fail UPSCLI_ERR_PROTOCOL u, n, CliErr)
                else case verify_resp query (pc_arglist ctx) of
                  CliOk True \<Rightarrow> (u, n, CliOk (pc_numargs ctx, pc_arglist ctx))
                | CliOk False \<Rightarrow> (cli_fail UPSCLI_ERR_PROTOCOL u, n, CliErr)
                | _ \<Rightarrow> (u, n, CliBeyond))))"

definition upscli_list_start :: "'n net \<Rightarrow> upsconn \<Rightarrow> 'n \<Rightarrow> cstr list \<Rightarrow> upsconn \<times> 'n \<times> unit cli" where
  "upscli_list_start N u n query =
     (if length query < 1 then (cli_fail UPSCLI_ERR_INVALIDARG u, n, CliErr)
      else case ask N u n ''LIST'' query of
        (u, n, None) \<Rightarrow> (u, n, CliErr)
      | (u, n, Some tmp) \<Rightarrow>
          (case parse_answer u tmp of
             (u, False) \<Rightarrow> (u, n, CliErr)
           | (u, True) \<Rightarrow>
               (let ctx = uc_pc_ctx u; a = pc_arglist ctx in
                if pc_numargs ctx < 2 then (cli_fail UPSCLI_ERR_PROTOCOL u, n, CliErr)
                else if strcasecmp (a ! 0) ''BEGIN'' \<noteq> 0 \<or> strcasecmp (a ! 1) ''LIST'' \<noteq> 0
                then (cli_fail UPSCLI_ERR_PROTOCOL u, n, CliErr)
                else case verify_resp query (drop 2 a) of
                  CliOk True \<Rightarrow> (u, n, CliOk ())
                | CliOk False \<Rightarrow> (cli_fail UPSCLI_ERR_PROTOCOL u, n, CliErr)
                | _ \<Rightarrow> (u, n, CliBeyond))))"

text \<open>upscli_list_next(): the flag says whether the line is a part of the list or its end.\<close>

definition upscli_list_next ::
    "'n net \<Rightarrow> upsconn \<Rightarrow> 'n \<Rightarrow> cstr list \<Rightarrow> upsconn \<times> 'n \<times> (bool \<times> nat \<times> cstr list) cli" where
  "upscli_list_next N u n query =
     (case upscli_readline N u n UPSCLI_NETBUF_LEN of
        (u, n, None) \<Rightarrow> (u, n, CliErr)
      | (u, n, Some tmp) \<Rightarrow>
          (case upscli_errcheck u tmp of
             (u, False) \<Rightarrow> (u, n, CliErr)
           | (u, True) \<Rightarrow>
               (case parse_answer u tmp of
                  (u, False) \<Rightarrow> (u, n, CliErr)
                | (u, True) \<Rightarrow>
                    (let ctx = uc_pc_ctx u; a = pc_arglist ctx; numa = pc_numargs ctx in
                     if numa < 1 then (cli_fail UPSCLI_ERR_PROTOCOL u, n, CliErr)
                     else if 2 \<le> numa \<and> a ! 0 = ''END'' \<and> a ! 1 = ''LIST''
                     then (u, n, CliOk (False, numa, a))
                     else case verify_resp query a of
                       CliOk True \<Rightarrow> (u, n, CliOk (True, numa, a))
                     | CliOk False \<Rightarrow> (cli_fail UPSCLI_ERR_PROTOCOL u, n, CliErr)
                     | _ \<Rightarrow> (u, n, CliBeyond)))))"

section \<open>Connecting\<close>

text \<open>
  The loop of upscli_tryconnect() over the addresses; nt_timeout says whether the caller
  gave a timeout.
\<close>

fun try_addrs :: "'n net \<Rightarrow> nat list \<Rightarrow> upsconn \<Rightarrow> 'n \<Rightarrow> upsconn \<times> 'n" where
  "try_addrs N [] u n = (u, n)"
| "try_addrs N (ai # res) u n =
     (let failed = (\<lambda>fd u n.
        (let n = nt_close N n fd in
         if nt_timeout N \<and> uc_upserror u = UPSCLI_ERR_CONNFAILURE \<and> uc_syserrno u = ETIMEDOUT
         then (u, n) else try_addrs N res u n))
      in case nt_dial N n ai of
        (n, NoFamily) \<Rightarrow> try_addrs N res u n
      | (n, SockError e) \<Rightarrow> try_addrs N res (u\<lparr>uc_upserror := UPSCLI_ERR_SOCKFAILURE, uc_syserrno := e\<rparr>) n
      | (n, DialNoFamily fd) \<Rightarrow> failed fd u n
      | (n, DialError fd e) \<Rightarrow> failed fd (u\<lparr>uc_upserror := UPSCLI_ERR_CONNFAILURE, uc_syserrno := e\<rparr>) n
      | (n, DialTimeout fd) \<Rightarrow>
          failed fd (u\<lparr>uc_upserror := UPSCLI_ERR_CONNFAILURE, uc_syserrno := ETIMEDOUT\<rparr>) n
      | (n, DialOk fd) \<Rightarrow> (u\<lparr>uc_fd := fd, uc_upserror := 0, uc_syserrno := 0\<rparr>, n))"

definition conn_family :: "32 word \<Rightarrow> family" where
  "conn_family flags =
     (if flags AND UPSCLI_CONN_INET6 \<noteq> 0 then AF_INET6
      else if flags AND UPSCLI_CONN_INET \<noteq> 0 then AF_INET else AF_UNSPEC)"

text \<open>upscli_sslinit() of a build without SSL: not supported.\<close>

definition upscli_sslinit :: "upsconn \<Rightarrow> bool \<Rightarrow> int" where
  "upscli_sslinit u verifycert = 0"

definition upscli_tryconnect ::
    "'n net \<Rightarrow> upsconn \<Rightarrow> 'n \<Rightarrow> cstr option \<Rightarrow> nat \<Rightarrow> 32 word \<Rightarrow> upsconn \<times> 'n \<times> bool" where
  "upscli_tryconnect N u n host port flags =
     (let u = fresh_conn; bad = (\<lambda>e n. (cli_fail e u, n, False)) in
      case host of None \<Rightarrow> bad UPSCLI_ERR_NOSUCHHOST n
      | Some h \<Rightarrow>
        (case nt_resolve N n h (show_nat port) (conn_family flags) of
           (n, GaiNoname) \<Rightarrow> bad UPSCLI_ERR_NOSUCHHOST n
         | (n, GaiMemory) \<Rightarrow> bad UPSCLI_ERR_NOMEM n
         | (n, GaiSystem e) \<Rightarrow> (cli_fail UPSCLI_ERR_UNKNOWN (u\<lparr>uc_syserrno := e\<rparr>), n, False)
         | (n, GaiOther) \<Rightarrow> bad UPSCLI_ERR_UNKNOWN n
         | (n, GaiAddrs res) \<Rightarrow>
             (case try_addrs N res u n of (u, n) \<Rightarrow>
                if uc_fd u < 0 then (u, n, False)
                else
                  (let u = u\<lparr>uc_pc_ctx := pconf_init (uc_pc_ctx u), uc_host := Some h, uc_port := port\<rparr>;
                       certverify = flags AND UPSCLI_CONN_CERTVERIF \<noteq> 0;
                       forcessl = flags AND UPSCLI_CONN_REQSSL \<noteq> 0;
                       tryssl = flags AND UPSCLI_CONN_TRYSSL \<noteq> 0;
                       drop = (\<lambda>u n. case upscli_disconnect N u n of (u, n) \<Rightarrow> (u, n, False))
                   in if tryssl \<or> forcessl then
                        (let ret = upscli_sslinit u certverify in
                         if forcessl \<and> ret \<noteq> 1 then drop (cli_fail UPSCLI_ERR_SSLFAIL u) n
                         else if tryssl \<and> ret = -1 then drop u n
                         else if tryssl \<and> ret = 0 \<and> certverify then drop u n
                         else (u, n, True))
                      else (u, n, True)))))"

text \<open>upscli_connect(): the timeout is the default one, which is part of the network.\<close>

definition upscli_connect ::
    "'n net \<Rightarrow> upsconn \<Rightarrow> 'n \<Rightarrow> cstr option \<Rightarrow> nat \<Rightarrow> 32 word \<Rightarrow> upsconn \<times> 'n \<times> bool" where
  "upscli_connect N u n host port flags = upscli_tryconnect N u n host port flags"

section \<open>Names of UPSes\<close>

text \<open>The first token of strtok(), and what is left after its delimiter.\<close>

definition strtok1 :: "char \<Rightarrow> cstr \<Rightarrow> cstr option \<times> cstr" where
  "strtok1 d s =
     (let t = dropWhile (\<lambda>c. c = d) s; w = takeWhile (\<lambda>c. c \<noteq> d) t in
      if w = [] then (None, []) else (Some w, drop (length w + 1) t))"

text \<open>
  upscli_splitaddr(): the flag is whether it succeeded; the host name and the port may have
  been set in any case.
\<close>

definition port_of :: "cstr \<Rightarrow> nat option" where
  "port_of s =
     (let l = fst (strtol s 10) in if s = [] \<or> l < 1 \<or> 65535 < l then None else Some (nat l))"

definition upscli_splitaddr :: "cstr \<Rightarrow> cstr option \<Rightarrow> nat \<Rightarrow> bool \<times> cstr option \<times> nat" where
  "upscli_splitaddr buf hostname port =
     (let tmp = snprintf CLI_SMALLBUF buf;
          with_port = (\<lambda>h s. case port_of s of None \<Rightarrow> (False, h, port) | Some p \<Rightarrow> (True, h, p))
      in if tmp = [] then (False, hostname, port)
         else if hd tmp = CHR ''['' then
           (if CHR '']'' \<notin> set tmp then (False, hostname, port)
            else case strtok1 (CHR '']'') (tl tmp) of (w, rest) \<Rightarrow>
              (case w of None \<Rightarrow> (False, None, port)
               | Some h \<Rightarrow>
                   (if rest = [] \<or> hd rest \<noteq> CHR '':'' then (True, Some h, CLI_PORT)
                    else with_port (Some h) (tl rest))))
         else case strtok1 (CHR '':'') tmp of (w, rest) \<Rightarrow>
           (case w of None \<Rightarrow> (False, None, port)
            | Some h \<Rightarrow>
                (if CHR '':'' \<notin> set tmp then (True, Some h, CLI_PORT)
                 else if hd tmp = CHR '':'' then with_port (Some h) (takeWhile (\<lambda>c. c \<noteq> CHR '':'' ) (tl tmp))
                 else with_port (Some h) rest)))"

definition upscli_splitname ::
    "cstr \<Rightarrow> cstr option \<Rightarrow> cstr option \<Rightarrow> nat \<Rightarrow> bool \<times> cstr option \<times> cstr option \<times> nat" where
  "upscli_splitname buf upsname hostname port =
     (let tmp = snprintf CLI_SMALLBUF buf in
      if tmp = [] then (False, upsname, hostname, port)
      else if hd tmp = CHR ''@'' then (False, upsname, hostname, port)
      else
        (let name = takeWhile (\<lambda>c. c \<noteq> CHR ''@'') tmp; sat = dropWhile (\<lambda>c. c \<noteq> CHR ''@'') tmp in
         if sat = [] then
           (if CHR '':'' \<in> set tmp then (False, Some name, hostname, port)
            else (True, Some name, Some ''localhost'', CLI_PORT))
         else if tl sat = [] then (False, Some name, hostname, port)
         else (case upscli_splitaddr (tl sat) hostname port of (ok, h, p) \<Rightarrow> (ok, Some name, h, p))))"

end
