(* ===== verification/UpsmonState.thy ===== *)
theory UpsmonState
  imports UpsmonTokens UpsClient NetGet
begin

unbundle bit_operations_syntax

text \<open>
  clients/upsmon.c with upsmon.h: the state of the monitor (a record per monitored UPS and
  the settings), and the notifications.  The operations work on the UPS they are given and
  on the rest of the monitor, mon, which holds the other UPSes and the network.  Seconds
  are read from mn_now and the monotonic clock from mn_mono: one reading per pass.  What
  the program does outside is logged: mn_events has the calls of do_notify(), mn_actions
  what notify() started.  The build is the one for POSIX systems without SSL.
\<close>

section \<open>Status flags\<close>

definition ST_ONLINE :: "32 word" where "ST_ONLINE = 0x1"
definition ST_ONBATT :: "32 word" where "ST_ONBATT = 0x2"
definition ST_LOWBATT :: "32 word" where "ST_LOWBATT = 0x4"
definition ST_FSD :: "32 word" where "ST_FSD = 0x8"
definition ST_PRIMARY :: "32 word" where "ST_PRIMARY = 0x10"
definition ST_LOGIN :: "32 word" where "ST_LOGIN = 0x20"
definition ST_CLICONNECTED :: "32 word" where "ST_CLICONNECTED = 0x40"
definition ST_CAL :: "32 word" where "ST_CAL = 0x80"
definition ST_OFF :: "32 word" where "ST_OFF = 0x100"
definition ST_BYPASS :: "32 word" where "ST_BYPASS = 0x200"
definition ST_ECO :: "32 word" where "ST_ECO = 0x400"
definition ST_ALARM :: "32 word" where "ST_ALARM = 0x800"
definition ST_OTHER :: "32 word" where "ST_OTHER = 0x1000"
definition ST_OVER :: "32 word" where "ST_OVER = 0x2000"
definition ST_TRIM :: "32 word" where "ST_TRIM = 0x4000"
definition ST_BOOST :: "32 word" where "ST_BOOST = 0x8000"

definition setflag :: "32 word \<Rightarrow> 32 word \<Rightarrow> 32 word" where
  "setflag v flag = v OR flag"

definition clearflag :: "32 word \<Rightarrow> 32 word \<Rightarrow> 32 word" where
  "clearflag v flag = v XOR (v AND flag)"

definition flag_isset :: "32 word \<Rightarrow> 32 word \<Rightarrow> bool" where
  "flag_isset num flag \<longleftrightarrow> num AND flag = flag"

section \<open>Notification types\<close>

definition NOTIFY_IGNORE :: "32 word" where "NOTIFY_IGNORE = 1"
definition NOTIFY_SYSLOG :: "32 word" where "NOTIFY_SYSLOG = 2"
definition NOTIFY_WALL :: "32 word" where "NOTIFY_WALL = 4"
definition NOTIFY_EXEC :: "32 word" where "NOTIFY_EXEC = 8"
definition NOTIFY_DEFAULT :: "32 word" where "NOTIFY_DEFAULT = NOTIFY_SYSLOG OR NOTIFY_WALL"

datatype ntype = NOTIFY_ONLINE | NOTIFY_ONBATT | NOTIFY_LOWBATT | NOTIFY_FSD | NOTIFY_COMMOK
  | NOTIFY_COMMBAD | NOTIFY_SHUTDOWN | NOTIFY_REPLBATT | NOTIFY_NOCOMM | NOTIFY_NOPARENT
  | NOTIFY_CAL | NOTIFY_NOTCAL | NOTIFY_OFF | NOTIFY_NOTOFF | NOTIFY_BYPASS | NOTIFY_NOTBYPASS
  | NOTIFY_ECO | NOTIFY_NOTECO | NOTIFY_ALARM | NOTIFY_NOTALARM | NOTIFY_OVER | NOTIFY_NOTOVER
  | NOTIFY_TRIM | NOTIFY_NOTTRIM | NOTIFY_BOOST | NOTIFY_NOTBOOST | NOTIFY_OTHER | NOTIFY_NOTOTHER
  | NOTIFY_SUSPEND_STARTING | NOTIFY_SUSPEND_FINISHED

record notif =
  nf_type :: ntype
  nf_name :: cstr
  nf_msg :: "cstr option"
  nf_stockmsg :: cstr
  nf_flags :: "32 word"

definition stock :: "ntype \<Rightarrow> cstr \<Rightarrow> cstr \<Rightarrow> notif" where
  "stock t name text = \<lparr>nf_type = t, nf_name = name, nf_msg = None, nf_stockmsg = text,
     nf_flags = NOTIFY_DEFAULT\<rparr>"

definition notifylist :: "notif list" where
  "notifylist = [
     stock NOTIFY_ONLINE ''ONLINE'' ''UPS %s on line power'',
     stock NOTIFY_ONBATT ''ONBATT'' ''UPS %s on battery'',
     stock NOTIFY_LOWBATT ''LOWBATT'' ''UPS %s battery is low'',
     stock NOTIFY_FSD ''FSD'' ''UPS %s: forced shutdown in progress'',
     stock NOTIFY_COMMOK ''COMMOK'' ''Communications with UPS %s established'',
     stock NOTIFY_COMMBAD ''COMMBAD'' ''Communications with UPS %s lost'',
     stock NOTIFY_SHUTDOWN ''SHUTDOWN'' ''Auto logout and shutdown proceeding'',
     stock NOTIFY_REPLBATT ''REPLBATT'' ''UPS %s battery needs to be replaced'',
     stock NOTIFY_NOCOMM ''NOCOMM'' ''UPS %s is unavailable'',
     stock NOTIFY_NOPARENT ''NOPARENT'' ''upsmon parent process died - shutdown impossible'',
     stock NOTIFY_CAL ''CAL'' ''UPS %s: calibration in progress'',
     stock NOTIFY_NOTCAL ''NOTCAL'' ''UPS %s: calibration finished'',
     stock NOTIFY_OFF ''OFF'' ''UPS %s: administratively OFF or asleep'',
     stock NOTIFY_NOTOFF ''NOTOFF'' ''UPS %s: no longer administratively OFF or asleep'',
     stock NOTIFY_BYPASS ''BYPASS'' ''UPS %s: on bypass (powered, not protecting)'',
     stock NOTIFY_NOTBYPASS ''NOTBYPASS'' ''UPS %s: no longer on bypass'',
     stock NOTIFY_ECO ''ECO'' ''UPS %s: in ECO mode (as defined by vendor)'',
     stock NOTIFY_NOTECO ''NOTECO'' ''UPS %s: no longer in ECO mode'',
     stock NOTIFY_ALARM ''ALARM'' ''UPS %s: one or more active alarms: [%s]'',
     stock NOTIFY_NOTALARM ''NOTALARM'' ''UPS %s is no longer in an alarm state (no active alarms)'',
     stock NOTIFY_OVER ''OVER'' ''UPS %s: overloaded'',
     stock NOTIFY_NOTOVER ''NOTOVER'' ''UPS %s: no longer overloaded'',
     stock NOTIFY_TRIM ''TRIM'' ''UPS %s: trimming incoming voltage'',
     stock NOTIFY_NOTTRIM ''NOTTRIM'' ''UPS %s: no longer trimming incoming voltage'',
     stock NOTIFY_BOOST ''BOOST'' ''UPS %s: boosting incoming voltage'',
     stock NOTIFY_NOTBOOST ''NOTBOOST'' ''UPS %s: no longer boosting incoming voltage'',
     stock NOTIFY_OTHER ''OTHER'' ''UPS %s: has at least one unclassified status token: [%s]'',
     stock NOTIFY_NOTOTHER ''NOTOTHER'' ''UPS %s has no unclassified status tokens anymore'',
     stock NOTIFY_SUSPEND_STARTING ''SUSPEND_STARTING'' ''OS is entering sleep/suspend/hibernate mode'',
     stock NOTIFY_SUSPEND_FINISHED ''SUSPEND_FINISHED''
       ''OS just finished sleep/suspend/hibernate mode, de-activating obsolete UPS readings to avoid an unfortunate shutdown'']"

section \<open>Records\<close>

record utype =
  m_conn :: upsconn
  m_sys :: cstr
  m_upsname :: "cstr option"
  m_hostname :: "cstr option"
  m_port :: nat
  m_pv :: "32 word"
  m_un :: "cstr option"
  m_pw :: "cstr option"
  m_status :: "32 word"
  m_tokens :: tokens
  m_retain :: bool
  m_commstate :: int
  m_linestate :: int
  m_offstate :: int
  m_bypassstate :: int
  m_ecostate :: int
  m_alarmstate :: int
  m_overstate :: int
  m_throttle_state :: int
  m_throttle_count :: int
  m_lastpoll :: int
  m_lastnoncrit :: int
  m_lastrbwarn :: int
  m_lastncwarn :: int
  m_offsince :: int
  m_oblbsince :: int
  m_oversince :: int

text \<open>The settings of upsmon.conf and the command line.\<close>

record settings =
  g_shutdowncmd :: "cstr option"
  g_notifycmd :: "cstr option"
  g_powerdownflag :: "cstr option"
  g_minsupplies :: "32 word"
  g_deadtime :: int
  g_pollfreq :: "32 word"
  g_pollfreqalert :: "32 word"
  g_pollfail_log_throttle_max :: int
  g_offdurationtime :: int
  g_oblbdurationtime :: int
  g_overdurationtime :: int
  g_hostsync :: int
  g_rbwarntime :: int
  g_nocommwarntime :: int
  g_finaldelay :: "32 word"
  g_alarmcritical :: int
  g_run_as_user :: "cstr option"
  g_certpath :: "cstr option"
  g_certname :: "cstr option"
  g_certpasswd :: "cstr option"
  g_certverify :: int
  g_forcessl :: int
  g_shutdownexitdelay :: int
  g_use_pipe :: bool
  g_opt_af :: family
  g_debug_level_global :: int
  g_debug_level_args :: int
  g_debug_level :: int

definition default_settings :: settings where
  "default_settings = \<lparr>g_shutdowncmd = None, g_notifycmd = None, g_powerdownflag = None,
     g_minsupplies = 1, g_deadtime = 15, g_pollfreq = 5, g_pollfreqalert = 5,
     g_pollfail_log_throttle_max = -1, g_offdurationtime = 30, g_oblbdurationtime = 0,
     g_overdurationtime = -1, g_hostsync = 15, g_rbwarntime = 43200, g_nocommwarntime = 300,
     g_finaldelay = 5, g_alarmcritical = 1, g_run_as_user = None, g_certpath = None,
     g_certname = None, g_certpasswd = None, g_certverify = 0, g_forcessl = 0,
     g_shutdownexitdelay = 0, g_use_pipe = True, g_opt_af = AF_UNSPEC,
     g_debug_level_global = -1, g_debug_level_args = 0, g_debug_level = 0\<rparr>"

datatype log_level = LOG_ERR | LOG_NOTICE

datatype action = Syslogged log_level cstr | Walled cstr | Executed cstr cstr cstr

record 'n mon =
  mn_ups :: "utype list"
  mn_conf :: settings
  mn_notifylist :: "notif list"
  mn_sleepval :: "32 word"
  mn_totalpv :: "32 word"
  mn_alarms_prev :: cstr
  mn_reload_flag :: int
  mn_userfsd :: bool
  mn_events :: "(ntype \<times> cstr option \<times> cstr option) list"
  mn_actions :: "action list"
  mn_forks :: bool
  mn_now :: int
  mn_mono :: int
  mn_net :: 'n

text \<open>The UPS an operation works on, and the rest.\<close>

type_synonym 'n on = "utype \<times> 'n mon"

section \<open>Notifications\<close>

definition MON_LARGEBUF :: nat where "MON_LARGEBUF = 1024"
definition MON_SMALLBUF :: nat where "MON_SMALLBUF = 512"

definition act :: "action \<Rightarrow> 'n mon \<Rightarrow> 'n mon" where
  "act a m = m\<lparr>mn_actions := mn_actions m @ [a]\<rparr>"

text \<open>notify(): what follows a failed fork() is not done; mn_forks says whether fork() works.\<close>

definition notify :: "cstr \<Rightarrow> 32 word \<Rightarrow> cstr \<Rightarrow> cstr option \<Rightarrow> 'n mon \<Rightarrow> 'n mon" where
  "notify notice flags name upsname m =
     (if flag_isset flags NOTIFY_IGNORE then m
      else
        (let m = (if flag_isset flags NOTIFY_SYSLOG then act (Syslogged LOG_NOTICE notice) m else m) in
         if \<not> mn_forks m then m
         else
           (let m = (if flag_isset flags NOTIFY_WALL then act (Walled notice) m else m) in
            if flag_isset flags NOTIFY_EXEC then
              (case g_notifycmd (mn_conf m) of None \<Rightarrow> m
               | Some cmd \<Rightarrow>
                   act (Executed (snprintf MON_LARGEBUF (cmd @ '' '' @ [QUOTE] @ notice @ [QUOTE]))
                          (case upsname of None \<Rightarrow> [] | Some s \<Rightarrow> s) name) m)
            else m)))"

text \<open>
  The text of a message: the conversions %s of the format take the arguments in turn; a
  format with more of them than there are arguments is refused by snprintf_dynamic(), which
  leaves the buffer as it was (None).  Formats with other conversions or with a width are
  outside the model and give None too.
\<close>

fun fmt_subst :: "cstr \<Rightarrow> cstr list \<Rightarrow> cstr option" where
  "fmt_subst [] args = Some []"
| "fmt_subst (c # f) args =
     (if c \<noteq> CHR ''%'' then map_option (\<lambda>s. c # s) (fmt_subst f args)
      else case f of
        [] \<Rightarrow> None
      | d # g \<Rightarrow>
          (if d = CHR ''%'' then map_option (\<lambda>s. CHR ''%'' # s) (fmt_subst g args)
           else if d = CHR ''s'' \<and> args \<noteq> [] then map_option (\<lambda>s. hd args @ s) (fmt_subst g (tl args))
           else None))"

fun holes :: "cstr \<Rightarrow> nat" where
  "holes [] = 0"
| "holes (c # f) = (if take 2 (c # f) = ''%s'' then 1 else 0) + holes f"

definition message_text :: "cstr \<Rightarrow> cstr option \<Rightarrow> cstr option \<Rightarrow> cstr option" where
  "message_text msgfmt upsname extra =
     (let name = (case upsname of None \<Rightarrow> [] | Some s \<Rightarrow> s);
          more = (case extra of None \<Rightarrow> ''(null)'' | Some s \<Rightarrow> s)
      in map_option (snprintf MON_SMALLBUF)
           (if holes msgfmt = 0 then Some msgfmt
            else if holes msgfmt = 1 then fmt_subst msgfmt [name]
            else fmt_subst msgfmt [name, more]))"

text \<open>
  do_notify(): the first entry of that type.  When the message could not be formatted the
  buffer holds whatever was there; the text is left empty here.
\<close>

definition do_notify :: "utype option \<Rightarrow> ntype \<Rightarrow> cstr option \<Rightarrow> 'n mon \<Rightarrow> 'n mon" where
  "do_notify ups t extra m =
     (let upsname = map_option m_sys ups; m = m\<lparr>mn_events := mn_events m @ [(t, upsname, extra)]\<rparr> in
      case List.find (\<lambda>e. nf_type e = t) (mn_notifylist m) of
        None \<Rightarrow> m
      | Some e \<Rightarrow>
          (let msgfmt = (case nf_msg e of Some s \<Rightarrow> s | None \<Rightarrow> nf_stockmsg e) in
           notify (case message_text msgfmt upsname extra of Some s \<Rightarrow> s | None \<Rightarrow> [])
             (nf_flags e) (nf_name e) upsname m))"

end
