(* ===== verification/UpsmonLogic.thy ===== *)
theory UpsmonLogic
  imports UpsmonState
begin

unbundle bit_operations_syntax

text \<open>
  clients/upsmon.c: what a status word does to a UPS, when a UPS is critical, and the
  decision to shut down.
\<close>

section \<open>Shared steps\<close>

definition has_st :: "32 word \<Rightarrow> utype \<Rightarrow> bool" where
  "has_st flag u = flag_isset (m_status u) flag"

definition set_st :: "32 word \<Rightarrow> 'n on \<Rightarrow> 'n on" where
  "set_st flag = (\<lambda>(u, m). (u\<lparr>m_status := setflag (m_status u) flag\<rparr>, m))"

definition clear_st :: "32 word \<Rightarrow> 'n on \<Rightarrow> 'n on" where
  "clear_st flag = (\<lambda>(u, m). (u\<lparr>m_status := clearflag (m_status u) flag\<rparr>, m))"

definition announce :: "ntype \<Rightarrow> cstr option \<Rightarrow> 'n on \<Rightarrow> 'n on" where
  "announce t extra = (\<lambda>(u, m). (u, do_notify (Some u) t extra m))"

definition poll_alert :: "'n on \<Rightarrow> 'n on" where
  "poll_alert = (\<lambda>(u, m). (u, m\<lparr>mn_sleepval := g_pollfreqalert (mn_conf m)\<rparr>))"

definition try_restore_pollfreq :: "'n on \<Rightarrow> 'n on" where
  "try_restore_pollfreq = (\<lambda>(u, m).
     if \<not> flag_isset (m_status u)
           (ST_ONBATT OR ST_OFF OR ST_BYPASS OR ST_ALARM OR ST_CAL OR ST_OVER OR ST_TRIM OR ST_BOOST)
     then (u, m\<lparr>mn_sleepval := g_pollfreq (mn_conf m)\<rparr>) else (u, m))"

section \<open>Communication\<close>

definition ups_is_alive :: "'n on \<Rightarrow> 'n on" where
  "ups_is_alive = (\<lambda>(u, m).
     (let u = u\<lparr>m_lastpoll := mn_now m\<rparr> in
      if m_commstate u = 1 then (u, m)
      else (case (if m_commstate u = 0 then announce NOTIFY_COMMOK None (u, m) else (u, m)) of
              (u, m) \<Rightarrow> (u\<lparr>m_commstate := 1\<rparr>, m))))"

definition ups_is_gone :: "'n on \<Rightarrow> 'n on" where
  "ups_is_gone = (\<lambda>(u, m).
     if m_commstate u \<noteq> 0 then announce NOTIFY_COMMBAD None (u\<lparr>m_commstate := 0\<rparr>, m)
     else
       (let warn = g_nocommwarntime (mn_conf m) in
        if mn_now m - m_lastpoll u < warn then (u, m)
        else if warn < mn_now m - m_lastncwarn u
        then (case announce NOTIFY_NOCOMM None (u, m) of (u, m) \<Rightarrow> (u\<lparr>m_lastncwarn := mn_now m\<rparr>, m))
        else (u, m)))"

section \<open>States announced by a word\<close>

definition ups_is_off :: "'n on \<Rightarrow> 'n on" where
  "ups_is_off = (\<lambda>(u, m).
     (let now = mn_now m; dur = g_offdurationtime (mn_conf m) in
      if has_st ST_OFF u then
        (if m_offsince u < 1 then (u\<lparr>m_offsince := now\<rparr>, m)
         else if 0 < dur \<and> dur < now - m_offsince u then (u\<lparr>m_offstate := 1\<rparr>, m)
         else (u, m))
      else
        (case poll_alert (u, m) of (u, m) \<Rightarrow>
           (let u = u\<lparr>m_offsince := now\<rparr>;
                u = (if dur = 0 then u\<lparr>m_offstate := 1\<rparr> else u)
            in set_st ST_OFF (announce NOTIFY_OFF None (u, m))))))"

definition ups_is_bypass :: "'n on \<Rightarrow> 'n on" where
  "ups_is_bypass = (\<lambda>(u, m).
     if has_st ST_BYPASS u then (u, m)
     else (case poll_alert (u, m) of (u, m) \<Rightarrow>
             set_st ST_BYPASS (announce NOTIFY_BYPASS None (u\<lparr>m_bypassstate := 1\<rparr>, m))))"

definition ups_is_eco :: "'n on \<Rightarrow> 'n on" where
  "ups_is_eco = (\<lambda>(u, m).
     if has_st ST_ECO u then (u, m)
     else set_st ST_ECO (announce NOTIFY_ECO None (u\<lparr>m_ecostate := 1\<rparr>, m)))"

definition ups_on_batt :: "'n on \<Rightarrow> 'n on" where
  "ups_on_batt = (\<lambda>(u, m).
     if has_st ST_ONBATT u then (u, m)
     else (case poll_alert (u, m) of (u, m) \<Rightarrow>
             clear_st ST_ONLINE (set_st ST_ONBATT (announce NOTIFY_ONBATT None (u\<lparr>m_linestate := 0\<rparr>, m)))))"

definition ups_on_line :: "'n on \<Rightarrow> 'n on" where
  "ups_on_line s =
     (case try_restore_pollfreq s of (u, m) \<Rightarrow>
        if has_st ST_ONLINE u then (u, m)
        else (case (if m_linestate u \<noteq> -1 then announce NOTIFY_ONLINE None (u, m) else (u, m)) of
                (u, m) \<Rightarrow> clear_st ST_ONBATT (set_st ST_ONLINE (u\<lparr>m_linestate := 1\<rparr>, m))))"

definition ups_low_batt :: "'n on \<Rightarrow> 'n on" where
  "ups_low_batt = (\<lambda>(u, m).
     if has_st ST_LOWBATT u then (u, m) else set_st ST_LOWBATT (announce NOTIFY_LOWBATT None (u, m)))"

definition upsreplbatt :: "'n on \<Rightarrow> 'n on" where
  "upsreplbatt = (\<lambda>(u, m).
     if g_rbwarntime (mn_conf m) < mn_now m - m_lastrbwarn u
     then (case announce NOTIFY_REPLBATT None (u, m) of (u, m) \<Rightarrow> (u\<lparr>m_lastrbwarn := mn_now m\<rparr>, m))
     else (u, m))"

definition ups_is_cal :: "'n on \<Rightarrow> 'n on" where
  "ups_is_cal = (\<lambda>(u, m).
     if has_st ST_CAL u then (u, m) else set_st ST_CAL (announce NOTIFY_CAL None (u, m)))"

definition ups_is_over :: "'n on \<Rightarrow> 'n on" where
  "ups_is_over = (\<lambda>(u, m).
     if has_st ST_OVER u then
       (if m_oversince u < 1 then (u\<lparr>m_oversince := mn_now m\<rparr>, m) else (u, m))
     else
       (case (if 0 \<le> g_overdurationtime (mn_conf m) then poll_alert (u, m) else (u, m)) of (u, m) \<Rightarrow>
          set_st ST_OVER (announce NOTIFY_OVER None (u\<lparr>m_oversince := mn_now m, m_overstate := 1\<rparr>, m))))"

definition ups_is_trim :: "'n on \<Rightarrow> 'n on" where
  "ups_is_trim = (\<lambda>(u, m).
     if has_st ST_TRIM u then (u, m) else set_st ST_TRIM (announce NOTIFY_TRIM None (u, m)))"

definition ups_is_boost :: "'n on \<Rightarrow> 'n on" where
  "ups_is_boost = (\<lambda>(u, m).
     if has_st ST_BOOST u then (u, m) else set_st ST_BOOST (announce NOTIFY_BOOST None (u, m)))"

definition ups_fsd :: "'n on \<Rightarrow> 'n on" where
  "ups_fsd = (\<lambda>(u, m).
     if has_st ST_FSD u then (u, m) else set_st ST_FSD (announce NOTIFY_FSD None (u, m)))"

section \<open>States that have ended\<close>

text \<open>The change all of them make when the flag was set.\<close>

definition ended :: "32 word \<Rightarrow> ntype \<Rightarrow> 'n on \<Rightarrow> 'n on" where
  "ended flag t = (\<lambda>(u, m).
     if has_st flag u then try_restore_pollfreq (clear_st flag (announce t None (u, m))) else (u, m))"

definition ups_is_notoff :: "'n on \<Rightarrow> 'n on" where
  "ups_is_notoff = (\<lambda>(u, m). ended ST_OFF NOTIFY_NOTOFF (u\<lparr>m_offsince := 0, m_offstate := 0\<rparr>, m))"

definition ups_is_notbypass :: "'n on \<Rightarrow> 'n on" where
  "ups_is_notbypass = (\<lambda>(u, m). ended ST_BYPASS NOTIFY_NOTBYPASS (u\<lparr>m_bypassstate := 0\<rparr>, m))"

definition ups_is_noteco :: "'n on \<Rightarrow> 'n on" where
  "ups_is_noteco = (\<lambda>(u, m). ended ST_ECO NOTIFY_NOTECO (u\<lparr>m_ecostate := 0\<rparr>, m))"

definition ups_is_notalarm :: "'n on \<Rightarrow> 'n on" where
  "ups_is_notalarm = (\<lambda>(u, m). ended ST_ALARM NOTIFY_NOTALARM (u\<lparr>m_alarmstate := 0\<rparr>, m))"

definition ups_is_notcal :: "'n on \<Rightarrow> 'n on" where
  "ups_is_notcal = ended ST_CAL NOTIFY_NOTCAL"

definition ups_is_notover :: "'n on \<Rightarrow> 'n on" where
  "ups_is_notover = (\<lambda>(u, m). ended ST_OVER NOTIFY_NOTOVER (u\<lparr>m_oversince := 0, m_overstate := 0\<rparr>, m))"

definition ups_is_nottrim :: "'n on \<Rightarrow> 'n on" where
  "ups_is_nottrim = ended ST_TRIM NOTIFY_NOTTRIM"

definition ups_is_notboost :: "'n on \<Rightarrow> 'n on" where
  "ups_is_notboost = ended ST_BOOST NOTIFY_NOTBOOST"

section \<open>Talking to upsd\<close>

text \<open>The words of the request for each value that upsmon asks for.\<close>

definition var_query :: "cstr \<Rightarrow> cstr \<Rightarrow> cstr list" where
  "var_query upsname var =
     (if var = ''numlogins'' then [''NUMLOGINS'', upsname]
      else if var = ''status'' then [''VAR'', upsname, ''ups.status'']
      else if var = ''buzzword'' then [''VAR'', upsname, ''ups.mode.buzzwords'']
      else if var = ''X-buzzword'' then [''VAR'', upsname, ''experimental.ups.mode.buzzwords'']
      else if var = ''alarm'' then [''VAR'', upsname, ''ups.alarm''] else [])"

text \<open>
  The value goes to a buffer of SMALLBUF bytes.  The answer has at least as many words as
  the request, and the word behind those is read without another check.
\<close>

definition mon_get_var :: "'n net \<Rightarrow> cstr \<Rightarrow> 'n on \<Rightarrow> fault + 'n on \<times> cstr option" where
  "mon_get_var N var = (\<lambda>(u, m).
     (case m_upsname u of None \<Rightarrow> Inr ((u, m), None)
      | Some upsname \<Rightarrow>
          (let query = var_query upsname var; numq = length query in
           if numq = 0 then Inr ((u, m), None)
           else
             (case upscli_get N (m_conn u) (mn_net m) query of (conn, n, r) \<Rightarrow>
                (let s = (u\<lparr>m_conn := conn\<rparr>, m\<lparr>mn_net := n\<rparr>) in
                 case r of
                   CliErr \<Rightarrow> Inr (s, None)
                 | CliBeyond \<Rightarrow> Inl Stray_read
                 | CliOk (numa, answer) \<Rightarrow>
                     (if numa < numq then Inr (s, None)
                      else if length answer \<le> numq then Inl Stray_read
                      else Inr (s, Some (snprintf MON_SMALLBUF (answer ! numq)))))))))"

text \<open>alarms_prev is one buffer for all UPSes.\<close>

definition ups_is_alarm :: "'n net \<Rightarrow> 'n on \<Rightarrow> fault + 'n on" where
  "ups_is_alarm N = (\<lambda>(u, m).
     if has_st ST_ALARM u then
       and_then (mon_get_var N ''alarm'' (u, m)) (\<lambda>((u, m), got).
         case got of
           None \<Rightarrow> Inr (u, m)
         | Some alarms \<Rightarrow>
             (if mn_alarms_prev m = alarms then Inr (u, m)
              else Inr (announce NOTIFY_ALARM (Some alarms) (u, m\<lparr>mn_alarms_prev := alarms\<rparr>))))
     else
       (case poll_alert (u, m) of (u, m) \<Rightarrow>
          and_then (mon_get_var N ''alarm'' (u\<lparr>m_alarmstate := 1\<rparr>, m)) (\<lambda>(s, got).
            (case announce NOTIFY_ALARM (Some (case got of Some a \<Rightarrow> a | None \<Rightarrow> ''n/a'')) s of
               (u, m) \<Rightarrow>
                 Inr (set_st ST_ALARM
                   (u, m\<lparr>mn_alarms_prev := (case got of Some a \<Rightarrow> a | None \<Rightarrow> [])\<rparr>))))))"

definition drop_connection :: "'n net \<Rightarrow> 'n on \<Rightarrow> 'n on" where
  "drop_connection N = (\<lambda>(u, m).
     (let u = u\<lparr>m_commstate := 0, m_throttle_count := -1, m_throttle_state := UPSCLI_ERR_NONE\<rparr> in
      case clear_st ST_CLICONNECTED (clear_st ST_LOGIN (u, m)) of (u, m) \<Rightarrow>
        (case upscli_disconnect N (m_conn u) (mn_net m) of (conn, n) \<Rightarrow>
           (u\<lparr>m_conn := conn\<rparr>, m\<lparr>mn_net := n\<rparr>))))"

section \<open>When a UPS is critical\<close>

text \<open>
  The greatest common divisor by repeated subtraction on int; the loop only ends by
  n1 = n2, which it reaches for positive numbers.
\<close>

function gcd_loop :: "int \<Rightarrow> int \<Rightarrow> int" where
  "gcd_loop n1 n2 =
     (if n1 \<le> 0 \<or> n2 \<le> 0 \<or> n1 = n2 then n1
      else if n2 < n1 then gcd_loop (n1 - n2) n2 else gcd_loop n1 (n2 - n1))"
  by pat_completeness auto
termination by (relation "measure (\<lambda>(a, b). nat (a + b))") auto

declare gcd_loop.simps [simp del]

definition oblb_sleep :: "settings \<Rightarrow> 32 word" where
  "oblb_sleep c =
     (let alert = g_pollfreqalert c;
          n1 = (if 0 < alert then sint alert else 1);
          n2 = (if 0 < g_oblbdurationtime c then g_oblbdurationtime c else 1);
          n = gcd_loop n1 n2
      in word_of_int (if 0 < n then n else 1))"

text \<open>A UPS that does not communicate is dead when the last that was known of it was bad.\<close>

definition presumed_dead :: "'n mon \<Rightarrow> utype \<Rightarrow> bool" where
  "presumed_dead m u =
     (let now = mn_now m; c = mn_conf m; over = g_overdurationtime c in
      ((m_overstate u = 1 \<or> has_st ST_OVER u) \<and> 0 \<le> over \<and>
         \<not> (0 < now \<and> now - m_oversince u < over)) \<or>
      ((m_alarmstate u = 1 \<or> has_st ST_ALARM u) \<and> g_alarmcritical c = 1) \<or>
      has_st ST_CAL u \<or>
      (m_bypassstate u = 1 \<or> has_st ST_BYPASS u) \<or>
      (m_offstate u = 1 \<or> (0 \<le> g_offdurationtime c \<and> has_st ST_OFF u)))"

definition is_ups_critical :: "'n on \<Rightarrow> 'n on \<times> bool" where
  "is_ups_critical = (\<lambda>(u, m).
     (let now = mn_now m; c = mn_conf m in
      if has_st ST_FSD u then ((u, m), True)
      else if m_commstate u = 0 \<and> presumed_dead m u then ((u, m), True)
      else if has_st ST_OFF u \<and> 0 \<le> g_offdurationtime c \<and> m_offstate u = 1 then ((u, m), True)
      else if \<not> has_st ST_ONBATT u \<or> \<not> has_st ST_LOWBATT u then
        (if 0 < m_oblbsince u
         then ((u\<lparr>m_oblbsince := 0\<rparr>,
                m\<lparr>mn_sleepval := (if has_st ST_ONBATT u then g_pollfreqalert c else g_pollfreq c)\<rparr>), False)
         else ((u, m), False))
      else if has_st ST_CAL u then ((u, m), False)
      else if 0 < g_oblbdurationtime c \<and> m_oblbsince u < 1 \<and> 0 < now
      then ((u\<lparr>m_oblbsince := now\<rparr>, m\<lparr>mn_sleepval := oblb_sleep c\<rparr>), False)
      else if 0 < g_oblbdurationtime c \<and> 0 < now \<and> now - m_oblbsince u < g_oblbdurationtime c
      then ((u, m), False)
      else if has_st ST_PRIMARY u then ((u, m), True)
      else ((u, m), g_hostsync c < now - m_lastnoncrit u)))"

section \<open>Shutting down\<close>

text \<open>
  The end of the process: the flag file and the shutdown command are the parent's work in
  split mode, where one byte on the pipe asks for them.
\<close>

datatype shutdown = Shutdown_piped | Shutdown_run "cstr option" "cstr option"

definition doshutdown :: "'n mon \<Rightarrow> 'n mon \<times> shutdown" where
  "doshutdown m =
     (let m = act (Walled (''Executing automatic power-fail shutdown'' @ [NL])) m;
          m = do_notify None NOTIFY_SHUTDOWN None m
      in (m, if g_use_pipe (mn_conf m) then Shutdown_piped
             else Shutdown_run (g_powerdownflag (mn_conf m)) (g_shutdowncmd (mn_conf m))))"

text \<open>setfsd(): the request FSD on the connection of the UPS; the answer only matters for the log.\<close>

definition setfsd :: "'n net \<Rightarrow> 'n on \<Rightarrow> 'n on" where
  "setfsd N = (\<lambda>(u, m).
     (case m_upsname u of None \<Rightarrow> (u, m)
      | Some upsname \<Rightarrow>
          (case upscli_sendline N (m_conn u) (mn_net m) (snprintf MON_SMALLBUF (''FSD '' @ upsname @ [NL])) of
             (conn, n, False) \<Rightarrow> (u\<lparr>m_conn := conn\<rparr>, m\<lparr>mn_net := n\<rparr>)
           | (conn, n, True) \<Rightarrow>
               (case upscli_readline N conn n MON_SMALLBUF of
                  (conn, n, line) \<Rightarrow> (u\<lparr>m_conn := conn\<rparr>, m\<lparr>mn_net := n\<rparr>)))))"

text \<open>An operation on the UPS at an index of the list, and on every UPS in turn.\<close>

definition at_ups :: "nat \<Rightarrow> ('n on \<Rightarrow> 'n on) \<Rightarrow> 'n mon \<Rightarrow> 'n mon" where
  "at_ups i f m = (case f (mn_ups m ! i, m) of (u, m) \<Rightarrow> m\<lparr>mn_ups := (mn_ups m)[i := u]\<rparr>)"

text \<open>
  sync_secondaries(): one look at the login counts of the UPSes that this host manages,
  from the i-th on.
\<close>

function max_logins :: "'n net \<Rightarrow> nat \<Rightarrow> int \<Rightarrow> 'n mon \<Rightarrow> fault + 'n mon \<times> int" where
  "max_logins N i most m =
     (if length (mn_ups m) \<le> i then Inr (m, most)
      else if \<not> has_st ST_PRIMARY (mn_ups m ! i) then max_logins N (Suc i) most m
      else
        (case mon_get_var N ''numlogins'' (mn_ups m ! i, m) of
           Inl e \<Rightarrow> Inl e
         | Inr ((u, m'), got) \<Rightarrow>
             (let m' = m'\<lparr>mn_ups := (mn_ups m)[i := u]\<rparr>;
                  most = (case got of None \<Rightarrow> most
                          | Some temp \<Rightarrow> max most (fst (strtol temp 10)))
              in max_logins N (Suc i) most m')))"
  by pat_completeness auto
termination
  by (relation "measure (\<lambda>(N, i, most, m). length (mn_ups m) - i)") auto

text \<open>
  The wait: times are the readings of the clock at the end of the passes, start the one
  before the first.  The list runs out before the loop ends for None; otherwise the result
  says whether the secondaries are gone, or the time has expired.
\<close>

fun sync_secondaries :: "'n net \<Rightarrow> int \<Rightarrow> int list \<Rightarrow> 'n mon \<Rightarrow> fault + 'n mon \<times> bool option" where
  "sync_secondaries N start [] m = Inr (m, None)"
| "sync_secondaries N start (now # later) m = and_then (max_logins N 0 0 m) (\<lambda>(m, maxlogins).
     if maxlogins \<le> 1 then Inr (m, Some True)
     else if g_hostsync (mn_conf m) < now - start then Inr (m, Some False)
     else sync_secondaries N start later m)"

function set_all_fsd :: "'n net \<Rightarrow> nat \<Rightarrow> 'n mon \<Rightarrow> 'n mon" where
  "set_all_fsd N i m =
     (if length (mn_ups m) \<le> i then m
      else if has_st ST_PRIMARY (mn_ups m ! i)
      then (case setfsd N (mn_ups m ! i, m) of (u, m') \<Rightarrow>
              set_all_fsd N (Suc i) (m'\<lparr>mn_ups := (mn_ups m)[i := u]\<rparr>))
      else set_all_fsd N (Suc i) m)"
  by pat_completeness auto
termination by (relation "measure (\<lambda>(N, i, m). length (mn_ups m) - i)") auto

text \<open>The clock readings of the wait are a parameter; None when they do not suffice.\<close>

definition forceshutdown :: "'n net \<Rightarrow> int list \<Rightarrow> 'n mon \<Rightarrow> fault + ('n mon \<times> shutdown) option" where
  "forceshutdown N ticks m =
     (let isaprimary = list_ex (has_st ST_PRIMARY) (mn_ups m); m = set_all_fsd N 0 m in
      if \<not> isaprimary then Inr (Some (doshutdown m))
      else and_then (sync_secondaries N (mn_now m) ticks m) (\<lambda>(m, r).
        case r of None \<Rightarrow> Inr None | Some gone \<Rightarrow> Inr (Some (doshutdown m))))"

section \<open>recalc()\<close>

text \<open>The pass over the UPSes: the power value of those that are not critical.\<close>

definition promote_dead :: "'n on \<Rightarrow> 'n on" where
  "promote_dead = (\<lambda>(u, m).
     if g_deadtime (mn_conf m) < mn_now m - m_lastpoll u \<and> has_st ST_ONBATT u
     then set_st ST_LOWBATT (u, m) else (u, m))"

fun power_value :: "utype list \<Rightarrow> 'n mon \<Rightarrow> utype list \<times> 'n mon \<times> 32 word" where
  "power_value [] m = ([], m, 0)"
| "power_value (u # us) m =
     (case is_ups_critical (promote_dead (u, m)) of ((u, m), crit) \<Rightarrow>
        (case power_value us m of (us, m, val_ol) \<Rightarrow>
           (u # us, m, (if crit then 0 else m_pv u) + val_ol)))"

text \<open>The flag is whether the power value is too low, so that forceshutdown() follows.\<close>

definition recalc :: "'n mon \<Rightarrow> 'n mon \<times> bool" where
  "recalc m =
     (case power_value (mn_ups m) m of (us, m', val_ol) \<Rightarrow>
        (m'\<lparr>mn_ups := us\<rparr>, val_ol < g_minsupplies (mn_conf m)))"

end
