(* ===== verification/UpsmonPoll.thy ===== *)
theory UpsmonPoll
  imports UpsmonLogic
begin

unbundle bit_operations_syntax

text \<open>
  clients/upsmon.c: connecting to upsd, the words of ups.status, one poll of a UPS and one
  turn of the main loop.
\<close>

section \<open>Logging in\<close>

text \<open>A line sent on the connection of the UPS and the line read back; None when either fails.\<close>

definition exchange :: "'n net \<Rightarrow> cstr \<Rightarrow> 'n on \<Rightarrow> 'n on \<times> cstr option" where
  "exchange N text = (\<lambda>(u, m).
     (case upscli_sendline N (m_conn u) (mn_net m) (snprintf MON_SMALLBUF text) of
        (conn, n, False) \<Rightarrow> ((u\<lparr>m_conn := conn\<rparr>, m\<lparr>mn_net := n\<rparr>), None)
      | (conn, n, True) \<Rightarrow>
          (case upscli_readline N conn n MON_SMALLBUF of
             (conn, n, line) \<Rightarrow> ((u\<lparr>m_conn := conn\<rparr>, m\<lparr>mn_net := n\<rparr>), line))))"

definition says_ok :: "cstr \<Rightarrow> bool" where
  "says_ok buf = strneq buf ''OK'' 2"

definition name_given :: "utype \<Rightarrow> bool" where
  "name_given u \<longleftrightarrow> m_upsname u \<noteq> None \<and> m_upsname u \<noteq> Some []"

definition apply_for_primary :: "'n net \<Rightarrow> 'n on \<Rightarrow> 'n on \<times> bool" where
  "apply_for_primary N s =
     (if \<not> has_st ST_PRIMARY (fst s) then (s, True)
      else if \<not> name_given (fst s) then (s, False)
      else
        (let upsname = the (m_upsname (fst s)) in
         case exchange N (''PRIMARY '' @ upsname @ [NL]) s of
           (s, None) \<Rightarrow> (s, False)
         | (s, Some buf) \<Rightarrow>
             (if says_ok buf then (s, True)
              else case exchange N (''MASTER '' @ upsname @ [NL]) s of
                (s, None) \<Rightarrow> (s, False)
              | (s, Some buf) \<Rightarrow> (s, says_ok buf))))"

definition do_upsd_auth :: "'n net \<Rightarrow> 'n on \<Rightarrow> 'n on \<times> bool" where
  "do_upsd_auth N s =
     (case m_un (fst s) of None \<Rightarrow> (s, False)
      | Some un \<Rightarrow>
          (case exchange N (''USERNAME '' @ un @ [NL]) s of
             (s, None) \<Rightarrow> (s, False)
           | (s, Some buf) \<Rightarrow>
               (case exchange N (''PASSWORD '' @ (case m_pw (fst s) of None \<Rightarrow> ''(null)'' | Some pw \<Rightarrow> pw) @ [NL]) s of
                  (s, None) \<Rightarrow> (s, False)
                | (s, Some buf) \<Rightarrow>
                    (if \<not> says_ok buf then (s, False)
                     else if \<not> name_given (fst s) then (s, False)
                     else
                       (case exchange N (''LOGIN '' @ the (m_upsname (fst s)) @ [NL]) s of
                          (s, None) \<Rightarrow> (s, False)
                        | (s, Some buf) \<Rightarrow>
                            (if \<not> says_ok buf then (s, False)
                             else apply_for_primary N (set_st ST_LOGIN s)))))))"

definition connect_flags :: "settings \<Rightarrow> 32 word" where
  "connect_flags c =
     (if g_forcessl c = 1 then UPSCLI_CONN_REQSSL else UPSCLI_CONN_TRYSSL) OR
     (if g_opt_af c = AF_INET then UPSCLI_CONN_INET else 0) OR
     (if g_opt_af c = AF_INET6 then UPSCLI_CONN_INET6 else 0) OR
     (if g_certverify c = 1 then UPSCLI_CONN_CERTVERIF else 0)"

definition try_connect :: "'n net \<Rightarrow> 'n on \<Rightarrow> 'n on \<times> bool" where
  "try_connect N s =
     (case clear_st ST_CLICONNECTED s of (u, m) \<Rightarrow>
        if g_certpath (mn_conf m) = None \<and> g_certverify (mn_conf m) = 1
        then (drop_connection N (ups_is_gone (u, m)), False)
        else
          (case upscli_connect N (m_conn u) (mn_net m) (m_hostname u) (m_port u) (connect_flags (mn_conf m)) of
             (conn, n, ok) \<Rightarrow>
               (let s = (u\<lparr>m_conn := conn\<rparr>, m\<lparr>mn_net := n\<rparr>) in
                if \<not> ok then (ups_is_gone s, False)
                else do_upsd_auth N (set_st ST_CLICONNECTED s))))"

section \<open>The words of ups.status\<close>

definition update_crittimer :: "'n on \<Rightarrow> 'n on" where
  "update_crittimer = (\<lambda>(u, m).
     if \<not> has_st ST_ONBATT u \<or> \<not> has_st ST_LOWBATT u \<or> has_st ST_CAL u
     then (u\<lparr>m_lastnoncrit := mn_now m\<rparr>, m) else (u, m))"

function split_words :: "cstr \<Rightarrow> cstr list" where
  "split_words s = takeWhile (\<lambda>c. c \<noteq> CHR '' '') s #
     (case dropWhile (\<lambda>c. c \<noteq> CHR '' '') s of [] \<Rightarrow> [] | c # r \<Rightarrow> split_words r)"
  by pat_completeness auto
termination
proof (relation "measure length")
  fix s :: cstr and c r
  assume "dropWhile (\<lambda>c. c \<noteq> CHR '' '') s = c # r"
  then have "length (c # r) \<le> length s" by (metis length_dropWhile_le)
  then show "(r, s) \<in> measure length" by simp
qed simp

declare split_words.simps [simp del]

text \<open>The chain of comparisons; the flag is whether the word is known.\<close>

definition known_word :: "'n net \<Rightarrow> cstr \<Rightarrow> 'n on \<Rightarrow> fault + 'n on \<times> bool" where
  "known_word N w s =
     (let is = (\<lambda>t. strcasecmp w t = 0) in
      if is ''OL'' then Inr (ups_on_line s, True)
      else if is ''OB'' then Inr (ups_on_batt s, True)
      else if is ''LB'' then Inr (ups_low_batt s, True)
      else if is ''RB'' then Inr (upsreplbatt s, True)
      else if is ''CAL'' then Inr (ups_is_cal s, True)
      else if is ''OFF'' then Inr (ups_is_off s, True)
      else if is ''BYPASS'' then Inr (ups_is_bypass s, True)
      else if is ''ECO'' then Inr (ups_is_eco s, True)
      else if is ''ALARM'' then and_then (ups_is_alarm N s) (\<lambda>s. Inr (s, True))
      else if is ''OVER'' then Inr (ups_is_over s, True)
      else if is ''TRIM'' then Inr (ups_is_trim s, True)
      else if is ''BOOST'' then Inr (ups_is_boost s, True)
      else if is ''FSD'' then Inr (ups_fsd s, True)
      else Inr (s, is ''HB'' \<or> is ''CHRG'' \<or> is ''DISCHRG''))"

text \<open>
  The loop over the words: other is other_stat_words, changed counts the words that were
  not there the last time.
\<close>

definition other_word :: "cstr \<Rightarrow> 'n on \<times> cstr \<times> nat \<Rightarrow> fault + 'n on \<times> cstr \<times> nat" where
  "other_word w = (\<lambda>((u, m), other, changed).
     and_then (tok_note (mn_mono m) w (m_tokens u)) (\<lambda>(toks, new).
       Inr ((u\<lparr>m_tokens := toks\<rparr>, m),
            snprintfcat other MON_SMALLBUF ((if other \<noteq> [] then '' '' else []) @ w),
            changed + (if new then 1 else 0))))"

fun stat_words :: "'n net \<Rightarrow> cstr list \<Rightarrow> 'n on \<times> cstr \<times> nat \<Rightarrow> fault + 'n on \<times> cstr \<times> nat" where
  "stat_words N [] st = Inr st"
| "stat_words N (w # ws) (s, other, changed) =
     and_then (known_word N w s) (\<lambda>(s, handled).
       and_then (if handled then Inr (s, other, changed) else other_word w (s, other, changed))
         (\<lambda>(s, other, changed). stat_words N ws (update_crittimer s, other, changed)))"

definition buzz_eco :: "cstr \<Rightarrow> bool" where
  "buzz_eco b \<longleftrightarrow> b \<noteq> [] \<and>
     (\<not> strstr b '':ECO'' \<or> \<not> strstr b '':ESS'' \<or> \<not> strstr b '':HE'' \<or> \<not> strstr b '':SMART'')"

text \<open>What is cleared when the status does not mention it, and the ECO mode.\<close>

definition unless_seen :: "cstr \<Rightarrow> cstr \<Rightarrow> ('n on \<Rightarrow> 'n on) \<Rightarrow> 'n on \<Rightarrow> 'n on" where
  "unless_seen status t f s = (if strstr status t then s else f s)"

definition clear_absent :: "cstr \<Rightarrow> cstr \<Rightarrow> cstr \<Rightarrow> 'n on \<Rightarrow> 'n on" where
  "clear_absent status buzzword buzzwordX s =
     (let s = unless_seen status ''LB'' (clear_st ST_LOWBATT) s;
          s = unless_seen status ''FSD'' (clear_st ST_FSD) s;
          s = unless_seen status ''CAL'' ups_is_notcal s;
          s = unless_seen status ''OFF'' ups_is_notoff s;
          s = unless_seen status ''BYPASS'' ups_is_notbypass s;
          s = unless_seen status ''ALARM'' ups_is_notalarm s;
          s = unless_seen status ''OVER'' ups_is_notover s;
          s = unless_seen status ''TRIM'' ups_is_nottrim s;
          s = unless_seen status ''BOOST'' ups_is_notboost s;
          eco = buzz_eco buzzword \<or> buzz_eco buzzwordX
      in if \<not> strstr status ''ECO'' \<and> \<not> eco then ups_is_noteco s
         else if eco then ups_is_eco s else s)"

text \<open>What follows the loop: words that are gone, and the notification about unknown words.\<close>

definition finish_other :: "int \<Rightarrow> 'n on \<times> cstr \<times> nat \<Rightarrow> fault + 'n on" where
  "finish_other st_start = (\<lambda>((u, m), other, changed).
     and_then (tok_evict st_start (m_tokens u)) (\<lambda>(toks, gone).
       let u = u\<lparr>m_tokens := toks\<rparr> in
       if changed + gone = 0 then Inr (u, m)
       else if other \<noteq> [] then Inr (announce NOTIFY_OTHER (Some other) (u, m))
       else (case announce NOTIFY_NOTOTHER None (u, m) of (u, m) \<Rightarrow>
               and_then (tok_drop (m_tokens u)) (\<lambda>toks. Inr (u\<lparr>m_tokens := toks\<rparr>, m)))))"

definition parse_status :: "'n net \<Rightarrow> cstr \<Rightarrow> cstr \<Rightarrow> cstr \<Rightarrow> 'n on \<Rightarrow> fault + 'n on" where
  "parse_status N status buzzword buzzwordX s =
     (if status = [] then Inr (ups_is_gone s)
      else
        (let s = clear_absent status buzzword buzzwordX (ups_is_alive s); st_start = mn_mono (snd s) in
         and_then (stat_words N (split_words status) (s, [], 0)) (finish_other st_start)))"

section \<open>One poll\<close>

text \<open>
  The log of failed polls, which are with the notices the only messages to syslog that are
  recorded; the flag is whether this failure is logged.
\<close>

definition log_action :: "cstr \<Rightarrow> 'n on \<Rightarrow> 'n on" where
  "log_action text = (\<lambda>(u, m). (u, act (Syslogged LOG_ERR text) m))"

definition throttle :: "int \<Rightarrow> 'n on \<Rightarrow> 'n on \<times> bool" where
  "throttle upserror = (\<lambda>(u, m).
     (let most = g_pollfail_log_throttle_max (mn_conf m) in
      if most < 0 then ((u, m), True)
      else if m_throttle_state u = upserror then
        (if most = 0 then ((u, m), False)
         else if most - 1 \<le> m_throttle_count u then ((u\<lparr>m_throttle_count := 0\<rparr>, m), True)
         else ((u\<lparr>m_throttle_count := m_throttle_count u + 1\<rparr>, m), False))
      else
        (log_action (''Poll UPS ['' @ m_sys u @ ''] failure state code changed from '' @
             show_int (m_throttle_state u) @ '' to '' @ show_int upserror @
             (if most = 0 then ''; report below will not be repeated to syslog:''
              else ''; report below will only be repeated to syslog every '' @ show_int most @
                '' polling loop cycles ('' @
                show_nat (unat (word_of_int most * g_pollfreq (mn_conf m))) @ '' sec):''))
           (u\<lparr>m_throttle_state := upserror, m_throttle_count := 0\<rparr>, m), True)))"

definition recovered :: "'n on \<Rightarrow> 'n on" where
  "recovered = (\<lambda>(u, m).
     (let s = (u\<lparr>m_throttle_state := UPSCLI_ERR_NONE, m_throttle_count := -1\<rparr>, m) in
      if 0 \<le> g_pollfail_log_throttle_max (mn_conf m) \<and> m_throttle_state u \<noteq> UPSCLI_ERR_NONE
      then log_action (''Poll UPS ['' @ m_sys u @ ''] recovered from failure state code '' @
             show_int (m_throttle_state u) @ '' - now '' @ show_int UPSCLI_ERR_NONE) s
      else s))"

definition poll_failed :: "'n net \<Rightarrow> 'n on \<Rightarrow> 'n on" where
  "poll_failed N = (\<lambda>(u, m).
     (let upserror = upscli_upserror (m_conn u) in
      case throttle upserror (u, m) of ((u, m), pollfail_log) \<Rightarrow>
        (let reason = (if upserror = UPSCLI_ERR_UNKNOWNUPS
                then ''['' @ (case m_upsname u of None \<Rightarrow> [] | Some n \<Rightarrow> n) @ ''] does not exist on server '' @
                     (case m_hostname u of None \<Rightarrow> [] | Some h \<Rightarrow> h)
                else upscli_strerror N (m_conn u));
             s = (if pollfail_log
                  then log_action (''Poll UPS ['' @ m_sys u @ ''] failed - '' @ reason) (u, m) else (u, m));
             s = ups_is_gone s
         in if upscli_fd (m_conn (fst s)) = -1 then drop_connection N s else s)))"

definition pollups :: "'n net \<Rightarrow> 'n on \<Rightarrow> fault + 'n on" where
  "pollups N s =
     (case (if has_st ST_CLICONNECTED (fst s) then (s, True) else try_connect N s) of
        (s, False) \<Rightarrow> Inr s
      | (s, True) \<Rightarrow>
          and_then (mon_get_var N ''status'' s) (\<lambda>(s, status).
            and_then (mon_get_var N ''buzzword'' s) (\<lambda>(s, buzz).
              and_then (mon_get_var N ''X-buzzword'' s) (\<lambda>(s, buzzX).
                if status \<noteq> None \<or> buzz \<noteq> None \<or> buzzX \<noteq> None then
                  (let text = (\<lambda>v. case v of None \<Rightarrow> [] | Some t \<Rightarrow> t)
                   in parse_status N (text status) (text buzz) (text buzzX) (recovered s))
                else Inr (poll_failed N s)))))"

section \<open>One turn of the main loop\<close>

function poll_all :: "'n net \<Rightarrow> nat \<Rightarrow> 'n mon \<Rightarrow> fault + 'n mon" where
  "poll_all N i m =
     (if length (mn_ups m) \<le> i then Inr m
      else and_then (pollups N (mn_ups m ! i, m)) (\<lambda>(u, m').
        poll_all N (Suc i) (m'\<lparr>mn_ups := (mn_ups m)[i := u]\<rparr>)))"
  by pat_completeness auto
termination by (relation "measure (\<lambda>(N, i, m). length (mn_ups m) - i)") auto

declare poll_all.simps [simp del]

text \<open>
  The end of a turn is the monitor with its next delay, or the shutdown; None when the
  readings of the clock do not suffice for the wait of forceshutdown().
\<close>

datatype 'n turn = Sleeping "'n mon" | Shutting "('n mon \<times> shutdown) option"

definition to_shutdown :: "fault + ('n mon \<times> shutdown) option \<Rightarrow> fault + 'n turn" where
  "to_shutdown r = and_then r (\<lambda>x. Inr (Shutting x))"

definition poll_turn :: "'n net \<Rightarrow> int list \<Rightarrow> 'n mon \<Rightarrow> fault + 'n turn" where
  "poll_turn N ticks m = and_then (poll_all N 0 m) (\<lambda>m.
     case recalc m of (m, low) \<Rightarrow>
       if low then to_shutdown (forceshutdown N ticks m) else Inr (Sleeping m))"

end
