(* ===== verification/UpsmonConf.thy ===== *)
theory UpsmonConf
  imports UpsmonPoll StrLib
begin

unbundle bit_operations_syntax

text \<open>
  clients/upsmon.c: upsmon.conf, the MONITOR lines and reloading, the flag file that asks
  for the power to be cut, and the start up to the check of the power values.
\<close>

section \<open>MONITOR lines\<close>

definition wants_primary :: "cstr \<Rightarrow> bool" where
  "wants_primary opt \<longleftrightarrow> strcasecmp opt ''primary'' = 0 \<or> strcasecmp opt ''master'' = 0"

definition wants_secondary :: "cstr \<Rightarrow> bool" where
  "wants_secondary opt \<longleftrightarrow> strcasecmp opt ''secondary'' = 0 \<or> strcasecmp opt ''slave'' = 0"

text \<open>A connection without a login is dropped so that it is tried again.\<close>

definition retry_login :: "'n net \<Rightarrow> 'n on \<Rightarrow> 'n on" where
  "retry_login N s = (if has_st ST_LOGIN (fst s) then s else drop_connection N s)"

definition redefine_ups :: "'n net \<Rightarrow> 32 word \<Rightarrow> cstr \<Rightarrow> cstr \<Rightarrow> cstr \<Rightarrow> 'n on \<Rightarrow> 'n on" where
  "redefine_ups N pv un pw opt = (\<lambda>(u, m).
     (let u = u\<lparr>m_retain := True, m_pv := pv\<rparr>;
          m = m\<lparr>mn_totalpv := mn_totalpv m + m_pv u\<rparr>;
          s = (if m_un u = Some un then (u, m) else retry_login N (u\<lparr>m_un := Some un\<rparr>, m));
          s = (case s of (u, m) \<Rightarrow> ((if m_pw u = None then u\<lparr>m_pw := Some []\<rparr> else u), m));
          s = (case s of (u, m) \<Rightarrow>
                 (if m_pw u = Some pw then (u, m) else retry_login N (u\<lparr>m_pw := Some pw\<rparr>, m)))
      in if wants_primary opt \<and> \<not> has_st ST_PRIMARY (fst s)
         then drop_connection N (set_st ST_PRIMARY s)
         else if wants_secondary opt \<and> has_st ST_PRIMARY (fst s) then clear_st ST_PRIMARY s
         else s))"

definition new_utype :: "cstr \<Rightarrow> 32 word \<Rightarrow> cstr \<Rightarrow> cstr \<Rightarrow> cstr \<Rightarrow> utype" where
  "new_utype sys pv un pw opt =
     (case upscli_splitname sys None None 0 of (ok, upsname, hostname, port) \<Rightarrow>
        \<lparr>m_conn = zero_conn, m_sys = sys, m_upsname = upsname, m_hostname = hostname, m_port = port,
         m_pv = pv, m_un = Some un, m_pw = Some pw,
         m_status = (if wants_primary opt then setflag 0 ST_PRIMARY else 0), m_tokens = no_tokens,
         m_retain = True, m_commstate = -1, m_linestate = -1, m_offstate = -1, m_bypassstate = -1,
         m_ecostate = -1, m_alarmstate = -1, m_overstate = -1, m_throttle_state = UPSCLI_ERR_NONE,
         m_throttle_count = -1, m_lastpoll = 0, m_lastnoncrit = 0, m_lastrbwarn = 0, m_lastncwarn = 0,
         m_offsince = 0, m_oblbsince = 0, m_oversince = 0\<rparr>)"

text \<open>reloading is the value of reload_flag: any value but 0 counts.\<close>

definition addups :: "'n net \<Rightarrow> int \<Rightarrow> cstr \<Rightarrow> cstr \<Rightarrow> cstr \<Rightarrow> cstr \<Rightarrow> cstr \<Rightarrow> 'n mon \<Rightarrow> 'n mon" where
  "addups N reloading sys pvs un pw opt m =
     (let lpv = fst (strtol pvs 10) in
      if lpv < 0 \<or> UINT_MAX < lpv then m
      else
        (let pv = word_of_int lpv in
         case find_idx (\<lambda>u. m_sys u = sys) (mn_ups m) of
           Some i \<Rightarrow> (if reloading \<noteq> 0 then at_ups i (redefine_ups N pv un pw opt) m else m)
         | None \<Rightarrow> m\<lparr>mn_totalpv := mn_totalpv m + pv, mn_ups := mn_ups m @ [new_utype sys pv un pw opt]\<rparr>))"

section \<open>Directives\<close>

definition set_notifymsg :: "cstr \<Rightarrow> cstr \<Rightarrow> 'n mon \<Rightarrow> 'n mon" where
  "set_notifymsg name msg m =
     (case find_idx (\<lambda>e. strcasecmp (nf_name e) name = 0) (mn_notifylist m) of
        None \<Rightarrow> m
      | Some i \<Rightarrow> m\<lparr>mn_notifylist := (mn_notifylist m)[i := (mn_notifylist m ! i)\<lparr>nf_msg := Some msg\<rparr>]\<rparr>)"

definition flag_word :: "cstr \<Rightarrow> 32 word" where
  "flag_word w =
     (if w = ''SYSLOG'' then NOTIFY_SYSLOG else if w = ''WALL'' then NOTIFY_WALL
      else if w = ''EXEC'' then NOTIFY_EXEC else if w = ''IGNORE'' then NOTIFY_IGNORE else 0)"

function split_plus :: "cstr \<Rightarrow> cstr list" where
  "split_plus s = takeWhile (\<lambda>c. c \<noteq> CHR ''+'') s #
     (case dropWhile (\<lambda>c. c \<noteq> CHR ''+'') s of [] \<Rightarrow> [] | c # r \<Rightarrow> split_plus r)"
  by pat_completeness auto
termination
proof (relation "measure length")
  fix s :: cstr and c r
  assume "dropWhile (\<lambda>c. c \<noteq> CHR ''+'') s = c # r"
  then have "length (c # r) \<le> length s" by (metis length_dropWhile_le)
  then show "(r, s) \<in> measure length" by simp
qed simp

declare split_plus.simps [simp del]

definition set_notifyflag :: "cstr \<Rightarrow> cstr \<Rightarrow> 'n mon \<Rightarrow> 'n mon" where
  "set_notifyflag name flags m =
     (case find_idx (\<lambda>e. strcasecmp (nf_name e) name = 0) (mn_notifylist m) of
        None \<Rightarrow> m
      | Some i \<Rightarrow>
          (let f = foldl (\<lambda>acc w. acc OR flag_word w) 0 (split_plus flags)
           in m\<lparr>mn_notifylist := (mn_notifylist m)[i := (mn_notifylist m ! i)\<lparr>nf_flags := f\<rparr>]\<rparr>))"

definition yes_word :: "cstr \<Rightarrow> bool" where
  "yes_word w \<longleftrightarrow> strcasecmp w ''on'' = 0 \<or> strcasecmp w ''yes'' = 0 \<or> strcasecmp w ''true'' = 0"

definition no_word :: "cstr \<Rightarrow> bool" where
  "no_word w \<longleftrightarrow> strcasecmp w ''off'' = 0 \<or> strcasecmp w ''no'' = 0 \<or> strcasecmp w ''false'' = 0"

text \<open>SHUTDOWNEXIT; str_to_int() fails with 0 in its result.\<close>

definition shutdown_exit :: "cstr \<Rightarrow> int" where
  "shutdown_exit w =
     (if yes_word w then 0 else if no_word w then -1
      else case str_to_int (Some w) 10 of Inl e \<Rightarrow> 0 | Inr v \<Rightarrow> v)"

text \<open>
  The directives with one argument: the new settings, or None for a word that is none of
  them.
\<close>

definition conf_setting :: "cstr \<Rightarrow> cstr \<Rightarrow> settings \<Rightarrow> settings option" where
  "conf_setting name v c =
     (let is = (\<lambda>t. name = t); n = atoi v; unsigned_or = (\<lambda>old. if n < 0 then old else word_of_int n) in
      if is ''SHUTDOWNCMD'' then Some (c\<lparr>g_shutdowncmd := Some v\<rparr>)
      else if is ''SHUTDOWNEXIT'' then Some (c\<lparr>g_shutdownexitdelay := shutdown_exit v\<rparr>)
      else if is ''POWERDOWNFLAG'' then Some (c\<lparr>g_powerdownflag := Some v\<rparr>)
      else if is ''NOTIFYCMD'' then Some (c\<lparr>g_notifycmd := Some v\<rparr>)
      else if is ''POLLFREQ'' then Some (c\<lparr>g_pollfreq := unsigned_or (g_pollfreq c)\<rparr>)
      else if is ''POLLFREQALERT'' then Some (c\<lparr>g_pollfreqalert := unsigned_or (g_pollfreqalert c)\<rparr>)
      else if is ''POLLFAIL_LOG_THROTTLE_MAX'' then
        Some (if n < 0 \<or> n = INT_MAX then c else c\<lparr>g_pollfail_log_throttle_max := n\<rparr>)
      else if is ''OFFDURATION'' then Some (c\<lparr>g_offdurationtime := n\<rparr>)
      else if is ''OVERDURATION'' then Some (c\<lparr>g_overdurationtime := n\<rparr>)
      else if is ''OBLBDURATION'' then Some (c\<lparr>g_oblbdurationtime := (if n < 1 then 0 else n)\<rparr>)
      else if is ''HOSTSYNC'' then Some (c\<lparr>g_hostsync := n\<rparr>)
      else if is ''DEADTIME'' then Some (c\<lparr>g_deadtime := n\<rparr>)
      else if is ''MINSUPPLIES'' then Some (c\<lparr>g_minsupplies := unsigned_or (g_minsupplies c)\<rparr>)
      else if is ''RBWARNTIME'' then Some (c\<lparr>g_rbwarntime := n\<rparr>)
      else if is ''NOCOMMWARNTIME'' then Some (c\<lparr>g_nocommwarntime := n\<rparr>)
      else if is ''FINALDELAY'' then Some (c\<lparr>g_finaldelay := unsigned_or (g_finaldelay c)\<rparr>)
      else if is ''RUN_AS_USER'' then Some (c\<lparr>g_run_as_user := Some v\<rparr>)
      else if is ''CERTPATH'' then Some (c\<lparr>g_certpath := Some v\<rparr>)
      else if is ''CERTVERIFY'' then Some (c\<lparr>g_certverify := n\<rparr>)
      else if is ''FORCESSL'' then Some (c\<lparr>g_forcessl := n\<rparr>)
      else if is ''ALARMCRITICAL'' then Some (c\<lparr>g_alarmcritical := n\<rparr>)
      else if strcasecmp name ''DEBUG_MIN'' = 0 then
        (case str_to_int (Some v) 10 of
           Inr lvl \<Rightarrow> Some (if 0 \<le> lvl then c\<lparr>g_debug_level_global := lvl\<rparr> else c)
         | Inl e \<Rightarrow> Some c)
      else None)"

text \<open>parse_conf_arg(): the flag is whether the line was used; fatalx() is a fault.\<close>

definition parse_conf_arg :: "'n net \<Rightarrow> cstr list \<Rightarrow> 'n mon \<Rightarrow> fault + 'n mon \<times> bool" where
  "parse_conf_arg N arg m =
     (let numargs = length arg in
      if numargs < 2 then Inr (m, False)
      else case conf_setting (arg ! 0) (arg ! 1) (mn_conf m) of
        Some c \<Rightarrow> Inr (m\<lparr>mn_conf := c\<rparr>, True)
      | None \<Rightarrow>
          (if numargs < 3 then Inr (m, False)
           else if arg ! 0 = ''NOTIFYMSG'' then Inr (set_notifymsg (arg ! 1) (arg ! 2) m, True)
           else if arg ! 0 = ''NOTIFYFLAG'' then Inr (set_notifyflag (arg ! 1) (arg ! 2) m, True)
           else if arg ! 0 = ''CERTIDENT'' then
             Inr (m\<lparr>mn_conf := (mn_conf m)\<lparr>g_certname := Some (arg ! 1), g_certpasswd := Some (arg ! 2)\<rparr>\<rparr>, True)
           else if numargs < 5 then Inr (m, False)
           else if arg ! 0 = ''CERTHOST'' then Inr (m, True)
           else if arg ! 0 = ''MONITOR'' then
             (if numargs = 5 then Inl Fatal_exit
              else Inr (addups N (mn_reload_flag m) (arg ! 1) (arg ! 2) (arg ! 3) (arg ! 4) (arg ! 5) m, True))
           else Inr (m, False)))"

section \<open>Loading and reloading\<close>

text \<open>
  loadconfig(): lines are the lines of the file as pconf_file_next() gives them, None for
  a line with a parse error; file is None when the file cannot be read.
\<close>

fun conf_lines :: "'n net \<Rightarrow> cstr list option list \<Rightarrow> 'n mon \<Rightarrow> fault + 'n mon" where
  "conf_lines N [] m = Inr m"
| "conf_lines N (None # ls) m = conf_lines N ls m"
| "conf_lines N (Some args # ls) m =
     (if length args < 1 then conf_lines N ls m
      else and_then (parse_conf_arg N args m) (\<lambda>(m, used). conf_lines N ls m))"

definition reset_throttle :: "utype \<Rightarrow> utype" where
  "reset_throttle u = u\<lparr>m_throttle_count := -1, m_throttle_state := UPSCLI_ERR_NONE\<rparr>"

definition loadconfig :: "'n net \<Rightarrow> cstr list option list option \<Rightarrow> 'n mon \<Rightarrow> fault + 'n mon" where
  "loadconfig N file m =
     (case file of
        None \<Rightarrow> (if mn_reload_flag m = 1 \<or> mn_reload_flag m = -1 then Inr m else Inl Fatal_exit)
      | Some lines \<Rightarrow>
          (let m = (if mn_reload_flag m = 1 then
                 (let c = (mn_conf m)\<lparr>g_debug_level_global := -1\<rparr> in
                  if 0 \<le> g_pollfail_log_throttle_max c
                  then m\<lparr>mn_conf := c\<lparr>g_pollfail_log_throttle_max := -1\<rparr>,
                         mn_ups := map reset_throttle (mn_ups m)\<rparr>
                  else m\<lparr>mn_conf := c\<rparr>)
               else m)
           in and_then (conf_lines N lines m) (\<lambda>m.
             Inr (if mn_reload_flag m = 1 then
                    m\<lparr>mn_conf := (mn_conf m)\<lparr>g_debug_level :=
                        (if -1 < g_debug_level_global (mn_conf m) then g_debug_level_global (mn_conf m)
                         else g_debug_level_args (mn_conf m))\<rparr>\<rparr>
                  else m))))"

text \<open>delete_ups() of every UPS that the new configuration does not name.\<close>

fun delete_unretained :: "'n net \<Rightarrow> utype list \<Rightarrow> 'n mon \<Rightarrow> fault + utype list \<times> 'n mon" where
  "delete_unretained N [] m = Inr ([], m)"
| "delete_unretained N (u # us) m =
     (if m_retain u then
        and_then (delete_unretained N us m) (\<lambda>(us, m). Inr (u # us, m))
      else
        (case drop_connection N (u, m) of (u, m) \<Rightarrow>
           and_then (tok_drop (m_tokens u)) (\<lambda>toks. delete_unretained N us m)))"

text \<open>reload_conf(): readable is what check_file() finds.\<close>

definition reload_conf :: "'n net \<Rightarrow> bool \<Rightarrow> cstr list option list option \<Rightarrow> 'n mon \<Rightarrow> fault + 'n mon" where
  "reload_conf N readable file m =
     (if \<not> readable then Inr (m\<lparr>mn_reload_flag := 0\<rparr>)
      else and_then (loadconfig N file
             (m\<lparr>mn_ups := map (\<lambda>u. u\<lparr>m_retain := False\<rparr>) (mn_ups m), mn_totalpv := 0\<rparr>)) (\<lambda>m.
        and_then (delete_unretained N (mn_ups m) m) (\<lambda>(us, m).
          (let m = m\<lparr>mn_ups := us\<rparr> in
           if mn_totalpv m < g_minsupplies (mn_conf m) then Inl Fatal_exit
           else Inr (m\<lparr>mn_reload_flag := 0\<rparr>)))))"

section \<open>The main loop\<close>

text \<open>
  A pass of the main loop up to its sleep, where the system cannot tell of its own suspends:
  a forced shutdown that was asked for, a reload, the polls and the power value.
\<close>

definition main_cycle :: "'n net \<Rightarrow> int list \<Rightarrow> bool \<Rightarrow> cstr list option list option \<Rightarrow> 'n mon \<Rightarrow> fault + 'n turn" where
  "main_cycle N ticks readable file m =
     (if mn_userfsd m then to_shutdown (forceshutdown N ticks m)
      else and_then (if mn_reload_flag m \<noteq> 0 then reload_conf N readable file m else Inr m)
             (poll_turn N ticks))"

text \<open>What is done when the system tells that it has woken up.\<close>

definition wake_up :: "'n net \<Rightarrow> bool \<Rightarrow> cstr list option list option \<Rightarrow> 'n mon \<Rightarrow> fault + 'n mon" where
  "wake_up N readable file m =
     (let m = do_notify None NOTIFY_SUSPEND_FINISHED None m in
      reload_conf N readable file
        (m\<lparr>mn_ups := map (\<lambda>u. u\<lparr>m_status := 0, m_lastpoll := mn_now m\<rparr>) (mn_ups m), mn_reload_flag := 1\<rparr>))"

section \<open>The flag file\<close>

text \<open>
  pdflag_status(): content is None when the file cannot be opened; 1 for a file of ours, 0
  for none and -1 for foreign content.  From an empty file fgets() reads nothing, and the
  comparison then reads a buffer that was never written.
\<close>

definition SDMAGIC :: cstr where
  "SDMAGIC = ''upsmon-shutdown-file''"

definition pdflag_status :: "cstr option \<Rightarrow> cstr option \<Rightarrow> fault + int" where
  "pdflag_status powerdownflag content =
     (if powerdownflag = None then Inr 0
      else case content of None \<Rightarrow> Inr 0
        | Some buf \<Rightarrow> (if buf = [] then Inl Stray_read
                        else if strneq buf SDMAGIC (length SDMAGIC) then Inr 1 else Inr (-1)))"

text \<open>The new setting of powerdownflag, and whether the file is removed.\<close>

definition clear_pdflag :: "cstr option \<Rightarrow> cstr option \<Rightarrow> fault + cstr option \<times> bool" where
  "clear_pdflag powerdownflag content =
     and_then (pdflag_status powerdownflag content) (\<lambda>ret.
       Inr (if ret = -1 then (None, False) else (powerdownflag, ret = 1)))"

definition check_pdflag :: "cstr option \<Rightarrow> cstr option \<Rightarrow> fault + bool" where
  "check_pdflag powerdownflag content =
     and_then (pdflag_status powerdownflag content) (\<lambda>ret. Inr (ret = 1))"

text \<open>set_pdflag(): what is written to the file, if anything.\<close>

definition set_pdflag :: "cstr option \<Rightarrow> (cstr \<times> cstr) option" where
  "set_pdflag powerdownflag = map_option (\<lambda>fn. (fn, SDMAGIC)) powerdownflag"

section \<open>Starting\<close>

text \<open>
  main() from the configuration to the daemon: checking is the option -K, which ends with the
  state of the flag file; content is what the flag file of a given name holds.  A sum of power
  values below MINSUPPLIES is fatal.
\<close>

datatype 'n start = Checked bool | Ready "'n mon"

definition start_up ::
  "'n net \<Rightarrow> bool \<Rightarrow> cstr list option list option \<Rightarrow> (cstr \<Rightarrow> cstr option) \<Rightarrow> 'n mon \<Rightarrow> fault + 'n start" where
  "start_up N checking file content m =
     (let conf = (\<lambda>f m. m\<lparr>mn_conf := f (mn_conf m)\<rparr>);
          flag_file = (\<lambda>c. case g_powerdownflag c of None \<Rightarrow> None | Some fn \<Rightarrow> content fn);
          m = (if checking \<and> g_debug_level (mn_conf m) = 0 then conf (\<lambda>c. c\<lparr>g_debug_level := -2\<rparr>) m else m)
      in and_then (loadconfig N file m) (\<lambda>m.
           let m = conf (\<lambda>c. c\<lparr>g_debug_level := max (g_debug_level_global c) (g_debug_level c)\<rparr>) m; c = mn_conf m in
           if checking then and_then (check_pdflag (g_powerdownflag c) (flag_file c)) (\<lambda>found. Inr (Checked found))
           else
             and_then (if g_powerdownflag c = None then Inr m
                       else and_then (clear_pdflag (g_powerdownflag c) (flag_file c))
                              (\<lambda>(flag, removed). Inr (conf (\<lambda>c. c\<lparr>g_powerdownflag := flag\<rparr>) m)))
               (\<lambda>m. if mn_totalpv m < g_minsupplies (mn_conf m) then Inl Fatal_exit else Inr (Ready m))))"

end
