(* ===== verification/UpsmonFacts.thy ===== *)
theory UpsmonFacts
  imports UpsmonConf "HOL-Library.Multiset"
begin

unbundle bit_operations_syntax

text \<open>
  The status flags as bits, the contract of the operations that announce a state (the
  locale announcement), the status after a poll as a function of the status before and of
  the words, and when a UPS is critical.
\<close>

section \<open>Flags as bits\<close>

lemma word_bits: "v = w \<longleftrightarrow> (\<forall>k<32. bit v k \<longleftrightarrow> bit w k)" for v w :: "32 word"
  by (auto intro!: bit_word_eqI)

lemma push_inj: "i < 32 \<Longrightarrow> j < 32 \<Longrightarrow> (2 :: 32 word) ^ i = 2 ^ j \<longleftrightarrow> i = j"
  unfolding word_bits by (auto simp: bit_simps dest: spec [of _ i])

lemma flag_bit: "n < 32 \<Longrightarrow> flag_isset v (2 ^ n) \<longleftrightarrow> bit v n"
  by (auto simp: flag_isset_def word_bits bit_simps)

lemma set_bit_iff: "n < 32 \<Longrightarrow> k < 32 \<Longrightarrow> bit (setflag v (2 ^ n)) k \<longleftrightarrow> bit v k \<or> k = n"
  by (auto simp: setflag_def bit_simps possible_bit_def)

lemma clear_bit_iff: "n < 32 \<Longrightarrow> k < 32 \<Longrightarrow> bit (clearflag v (2 ^ n)) k \<longleftrightarrow> bit v k \<and> k \<noteq> n"
  by (auto simp: clearflag_def bit_simps possible_bit_def)

definition st_flags :: "32 word list" where
  "st_flags = map (\<lambda>n. 2 ^ n) [0..<16]"

lemma flags_as_bits:
  "ST_ONLINE = 2 ^ 0" "ST_ONBATT = 2 ^ 1" "ST_LOWBATT = 2 ^ 2" "ST_FSD = 2 ^ 3"
  "ST_PRIMARY = 2 ^ 4" "ST_LOGIN = 2 ^ 5" "ST_CLICONNECTED = 2 ^ 6"
  "ST_CAL = 2 ^ 7" "ST_OFF = 2 ^ 8" "ST_BYPASS = 2 ^ 9" "ST_ECO = 2 ^ 10"
  "ST_ALARM = 2 ^ 11" "ST_OTHER = 2 ^ 12" "ST_OVER = 2 ^ 13" "ST_TRIM = 2 ^ 14"
  "ST_BOOST = 2 ^ 15"
  by (simp_all add: ST_ONLINE_def ST_ONBATT_def ST_LOWBATT_def ST_FSD_def ST_PRIMARY_def ST_LOGIN_def
      ST_CLICONNECTED_def ST_CAL_def ST_OFF_def ST_BYPASS_def ST_ECO_def ST_ALARM_def ST_OTHER_def
      ST_OVER_def ST_TRIM_def ST_BOOST_def)

text \<open>The bit of a flag; every flag of upsmon.h has one.\<close>

definition bit_of :: "32 word \<Rightarrow> nat \<Rightarrow> bool" where
  "bit_of flag n \<longleftrightarrow> n < 16 \<and> flag = 2 ^ n"

lemma bit_of_flag [simp]:
  "bit_of ST_ONLINE 0" "bit_of ST_ONBATT 1" "bit_of ST_LOWBATT 2" "bit_of ST_FSD 3"
  "bit_of ST_PRIMARY 4" "bit_of ST_LOGIN 5" "bit_of ST_CLICONNECTED 6" "bit_of ST_CAL 7"
  "bit_of ST_OFF 8" "bit_of ST_BYPASS 9" "bit_of ST_ECO 10" "bit_of ST_ALARM 11"
  "bit_of ST_OTHER 12" "bit_of ST_OVER 13" "bit_of ST_TRIM 14" "bit_of ST_BOOST 15"
  by (simp_all add: bit_of_def flags_as_bits)

definition is_flag :: "32 word \<Rightarrow> bool" where
  "is_flag f \<longleftrightarrow> f \<in> set st_flags"

lemma is_flag_bit: "is_flag f \<longleftrightarrow> (\<exists>n. bit_of f n)"
  by (auto simp: is_flag_def st_flags_def bit_of_def)

lemma is_flag_all [simp]:
  "is_flag ST_ONLINE" "is_flag ST_ONBATT" "is_flag ST_LOWBATT" "is_flag ST_FSD" "is_flag ST_PRIMARY"
  "is_flag ST_LOGIN" "is_flag ST_CLICONNECTED" "is_flag ST_CAL" "is_flag ST_OFF" "is_flag ST_BYPASS"
  "is_flag ST_ECO" "is_flag ST_ALARM" "is_flag ST_OTHER" "is_flag ST_OVER" "is_flag ST_TRIM" "is_flag ST_BOOST"
  using bit_of_flag unfolding is_flag_bit by blast+

lemma isset_setflag:
  assumes "is_flag f" "is_flag g"
  shows "flag_isset (setflag v g) f \<longleftrightarrow> flag_isset v f \<or> f = g"
proof -
  obtain i j where b: "bit_of f i" "bit_of g j" using assms by (auto simp: is_flag_bit)
  then have "f = g \<longleftrightarrow> i = j" using push_inj [of i j] by (auto simp: bit_of_def)
  then show ?thesis using b by (simp add: bit_of_def flag_bit set_bit_iff)
qed

lemma isset_clearflag:
  assumes "is_flag f" "is_flag g"
  shows "flag_isset (clearflag v g) f \<longleftrightarrow> flag_isset v f \<and> f \<noteq> g"
proof -
  obtain i j where b: "bit_of f i" "bit_of g j" using assms by (auto simp: is_flag_bit)
  then have "f = g \<longleftrightarrow> i = j" using push_inj [of i j] by (auto simp: bit_of_def)
  then show ?thesis using b by (simp add: bit_of_def flag_bit clear_bit_iff)
qed

lemma setflag_same: "flag_isset v f \<Longrightarrow> setflag v f = v"
  by (auto simp: flag_isset_def setflag_def word_bits bit_simps)

lemma clearflag_same: "is_flag f \<Longrightarrow> \<not> flag_isset v f \<Longrightarrow> clearflag v f = v"
proof -
  assume f: "is_flag f" "\<not> flag_isset v f"
  obtain n where n: "bit_of f n" using f(1) by (auto simp: is_flag_bit)
  then have "\<not> bit v n" using f(2) by (simp add: bit_of_def flag_bit)
  then show "clearflag v f = v"
    using n by (auto simp: clearflag_def bit_of_def word_bits bit_simps)
qed

lemma setflag_changes: "\<not> flag_isset v f \<Longrightarrow> setflag v f \<noteq> v"
  unfolding flag_isset_def setflag_def word_bits by (auto simp: bit_simps)

lemma clearflag_changes: "is_flag f \<Longrightarrow> flag_isset v f \<Longrightarrow> clearflag v f \<noteq> v"
  using isset_clearflag [of f f v] by auto

lemma flag_idem [simp]:
  "setflag (setflag v f) f = setflag v f" "clearflag (clearflag v f) f = clearflag v f"
  unfolding setflag_def clearflag_def word_bits by (auto simp: bit_simps)

section \<open>What an operation leaves alone\<close>

text \<open>A UPS without its states and times, and the monitor without its delay and its logs.\<close>

definition ups_rest :: "utype \<Rightarrow> utype" where
  "ups_rest u = u\<lparr>m_status := 0, m_linestate := 0, m_offstate := 0, m_bypassstate := 0, m_ecostate := 0,
     m_alarmstate := 0, m_overstate := 0, m_lastpoll := 0, m_lastnoncrit := 0,
     m_lastrbwarn := 0, m_lastncwarn := 0, m_offsince := 0, m_oversince := 0\<rparr>"

definition mon_rest :: "'n mon \<Rightarrow> 'n mon" where
  "mon_rest m = m\<lparr>mn_sleepval := 0, mn_alarms_prev := [], mn_events := [], mn_actions := []\<rparr>"

definition states_only :: "'n on \<Rightarrow> 'n on \<Rightarrow> bool" where
  "states_only s s' \<longleftrightarrow> ups_rest (fst s') = ups_rest (fst s) \<and> mon_rest (snd s') = mon_rest (snd s)"

lemma states_only_refl [simp]: "states_only s s" by (simp add: states_only_def)

lemma states_only_trans: "states_only s t \<Longrightarrow> states_only t r \<Longrightarrow> states_only s r" by (simp add: states_only_def)

lemma rest_fields:
  "m_sys (ups_rest u) = m_sys u" "m_tokens (ups_rest u) = m_tokens u" "m_conn (ups_rest u) = m_conn u"
  "m_upsname (ups_rest u) = m_upsname u" "m_pv (ups_rest u) = m_pv u" "m_commstate (ups_rest u) = m_commstate u"
  "mn_ups (mon_rest m) = mn_ups m" "mn_conf (mon_rest m) = mn_conf m" "mn_now (mon_rest m) = mn_now m"
  "mn_mono (mon_rest m) = mn_mono m" "mn_net (mon_rest m) = mn_net m"
  by (simp_all add: ups_rest_def mon_rest_def)

lemma states_only_fields:
  assumes "states_only s s'"
  shows "m_sys (fst s') = m_sys (fst s)" "m_tokens (fst s') = m_tokens (fst s)"
    "m_conn (fst s') = m_conn (fst s)" "m_upsname (fst s') = m_upsname (fst s)" "m_pv (fst s') = m_pv (fst s)"
    "m_commstate (fst s') = m_commstate (fst s)"
    "mn_ups (snd s') = mn_ups (snd s)" "mn_conf (snd s') = mn_conf (snd s)" "mn_now (snd s') = mn_now (snd s)"
    "mn_mono (snd s') = mn_mono (snd s)" "mn_net (snd s') = mn_net (snd s)"
  using assms unfolding states_only_def by (metis rest_fields)+

lemma ups_rest_inert [simp]:
  "ups_rest (u\<lparr>m_status := v\<rparr>) = ups_rest u" "ups_rest (u\<lparr>m_linestate := i\<rparr>) = ups_rest u" "ups_rest (u\<lparr>m_offstate := i\<rparr>) = ups_rest u"
  "ups_rest (u\<lparr>m_bypassstate := i\<rparr>) = ups_rest u" "ups_rest (u\<lparr>m_ecostate := i\<rparr>) = ups_rest u"
  "ups_rest (u\<lparr>m_alarmstate := i\<rparr>) = ups_rest u" "ups_rest (u\<lparr>m_overstate := i\<rparr>) = ups_rest u"
  "ups_rest (u\<lparr>m_lastpoll := i\<rparr>) = ups_rest u" "ups_rest (u\<lparr>m_lastnoncrit := i\<rparr>) = ups_rest u"
  "ups_rest (u\<lparr>m_lastrbwarn := i\<rparr>) = ups_rest u" "ups_rest (u\<lparr>m_lastncwarn := i\<rparr>) = ups_rest u"
  "ups_rest (u\<lparr>m_offsince := i\<rparr>) = ups_rest u" "ups_rest (u\<lparr>m_oversince := i\<rparr>) = ups_rest u"
  by (simp_all add: ups_rest_def)

lemma mon_rest_inert [simp]:
  "mon_rest (m\<lparr>mn_sleepval := w\<rparr>) = mon_rest m" "mon_rest (m\<lparr>mn_alarms_prev := a\<rparr>) = mon_rest m"
  "mon_rest (m\<lparr>mn_events := e\<rparr>) = mon_rest m" "mon_rest (m\<lparr>mn_actions := x\<rparr>) = mon_rest m"
  "mon_rest (act y m) = mon_rest m"
  by (simp_all add: mon_rest_def act_def)

lemma act_fields [simp]:
  "mn_events (act a m) = mn_events m" "mn_conf (act a m) = mn_conf m" "mn_now (act a m) = mn_now m"
  "mn_sleepval (act a m) = mn_sleepval m" "mn_alarms_prev (act a m) = mn_alarms_prev m"
  by (simp_all add: act_def)

lemma notify_fields [simp]:
  "mn_events (notify text fl name who m) = mn_events m" "mon_rest (notify text fl name who m) = mon_rest m"
  "mn_sleepval (notify text fl name who m) = mn_sleepval m" "mn_conf (notify text fl name who m) = mn_conf m"
  "mn_now (notify text fl name who m) = mn_now m"
  "mn_alarms_prev (notify text fl name who m) = mn_alarms_prev m"
  by (auto simp: notify_def Let_def split: option.split)

lemma do_notify_fields [simp]:
  "mn_events (do_notify who t extra m) = mn_events m @ [(t, map_option m_sys who, extra)]"
  "mon_rest (do_notify who t extra m) = mon_rest m" "mn_sleepval (do_notify who t extra m) = mn_sleepval m"
  "mn_conf (do_notify who t extra m) = mn_conf m" "mn_now (do_notify who t extra m) = mn_now m"
  "mn_alarms_prev (do_notify who t extra m) = mn_alarms_prev m"
  by (auto simp: do_notify_def Let_def split: option.split)

lemmas step_defs = set_st_def clear_st_def announce_def poll_alert_def try_restore_pollfreq_def has_st_def

section \<open>A notification for a change and only then\<close>

text \<open>
  The contract of the operations behind the status words and their ends: the flags change
  by a function that is idempotent, a notification is sent exactly when they do change, and
  nothing but the states of the UPS, the delay and the logs is touched.
\<close>

definition change_events :: "ntype \<Rightarrow> 'n on \<Rightarrow> 32 word \<Rightarrow> (ntype \<times> cstr option \<times> cstr option) list" where
  "change_events t s v = (if v = m_status (fst s) then [] else [(t, Some (m_sys (fst s)), None)])"

text \<open>Nothing that can be seen from outside has happened.\<close>

definition still :: "'n on \<Rightarrow> 'n on \<Rightarrow> bool" where
  "still s s' \<longleftrightarrow> states_only s s' \<and> m_status (fst s') = m_status (fst s) \<and> mn_events (snd s') = mn_events (snd s)"

lemma still_refl [simp]: "still s s" by (simp add: still_def)

lemma still_trans: "still s t \<Longrightarrow> still t r \<Longrightarrow> still s r"
  by (auto simp: still_def intro: states_only_trans)

locale status_change =
  fixes upd :: "32 word \<Rightarrow> 32 word" and t :: ntype and f :: "'n on \<Rightarrow> 'n on"
  assumes status: "m_status (fst (f s)) = upd (m_status (fst s))"
    and idem: "upd (upd v) = upd v"
    and events: "mn_events (snd (f s)) = mn_events (snd s) @ change_events t s (upd (m_status (fst s)))"
    and keeps: "states_only s (f s)"
begin

lemma told_once: "mn_events (snd (f (f s))) = mn_events (snd (f s))"
  using events [of "f s"] status [of s] idem by (simp add: change_events_def)

lemma silent_iff: "mn_events (snd (f s)) = mn_events (snd s) \<longleftrightarrow> m_status (fst (f s)) = m_status (fst s)"
  by (simp add: events status change_events_def)

lemma settled: "upd (m_status (fst s)) = m_status (fst s) \<Longrightarrow> still s (f s)"
  by (simp add: still_def keeps status events change_events_def)

end

lemmas change_simps = step_defs change_events_def states_only_def Let_def setflag_same clearflag_same
  setflag_changes clearflag_changes

interpretation off: status_change "\<lambda>v. setflag v ST_OFF" NOTIFY_OFF ups_is_off
  by unfold_locales (auto simp: ups_is_off_def change_simps split_beta)

interpretation bypass: status_change "\<lambda>v. setflag v ST_BYPASS" NOTIFY_BYPASS ups_is_bypass
  by unfold_locales (auto simp: ups_is_bypass_def change_simps split_beta)

interpretation eco: status_change "\<lambda>v. setflag v ST_ECO" NOTIFY_ECO ups_is_eco
  by unfold_locales (auto simp: ups_is_eco_def change_simps split_beta)

interpretation low: status_change "\<lambda>v. setflag v ST_LOWBATT" NOTIFY_LOWBATT ups_low_batt
  by unfold_locales (auto simp: ups_low_batt_def change_simps split_beta)

interpretation cal: status_change "\<lambda>v. setflag v ST_CAL" NOTIFY_CAL ups_is_cal
  by unfold_locales (auto simp: ups_is_cal_def change_simps split_beta)

interpretation over: status_change "\<lambda>v. setflag v ST_OVER" NOTIFY_OVER ups_is_over
  by unfold_locales (auto simp: ups_is_over_def change_simps split_beta)

interpretation trim: status_change "\<lambda>v. setflag v ST_TRIM" NOTIFY_TRIM ups_is_trim
  by unfold_locales (auto simp: ups_is_trim_def change_simps split_beta)

interpretation boost: status_change "\<lambda>v. setflag v ST_BOOST" NOTIFY_BOOST ups_is_boost
  by unfold_locales (auto simp: ups_is_boost_def change_simps split_beta)

interpretation forced: status_change "\<lambda>v. setflag v ST_FSD" NOTIFY_FSD ups_fsd
  by unfold_locales (auto simp: ups_fsd_def change_simps split_beta)

interpretation notoff: status_change "\<lambda>v. clearflag v ST_OFF" NOTIFY_NOTOFF ups_is_notoff
  by unfold_locales (auto simp: ups_is_notoff_def ended_def change_simps split_beta)

interpretation notbypass: status_change "\<lambda>v. clearflag v ST_BYPASS" NOTIFY_NOTBYPASS ups_is_notbypass
  by unfold_locales (auto simp: ups_is_notbypass_def ended_def change_simps split_beta)

interpretation noteco: status_change "\<lambda>v. clearflag v ST_ECO" NOTIFY_NOTECO ups_is_noteco
  by unfold_locales (auto simp: ups_is_noteco_def ended_def change_simps split_beta)

interpretation notalarm: status_change "\<lambda>v. clearflag v ST_ALARM" NOTIFY_NOTALARM ups_is_notalarm
  by unfold_locales (auto simp: ups_is_notalarm_def ended_def change_simps split_beta)

interpretation notcal: status_change "\<lambda>v. clearflag v ST_CAL" NOTIFY_NOTCAL ups_is_notcal
  by unfold_locales (auto simp: ups_is_notcal_def ended_def change_simps split_beta)

interpretation notover: status_change "\<lambda>v. clearflag v ST_OVER" NOTIFY_NOTOVER ups_is_notover
  by unfold_locales (auto simp: ups_is_notover_def ended_def change_simps split_beta)

interpretation nottrim: status_change "\<lambda>v. clearflag v ST_TRIM" NOTIFY_NOTTRIM ups_is_nottrim
  by unfold_locales (auto simp: ups_is_nottrim_def ended_def change_simps split_beta)

interpretation notboost: status_change "\<lambda>v. clearflag v ST_BOOST" NOTIFY_NOTBOOST ups_is_notboost
  by unfold_locales (auto simp: ups_is_notboost_def ended_def change_simps split_beta)

section \<open>The status after a poll\<close>

definition ob_upd :: "32 word \<Rightarrow> 32 word" where
  "ob_upd v = (if flag_isset v ST_ONBATT then v else clearflag (setflag v ST_ONBATT) ST_ONLINE)"

definition ol_upd :: "32 word \<Rightarrow> 32 word" where
  "ol_upd v = (if flag_isset v ST_ONLINE then v else clearflag (setflag v ST_ONLINE) ST_ONBATT)"

lemmas flag_defs = ST_ONLINE_def ST_ONBATT_def ST_LOWBATT_def ST_FSD_def ST_PRIMARY_def ST_LOGIN_def
  ST_CLICONNECTED_def ST_CAL_def ST_OFF_def ST_BYPASS_def ST_ECO_def ST_ALARM_def ST_OTHER_def
  ST_OVER_def ST_TRIM_def ST_BOOST_def

lemma flags_neq [simp]:
  "ST_ONLINE \<noteq> ST_ONBATT" "ST_ONLINE \<noteq> ST_LOWBATT" "ST_ONLINE \<noteq> ST_FSD"
  "ST_ONLINE \<noteq> ST_PRIMARY" "ST_ONLINE \<noteq> ST_LOGIN" "ST_ONLINE \<noteq> ST_CLICONNECTED"
  "ST_ONLINE \<noteq> ST_CAL" "ST_ONLINE \<noteq> ST_OFF" "ST_ONLINE \<noteq> ST_BYPASS"
  "ST_ONLINE \<noteq> ST_ECO" "ST_ONLINE \<noteq> ST_ALARM" "ST_ONLINE \<noteq> ST_OVER"
  "ST_ONLINE \<noteq> ST_TRIM" "ST_ONLINE \<noteq> ST_BOOST" "ST_ONBATT \<noteq> ST_ONLINE"
  "ST_ONBATT \<noteq> ST_LOWBATT" "ST_ONBATT \<noteq> ST_FSD" "ST_ONBATT \<noteq> ST_PRIMARY"
  "ST_ONBATT \<noteq> ST_LOGIN" "ST_ONBATT \<noteq> ST_CLICONNECTED" "ST_ONBATT \<noteq> ST_CAL"
  "ST_ONBATT \<noteq> ST_OFF" "ST_ONBATT \<noteq> ST_BYPASS" "ST_ONBATT \<noteq> ST_ECO"
  "ST_ONBATT \<noteq> ST_ALARM" "ST_ONBATT \<noteq> ST_OVER" "ST_ONBATT \<noteq> ST_TRIM"
  "ST_ONBATT \<noteq> ST_BOOST" "ST_LOWBATT \<noteq> ST_ONLINE" "ST_LOWBATT \<noteq> ST_ONBATT"
  "ST_LOWBATT \<noteq> ST_FSD" "ST_LOWBATT \<noteq> ST_PRIMARY" "ST_LOWBATT \<noteq> ST_LOGIN"
  "ST_LOWBATT \<noteq> ST_CLICONNECTED" "ST_LOWBATT \<noteq> ST_CAL" "ST_LOWBATT \<noteq> ST_OFF"
  "ST_LOWBATT \<noteq> ST_BYPASS" "ST_LOWBATT \<noteq> ST_ECO" "ST_LOWBATT \<noteq> ST_ALARM"
  "ST_LOWBATT \<noteq> ST_OVER" "ST_LOWBATT \<noteq> ST_TRIM" "ST_LOWBATT \<noteq> ST_BOOST"
  "ST_FSD \<noteq> ST_ONLINE" "ST_FSD \<noteq> ST_ONBATT" "ST_FSD \<noteq> ST_LOWBATT"
  "ST_FSD \<noteq> ST_PRIMARY" "ST_FSD \<noteq> ST_LOGIN" "ST_FSD \<noteq> ST_CLICONNECTED"
  "ST_FSD \<noteq> ST_CAL" "ST_FSD \<noteq> ST_OFF" "ST_FSD \<noteq> ST_BYPASS" "ST_FSD \<noteq> ST_ECO"
  "ST_FSD \<noteq> ST_ALARM" "ST_FSD \<noteq> ST_OVER" "ST_FSD \<noteq> ST_TRIM" "ST_FSD \<noteq> ST_BOOST"
  "ST_PRIMARY \<noteq> ST_ONLINE" "ST_PRIMARY \<noteq> ST_ONBATT" "ST_PRIMARY \<noteq> ST_LOWBATT"
  "ST_PRIMARY \<noteq> ST_FSD" "ST_PRIMARY \<noteq> ST_LOGIN" "ST_PRIMARY \<noteq> ST_CLICONNECTED"
  "ST_PRIMARY \<noteq> ST_CAL" "ST_PRIMARY \<noteq> ST_OFF" "ST_PRIMARY \<noteq> ST_BYPASS"
  "ST_PRIMARY \<noteq> ST_ECO" "ST_PRIMARY \<noteq> ST_ALARM" "ST_PRIMARY \<noteq> ST_OVER"
  "ST_PRIMARY \<noteq> ST_TRIM" "ST_PRIMARY \<noteq> ST_BOOST" "ST_LOGIN \<noteq> ST_ONLINE"
  "ST_LOGIN \<noteq> ST_ONBATT" "ST_LOGIN \<noteq> ST_LOWBATT" "ST_LOGIN \<noteq> ST_FSD"
  "ST_LOGIN \<noteq> ST_PRIMARY" "ST_LOGIN \<noteq> ST_CLICONNECTED" "ST_LOGIN \<noteq> ST_CAL"
  "ST_LOGIN \<noteq> ST_OFF" "ST_LOGIN \<noteq> ST_BYPASS" "ST_LOGIN \<noteq> ST_ECO"
  "ST_LOGIN \<noteq> ST_ALARM" "ST_LOGIN \<noteq> ST_OVER" "ST_LOGIN \<noteq> ST_TRIM"
  "ST_LOGIN \<noteq> ST_BOOST" "ST_CLICONNECTED \<noteq> ST_ONLINE" "ST_CLICONNECTED \<noteq> ST_ONBATT"
  "ST_CLICONNECTED \<noteq> ST_LOWBATT" "ST_CLICONNECTED \<noteq> ST_FSD" "ST_CLICONNECTED \<noteq> ST_PRIMARY"
  "ST_CLICONNECTED \<noteq> ST_LOGIN" "ST_CLICONNECTED \<noteq> ST_CAL" "ST_CLICONNECTED \<noteq> ST_OFF"
  "ST_CLICONNECTED \<noteq> ST_BYPASS" "ST_CLICONNECTED \<noteq> ST_ECO" "ST_CLICONNECTED \<noteq> ST_ALARM"
  "ST_CLICONNECTED \<noteq> ST_OVER" "ST_CLICONNECTED \<noteq> ST_TRIM" "ST_CLICONNECTED \<noteq> ST_BOOST"
  "ST_CAL \<noteq> ST_ONLINE" "ST_CAL \<noteq> ST_ONBATT" "ST_CAL \<noteq> ST_LOWBATT" "ST_CAL \<noteq> ST_FSD"
  "ST_CAL \<noteq> ST_PRIMARY" "ST_CAL \<noteq> ST_LOGIN" "ST_CAL \<noteq> ST_CLICONNECTED"
  "ST_CAL \<noteq> ST_OFF" "ST_CAL \<noteq> ST_BYPASS" "ST_CAL \<noteq> ST_ECO" "ST_CAL \<noteq> ST_ALARM"
  "ST_CAL \<noteq> ST_OVER" "ST_CAL \<noteq> ST_TRIM" "ST_CAL \<noteq> ST_BOOST" "ST_OFF \<noteq> ST_ONLINE"
  "ST_OFF \<noteq> ST_ONBATT" "ST_OFF \<noteq> ST_LOWBATT" "ST_OFF \<noteq> ST_FSD" "ST_OFF \<noteq> ST_PRIMARY"
  "ST_OFF \<noteq> ST_LOGIN" "ST_OFF \<noteq> ST_CLICONNECTED" "ST_OFF \<noteq> ST_CAL"
  "ST_OFF \<noteq> ST_BYPASS" "ST_OFF \<noteq> ST_ECO" "ST_OFF \<noteq> ST_ALARM" "ST_OFF \<noteq> ST_OVER"
  "ST_OFF \<noteq> ST_TRIM" "ST_OFF \<noteq> ST_BOOST" "ST_BYPASS \<noteq> ST_ONLINE"
  "ST_BYPASS \<noteq> ST_ONBATT" "ST_BYPASS \<noteq> ST_LOWBATT" "ST_BYPASS \<noteq> ST_FSD"
  "ST_BYPASS \<noteq> ST_PRIMARY" "ST_BYPASS \<noteq> ST_LOGIN" "ST_BYPASS \<noteq> ST_CLICONNECTED"
  "ST_BYPASS \<noteq> ST_CAL" "ST_BYPASS \<noteq> ST_OFF" "ST_BYPASS \<noteq> ST_ECO"
  "ST_BYPASS \<noteq> ST_ALARM" "ST_BYPASS \<noteq> ST_OVER" "ST_BYPASS \<noteq> ST_TRIM"
  "ST_BYPASS \<noteq> ST_BOOST" "ST_ECO \<noteq> ST_ONLINE" "ST_ECO \<noteq> ST_ONBATT"
  "ST_ECO \<noteq> ST_LOWBATT" "ST_ECO \<noteq> ST_FSD" "ST_ECO \<noteq> ST_PRIMARY" "ST_ECO \<noteq> ST_LOGIN"
  "ST_ECO \<noteq> ST_CLICONNECTED" "ST_ECO \<noteq> ST_CAL" "ST_ECO \<noteq> ST_OFF" "ST_ECO \<noteq> ST_BYPASS"
  "ST_ECO \<noteq> ST_ALARM" "ST_ECO \<noteq> ST_OVER" "ST_ECO \<noteq> ST_TRIM" "ST_ECO \<noteq> ST_BOOST"
  "ST_ALARM \<noteq> ST_ONLINE" "ST_ALARM \<noteq> ST_ONBATT" "ST_ALARM \<noteq> ST_LOWBATT"
  "ST_ALARM \<noteq> ST_FSD" "ST_ALARM \<noteq> ST_PRIMARY" "ST_ALARM \<noteq> ST_LOGIN"
  "ST_ALARM \<noteq> ST_CLICONNECTED" "ST_ALARM \<noteq> ST_CAL" "ST_ALARM \<noteq> ST_OFF"
  "ST_ALARM \<noteq> ST_BYPASS" "ST_ALARM \<noteq> ST_ECO" "ST_ALARM \<noteq> ST_OVER"
  "ST_ALARM \<noteq> ST_TRIM" "ST_ALARM \<noteq> ST_BOOST" "ST_OVER \<noteq> ST_ONLINE"
  "ST_OVER \<noteq> ST_ONBATT" "ST_OVER \<noteq> ST_LOWBATT" "ST_OVER \<noteq> ST_FSD"
  "ST_OVER \<noteq> ST_PRIMARY" "ST_OVER \<noteq> ST_LOGIN" "ST_OVER \<noteq> ST_CLICONNECTED"
  "ST_OVER \<noteq> ST_CAL" "ST_OVER \<noteq> ST_OFF" "ST_OVER \<noteq> ST_BYPASS" "ST_OVER \<noteq> ST_ECO"
  "ST_OVER \<noteq> ST_ALARM" "ST_OVER \<noteq> ST_TRIM" "ST_OVER \<noteq> ST_BOOST" "ST_TRIM \<noteq> ST_ONLINE"
  "ST_TRIM \<noteq> ST_ONBATT" "ST_TRIM \<noteq> ST_LOWBATT" "ST_TRIM \<noteq> ST_FSD"
  "ST_TRIM \<noteq> ST_PRIMARY" "ST_TRIM \<noteq> ST_LOGIN" "ST_TRIM \<noteq> ST_CLICONNECTED"
  "ST_TRIM \<noteq> ST_CAL" "ST_TRIM \<noteq> ST_OFF" "ST_TRIM \<noteq> ST_BYPASS" "ST_TRIM \<noteq> ST_ECO"
  "ST_TRIM \<noteq> ST_ALARM" "ST_TRIM \<noteq> ST_OVER" "ST_TRIM \<noteq> ST_BOOST"
  "ST_BOOST \<noteq> ST_ONLINE" "ST_BOOST \<noteq> ST_ONBATT" "ST_BOOST \<noteq> ST_LOWBATT"
  "ST_BOOST \<noteq> ST_FSD" "ST_BOOST \<noteq> ST_PRIMARY" "ST_BOOST \<noteq> ST_LOGIN"
  "ST_BOOST \<noteq> ST_CLICONNECTED" "ST_BOOST \<noteq> ST_CAL" "ST_BOOST \<noteq> ST_OFF"
  "ST_BOOST \<noteq> ST_BYPASS" "ST_BOOST \<noteq> ST_ECO" "ST_BOOST \<noteq> ST_ALARM"
  "ST_BOOST \<noteq> ST_OVER" "ST_BOOST \<noteq> ST_TRIM"
  by (simp_all add: flag_defs)

lemma ob_upd_changes: "\<not> flag_isset v ST_ONBATT \<Longrightarrow> ob_upd v \<noteq> v"
proof
  assume a: "\<not> flag_isset v ST_ONBATT" "ob_upd v = v"
  have "flag_isset (ob_upd v) ST_ONBATT"
    by (simp add: ob_upd_def isset_clearflag isset_setflag)
  then show False using a by simp
qed

interpretation onbatt: status_change ob_upd NOTIFY_ONBATT ups_on_batt
proof
  show "ob_upd (ob_upd v) = ob_upd v" for v
    by (simp add: ob_upd_def isset_clearflag isset_setflag)
  show "mn_events (snd (ups_on_batt s)) = mn_events (snd s) @ change_events NOTIFY_ONBATT s (ob_upd (m_status (fst s)))"
    for s :: "'n on"
    using ob_upd_changes [of "m_status (fst s)"]
    by (auto simp: ups_on_batt_def step_defs change_events_def split_beta ob_upd_def)
qed (auto simp: ups_on_batt_def ob_upd_def change_simps split_beta)

lemma on_line_facts:
  "m_status (fst (ups_on_line s)) = ol_upd (m_status (fst s))" "states_only s (ups_on_line s)"
  by (auto simp: ups_on_line_def ol_upd_def step_defs states_only_def split_beta Let_def)

definition word_upd :: "cstr \<Rightarrow> 32 word \<Rightarrow> 32 word" where
  "word_upd w v =
     (let is = (\<lambda>t. strcasecmp w t = 0) in
      if is ''OL'' then ol_upd v
      else if is ''OB'' then ob_upd v
      else if is ''LB'' then setflag v ST_LOWBATT
      else if is ''CAL'' then setflag v ST_CAL
      else if is ''OFF'' then setflag v ST_OFF
      else if is ''BYPASS'' then setflag v ST_BYPASS
      else if is ''ECO'' then setflag v ST_ECO
      else if is ''ALARM'' then setflag v ST_ALARM
      else if is ''OVER'' then setflag v ST_OVER
      else if is ''TRIM'' then setflag v ST_TRIM
      else if is ''BOOST'' then setflag v ST_BOOST
      else if is ''FSD'' then setflag v ST_FSD
      else v)"

definition unless_flag :: "cstr \<Rightarrow> cstr \<Rightarrow> 32 word \<Rightarrow> 32 word \<Rightarrow> 32 word" where
  "unless_flag status t flag v = (if strstr status t then v else clearflag v flag)"

definition absent_upd :: "cstr \<Rightarrow> bool \<Rightarrow> 32 word \<Rightarrow> 32 word" where
  "absent_upd status eco v =
     (let v = unless_flag status ''BOOST'' ST_BOOST (unless_flag status ''TRIM'' ST_TRIM
            (unless_flag status ''OVER'' ST_OVER (unless_flag status ''ALARM'' ST_ALARM
            (unless_flag status ''BYPASS'' ST_BYPASS (unless_flag status ''OFF'' ST_OFF
            (unless_flag status ''CAL'' ST_CAL (unless_flag status ''FSD'' ST_FSD
            (unless_flag status ''LB'' ST_LOWBATT v))))))))
      in if \<not> strstr status ''ECO'' \<and> \<not> eco then clearflag v ST_ECO
         else if eco then setflag v ST_ECO else v)"

text \<open>The status after a poll that got an answer, as a function of the status before.\<close>

definition status_after :: "cstr \<Rightarrow> bool \<Rightarrow> 32 word \<Rightarrow> 32 word" where
  "status_after status eco v = foldl (\<lambda>v w. word_upd w v) (absent_upd status eco v) (split_words status)"

lemma mon_get_var_status:
  "mon_get_var N var s = Inr (s', got) \<Longrightarrow> m_status (fst s') = m_status (fst s)"
  by (auto simp: mon_get_var_def Let_def split_beta split: option.splits cli.splits if_splits)

lemma announce_status [simp]: "m_status (fst (announce t extra s)) = m_status (fst s)"
  by (simp add: announce_def split_beta)

lemma alarm_status:
  assumes "ups_is_alarm N s = Inr s'"
  shows "m_status (fst s') = setflag (m_status (fst s)) ST_ALARM"
proof (cases "has_st ST_ALARM (fst s)")
  case True
  then show ?thesis
    using assms mon_get_var_status
    by (cases s) (fastforce simp: ups_is_alarm_def and_then_Inr has_st_def setflag_same split: option.splits if_splits)
next
  case False
  then obtain t got where "mon_get_var N ''alarm'' ((fst s)\<lparr>m_alarmstate := 1\<rparr>,
      (snd s)\<lparr>mn_sleepval := g_pollfreqalert (mn_conf (snd s))\<rparr>) = Inr (t, got)"
    "m_status (fst s') = setflag (m_status (fst t)) ST_ALARM"
    using assms
    by (cases s) (auto simp: ups_is_alarm_def and_then_Inr poll_alert_def set_st_def announce_def split_beta)
  then show ?thesis using mon_get_var_status [of N "''alarm''"] by fastforce
qed

lemma known_word_status:
  assumes "known_word N w s = Inr (s', handled)"
  shows "m_status (fst s') = word_upd w (m_status (fst s))"
proof -
  have alarm: "\<And>t. ups_is_alarm N s = Inr t \<Longrightarrow> m_status (fst t) = setflag (m_status (fst s)) ST_ALARM"
    by (rule alarm_status)
  have rb: "m_status (fst (upsreplbatt s)) = m_status (fst s)"
    by (simp add: upsreplbatt_def split_beta)
  have rb_word: "strcasecmp w ''RB'' = 0 \<Longrightarrow> word_upd w v = v" for v
    by (simp add: word_upd_def Let_def ci_simps c_tolower_def)
  note one = on_line_facts(1) onbatt.status low.status cal.status off.status bypass.status
    eco.status over.status trim.status boost.status forced.status rb
  show ?thesis
  proof (cases "strcasecmp w ''RB'' = 0")
    case True
    then have "s' = upsreplbatt s"
      using assms by (simp add: known_word_def Let_def ci_simps c_tolower_def)
    then show ?thesis using rb rb_word True by simp
  next
    case False
    have "case known_word N w s of Inl e \<Rightarrow> True
      | Inr (t, h) \<Rightarrow> m_status (fst t) = word_upd w (m_status (fst s))"
      unfolding known_word_def word_upd_def Let_def
      by (cases "ups_is_alarm N s") (simp_all add: False one alarm)
    then show ?thesis using assms by simp
  qed
qed

lemma other_word_status:
  "other_word w (s, other, changed) = Inr (s', other', changed') \<Longrightarrow> m_status (fst s') = m_status (fst s)"
  by (cases s) (auto simp: other_word_def and_then_Inr)

lemma crittimer_status [simp]: "m_status (fst (update_crittimer s)) = m_status (fst s)"
  by (cases s) (simp add: update_crittimer_def)

lemma stat_words_status:
  "stat_words N ws (s, other, changed) = Inr (s', other', changed') \<Longrightarrow>
   m_status (fst s') = foldl (\<lambda>v w. word_upd w v) (m_status (fst s)) ws"
proof (induction ws arbitrary: s other changed)
  case (Cons w ws)
  obtain t h where k: "known_word N w s = Inr (t, h)" using Cons.prems by (auto simp: and_then_Inr)
  obtain t' o' c' where r: "(if h then Inr (t, other, changed) else other_word w (t, other, changed)) = Inr (t', o', c')"
    "stat_words N ws (update_crittimer t', o', c') = Inr (s', other', changed')"
    using Cons.prems k by (auto simp: and_then_Inr)
  have "m_status (fst t') = word_upd w (m_status (fst s))"
    using known_word_status [OF k] r(1) other_word_status [of w t other changed t' o' c'] by (auto split: if_splits)
  then show ?case using Cons.IH [OF r(2)] by simp
qed simp

lemma clear_st_status [simp]: "m_status (fst (clear_st f s)) = clearflag (m_status (fst s)) f"
  by (simp add: clear_st_def split_beta)

lemma clear_absent_status:
  "m_status (fst (clear_absent status b x s)) = absent_upd status (buzz_eco b \<or> buzz_eco x) (m_status (fst s))"
proof -
  have step: "m_status (fst (unless_seen status t f s)) = unless_flag status t flag (m_status (fst s))"
    if "\<And>s. m_status (fst (f s)) = clearflag (m_status (fst s)) flag" for t f flag and s :: "'n on"
    using that by (simp add: unless_seen_def unless_flag_def)
  note steps = step [OF clear_st_status] step [OF notcal.status] step [OF notoff.status]
    step [OF notbypass.status] step [OF notalarm.status] step [OF notover.status]
    step [OF nottrim.status] step [OF notboost.status]
  have last: "m_status (fst (if c then ups_is_noteco s else if d then ups_is_eco s else s)) =
      (if c then clearflag (m_status (fst s)) ST_ECO else if d then setflag (m_status (fst s)) ST_ECO
       else m_status (fst s))" for c d and s :: "'n on"
    by (simp add: noteco.status eco.status)
  show ?thesis
    unfolding clear_absent_def absent_upd_def Let_def last steps by (rule refl)
qed

lemma finish_other_status:
  "finish_other start (s, other, changed) = Inr s' \<Longrightarrow> m_status (fst s') = m_status (fst s)"
proof -
  assume fin: "finish_other start (s, other, changed) = Inr s'"
  obtain u m where s: "s = (u, m)" by (cases s)
  obtain toks gone where e: "tok_evict start (m_tokens u) = Inr (toks, gone)"
    using fin by (cases "tok_evict start (m_tokens u)") (auto simp: finish_other_def s)
  define u' where "u' = u\<lparr>m_tokens := toks\<rparr>"
  have "changed + gone = 0 \<and> s' = (u', m) \<or> (\<exists>x. s' = announce NOTIFY_OTHER x (u', m)) \<or>
      (\<exists>toks. s' = ((fst (announce NOTIFY_NOTOTHER None (u', m)))\<lparr>m_tokens := toks\<rparr>, snd (announce NOTIFY_NOTOTHER None (u', m))))"
    using fin by (auto simp: finish_other_def s e u'_def [symmetric] and_then_Inr split_beta split: if_split_asm)
  then show ?thesis by (auto simp: s u'_def announce_def)
qed

lemma alive_status [simp]: "m_status (fst (ups_is_alive s)) = m_status (fst s)"
  by (auto simp: ups_is_alive_def announce_def split_beta Let_def)

lemma gone_status [simp]: "m_status (fst (ups_is_gone s)) = m_status (fst s)"
  by (auto simp: ups_is_gone_def announce_def split_beta Let_def)

lemma parse_status_after:
  assumes "parse_status N status b x s = Inr s'"
  shows "m_status (fst s') = (if status = [] then m_status (fst s)
    else status_after status (buzz_eco b \<or> buzz_eco x) (m_status (fst s)))"
proof (cases "status = []")
  case False
  let ?s = "clear_absent status b x (ups_is_alive s)"
  obtain t other changed where w: "stat_words N (split_words status) (?s, [], 0) = Inr (t, other, changed)"
    "finish_other (mn_mono (snd ?s)) (t, other, changed) = Inr s'"
    using assms False by (auto simp: parse_status_def and_then_Inr Let_def)
  show ?thesis
    using finish_other_status [OF w(2)] stat_words_status [OF w(1)] False
    by (simp add: status_after_def clear_absent_status)
qed (use assms in \<open>auto simp: parse_status_def\<close>)

section \<open>Which flags are set\<close>

text \<open>The words whose flags only follow their presence in the status.\<close>

definition level_words :: "(cstr \<times> 32 word) list" where
  "level_words = [(''LB'', ST_LOWBATT), (''FSD'', ST_FSD), (''CAL'', ST_CAL), (''OFF'', ST_OFF),
     (''BYPASS'', ST_BYPASS), (''ALARM'', ST_ALARM), (''OVER'', ST_OVER), (''TRIM'', ST_TRIM),
     (''BOOST'', ST_BOOST)]"

lemma word_keys:
  "ci_key ''OL'' = [111, 108]" "ci_key ''OB'' = [111, 98]" "ci_key ''LB'' = [108, 98]"
  "ci_key ''RB'' = [114, 98]" "ci_key ''CAL'' = [99, 97, 108]" "ci_key ''OFF'' = [111, 102, 102]"
  "ci_key ''BYPASS'' = [98, 121, 112, 97, 115, 115]" "ci_key ''ECO'' = [101, 99, 111]"
  "ci_key ''ALARM'' = [97, 108, 97, 114, 109]" "ci_key ''OVER'' = [111, 118, 101, 114]"
  "ci_key ''TRIM'' = [116, 114, 105, 109]" "ci_key ''BOOST'' = [98, 111, 111, 115, 116]"
  "ci_key ''FSD'' = [102, 115, 100]" "ci_key ''HB'' = [104, 98]" "ci_key ''CHRG'' = [99, 104, 114, 103]"
  "ci_key ''DISCHRG'' = [100, 105, 115, 99, 104, 114, 103]"
  by (simp_all add: c_tolower_def)

lemma isset_if: "flag_isset (if c then a else b) f = (if c then flag_isset a f else flag_isset b f)"
  by simp

lemma word_upd_level:
  assumes "(t, flag) \<in> set level_words"
  shows "flag_isset (word_upd w v) flag \<longleftrightarrow> flag_isset v flag \<or> strcasecmp w t = 0"
proof -
  have ol: "flag_isset (ol_upd v) f = flag_isset v f" "flag_isset (ob_upd v) f = flag_isset v f"
    if "is_flag f" "f \<noteq> ST_ONLINE" "f \<noteq> ST_ONBATT" for f
    using that by (simp_all add: ol_upd_def ob_upd_def isset_setflag isset_clearflag)
  have "list_all (\<lambda>(t, flag). flag_isset (word_upd w v) flag \<longleftrightarrow> flag_isset v flag \<or> strcasecmp w t = 0) level_words"
    unfolding level_words_def word_upd_def Let_def strcasecmp_eq_0 word_keys
    by (simp add: isset_if ol isset_setflag c_tolower_def)
  then show ?thesis using assms by (auto simp: list_all_iff)
qed

end
