(* ===== verification/UpsmonSpec.thy ===== *)
theory UpsmonSpec
  imports UpsmonFacts
begin

unbundle bit_operations_syntax

text \<open>
  What upsmon does with what it reads, said without its flags and times: which flags the
  words of a status set, when a repeated status is silent, how much power counts, how long
  the wait for the secondaries lasts and how often failures are logged.
\<close>

section \<open>Flags and words\<close>

definition said :: "cstr \<Rightarrow> cstr \<Rightarrow> bool" where
  "said status t \<longleftrightarrow> (\<exists>w \<in> set (split_words status). strcasecmp w t = 0)"

lemma isset_unless:
  assumes "is_flag f" "is_flag g"
  shows "flag_isset (unless_flag status t g v) f \<longleftrightarrow> flag_isset v f \<and> (f = g \<longrightarrow> strstr status t)"
  using assms by (auto simp: unless_flag_def isset_clearflag)

lemma absent_level:
  assumes "(t, flag) \<in> set level_words"
  shows "flag_isset (absent_upd status eco v) flag \<longleftrightarrow> flag_isset v flag \<and> strstr status t"
proof -
  have "list_all (\<lambda>(t, flag). flag_isset (absent_upd status eco v) flag \<longleftrightarrow>
      flag_isset v flag \<and> strstr status t) level_words"
    unfolding level_words_def absent_upd_def Let_def
    by (simp add: isset_if isset_unless isset_setflag isset_clearflag)
  then show ?thesis using assms by (auto simp: list_all_iff)
qed

lemma words_level:
  assumes "(t, flag) \<in> set level_words"
  shows "flag_isset (foldl (\<lambda>v w. word_upd w v) v ws) flag \<longleftrightarrow>
    flag_isset v flag \<or> (\<exists>w \<in> set ws. strcasecmp w t = 0)"
  by (induction ws arbitrary: v) (auto simp: word_upd_level [OF assms])

lemma level_after:
  assumes "(t, flag) \<in> set level_words" "strstr status t \<Longrightarrow> said status t"
  shows "flag_isset (status_after status eco v) flag \<longleftrightarrow> said status t"
  using assms by (auto simp: status_after_def words_level absent_level said_def)

text \<open>ONLINE and ONBATT follow the last word of the two.\<close>

definition line_word :: "cstr \<Rightarrow> bool" where
  "line_word w \<longleftrightarrow> strcasecmp w ''OL'' = 0 \<or> strcasecmp w ''OB'' = 0"

definition one_line :: "32 word \<Rightarrow> bool" where
  "one_line v \<longleftrightarrow> \<not> (flag_isset v ST_ONLINE \<and> flag_isset v ST_ONBATT)"

text \<open>A pair of flags, as the last word leaves it.\<close>

definition line_flags :: "32 word \<Rightarrow> bool \<times> bool" where
  "line_flags v = (flag_isset v ST_ONLINE, flag_isset v ST_ONBATT)"

definition lines_said :: "cstr list \<Rightarrow> bool \<times> bool \<Rightarrow> bool \<times> bool" where
  "lines_said ws before =
     (case find line_word (rev ws) of None \<Rightarrow> before
      | Some w \<Rightarrow> (strcasecmp w ''OL'' = 0, strcasecmp w ''OB'' = 0))"

lemma word_upd_line:
  assumes "one_line v"
  shows "line_flags (word_upd w v) =
    (if line_word w then (strcasecmp w ''OL'' = 0, strcasecmp w ''OB'' = 0) else line_flags v)"
  using assms
  unfolding word_upd_def Let_def line_word_def line_flags_def one_line_def strcasecmp_eq_0 word_keys
  by (auto simp: ol_upd_def ob_upd_def isset_setflag isset_clearflag)

lemma one_line_flags: "one_line v \<longleftrightarrow> line_flags v \<noteq> (True, True)"
  by (auto simp: one_line_def line_flags_def)

lemma not_both_words: "\<not> (strcasecmp w ''OL'' = 0 \<and> strcasecmp w ''OB'' = 0)"
  unfolding strcasecmp_eq_0 word_keys by auto

lemma lines_said_one: "before \<noteq> (True, True) \<Longrightarrow> lines_said ws before \<noteq> (True, True)"
  using not_both_words by (auto simp: lines_said_def split: option.split)

lemma words_line:
  "one_line v \<Longrightarrow> line_flags (foldl (\<lambda>v w. word_upd w v) v ws) = lines_said ws (line_flags v)"
proof (induction ws rule: rev_induct)
  case (snoc w ws)
  then have "one_line (foldl (\<lambda>v w. word_upd w v) v ws)"
    using lines_said_one [of "line_flags v" ws] by (simp add: one_line_flags)
  then show ?case using snoc by (simp add: word_upd_line lines_said_def)
qed (simp add: lines_said_def)

lemma absent_line: "line_flags (absent_upd status eco v) = line_flags v"
  unfolding absent_upd_def Let_def line_flags_def
  by (simp add: isset_if isset_unless isset_setflag isset_clearflag)

lemma line_after:
  "one_line v \<Longrightarrow> line_flags (status_after status eco v) = lines_said (split_words status) (line_flags v)"
  by (simp add: status_after_def words_line one_line_flags absent_line)

lemma one_line_after: "one_line v \<Longrightarrow> one_line (status_after status eco v)"
  using line_after [of v status eco] lines_said_one [of "line_flags v" "split_words status"]
  by (simp add: one_line_flags)

text \<open>ECO mode comes from the buzzwords; a word in the status sets it too.\<close>

lemma eco_after:
  assumes "eco"
  shows "flag_isset (status_after status eco v) ST_ECO"
proof -
  have word: "flag_isset (word_upd w v) ST_ECO" if "flag_isset v ST_ECO" for w v
    using that unfolding word_upd_def Let_def
    by (simp add: isset_if isset_setflag isset_clearflag ol_upd_def ob_upd_def)
  have "flag_isset (foldl (\<lambda>v w. word_upd w v) v ws) ST_ECO" if "flag_isset v ST_ECO" for v ws
    using that by (induction ws arbitrary: v) (simp_all add: word)
  then show ?thesis
    using assms by (simp add: status_after_def absent_upd_def Let_def isset_setflag)
qed

section \<open>The power value\<close>

lemma isset_zero [simp]: "is_flag f \<Longrightarrow> \<not> flag_isset 0 f"
  by (auto simp: is_flag_bit bit_of_def flag_bit)

lemma isset_or: "flag_isset v (a OR b) \<longleftrightarrow> flag_isset v a \<and> flag_isset v b"
  by (auto simp: flag_isset_def word_bits bit_simps)

lemma sum_list_filter_mono:
  fixes f :: "'a \<Rightarrow> nat"
  assumes "\<And>x. x \<in> set xs \<Longrightarrow> P x \<Longrightarrow> Q x"
  shows "(\<Sum>x\<leftarrow>filter P xs. f x) \<le> (\<Sum>x\<leftarrow>filter Q xs. f x)"
  using assms by (induction xs) (auto simp: add.commute add_increasing2 intro: add_mono)

text \<open>Whether a UPS counts as critical in a pass of recalc().\<close>

definition critical :: "'n mon \<Rightarrow> utype \<Rightarrow> bool" where
  "critical m u = snd (is_ups_critical (promote_dead (u, m)))"

definition same_clock :: "'n mon \<Rightarrow> 'n mon \<Rightarrow> bool" where
  "same_clock m m' \<longleftrightarrow> mn_now m' = mn_now m \<and> mn_conf m' = mn_conf m"

lemma is_ups_critical_clock:
  "is_ups_critical (u, m) = ((u', m'), c) \<Longrightarrow> same_clock m m'"
  by (auto simp: is_ups_critical_def same_clock_def Let_def split: if_splits)

lemma is_ups_critical_same:
  "same_clock m m' \<Longrightarrow> snd (is_ups_critical (u, m')) = snd (is_ups_critical (u, m))"
proof -
  assume "same_clock m m'"
  then have same: "mn_now m' = mn_now m" "mn_conf m' = mn_conf m" by (simp_all add: same_clock_def)
  show ?thesis
    unfolding is_ups_critical_def presumed_dead_def prod.case Let_def if_distrib [of snd] snd_conv same
    by (rule refl)
qed

lemma promote_dead_eq: "promote_dead (u, m) = (fst (promote_dead (u, m)), m)"
  by (simp add: promote_dead_def set_st_def)

lemma promote_dead_same: "same_clock m m' \<Longrightarrow> fst (promote_dead (u, m')) = fst (promote_dead (u, m))"
  by (simp add: promote_dead_def set_st_def same_clock_def)

lemma critical_same: "same_clock m m' \<Longrightarrow> critical m' u = critical m u"
  unfolding critical_def
  by (metis promote_dead_eq promote_dead_same is_ups_critical_same)

lemma critical_pv: "is_ups_critical (promote_dead (u, m)) = ((u', m'), c) \<Longrightarrow> m_pv u' = m_pv u"
  by (auto simp: is_ups_critical_def promote_dead_def set_st_def Let_def split: if_splits)

lemma power_value_sum:
  "power_value us m = (us', m', val_ol) \<Longrightarrow>
   val_ol = (\<Sum>u\<leftarrow>us. if critical m u then 0 else m_pv u) \<and> same_clock m m'"
proof (induction us arbitrary: m us' m' val_ol)
  case Nil
  then show ?case by (simp add: same_clock_def)
next
  case (Cons u us)
  obtain u1 m1 c where c: "is_ups_critical (promote_dead (u, m)) = ((u1, m1), c)"
    by (metis prod.exhaust)
  obtain us2 m2 v where v: "power_value us m1 = (us2, m2, v)" by (metis prod.exhaust)
  have clock: "same_clock m m1" using c is_ups_critical_clock promote_dead_eq by metis
  have same: "critical m1 = critical m" by (rule ext) (rule critical_same [OF clock])
  have this_one: "critical m u = c" "m_pv u1 = m_pv u"
    by (simp_all add: critical_def c critical_pv [OF c])
  have "val_ol = (if c then 0 else m_pv u1) + v" "m' = m2"
    using Cons.prems c v by auto
  moreover have "v = (\<Sum>u\<leftarrow>us. if critical m u then 0 else m_pv u)" "same_clock m1 m2"
    using Cons.IH [OF v] by (simp_all add: same)
  ultimately show ?case using this_one clock by (simp add: same_clock_def)
qed

lemma recalc_sum:
  "snd (recalc m) \<longleftrightarrow> (\<Sum>u\<leftarrow>mn_ups m. if critical m u then 0 else m_pv u) < g_minsupplies (mn_conf m)"
proof -
  obtain us m' v where p: "power_value (mn_ups m) m = (us, m', v)" by (metis prod.exhaust)
  show ?thesis using power_value_sum [OF p] by (simp add: recalc_def p same_clock_def)
qed

lemma unat_sum_list:
  fixes f :: "'a \<Rightarrow> 32 word"
  assumes "(\<Sum>x\<leftarrow>xs. unat (f x)) < 2 ^ 32"
  shows "unat (\<Sum>x\<leftarrow>xs. f x) = (\<Sum>x\<leftarrow>xs. unat (f x))"
  using assms
proof (induction xs)
  case (Cons x xs)
  then have "unat (\<Sum>x\<leftarrow>xs. f x) = (\<Sum>x\<leftarrow>xs. unat (f x))" by simp
  then show ?case using Cons.prems by (simp add: unat_word_ariths)
qed simp

text \<open>While the power values cannot wrap, the decision is the one on numbers.\<close>

definition good_power :: "'n mon \<Rightarrow> nat" where
  "good_power m = (\<Sum>u\<leftarrow>filter (\<lambda>u. \<not> critical m u) (mn_ups m). unat (m_pv u))"

lemma sum_list_if: "(\<Sum>x\<leftarrow>xs. if P x then 0 else f x) = (\<Sum>x\<leftarrow>filter (\<lambda>x. \<not> P x) xs. f x :: 'b :: monoid_add)"
  by (induction xs) auto

lemma recalc_good_power:
  assumes "good_power m < 2 ^ 32"
  shows "snd (recalc m) \<longleftrightarrow> good_power m < unat (g_minsupplies (mn_conf m))"
  using unat_sum_list [of m_pv "filter (\<lambda>u. \<not> critical m u) (mn_ups m)"] assms
  by (simp add: recalc_sum sum_list_if good_power_def word_less_nat_alt)

text \<open>
  A UPS in contact is critical only by the forced shutdown, by being switched off for long
  enough, or on battery with a low battery.
\<close>

lemma critical_in_contact:
  assumes "critical m u" "m_commstate u \<noteq> 0"
  shows "has_st ST_FSD u \<or> (has_st ST_OFF u \<and> m_offstate u = 1) \<or>
    (has_st ST_ONBATT u \<and> (has_st ST_LOWBATT u \<or> g_deadtime (mn_conf m) < mn_now m - m_lastpoll u) \<and>
     \<not> has_st ST_CAL u \<and> (has_st ST_PRIMARY u \<or> g_hostsync (mn_conf m) < mn_now m - m_lastnoncrit u))"
  using assms
  by (auto simp: critical_def is_ups_critical_def promote_dead_def set_st_def has_st_def isset_setflag Let_def
      split: if_splits)

lemma critical_low_battery:
  assumes "has_st ST_ONBATT u" "has_st ST_LOWBATT u" "\<not> has_st ST_CAL u" "has_st ST_PRIMARY u"
    "g_oblbdurationtime (mn_conf m) \<le> 0"
  shows "critical m u"
  using assms
  by (auto simp: critical_def is_ups_critical_def promote_dead_def set_st_def has_st_def isset_setflag Let_def)

section \<open>The wait for the secondaries\<close>

lemma mon_get_var_conf:
  "mon_get_var N var (u, m) = Inr ((u', m'), got) \<Longrightarrow> mn_conf m' = mn_conf m \<and> mn_ups m' = mn_ups m"
  by (auto simp: mon_get_var_def Let_def split_beta split: option.splits cli.splits if_splits)

lemma max_logins_conf:
  "max_logins N i most m = Inr (m', n) \<Longrightarrow> mn_conf m' = mn_conf m"
proof (induction N i most m rule: max_logins.induct)
  case (1 N i most m)
  show ?case
  proof (cases "length (mn_ups m) \<le> i \<or> \<not> has_st ST_PRIMARY (mn_ups m ! i)")
    case True
    then show ?thesis using 1 by (auto split: if_splits)
  next
    case False
    then obtain u m1 got where g: "mon_get_var N ''numlogins'' (mn_ups m ! i, m) = Inr ((u, m1), got)"
      "max_logins N (Suc i) (case got of None \<Rightarrow> most | Some temp \<Rightarrow> max most (fst (strtol temp 10)))
        (m1\<lparr>mn_ups := (mn_ups m)[i := u]\<rparr>) = Inr (m', n)"
      using "1.prems" by (auto simp: Let_def split: sum.splits)
    then show ?thesis
      using "1.IH"(2) [OF _ _ g(1) refl refl refl refl g(2)] False mon_get_var_conf [OF g(1)] by simp
  qed
qed

lemma sync_secondaries_ends:
  "sync_secondaries N start ticks m = Inr (m', r) \<Longrightarrow>
   \<exists>now \<in> set ticks. g_hostsync (mn_conf m) < now - start \<Longrightarrow> r \<noteq> None"
proof (induction N start ticks m rule: sync_secondaries.induct)
  case (2 N start now later m)
  obtain m1 n where l: "max_logins N 0 0 m = Inr (m1, n)" using "2.prems"(1) by (auto simp: and_then_Inr simp del: max_logins.simps)
  then show ?case
    using "2.IH" [of n m1] "2.prems" max_logins_conf [OF l]
    by (auto simp: l simp del: max_logins.simps split: if_splits)
qed simp

section \<open>A status that is repeated\<close>

text \<open>
  A status of words that are announced when they come and go, in upper case and not inside
  of other words, that does not say both OL and OB.
\<close>

definition plain_words :: "cstr list" where
  "plain_words = [''OL'', ''OB'', ''HB'', ''CHRG'', ''DISCHRG''] @ map fst level_words"

definition plain_status :: "cstr \<Rightarrow> bool" where
  "plain_status status \<longleftrightarrow> status \<noteq> [] \<and>
     (\<forall>w \<in> set (split_words status). \<exists>t \<in> set plain_words. strcasecmp w t = 0 \<and> t \<noteq> ''ALARM'') \<and>
     list_all (\<lambda>(t, flag). strstr status t \<longleftrightarrow> said status t) level_words \<and>
     \<not> (said status ''OL'' \<and> said status ''OB'') \<and> \<not> strstr status ''ECO''"

text \<open>The flags that such a status leaves behind.\<close>

definition agrees :: "cstr \<Rightarrow> 32 word \<Rightarrow> bool" where
  "agrees status v \<longleftrightarrow>
     list_all (\<lambda>(t, flag). flag_isset v flag \<longleftrightarrow> said status t) level_words \<and>
     (said status ''OL'' \<longrightarrow> line_flags v = (True, False)) \<and>
     (said status ''OB'' \<longrightarrow> line_flags v = (False, True)) \<and> \<not> flag_isset v ST_ECO"

lemma agrees_level: "agrees status v \<Longrightarrow> (t, flag) \<in> set level_words \<Longrightarrow> flag_isset v flag \<longleftrightarrow> said status t"
  by (auto simp: agrees_def list_all_iff)

lemma plain_level: "plain_status status \<Longrightarrow> (t, flag) \<in> set level_words \<Longrightarrow> strstr status t \<longleftrightarrow> said status t"
  by (auto simp: plain_status_def list_all_iff)

lemma unless_settled:
  assumes "plain_status status" "agrees status v" "(t, flag) \<in> set level_words"
  shows "unless_flag status t flag v = v"
proof -
  have "is_flag flag" using assms(3) by (auto simp: level_words_def)
  then show ?thesis
    using agrees_level [OF assms(2,3)] plain_level [OF assms(1,3)]
    by (simp add: unless_flag_def clearflag_same)
qed

lemma level_member [simp]:
  "(''LB'', ST_LOWBATT) \<in> set level_words" "(''FSD'', ST_FSD) \<in> set level_words"
  "(''CAL'', ST_CAL) \<in> set level_words" "(''OFF'', ST_OFF) \<in> set level_words"
  "(''BYPASS'', ST_BYPASS) \<in> set level_words" "(''ALARM'', ST_ALARM) \<in> set level_words"
  "(''OVER'', ST_OVER) \<in> set level_words" "(''TRIM'', ST_TRIM) \<in> set level_words"
  "(''BOOST'', ST_BOOST) \<in> set level_words"
  by (simp_all add: level_words_def)

lemma absent_settled:
  assumes "plain_status status" "agrees status v"
  shows "absent_upd status False v = v"
  using assms by (simp add: absent_upd_def Let_def unless_settled clearflag_same agrees_def)



lemma clear_st_still: "clearflag (m_status (fst s)) flag = m_status (fst s) \<Longrightarrow> still s (clear_st flag s)"
  by (simp add: clear_st_def still_def states_only_def split_beta)

lemma still_status: "still s t \<Longrightarrow> m_status (fst t) = m_status (fst s)"
  by (simp add: still_def)

lemma clear_absent_still:
  assumes "plain_status status" "agrees status (m_status (fst s))" "\<not> buzz_eco b" "\<not> buzz_eco x"
  shows "still s (clear_absent status b x s)"
proof -
  let ?v = "m_status (fst s)"
  have one: "still s (unless_seen status t f u)"
    if "still s u" "(t, flag) \<in> set level_words"
      "\<And>u. clearflag (m_status (fst u)) flag = m_status (fst u) \<Longrightarrow> still u (f u)" for t flag f u
  proof -
    have "strstr status t \<or> clearflag ?v flag = ?v"
      using unless_settled [OF assms(1,2) that(2)] by (auto simp: unless_flag_def split: if_splits)
    then have "strstr status t \<or> still u (f u)" using that(3) [of u] still_status [OF that(1)] by metis
    then show ?thesis using still_trans [OF that(1)] that(1) by (metis unless_seen_def)
  qed
  have eco: "still s (ups_is_noteco u)" if "still s u" for u
    using that still_status [OF that] assms(2) noteco.settled [of u] still_trans
    by (simp add: agrees_def clearflag_same)
  have "\<not> strstr status ''ECO''" using assms(1) by (simp add: plain_status_def)
  then show ?thesis
    unfolding clear_absent_def Let_def
    using assms(3,4)
    by (simp, intro eco one [OF _ level_member(9) notboost.settled] one [OF _ level_member(8) nottrim.settled]
        one [OF _ level_member(7) notover.settled] one [OF _ level_member(6) notalarm.settled]
        one [OF _ level_member(5) notbypass.settled] one [OF _ level_member(4) notoff.settled]
        one [OF _ level_member(3) notcal.settled] one [OF _ level_member(2) clear_st_still]
        one [OF _ level_member(1) clear_st_still] still_refl)
qed

lemma clear_absent_states: "states_only s (clear_absent status b x s)"
proof -
  have one: "states_only s (unless_seen status t f u)"
    if "states_only s u" "\<And>u. states_only u (f u)" for t f u
    using that(1) states_only_trans [OF that(1) that(2) [of u]] by (simp add: unless_seen_def)
  have plain: "states_only u (clear_st flag u)" for flag u
    by (simp add: clear_st_def states_only_def split_beta)
  have eco: "states_only s (if p then ups_is_noteco u else if q then ups_is_eco u else u)"
    if "states_only s u" for p q u
    using that states_only_trans [OF that noteco.keeps] states_only_trans [OF that eco.keeps] by simp
  show ?thesis
    unfolding clear_absent_def Let_def
    by (intro eco one notcal.keeps notoff.keeps notbypass.keeps notalarm.keeps notover.keeps
        nottrim.keeps notboost.keeps plain states_only_refl)
qed

text \<open>Every word of such a status is known, and in a settled state it changes nothing.\<close>

lemma plain_word:
  assumes "\<exists>t \<in> set plain_words. strcasecmp w t = 0 \<and> t \<noteq> ''ALARM''"
  shows "\<exists>t. known_word N w s = Inr (t, True) \<and> states_only s t \<and>
    (word_upd w (m_status (fst s)) = m_status (fst s) \<longrightarrow> still s t)"
proof -
  have ol: "still s (ups_on_line s)" if "ol_upd (m_status (fst s)) = m_status (fst s)"
  proof -
    have "has_st ST_ONLINE (fst s)"
      using that isset_clearflag [of ST_ONLINE ST_ONBATT] isset_setflag [of ST_ONLINE ST_ONLINE]
      by (auto simp: ol_upd_def has_st_def split: if_splits) (metis flags_neq(1) is_flag_all(1,2))
    then show ?thesis
      using on_line_facts(2) [of s]
      by (auto simp: still_def ups_on_line_def try_restore_pollfreq_def has_st_def split_beta Let_def)
  qed
  have "case known_word N w s of Inl e \<Rightarrow> False | Inr (t, h) \<Rightarrow> h \<and> states_only s t \<and>
      (word_upd w (m_status (fst s)) = m_status (fst s) \<longrightarrow> still s t)"
    using assms
    unfolding plain_words_def level_words_def known_word_def word_upd_def Let_def strcasecmp_eq_0
    by (auto simp: split_beta c_tolower_def on_line_facts(2) ol onbatt.keeps onbatt.settled low.keeps
        low.settled cal.keeps cal.settled off.keeps off.settled bypass.keeps bypass.settled over.keeps
        over.settled trim.keeps trim.settled boost.keeps boost.settled forced.keeps forced.settled
        simp del: split_paired_Ex)
  then show ?thesis by (auto split: sum.splits prod.splits)
qed

lemma crittimer_still: "still s (update_crittimer s)"
  by (simp add: still_def states_only_def update_crittimer_def split_beta)

lemma plain_stat_words:
  assumes "\<forall>w \<in> set ws. \<exists>t \<in> set plain_words. strcasecmp w t = 0 \<and> t \<noteq> ''ALARM''"
  shows "\<exists>t. stat_words N ws (s, other, changed) = Inr (t, other, changed) \<and> states_only s t \<and>
    ((\<forall>w \<in> set ws. word_upd w (m_status (fst s)) = m_status (fst s)) \<longrightarrow> still s t)"
  using assms
proof (induction ws arbitrary: s)
  case (Cons w ws)
  obtain t where t: "known_word N w s = Inr (t, True)" "states_only s t"
    "word_upd w (m_status (fst s)) = m_status (fst s) \<longrightarrow> still s t"
    using plain_word [of w N s] Cons.prems by auto
  obtain r where r: "stat_words N ws (update_crittimer t, other, changed) = Inr (r, other, changed)"
    "states_only (update_crittimer t) r"
    "(\<forall>w \<in> set ws. word_upd w (m_status (fst t)) = m_status (fst t)) \<longrightarrow> still (update_crittimer t) r"
    using Cons.IH [of "update_crittimer t"] Cons.prems by (metis crittimer_status list.set_intros(2))
  have "states_only s r"
    using t(2) r(2) crittimer_still [of t] states_only_trans still_def by metis
  moreover have "still s r" if fixed: "\<forall>w \<in> set (w # ws). word_upd w (m_status (fst s)) = m_status (fst s)"
  proof -
    have "still s t" using t(3) fixed by simp
    moreover have "still (update_crittimer t) r" using r(3) fixed still_status [OF \<open>still s t\<close>] by simp
    ultimately show ?thesis using crittimer_still still_trans by metis
  qed
  moreover have "stat_words N (w # ws) (s, other, changed) = Inr (r, other, changed)"
    using t(1) r(1) by simp
  ultimately show ?case by metis
qed auto

lemma agrees_word:
  assumes "agrees status v" "w \<in> set (split_words status)"
    "\<exists>t \<in> set plain_words. strcasecmp w t = 0 \<and> t \<noteq> ''ALARM''"
  shows "word_upd w v = v"
proof -
  have level: "strcasecmp w t = 0 \<Longrightarrow> flag_isset v flag" if "(t, flag) \<in> set level_words" for t flag
    using agrees_level [OF assms(1) that] assms(2) by (auto simp: said_def)
  have line: "strcasecmp w ''OL'' = 0 \<Longrightarrow> ol_upd v = v" "strcasecmp w ''OB'' = 0 \<Longrightarrow> ob_upd v = v"
    using assms(1,2) by (auto simp: agrees_def said_def ol_upd_def ob_upd_def line_flags_def)
  note set = level [OF level_member(1)] level [OF level_member(2)] level [OF level_member(3)]
    level [OF level_member(4)] level [OF level_member(5)] level [OF level_member(7)]
    level [OF level_member(8)] level [OF level_member(9)]
  show ?thesis
    using assms(3) line set
    unfolding plain_words_def level_words_def word_upd_def Let_def strcasecmp_eq_0 word_keys
    by (auto simp: setflag_same c_tolower_def)
qed

lemma plain_status_word:
  "plain_status status \<Longrightarrow> w \<in> set (split_words status) \<Longrightarrow>
   \<exists>t \<in> set plain_words. strcasecmp w t = 0 \<and> t \<noteq> ''ALARM''"
  by (simp add: plain_status_def)

lemma finish_plain: "t_root (m_tokens (fst s)) = None \<Longrightarrow> finish_other start (s, [], 0) = Inr s"
  by (cases s) (simp add: finish_other_def tok_evict_def)

lemma find_Some_in: "find P xs = Some x \<Longrightarrow> P x \<and> x \<in> set xs"
  by (induction xs) (auto split: if_splits)

text \<open>A poll that reads such a status ends in a settled state.\<close>

lemma agrees_after:
  assumes "plain_status status" "one_line v"
  shows "agrees status (status_after status False v)"
proof -
  have eco: "\<not> flag_isset (foldl (\<lambda>v w. word_upd w v) v ws) ST_ECO"
    if "\<not> flag_isset v ST_ECO" "\<forall>w \<in> set ws. \<exists>t \<in> set plain_words. strcasecmp w t = 0 \<and> t \<noteq> ''ALARM''" for v ws
    using that
  proof (induction ws arbitrary: v)
    case (Cons w ws)
    have "\<not> flag_isset (word_upd w v) ST_ECO"
      using Cons.prems
      unfolding plain_words_def level_words_def word_upd_def Let_def strcasecmp_eq_0 word_keys
      by (auto simp: isset_setflag isset_clearflag ol_upd_def ob_upd_def c_tolower_def)
    then show ?case using Cons by simp
  qed simp
  have "\<not> flag_isset (absent_upd status False v) ST_ECO"
    using assms(1) by (simp add: absent_upd_def Let_def isset_clearflag plain_status_def)
  then have "\<not> flag_isset (status_after status False v) ST_ECO"
    unfolding status_after_def using assms(1) by (intro eco) (auto simp: plain_status_def)
  moreover have "flag_isset (status_after status False v) flag \<longleftrightarrow> said status t"
    if "(t, flag) \<in> set level_words" for t flag
    using level_after [OF that] plain_level [OF assms(1) that] by blast
  moreover have "line_flags (status_after status False v) = (said status ''OL'', said status ''OB'')"
    if said: "said status ''OL'' \<or> said status ''OB''"
  proof -
    have "\<exists>w \<in> set (rev (split_words status)). line_word w"
      using said by (auto simp: said_def line_word_def)
    then obtain w where w: "find line_word (rev (split_words status)) = Some w"
      using List.find_None_iff [of line_word "rev (split_words status)"]
      by (cases "find line_word (rev (split_words status))") auto
    have "line_word w" "w \<in> set (split_words status)"
      using find_Some_in [OF w] by simp_all
    then have "(strcasecmp w ''OL'' = 0) = said status ''OL''" "(strcasecmp w ''OB'' = 0) = said status ''OB''"
      using assms(1) by (auto simp: plain_status_def said_def line_word_def)
    then show ?thesis using line_after [OF assms(2)] w by (simp add: lines_said_def)
  qed
  ultimately show ?thesis
    using assms(1) by (auto simp: agrees_def list_all_iff plain_status_def)
qed

lemma plain_poll:
  assumes "plain_status status" "\<not> buzz_eco b" "\<not> buzz_eco x" "one_line (m_status (fst s))"
    "t_root (m_tokens (fst s)) = None"
  shows "\<exists>s'. parse_status N status b x s = Inr s' \<and> agrees status (m_status (fst s')) \<and>
    m_commstate (fst s') = 1 \<and> t_root (m_tokens (fst s')) = None \<and> mn_conf (snd s') = mn_conf (snd s) \<and>
    (m_commstate (fst s) = 1 \<and> agrees status (m_status (fst s)) \<longrightarrow> mn_events (snd s') = mn_events (snd s))"
proof -
  let ?a = "ups_is_alive s" let ?c = "clear_absent status b x (ups_is_alive s)"
  have a: "m_commstate (fst ?a) = 1" "t_root (m_tokens (fst ?a)) = None" "m_status (fst ?a) = m_status (fst s)"
    "mn_conf (snd ?a) = mn_conf (snd s)" "m_commstate (fst s) = 1 \<longrightarrow> mn_events (snd ?a) = mn_events (snd s)"
    using assms(5) by (auto simp: ups_is_alive_def announce_def split_beta Let_def)
  have c: "states_only ?a ?c" by (rule clear_absent_states)
  have eco: "\<not> (buzz_eco b \<or> buzz_eco x)" using assms(2,3) by simp
  obtain t where t: "stat_words N (split_words status) (?c, [], 0) = Inr (t, [], 0)" "states_only ?c t"
    "(\<forall>w \<in> set (split_words status). word_upd w (m_status (fst ?c)) = m_status (fst ?c)) \<longrightarrow> still ?c t"
    using plain_stat_words [of "split_words status" N ?c "[]" 0] assms(1) by (auto simp: plain_status_def)
  have keep: "states_only ?a t" using c t(2) by (rule states_only_trans)
  have fin: "parse_status N status b x s = Inr t"
    using assms(1) t(1) finish_plain [of t] states_only_fields(2) [OF keep] a(2)
    by (simp add: parse_status_def plain_status_def Let_def)
  have "agrees status (m_status (fst t))"
    using parse_status_after [OF fin] eco agrees_after [OF assms(1,4)] assms(1) by (simp add: plain_status_def)
  moreover have "mn_events (snd t) = mn_events (snd s)" if "m_commstate (fst s) = 1" "agrees status (m_status (fst s))"
  proof -
    have ac: "still ?a ?c" using clear_absent_still [OF assms(1) _ assms(2,3), of ?a] that(2) a(3) by simp
    then have "agrees status (m_status (fst ?c))" using that(2) a(3) by (simp add: still_def)
    then have "still ?c t" using t(3) agrees_word plain_status_word [OF assms(1)] by blast
    then show ?thesis using ac a(5) that(1) by (simp add: still_def)
  qed
  ultimately show ?thesis
    using fin a(1,2,4) states_only_fields [OF keep] by auto
qed

text \<open>The flags that no word touches.\<close>

lemma other_flag_after:
  assumes "flag \<in> {ST_PRIMARY, ST_LOGIN, ST_CLICONNECTED}"
  shows "flag_isset (status_after status eco v) flag \<longleftrightarrow> flag_isset v flag"
proof -
  have word: "flag_isset (word_upd w v) flag \<longleftrightarrow> flag_isset v flag" for w v
    using assms unfolding word_upd_def Let_def
    by (elim insertE emptyE) (simp_all add: isset_if isset_setflag isset_clearflag ol_upd_def ob_upd_def)
  have words: "flag_isset (foldl (\<lambda>v w. word_upd w v) v ws) flag \<longleftrightarrow> flag_isset v flag" for v ws
    by (induction ws arbitrary: v) (simp_all add: word)
  have "flag_isset (absent_upd status eco v) flag \<longleftrightarrow> flag_isset v flag"
    using assms unfolding absent_upd_def Let_def
    by (elim insertE emptyE) (simp_all add: isset_if isset_unless isset_setflag isset_clearflag)
  then show ?thesis by (simp add: status_after_def words)
qed

section \<open>The log of failed polls\<close>

text \<open>The three requests of a poll.\<close>

definition asks :: "'n net \<Rightarrow> 'n on \<Rightarrow> fault + 'n on \<times> cstr option list" where
  "asks N s = and_then (mon_get_var N ''status'' s) (\<lambda>(s, status).
     and_then (mon_get_var N ''buzzword'' s) (\<lambda>(s, buzz).
       and_then (mon_get_var N ''X-buzzword'' s) (\<lambda>(s, buzzX). Inr (s, [status, buzz, buzzX]))))"

text \<open>The next poll fails with the error e and keeps the connection.\<close>

definition poll_fails :: "'n net \<Rightarrow> int \<Rightarrow> 'n on \<Rightarrow> bool" where
  "poll_fails N e s \<longleftrightarrow> has_st ST_CLICONNECTED (fst s) \<and>
     (case asks N s of Inl x \<Rightarrow> False
      | Inr (s', got) \<Rightarrow> got = [None, None, None] \<and> upscli_upserror (m_conn (fst s')) = e \<and>
          upscli_fd (m_conn (fst s')) \<noteq> -1)"

fun polls_fail :: "'n net \<Rightarrow> int \<Rightarrow> nat \<Rightarrow> 'n on \<Rightarrow> bool" where
  "polls_fail N e 0 s \<longleftrightarrow> True"
| "polls_fail N e (Suc n) s \<longleftrightarrow> poll_fails N e s \<and>
     (case pollups N s of Inl x \<Rightarrow> False | Inr s' \<Rightarrow> polls_fail N e n s')"

text \<open>Whether a poll from s to s' has put its failure into syslog, and which of n polls in a row do.\<close>

definition failure_text :: "cstr \<Rightarrow> cstr" where
  "failure_text sys = ''Poll UPS ['' @ sys @ ''] failed - ''"

fun reports :: "cstr \<Rightarrow> action \<Rightarrow> bool" where
  "reports sys (Syslogged level line) \<longleftrightarrow>
     level = LOG_ERR \<and> take (length (failure_text sys)) line = failure_text sys"
| "reports sys a \<longleftrightarrow> False"

definition reported :: "'n on \<Rightarrow> 'n on \<Rightarrow> bool" where
  "reported s s' \<longleftrightarrow>
     list_ex (reports (m_sys (fst s))) (drop (length (mn_actions (snd s))) (mn_actions (snd s')))"

fun polls_reported :: "'n net \<Rightarrow> nat \<Rightarrow> 'n on \<Rightarrow> bool list" where
  "polls_reported N 0 s = []"
| "polls_reported N (Suc n) s =
     (case pollups N s of Inl x \<Rightarrow> [] | Inr s' \<Rightarrow> reported s s' # polls_reported N n s')"

lemma get_var_keeps:
  assumes "mon_get_var N v s = Inr (s', r)"
  shows "\<exists>c n. s' = ((fst s)\<lparr>m_conn := c\<rparr>, (snd s)\<lparr>mn_net := n\<rparr>)"
proof -
  obtain u m where s: "s = (u, m)" by (cases s)
  have same: "\<exists>c. u = u\<lparr>m_conn := c\<rparr>" "\<exists>n. m = m\<lparr>mn_net := n\<rparr>"
    by (intro exI [of _ "m_conn u"] exI [of _ "mn_net m"], simp)+
  then show ?thesis
    using assms unfolding mon_get_var_def s
    by (auto simp: Let_def intro: same split: option.splits prod.splits cli.splits if_splits)
qed

lemma asks_keeps:
  assumes "asks N s = Inr (s', r)"
  shows "\<exists>c n. s' = ((fst s)\<lparr>m_conn := c\<rparr>, (snd s)\<lparr>mn_net := n\<rparr>)"
  using assms
  by (auto simp: asks_def and_then_Inr dest!: get_var_keeps)

lemma pollups_asks:
  assumes "has_st ST_CLICONNECTED (fst s)" "asks N s = Inr (s', [None, None, None])"
  shows "pollups N s = Inr (poll_failed N s')"
proof -
  obtain s1 s2 where "mon_get_var N ''status'' s = Inr (s1, None)" "mon_get_var N ''buzzword'' s1 = Inr (s2, None)"
    "mon_get_var N ''X-buzzword'' s2 = Inr (s', None)"
    using assms(2) by (auto simp: asks_def and_then_Inr)
  then show ?thesis using assms(1) by (simp add: pollups_def)
qed

text \<open>Losing the communication only adds notices.\<close>

lemma notify_adds: "\<exists>xs. mn_actions (do_notify who t extra m) = mn_actions m @ xs \<and> \<not> list_ex (reports sys) xs"
  by (auto simp: do_notify_def notify_def act_def Let_def split: option.split)

lemma gone_adds:
  "\<exists>xs. mn_actions (snd (ups_is_gone s)) = mn_actions (snd s) @ xs \<and> \<not> list_ex (reports sys) xs"
  "m_throttle_state (fst (ups_is_gone s)) = m_throttle_state (fst s)"
  "m_throttle_count (fst (ups_is_gone s)) = m_throttle_count (fst s)"
  "mn_conf (snd (ups_is_gone s)) = mn_conf (snd s)" "m_conn (fst (ups_is_gone s)) = m_conn (fst s)"
  using notify_adds
  by (auto simp: ups_is_gone_def announce_def Let_def split_beta)

lemma throttle_fields:
  assumes "throttle e (u, m) = ((u', m'), b)"
  shows "m_sys u' = m_sys u" "m_conn u' = m_conn u" "mn_conf m' = mn_conf m"
    "\<exists>xs. mn_actions m' = mn_actions m @ xs \<and> \<not> list_ex (reports (m_sys u)) xs"
  using assms by (auto simp: throttle_def log_action_def act_def failure_text_def Let_def split: if_splits)

text \<open>A failed poll that keeps its connection reports exactly when the throttle lets it.\<close>

lemma failed_reports:
  assumes "throttle (upscli_upserror (m_conn u)) (u, m) = ((u', m'), b)" "upscli_fd (m_conn u) \<noteq> -1"
  shows "reported (u, m) (poll_failed N (u, m)) = b"
    "m_throttle_state (fst (poll_failed N (u, m))) = m_throttle_state u'"
    "m_throttle_count (fst (poll_failed N (u, m))) = m_throttle_count u'"
    "mn_conf (snd (poll_failed N (u, m))) = mn_conf m"
proof -
  note t = throttle_fields [OF assms(1)]
  have kept: "upscli_fd (m_conn (fst (ups_is_gone (if b then log_action x (u', m') else (u', m'))))) \<noteq> -1" for x
    using assms(2) by (simp add: gone_adds t(2) log_action_def)
  obtain line where line: "poll_failed N (u, m) = ups_is_gone
      (if b then log_action (failure_text (m_sys u) @ line) (u', m') else (u', m'))"
    using kept by (simp add: poll_failed_def assms(1) Let_def failure_text_def t(1) cong: if_cong)
  show "reported (u, m) (poll_failed N (u, m)) = b"
    using t(4) gone_adds(1) [of "if b then log_action (failure_text (m_sys u) @ line) (u', m') else (u', m')" "m_sys u"]
    by (auto simp: reported_def line log_action_def act_def split: if_splits)
  show "m_throttle_state (fst (poll_failed N (u, m))) = m_throttle_state u'"
    "m_throttle_count (fst (poll_failed N (u, m))) = m_throttle_count u'"
    "mn_conf (snd (poll_failed N (u, m))) = mn_conf m"
    using t(3) by (simp_all add: line gone_adds log_action_def act_def)
qed

text \<open>The reports of a row of failures, for a setting and a state of the throttle.\<close>

lemma poll_step:
  assumes "poll_fails N e s"
  obtains s' where "pollups N s = Inr s'" "reported s s' = snd (throttle e s)"
    "m_throttle_state (fst s') = m_throttle_state (fst (fst (throttle e s)))"
    "m_throttle_count (fst s') = m_throttle_count (fst (fst (throttle e s)))"
    "mn_conf (snd s') = mn_conf (snd s)"
proof -
  obtain s1 where s1: "asks N s = Inr (s1, [None, None, None])" "upscli_upserror (m_conn (fst s1)) = e"
    "upscli_fd (m_conn (fst s1)) \<noteq> -1" "has_st ST_CLICONNECTED (fst s)"
    using assms by (auto simp: poll_fails_def split: sum.splits)
  obtain u m where s: "s = (u, m)" by (cases s)
  obtain c n where c: "s1 = (u\<lparr>m_conn := c\<rparr>, m\<lparr>mn_net := n\<rparr>)" using asks_keeps [OF s1(1)] s by auto
  obtain u' m' b where t: "throttle e s1 = ((u', m'), b)" by (metis prod.exhaust)
  have same: "snd (throttle e s) = b" "m_throttle_state (fst (fst (throttle e s))) = m_throttle_state u'"
    "m_throttle_count (fst (fst (throttle e s))) = m_throttle_count u'"
    using t unfolding c s by (auto simp: throttle_def log_action_def Let_def split: if_splits)
  have "reported s s' = reported s1 s'" for s' by (simp add: reported_def s c)
  then show ?thesis
    using that [of "poll_failed N s1"] pollups_asks [OF s1(4,1)] failed_reports [of "fst s1" "snd s1" u' m' b N]
      t s1(2,3) same by (simp add: s c)
qed

lemma reported_known:
  assumes "g_pollfail_log_throttle_max (mn_conf (snd s)) = int most" "0 < most"
    "m_throttle_state (fst s) = e" "m_throttle_count (fst s) = int k" "k < most" "polls_fail N e n s"
  shows "polls_reported N n s = map (\<lambda>i. (k + i + 1) mod most = 0) [0..<n]"
  using assms(1,3-6)
proof (induction n arbitrary: s k)
  case (Suc n)
  define k' where "k' = (k + 1) mod most"
  have k': "k' < most" "k' = (if k + 1 = most then 0 else k + 1)" "(k + 1) mod most = 0 \<longleftrightarrow> k + 1 = most"
    using assms(2) Suc.prems(4) by (cases "k + 1 = most"; simp add: k'_def)+
  have "poll_fails N e s" using Suc.prems(5) by simp
  then obtain s' where s': "pollups N s = Inr s'" "reported s s' = snd (throttle e s)"
    "m_throttle_state (fst s') = m_throttle_state (fst (fst (throttle e s)))"
    "m_throttle_count (fst s') = m_throttle_count (fst (fst (throttle e s)))" "mn_conf (snd s') = mn_conf (snd s)"
    by (rule poll_step)
  have t: "snd (throttle e s) = ((k + 1) mod most = 0)" "m_throttle_state (fst (fst (throttle e s))) = e"
    "m_throttle_count (fst (fst (throttle e s))) = int k'"
    using assms(2) Suc.prems(1-4) k' by (cases s; auto simp: throttle_def Let_def)+
  have "polls_reported N n s' = map (\<lambda>i. (k' + i + 1) mod most = 0) [0..<n]"
    using Suc.prems s' t k'(1) by (intro Suc.IH) simp_all
  moreover have "(k' + i + 1) mod most = (k + Suc i + 1) mod most" for i
  proof -
    have "(k' + (i + 1)) mod most = (k + 1 + (i + 1)) mod most" unfolding k'_def by (rule mod_add_left_eq)
    then show ?thesis by (simp add: ac_simps)
  qed
  ultimately show ?case
    by (simp add: s' t map_upt_Suc del: upt_Suc)
qed simp

lemma reported_flat:
  assumes "g_pollfail_log_throttle_max (mn_conf (snd s)) \<le> 0" "polls_fail N e n s"
    "m_throttle_state (fst s) = e \<or> g_pollfail_log_throttle_max (mn_conf (snd s)) < 0"
  shows "polls_reported N n s = replicate n (g_pollfail_log_throttle_max (mn_conf (snd s)) < 0)"
  using assms
proof (induction n arbitrary: s)
  case (Suc n)
  have "poll_fails N e s" using Suc.prems(2) by simp
  then obtain s' where s': "pollups N s = Inr s'" "reported s s' = snd (throttle e s)"
    "m_throttle_state (fst s') = m_throttle_state (fst (fst (throttle e s)))" "mn_conf (snd s') = mn_conf (snd s)"
    by (rule poll_step)
  have t: "snd (throttle e s) = (g_pollfail_log_throttle_max (mn_conf (snd s)) < 0)"
    "m_throttle_state (fst (fst (throttle e s))) = m_throttle_state (fst s)"
    using Suc.prems(1,3) by (cases s; auto simp: throttle_def Let_def)+
  have "polls_reported N n s' = replicate n (g_pollfail_log_throttle_max (mn_conf (snd s')) < 0)"
    using Suc.prems s' t by (intro Suc.IH) auto
  then show ?case by (simp add: s' t)
qed simp

text \<open>Which of n failures after the first are reported.\<close>

definition repeats :: "int \<Rightarrow> nat \<Rightarrow> bool list" where
  "repeats most n = (if most < 0 then replicate n True else if most = 0 then replicate n False
     else map (\<lambda>i. (int i + 1) mod most = 0) [0..<n])"

lemma reported_row:
  assumes "m_throttle_state (fst s) \<noteq> e" "polls_fail N e (Suc n) s"
  shows "polls_reported N (Suc n) s = True # repeats (g_pollfail_log_throttle_max (mn_conf (snd s))) n"
proof -
  let ?most = "g_pollfail_log_throttle_max (mn_conf (snd s))"
  have "poll_fails N e s" using assms(2) by simp
  then obtain s' where s': "pollups N s = Inr s'" "reported s s' = snd (throttle e s)"
    "m_throttle_state (fst s') = m_throttle_state (fst (fst (throttle e s)))"
    "m_throttle_count (fst s') = m_throttle_count (fst (fst (throttle e s)))" "mn_conf (snd s') = mn_conf (snd s)"
    by (rule poll_step)
  have t: "snd (throttle e s)" "0 \<le> ?most \<Longrightarrow> m_throttle_state (fst s') = e"
    "0 \<le> ?most \<Longrightarrow> m_throttle_count (fst s') = 0"
    unfolding s' using assms(1) by (cases s; auto simp: throttle_def log_action_def Let_def)+
  have fails: "polls_fail N e n s'" using assms(2) s'(1) by simp
  have "polls_reported N n s' = repeats ?most n"
  proof (cases "0 < ?most")
    case True
    have "polls_reported N n s' = map (\<lambda>i. (0 + i + 1) mod nat ?most = 0) [0..<n]"
      by (rule reported_known [where k = 0]) (use True t s'(5) fails in simp_all)
    moreover have "(Suc i mod nat ?most = 0) = ((int i + 1) mod ?most = 0)" for i
    proof -
      have "int (Suc i mod nat ?most) = (int i + 1) mod ?most" using True by (simp add: zmod_int ac_simps)
      then show ?thesis by (metis of_nat_0_eq_iff)
    qed
    ultimately show ?thesis using True by (simp add: repeats_def)
  next
    case False
    then show ?thesis
      using reported_flat [of s' N e n] t(2) s'(5) fails by (auto simp: repeats_def)
  qed
  then show ?thesis by (simp add: s' t)
qed

text \<open>A poll that loses its connection forgets the throttle, so the next failure is a new one.\<close>

lemma lost_connection_forgets:
  "upscli_fd (m_conn (fst s)) = -1 \<Longrightarrow> m_throttle_state (fst (poll_failed N s)) = UPSCLI_ERR_NONE"
proof -
  assume lost: "upscli_fd (m_conn (fst s)) = -1"
  obtain u m where s: "s = (u, m)" by (cases s)
  obtain u' m' b where t: "throttle (upscli_upserror (m_conn u)) (u, m) = ((u', m'), b)" by (metis prod.exhaust)
  have "upscli_fd (m_conn (fst (ups_is_gone (if b then log_action x (u', m') else (u', m'))))) = -1" for x
    using lost throttle_fields(2) [OF t] by (simp add: s gone_adds log_action_def)
  moreover have "m_throttle_state (fst (drop_connection N r)) = UPSCLI_ERR_NONE" for r
    by (cases r) (simp add: drop_connection_def clear_st_def split: prod.split)
  ultimately show ?thesis by (simp add: s poll_failed_def t Let_def)
qed

section \<open>Words that upsmon does not know\<close>

lemma do_notify_mono: "mn_mono (do_notify who t extra m) = mn_mono m"
  using rest_fields(10) do_notify_fields(2) by metis

definition unknown_word :: "cstr \<Rightarrow> bool" where
  "unknown_word w \<longleftrightarrow> w \<noteq> [] \<and> list_all (\<lambda>t. strcasecmp w t \<noteq> 0) ([''RB'', ''ECO''] @ plain_words)"

lemma unknown_not_known: "unknown_word w \<Longrightarrow> known_word N w s = Inr (s, False)"
  by (simp add: unknown_word_def plain_words_def level_words_def known_word_def Let_def)

fun note_words :: "int \<Rightarrow> cstr list \<Rightarrow> tokens \<Rightarrow> fault + tokens" where
  "note_words now [] t = Inr t"
| "note_words now (w # ws) t = and_then (tok_note now w t) (\<lambda>(t, new). note_words now ws t)"

lemma snprintfcat_some: "b \<noteq> [] \<or> w \<noteq> [] \<Longrightarrow> snprintfcat b MON_SMALLBUF ((if b \<noteq> [] then '' '' else []) @ w) \<noteq> []"
  by (cases b) (auto simp: snprintfcat_def Let_def MON_SMALLBUF_def snprintf_def take_Cons' split: if_splits)

lemma crittimer_rest:
  "m_tokens (fst (update_crittimer s)) = m_tokens (fst s)" "mn_mono (snd (update_crittimer s)) = mn_mono (snd s)"
  by (simp_all add: update_crittimer_def split_beta)

lemma unknown_words:
  assumes "list_all unknown_word ws"
  shows "case note_words (mn_mono (snd s)) ws (m_tokens (fst s)) of
      Inl e \<Rightarrow> stat_words N ws (s, other, changed) = Inl e
    | Inr t \<Rightarrow> \<exists>s' other' changed'. stat_words N ws (s, other, changed) = Inr (s', other', changed') \<and>
        m_tokens (fst s') = t \<and> mn_mono (snd s') = mn_mono (snd s) \<and> (other \<noteq> [] \<or> ws \<noteq> [] \<longrightarrow> other' \<noteq> [])"
  using assms
proof (induction ws arbitrary: s other changed)
  case (Cons w ws)
  obtain u m where s: "s = (u, m)" by (cases s)
  have w: "unknown_word w" "w \<noteq> []" using Cons.prems by (auto simp: unknown_word_def)
  show ?case
  proof (cases "tok_note (mn_mono m) w (m_tokens u)")
    case (Inl e)
    then show ?thesis using w by (simp add: s unknown_not_known other_word_def)
  next
    case (Inr r)
    obtain t new where r: "r = (t, new)" by (cases r)
    define s1 where "s1 = update_crittimer (u\<lparr>m_tokens := t\<rparr>, m)"
    define o1 where "o1 = snprintfcat other MON_SMALLBUF ((if other \<noteq> [] then '' '' else []) @ w)"
    define c1 where "c1 = changed + (if new then 1 else 0)"
    have step: "stat_words N (w # ws) (s, other, changed) = stat_words N ws (s1, o1, c1)"
      using w Inr by (simp add: s r unknown_not_known other_word_def s1_def o1_def c1_def)
    have "o1 \<noteq> []" unfolding o1_def using w(2) by (intro snprintfcat_some) simp
    moreover have "m_tokens (fst s1) = t" "mn_mono (snd s1) = mn_mono m"
      by (simp_all add: s1_def crittimer_rest)
    ultimately show ?thesis
      using Cons.IH [where s = s1 and other = o1 and changed = c1] Cons.prems Inr
      unfolding step by (simp add: s r split: sum.splits)
  qed
qed simp

text \<open>A poll that reads unknown words only.\<close>

lemma unknown_poll:
  assumes "split_words status = ws" "list_all unknown_word ws" "status \<noteq> []" "ws \<noteq> []"
  shows "case and_then (note_words (mn_mono (snd s)) ws (m_tokens (fst s))) (tok_evict (mn_mono (snd s))) of
      Inl e \<Rightarrow> parse_status N status [] [] s = Inl e
    | Inr (t, gone) \<Rightarrow> \<exists>s'. parse_status N status [] [] s = Inr s' \<and> m_tokens (fst s') = t \<and>
        mn_mono (snd s') = mn_mono (snd s)"
proof -
  let ?a = "ups_is_alive s" let ?c = "clear_absent status [] [] ?a"
  have a: "m_tokens (fst ?a) = m_tokens (fst s)" "mn_mono (snd ?a) = mn_mono (snd s)"
    by (auto simp: ups_is_alive_def announce_def split_beta Let_def do_notify_mono)
  have c: "m_tokens (fst ?c) = m_tokens (fst s)" "mn_mono (snd ?c) = mn_mono (snd s)"
    using states_only_fields [OF clear_absent_states [of ?a status "[]" "[]"]] a by simp_all
  have poll: "parse_status N status [] [] s =
      and_then (stat_words N ws (?c, [], 0)) (finish_other (mn_mono (snd s)))"
    using assms(1,3) c by (simp add: parse_status_def Let_def)
  note words = unknown_words [OF assms(2), where s = ?c and N = N and other = "[]" and changed = 0]
  show ?thesis
  proof (cases "note_words (mn_mono (snd s)) ws (m_tokens (fst s))")
    case (Inl e)
    then show ?thesis using words c by (simp add: poll)
  next
    case (Inr t)
    obtain u m other changed where w: "stat_words N ws (?c, [], 0) = Inr ((u, m), other, changed)"
      "m_tokens u = t" "mn_mono m = mn_mono (snd s)" "other \<noteq> []"
      using words Inr c assms(4) by auto
    then show ?thesis
      using Inr by (cases "tok_evict (mn_mono (snd s)) t")
        (auto simp: poll finish_other_def announce_def Let_def do_notify_mono)
  qed
qed

text \<open>Polls that read these statuses, five seconds apart.\<close>

fun polls :: "'n net \<Rightarrow> cstr list \<Rightarrow> 'n on \<Rightarrow> fault + 'n on" where
  "polls N [] s = Inr s"
| "polls N (t # ts) s = and_then (parse_status N t [] [] s) (\<lambda>(u, m).
     polls N ts (u, m\<lparr>mn_mono := mn_mono m + 5, mn_now := mn_now m + 5\<rparr>))"


text \<open>
  Two different unknown words x and y: when x is the root of the tree, y hangs below it, and
  y is freed without a change to the pointer in x as soon as a poll says x alone.
\<close>

definition pair_node :: "cstr \<Rightarrow> cstr \<Rightarrow> int \<Rightarrow> tok_node" where
  "pair_node x y t = \<lparr>t_var = x, t_lastset = t,
     t_left = (if 0 < strcasecmp x y then Some 1 else None), t_right = (if 0 < strcasecmp x y then None else Some 1)\<rparr>"

definition leaf_node :: "cstr \<Rightarrow> int \<Rightarrow> tok_node" where
  "leaf_node y t = \<lparr>t_var = y, t_lastset = t, t_left = None, t_right = None\<rparr>"

definition two_words :: "cstr \<Rightarrow> cstr \<Rightarrow> int \<Rightarrow> int \<Rightarrow> tokens" where
  "two_words x y t t' = \<lparr>t_heap = [0 \<mapsto> pair_node x y t, 1 \<mapsto> leaf_node y t'], t_next = 2, t_root = Some 0\<rparr>"

definition one_word :: "cstr \<Rightarrow> cstr \<Rightarrow> int \<Rightarrow> tokens" where
  "one_word x y t = \<lparr>t_heap = [0 \<mapsto> pair_node x y t], t_next = 2, t_root = Some 0\<rparr>"

lemma pair_appears:
  assumes "strcasecmp x y \<noteq> 0"
  shows "and_then (note_words t [x, y] no_tokens) (tok_evict t) = Inr (two_words x y t t, 0)"
proof -
  have "note_words t [x, y] no_tokens = Inr (two_words x y t t)"
    using assms
    by (cases "0 < strcasecmp x y")
      (simp_all add: two_words_def pair_node_def leaf_node_def no_tokens_def tok_note_def walk_fuel_def eval_nat_numeral
        tok_at_def tok_write_def fun_eq_iff)
  moreover have "tok_evict t (two_words x y t t) = Inr (two_words x y t t, 0)"
    by (cases "0 < strcasecmp x y")
      (simp_all add: two_words_def pair_node_def leaf_node_def tok_evict_def walk_fuel_def eval_nat_numeral tok_at_def)
  ultimately show ?thesis by simp
qed

lemma second_vanishes:
  assumes "strcasecmp x y \<noteq> 0" "t < t'"
  shows "and_then (note_words t' [x] (two_words x y t t)) (tok_evict t') = Inr (one_word x y t', 1)"
proof -
  have "note_words t' [x] (two_words x y t t) = Inr (two_words x y t' t)"
    by (simp add: two_words_def pair_node_def leaf_node_def tok_note_def walk_fuel_def eval_nat_numeral tok_at_def tok_write_def
        fun_eq_iff)
  moreover have "tok_evict t' (two_words x y t' t) = Inr (one_word x y t', 1)"
    using assms(2)
    by (cases "0 < strcasecmp x y")
      (simp_all add: two_words_def one_word_def pair_node_def leaf_node_def tok_evict_def walk_fuel_def eval_nat_numeral tok_at_def
        tok_unlink_def tok_write_def fun_eq_iff)
  ultimately show ?thesis by simp
qed

lemma second_returns:
  assumes "strcasecmp x y \<noteq> 0"
  shows "note_words t [x, y] (one_word x y t') = Inl Freed_access"
  using assms
  by (cases "0 < strcasecmp x y")
    (simp_all add: one_word_def pair_node_def tok_note_def walk_fuel_def eval_nat_numeral tok_at_def tok_write_def)

lemma split_word: "CHR '' '' \<notin> set x \<Longrightarrow> split_words x = [x]"
proof -
  assume "CHR '' '' \<notin> set x"
  then have parts: "takeWhile (\<lambda>c. c \<noteq> CHR '' '') x = x" "dropWhile (\<lambda>c. c \<noteq> CHR '' '') x = []"
    by (auto simp: takeWhile_eq_all_conv dropWhile_eq_Nil_conv)
  show ?thesis by (subst split_words.simps) (simp only: parts list.case)
qed

lemma split_pair:
  assumes "CHR '' '' \<notin> set x" "CHR '' '' \<notin> set y"
  shows "split_words (x @ '' '' @ y) = [x, y]"
proof -
  have "takeWhile (\<lambda>c. c \<noteq> CHR '' '') (x @ '' '' @ y) = x" "dropWhile (\<lambda>c. c \<noteq> CHR '' '') (x @ '' '' @ y) = '' '' @ y"
    using assms(1) by (subst takeWhile_append2, auto) (subst dropWhile_append2, auto)
  then show ?thesis by (subst split_words.simps) (simp add: split_word [OF assms(2)])
qed

end
