(* ===== verification/ClientFacts.thy ===== *)
theory ClientFacts
  imports UpsClient LineSpec
begin

text \<open>
  What upsclient.c does with the lines of a server: pconf_line() on a line of items gives
  its words, build_cmd() writes a line of items, and an exchange with a server that answers
  one line gives the words of that line.  The server is an interface here, the locale
  reply_stream; upsd is put behind it elsewhere.
\<close>

section \<open>pconf_line() on a line of items\<close>

lemma pconf_line_loop_busy:
  assumes "pconf_wf ctx" "\<not> tok_ended (pc_state ctx)"
    "tok_busy (pc_arg_limit ctx) (pc_wordlen_limit ctx) (tok_abs ctx) body"
  shows "\<exists>ctx'. pconf_line_loop ctx body = (ctx', False) \<and> pconf_wf ctx' \<and> same_limits ctx' ctx \<and>
    tok_abs ctx' = tok_run (pc_arg_limit ctx) (pc_wordlen_limit ctx) (tok_abs ctx) body"
  using assms
proof (induction body arbitrary: ctx)
  case Nil
  then show ?case by (simp add: same_limits_def)
next
  case (Cons c body)
  let ?d = "parse_char (ctx\<lparr>pc_ch := schar c\<rparr>)"
  have d: "pconf_wf ?d" using Cons.prems(1) by (simp add: parse_char_wf)
  have abs: "tok_abs ?d = tok_step (pc_arg_limit ctx) (pc_wordlen_limit ctx) (tok_abs ctx) c"
    using pconf_char_abs [OF Cons.prems(1), of c] Cons.prems(1,2)
    by (simp add: pconf_char_def check_magic_wf tok_ended_def Let_def)
  have run: "\<not> tok_ended (pc_state ?d)"
    using Cons.prems(3) abs by (metis fst_conv tok_abs_def tok_busy.simps(2))
  have "\<exists>ctx'. pconf_line_loop ?d body = (ctx', False) \<and> pconf_wf ctx' \<and> same_limits ctx' ?d \<and>
      tok_abs ctx' = tok_run (pc_arg_limit ctx) (pc_wordlen_limit ctx) (tok_abs ?d) body"
    using Cons.IH [OF d run] Cons.prems(3) abs by simp
  then show ?case
    using run abs by (auto simp: Let_def tok_ended_def same_limits_def)
qed

text \<open>Where the tokenizer is at the end of a line without its newline.\<close>

definition pending_word :: "tok \<Rightarrow> cstr list \<Rightarrow> bool" where
  "pending_word t words \<longleftrightarrow> (\<exists>st ws cur. t = (st, ws, cur) \<and> \<not> tok_ended st \<and>
     (cur \<noteq> [] \<and> ws @ [cur] = words \<or> cur = [] \<and> ws = words))"

lemma tok_item_pending:
  assumes "item_ok wl i" "al = 0 \<or> length ws < al"
  shows "pending_word (tok_run al wl (ST_FINDWORDSTART, ws, []) (item_text i)) (ws @ [item_word i])"
proof (cases i)
  case (Bare w)
  then obtain c r where w: "w = c # r" "bare_char c" "list_all bare_char r" "length w \<le> wl"
    using assms(1) by (cases w) (auto simp: item_ok_def)
  have "tok_step al wl (ST_FINDWORDSTART, ws, []) c = (ST_COLLECT, ws, [c])"
    using w by (auto simp: tok_step_def tok_trans_def tok_ended_def tok_char_def bare_char_def
        pconf_escape_def)
  moreover have "tok_run al wl (ST_COLLECT, ws, [c]) r = (ST_COLLECT, ws, w)"
    using tok_collect_bare [of r "[c]"] w by simp
  ultimately show ?thesis using w Bare by (simp add: pending_word_def tok_ended_def)
next
  case (Quoted w)
  then have "tok_run al wl (ST_QUOTECOLLECT, ws, []) (escape w) = (ST_QUOTECOLLECT, ws, w)"
    using assms(1) tok_collect_quoted [of w "[]"] by (simp add: item_ok_def)
  moreover have "tok_step al wl (ST_QUOTECOLLECT, ws, w) QUOTE = (ST_FINDWORDSTART, ws @ [w], [])"
    using assms(2) by (auto simp: tok_step_def tok_trans_def tok_ended_def tok_word_def)
  moreover have "tok_step al wl (ST_FINDWORDSTART, ws, []) QUOTE = (ST_QUOTECOLLECT, ws, [])"
    by (simp add: tok_step_def tok_trans_def tok_ended_def)
  ultimately show ?thesis using Quoted by (simp add: pending_word_def tok_ended_def)
qed

lemma tok_line_pending:
  assumes "list_all (item_ok wl) is" "al = 0 \<or> length ws + length is \<le> al" "is \<noteq> []"
    "line_text is = body @ [NL]"
  shows "pending_word (tok_run al wl (ST_FINDWORDSTART, ws, []) body) (ws @ map item_word is)"
  using assms
proof (induction "is" arbitrary: ws body rule: line_text.induct)
  case (2 i)
  then show ?case using tok_item_pending [of wl i al ws] by auto
next
  case (3 i v va)
  have run: "tok_run al wl (ST_FINDWORDSTART, ws, []) (item_text i @ [CHR '' '']) =
      (ST_FINDWORDSTART, ws @ [item_word i], [])"
    using 3 tok_item [of wl i al ws "CHR '' ''"] by auto
  obtain b where b: "line_text (v # va) = b @ [NL]"
    by (metis append_butlast_last_id line_text.simps(2,3) list.exhaust list.distinct(1)
        append_is_Nil_conv last_appendR last_ConsL last_ConsR "3.prems"(4) append_Cons)
  then have "body = item_text i @ CHR '' '' # b" using "3.prems"(4) by simp
  then show ?case
    using run "3.IH" [of "ws @ [item_word i]" b] "3.prems" b by simp
qed simp

lemma pconf_line_words:
  assumes "pconf_wf ctx" "pc_wordbuf ctx = []" "line_fits ctx is" "line_text is = body @ [NL]"
  shows "\<exists>ctx'. pconf_line ctx body = (ctx', True) \<and> pconf_wf ctx' \<and> pc_wordbuf ctx' = [] \<and>
    same_limits ctx' ctx \<and> pconf_args ctx' = map item_word is"
proof -
  let ?al = "pc_arg_limit ctx" and ?wl = "pc_wordlen_limit ctx"
  let ?c = "ctx\<lparr>pc_linenum := pc_linenum ctx + 1, pc_numargs := 0, pc_state := ST_FINDWORDSTART\<rparr>"
  have items: "list_all (item_ok ?wl) is" "?al = 0 \<or> length ([]::cstr list) + length is \<le> ?al" "is \<noteq> []"
    using assms(3) by (auto simp: line_fits_def)
  have wf: "pconf_wf ?c" using assms(1) by (simp add: pconf_wf_noargs)
  have abs: "tok_abs ?c = (ST_FINDWORDSTART, [], [])"
    using assms(2) by (simp add: tok_abs_def pconf_args_def)
  have busy: "tok_busy ?al ?wl (ST_FINDWORDSTART, [], []) body"
    using tok_busy_line [OF items(1,2)] assms(4) by auto
  obtain d where d: "pconf_line_loop ?c body = (d, False)" "pconf_wf d" "same_limits d ?c"
    "tok_abs d = tok_run ?al ?wl (ST_FINDWORDSTART, [], []) body"
    using pconf_line_loop_busy [OF wf, of body] busy abs by (auto simp: tok_ended_def)
  have pend: "pending_word (tok_abs d) (map item_word is)"
    using tok_line_pending [OF items assms(4)] d(4) by simp
  have line: "pconf_line ctx body = (if pc_wordbuf d \<noteq> [] then endofword d else d, True)"
    using d(1) assms(1) by (simp add: pconf_line_def check_magic_wf Let_def)
  show ?thesis
  proof (cases "pc_wordbuf d = []")
    case True
    then show ?thesis
      using line d(2,3) pend by (auto simp: pending_word_def tok_abs_def same_limits_def)
  next
    case False
    then have "pconf_args d @ [pc_wordbuf d] = map item_word is"
      using pend by (auto simp: pending_word_def tok_abs_def)
    then have "length (pconf_args d) < length is" "pconf_args (endofword d) = map item_word is"
      using d(3) items(2) unfolding endofword_abs [OF d(2)]
      by (auto simp: tok_word_def same_limits_def dest: arg_cong [where f = length])
    then show ?thesis
      using False line d(2,3) by (auto simp: endofword_wf same_limits_def)
  qed
qed

section \<open>The request line\<close>

definition arg_item :: "cstr \<Rightarrow> item" where
  "arg_item a = (if CHR '' '' \<in> set a then Quoted a else Bare a)"

lemma escape_bare: "list_all bare_char w \<Longrightarrow> escape w = w"
  by (induction w) (auto simp: bare_char_def)

lemma cmd_arg_item:
  assumes "item_ok wl (arg_item a)" "length (escape a) < UPSCLI_NETBUF_LEN"
  shows "cmd_arg a = CHR '' '' # item_text (arg_item a)"
  using assms escape_bare [of a]
  by (auto simp: cmd_arg_def arg_item_def item_ok_def pconf_encode_fits Let_def)

lemma line_text_items:
  "line_text (i # is) = item_text i @ concat (map (\<lambda>i. CHR '' '' # item_text i) is) @ [NL]"
  by (induction "is" arbitrary: i) simp_all

lemma foldl_snprintfcat:
  "length buf + length (concat (map f xs)) + 2 \<le> sz \<Longrightarrow>
   foldl (\<lambda>b x. snprintfcat b sz (f x)) buf xs = buf @ concat (map f xs)"
  by (induction xs arbitrary: buf) (auto simp: snprintfcat_fits)

definition request_ok :: "cstr list \<Rightarrow> bool" where
  "request_ok args \<longleftrightarrow> list_all (\<lambda>a. item_ok PCONF_DEFAULT_WORDLEN_LIMIT (arg_item a)) args \<and>
     length args < PCONF_DEFAULT_ARG_LIMIT \<and>
     length (concat (map (\<lambda>a. CHR '' '' # item_text (arg_item a)) args)) + 12 \<le> UPSCLI_NETBUF_LEN"

lemma request_args:
  assumes "request_ok args"
  shows "map cmd_arg args = map (\<lambda>a. CHR '' '' # item_text (arg_item a)) args"
proof (rule map_cong [OF refl])
  fix a assume a: "a \<in> set args"
  then have item: "item_ok PCONF_DEFAULT_WORDLEN_LIMIT (arg_item a)"
    using assms by (auto simp: request_ok_def list_all_iff)
  obtain before after where "args = before @ a # after" using split_list [OF a] by blast
  then have "length (item_text (arg_item a)) < UPSCLI_NETBUF_LEN"
    using assms by (auto simp: request_ok_def)
  then have "length (escape a) < UPSCLI_NETBUF_LEN"
    using item escape_bare [of a] by (auto simp: arg_item_def item_ok_def split: if_splits)
  then show "cmd_arg a = CHR '' '' # item_text (arg_item a)" by (rule cmd_arg_item [OF item])
qed

lemma build_cmd_items:
  assumes "request_ok args" "length verb \<le> 10"
  shows "build_cmd UPSCLI_NETBUF_LEN verb args = line_text (Bare verb # map arg_item args)"
proof -
  note args = request_args [OF assms(1)]
  let ?text = "concat (map (\<lambda>a. CHR '' '' # item_text (arg_item a)) args)"
  have len: "length verb + length ?text + 2 \<le> UPSCLI_NETBUF_LEN"
    using assms by (simp add: request_ok_def)
  then have verb: "snprintf UPSCLI_NETBUF_LEN verb = verb"
    by (intro snprintf_fits) simp
  have "foldl (\<lambda>b a. snprintfcat b UPSCLI_NETBUF_LEN (cmd_arg a)) verb args = verb @ ?text"
    using foldl_snprintfcat [of verb cmd_arg args UPSCLI_NETBUF_LEN] len by (simp add: args)
  then show ?thesis
    using len verb by (simp add: build_cmd_def Let_def snprintf_def line_text_items comp_def)
qed

section \<open>Comparing the answer\<close>

lemma verify_resp_long:
  "length q \<le> length a \<Longrightarrow>
   verify_resp q a = CliOk (list_all2 (\<lambda>v w. strcasecmp v w = 0) q (take (length q) a))"
  by (induction q a rule: verify_resp.induct) auto

lemma verify_resp_beyond:
  "verify_resp q a = CliBeyond \<Longrightarrow> length a < length q"
  by (induction q a rule: verify_resp.induct) (auto split: if_splits)

lemma parse_answer_wf:
  assumes "pconf_wf (uc_pc_ctx u)" "parse_answer u tmp = (u', ok)"
  shows "pc_numargs (uc_pc_ctx u') \<le> length (pc_arglist (uc_pc_ctx u'))"
proof -
  have loop: "pconf_wf ctx \<Longrightarrow> pconf_wf (fst (pconf_line_loop ctx line))" for ctx line
    by (induction ctx line rule: pconf_line_loop.induct) (auto simp: Let_def parse_char_wf)
  have "pconf_wf (fst (pconf_line (uc_pc_ctx u) tmp))"
    using assms(1)
    loop [of "(uc_pc_ctx u)\<lparr>pc_linenum := pc_linenum (uc_pc_ctx u) + 1, pc_numargs := 0,
        pc_state := ST_FINDWORDSTART\<rparr>" tmp]
    by (auto simp: pconf_line_def check_magic_wf Let_def endofword_wf pconf_wf_noargs split: prod.splits bool.splits)
  then show ?thesis
    using assms(2) by (auto simp: parse_answer_def Let_def pconf_wf_def cli_fail_def split: prod.splits)
qed

text \<open>An exchange that succeeds leaves the parser of the connection alone.\<close>

lemma sendline_keeps_ctx:
  "upscli_sendline N u n buf = (u', n', True) \<Longrightarrow> uc_pc_ctx u' = uc_pc_ctx u"
  by (auto simp: upscli_sendline_def net_write_def cli_fail_def split: if_splits prod.splits)

lemma readline_loop_keeps_ctx:
  "readline_loop N room buf u n = (u', n', Some line) \<Longrightarrow> uc_pc_ctx u' = uc_pc_ctx u"
  by (induction N room buf u n rule: readline_loop.induct)
    (auto simp: net_read_def cli_fail_def Let_def split: if_splits prod.splits option.splits rd_result.splits)

lemma ask_keeps_ctx:
  "ask N u n verb query = (u', n', Some tmp) \<Longrightarrow> uc_pc_ctx u' = uc_pc_ctx u"
  by (auto simp: ask_def upscli_readline_def upscli_errcheck_def
      dest!: sendline_keeps_ctx readline_loop_keeps_ctx split: if_splits prod.splits option.splits bool.splits)

section \<open>A server that answers\<close>

text \<open>
  What the client needs of the network: the bytes that wait for it come in order, in pieces
  of any size, and a request that is written puts the answer of the server behind them.
\<close>

locale reply_stream =
  fixes N :: "'n net" and fd :: int and queue :: "'n \<Rightarrow> cstr" and server :: "'n \<Rightarrow> 's"
    and answer :: "'s \<Rightarrow> cstr \<Rightarrow> 's \<times> cstr"
  assumes fd_open: "0 \<le> fd"
    and read_some: "queue n \<noteq> [] \<Longrightarrow> \<exists>n' bs. nt_read N n fd READBUF_LEN = (n', RdBytes bs) \<and>
      bs \<noteq> [] \<and> queue n = bs @ queue n' \<and> server n' = server n"
    and write_all: "req \<noteq> [] \<Longrightarrow> \<exists>n' k. nt_write N n fd req = (n', k) \<and> 1 \<le> k \<and>
      queue n' = queue n @ snd (answer (server n) req) \<and> server n' = fst (answer (server n) req)"
begin

definition idle :: "upsconn \<Rightarrow> 'n \<Rightarrow> bool" where
  "idle u n \<longleftrightarrow> uc_fd u = fd \<and> uc_magic u \<and> uc_readbuf u = [] \<and> queue n = []"

lemma readline_loop_line:
  assumes "uc_fd u = fd" "uc_readbuf u @ queue n = line @ NL # rest" "NL \<notin> set line" "length line < room"
  shows "\<exists>n' bs. readline_loop N room buf u n = (u\<lparr>uc_readbuf := bs\<rparr>, n', Some (buf @ line)) \<and>
    bs @ queue n' = rest \<and> server n' = server n"
  using assms
proof (induction room arbitrary: buf u n line)
  case (Suc room)
  obtain n1 bs where got: "(if uc_readbuf u = [] then net_read N u n READBUF_LEN
      else (u, n, Some (uc_readbuf u))) = (u, n1, Some bs)" "bs \<noteq> []"
    "bs @ queue n1 = line @ NL # rest" "server n1 = server n"
  proof (cases "uc_readbuf u = []")
    case True
    then have "queue n \<noteq> []" using Suc.prems(2) by auto
    then show ?thesis
      using that read_some [of n] True Suc.prems(1,2) by (auto simp: net_read_def)
  next
    case False
    then show ?thesis using that Suc.prems(2) by simp
  qed
  obtain c cs where bs: "bs = c # cs" using got(2) by (cases bs) auto
  let ?u = "u\<lparr>uc_readbuf := cs\<rparr>"
  show ?case
  proof (cases line)
    case Nil
    then have "c = NL" "cs @ queue n1 = rest" using got(3) bs by auto
    then show ?thesis using got bs Nil by auto
  next
    case (Cons d l)
    then have c: "c = d" "cs @ queue n1 = l @ NL # rest" using got(3) bs by auto
    then have "\<exists>n' bs. readline_loop N room (buf @ [c]) ?u n1 = (?u\<lparr>uc_readbuf := bs\<rparr>, n', Some ((buf @ [c]) @ l)) \<and>
        bs @ queue n' = rest \<and> server n' = server n1"
      using Suc.prems Cons by (intro Suc.IH) auto
    then show ?thesis using got(1,4) bs c Cons Suc.prems(3) by auto
  qed
qed simp

lemma readline_line:
  assumes "uc_fd u = fd" "uc_magic u" "uc_readbuf u @ queue n = line @ NL # rest"
    "NL \<notin> set line" "CHR 0x00 \<notin> set line" "length line < buflen - 1"
  shows "\<exists>n' bs. upscli_readline N u n buflen = (u\<lparr>uc_readbuf := bs\<rparr>, n', Some line) \<and>
    bs @ queue n' = rest \<and> server n' = server n"
proof -
  have "as_string line = line"
    using assms(5) by (simp add: as_string_def takeWhile_eq_all_conv) metis
  then show ?thesis
    using readline_loop_line [of u n line rest "buflen - 1" "[]"] assms fd_open
    by (auto simp: upscli_readline_def)
qed

text \<open>One request, one line.\<close>

lemma ask_reply:
  assumes "idle u n" "answer (server n) (build_cmd UPSCLI_NETBUF_LEN verb q) = (s', line @ [NL])"
    "NL \<notin> set line" "CHR 0x00 \<notin> set line" "length line < UPSCLI_NETBUF_LEN - 1" "verb \<noteq> []"
  shows "\<exists>n'. ask N u n verb q =
      (if strneq line ''ERR'' 3 then (cli_fail (err_lookup (drop 4 line)) u, n', None) else (u, n', Some line)) \<and>
    idle u n' \<and> server n' = s'"
proof -
  let ?cmd = "build_cmd UPSCLI_NETBUF_LEN verb q"
  have cmd: "?cmd \<noteq> []"
  proof -
    have "snprintfcat b k s \<noteq> []" if "b \<noteq> []" for b k s using that by (simp add: snprintfcat_def Let_def)
    then have "foldl (\<lambda>b a. snprintfcat b k (cmd_arg a)) b q \<noteq> []" if "b \<noteq> []" for b k
      using that by (induction q arbitrary: b) auto
    moreover have "snprintf UPSCLI_NETBUF_LEN verb \<noteq> []"
      using assms(6) by (simp add: snprintf_def UPSCLI_NETBUF_LEN_def)
    ultimately show ?thesis by (simp add: build_cmd_def Let_def)
  qed
  have u: "uc_fd u = fd" "uc_magic u" "uc_readbuf u = []" "queue n = []"
    using assms(1) by (auto simp: idle_def)
  obtain n1 k where w: "nt_write N n fd ?cmd = (n1, k)" "1 \<le> k" "queue n1 = line @ [NL]" "server n1 = s'"
    using write_all [OF cmd, of n] assms(2) u(4) by auto
  then have sent: "upscli_sendline N u n ?cmd = (u, n1, True)"
    using u cmd fd_open by (simp add: upscli_sendline_def net_write_def Suc_le_eq)
  obtain n' bs where r: "upscli_readline N u n1 UPSCLI_NETBUF_LEN = (u\<lparr>uc_readbuf := bs\<rparr>, n', Some line)"
    "bs @ queue n' = []" "server n' = s'"
    using readline_line [of u n1 line "[]" UPSCLI_NETBUF_LEN] assms(3-5) u w by auto
  have "u\<lparr>uc_readbuf := bs\<rparr> = u" using r(2) u(3) by simp
  then show ?thesis
    using sent r u by (auto simp: ask_def upscli_errcheck_def idle_def)
qed

definition ready :: "upsconn \<Rightarrow> 'n \<Rightarrow> bool" where
  "ready u n \<longleftrightarrow> idle u n \<and> pconf_wf (uc_pc_ctx u) \<and> pc_wordbuf (uc_pc_ctx u) = []"

lemma get_reply:
  assumes "ready u n" "q \<noteq> []" "answer (server n) (build_cmd UPSCLI_NETBUF_LEN ''GET'' q) = (s', line @ [NL])"
    "NL \<notin> set line" "CHR 0x00 \<notin> set line" "length line < UPSCLI_NETBUF_LEN - 1" "\<not> strneq line ''ERR'' 3"
    "line_fits (uc_pc_ctx u) is" "line_text is = line @ [NL]" "map item_word is = words"
    "list_all2 (\<lambda>v w. strcasecmp v w = 0) q (take (length q) words)"
  shows "\<exists>u' n' array. upscli_get N u n q = (u', n', CliOk (length words, array)) \<and>
    take (length words) array = words \<and> ready u' n' \<and> server n' = s' \<and>
    same_limits (uc_pc_ctx u') (uc_pc_ctx u) \<and> uc_upserror u' = uc_upserror u"
proof -
  have u: "idle u n" "pconf_wf (uc_pc_ctx u)" "pc_wordbuf (uc_pc_ctx u) = []"
    using assms(1) by (auto simp: ready_def)
  obtain n' where a: "ask N u n ''GET'' q = (u, n', Some line)" "idle u n'" "server n' = s'"
    using ask_reply [OF u(1) assms(3-6)] assms(7) by auto
  obtain ctx where c: "pconf_line (uc_pc_ctx u) line = (ctx, True)" "pconf_wf ctx" "pc_wordbuf ctx = []"
    "same_limits ctx (uc_pc_ctx u)" "pconf_args ctx = words"
    using pconf_line_words [OF u(2,3) assms(8,9)] assms(10) by auto
  have n: "pc_numargs ctx = length words" "take (length words) (pc_arglist ctx) = words"
    using c(2,5) by (auto simp: pconf_args_def pconf_wf_def)
  have "length q \<le> length words"
    using list_all2_lengthD [OF assms(11)] by simp
  then have "take (length q) (pc_arglist ctx) = take (length q) words" "length q \<le> length (pc_arglist ctx)"
    using n(2) by (metis min.absorb1 take_take, metis length_take min.bounded_iff nat_le_linear)
  then have "verify_resp q (pc_arglist ctx) = CliOk True"
    using verify_resp_long [of q "pc_arglist ctx"] assms(11) by simp
  then show ?thesis
    using a c n assms(2) \<open>length q \<le> length words\<close>
    by (auto simp: upscli_get_def parse_answer_def Let_def ready_def idle_def Suc_le_eq)
qed

lemma get_error:
  assumes "ready u n" "q \<noteq> []"
    "answer (server n) (build_cmd UPSCLI_NETBUF_LEN ''GET'' q) = (s', ''ERR '' @ e @ [NL])"
    "NL \<notin> set e" "CHR 0x00 \<notin> set e" "length e < 500"
  shows "\<exists>n'. upscli_get N u n q = (cli_fail (err_lookup e) u, n', CliErr) \<and> ready u n' \<and> server n' = s'"
proof -
  have u: "idle u n" using assms(1) by (simp add: ready_def)
  have "\<exists>n'. ask N u n ''GET'' q =
      (if strneq (''ERR '' @ e) ''ERR'' 3 then (cli_fail (err_lookup (drop 4 (''ERR '' @ e))) u, n', None)
       else (u, n', Some (''ERR '' @ e))) \<and> idle u n' \<and> server n' = s'"
    by (rule ask_reply [OF u]) (use assms in \<open>simp_all add: UPSCLI_NETBUF_LEN_def\<close>)
  then show ?thesis
    using assms(1,2) by (auto simp: strneq_def upscli_get_def ready_def Suc_le_eq)
qed

end

end
