(* ===== verification/ClientLink.thy ===== *)
theory ClientLink
  imports ClientFacts Delivery
begin

text \<open>
  The client library on a connection to the model of upsd: what a client writes goes to
  client_readline() in one piece, what upsd writes to that client waits until the client
  reads it.  GET gives the client the value in the state tree of the server, or the number
  of the server's error.
\<close>

section \<open>The connection\<close>

text \<open>What upsd has written to a client between two states.\<close>

definition new_output :: "nat \<Rightarrow> upsd \<Rightarrow> upsd \<Rightarrow> cstr" where
  "new_output c S S' =
     concat (map snd (filter (\<lambda>(fd, s). fd = c_sock_fd (the_client S c)) (drop (length (sd_wire S)) (sd_wire S'))))"

definition serve :: "os \<Rightarrow> nat \<Rightarrow> upsd \<Rightarrow> cstr \<Rightarrow> upsd \<times> cstr" where
  "serve E c S req = (let S' = client_read_loop E c S (take SMALLBUF req) in (S', new_output c S S'))"

definition upsd_net :: "os \<Rightarrow> nat \<Rightarrow> (upsd \<times> cstr) net" where
  "upsd_net E c = \<lparr>
     nt_write = (\<lambda>(S, waiting) fd req.
       (case serve E c S req of (S', out) \<Rightarrow> ((S', waiting @ out), int (length req)))),
     nt_errno = (\<lambda>n. 0),
     nt_read = (\<lambda>(S, waiting) fd k. ((S, drop k waiting), RdBytes (take k waiting))),
     nt_resolve = (\<lambda>n host port fam. (n, GaiAddrs [0])),
     nt_dial = (\<lambda>n ai. (n, DialOk 3)),
     nt_close = (\<lambda>n fd. n),
     nt_timeout = False, nt_strerror = (\<lambda>e. [])\<rparr>"

interpretation upsd_link: reply_stream "upsd_net E c" "int fd" snd fst "serve E c"
  for E :: os and c fd :: nat
proof
  fix n :: "upsd \<times> cstr"
  show "snd n \<noteq> [] \<Longrightarrow> \<exists>n' bs. nt_read (upsd_net E c) n (int fd) READBUF_LEN = (n', RdBytes bs) \<and>
      bs \<noteq> [] \<and> snd n = bs @ snd n' \<and> fst n' = fst n"
    by (cases n) (simp add: upsd_net_def READBUF_LEN_def)
  show "req \<noteq> [] \<Longrightarrow> \<exists>n' k. nt_write (upsd_net E c) n (int fd) req = (n', k) \<and> 1 \<le> k \<and>
      snd n' = snd n @ snd (serve E c (fst n) req) \<and> fst n' = fst (serve E c (fst n) req)" for req
    by (cases n) (simp add: upsd_net_def split_beta Suc_le_eq)
qed simp

section \<open>GET over the connection\<close>

text \<open>A client of upsd that is between two lines, with the default limits.\<close>

definition listening :: "nat \<Rightarrow> upsd \<Rightarrow> bool" where
  "listening c S \<longleftrightarrow> c < length (sd_firstclient S) \<and> line_start (c_ctx (the_client S c)) \<and>
     pc_arg_limit (c_ctx (the_client S c)) = PCONF_DEFAULT_ARG_LIMIT \<and>
     pc_wordlen_limit (c_ctx (the_client S c)) = PCONF_DEFAULT_WORDLEN_LIMIT"

text \<open>upsd handles the request in a state that differs from S in the bookkeeping only.\<close>

definition same_ups :: "upsd \<Rightarrow> upsd \<Rightarrow> bool" where
  "same_ups S S' \<longleftrightarrow> sd_firstups S' = sd_firstups S \<and> sd_wire S' = sd_wire S \<and>
     map c_sock_fd (sd_firstclient S') = map c_sock_fd (sd_firstclient S)"

lemma same_fds:
  "c < length ks \<Longrightarrow> c_sock_fd k = c_sock_fd (ks ! c) \<Longrightarrow> map c_sock_fd (ks[c := k]) = map c_sock_fd ks"
  by (simp add: map_update list_update_same_conv)

lemma find_get: "find_netcmd ''GET'' = Some 5" "netcmds ! 5 = (''GET'', net_get, 0)"
  by (simp_all add: find_netcmd_def netcmds_def ci_simps c_tolower_def)

lemma item_word_arg [simp]: "item_word (arg_item a) = a"
  by (simp add: arg_item_def)

lemma serve_get:
  assumes "listening c S" "request_ok q" "all_written E"
    "\<And>S'. same_ups S S' \<Longrightarrow> net_get E c q S' = reply E c ans S'" "length ans \<le> NUT_NET_ANSWER_MAX"
  shows "\<exists>S'. serve E c S (build_cmd UPSCLI_NETBUF_LEN ''GET'' q) = (S', ans) \<and>
    sd_firstups S' = sd_firstups S \<and> listening c S'"
proof -
  let ?items = "Bare ''GET'' # map arg_item q"
  have cmd: "build_cmd UPSCLI_NETBUF_LEN ''GET'' q = line_text ?items"
    by (rule build_cmd_items [OF assms(2)]) simp
  have len: "length (line_text ?items) \<le> SMALLBUF"
    using assms(2) by (simp add: request_ok_def line_text_items comp_def SMALLBUF_def UPSCLI_NETBUF_LEN_def)
  have fits: "line_fits (c_ctx (the_client S c)) ?items"
    using assms(1,2)
    by (auto simp: line_fits_def request_ok_def listening_def list_all_iff item_ok_def bare_char_def
        word_char_def isspace_def pconf_escape_def PCONF_DEFAULT_WORDLEN_LIMIT_def)
  obtain ctx where ctx: "client_read_loop E c S (line_text ?items) =
      client_line E c (with_client c (\<lambda>k. k\<lparr>c_ctx := ctx\<rparr>) S)" "pconf_args ctx = ''GET'' # q"
    "line_start ctx" "same_limits ctx (c_ctx (the_client S c))"
    using client_reader.scan.loop_line [of c S ?items E "[]"] assms(1) fits
    by (auto simp: listening_def comp_def)
  define T where "T = with_client c (\<lambda>k. k\<lparr>c_ctx := ctx, c_last_heard := os_time E (sd_tick S)\<rparr>)
    (S\<lparr>sd_tick := Suc (sd_tick S)\<rparr>)"
  have c: "c < length (sd_firstclient S)" using assms(1) by (simp add: listening_def)
  have T: "same_ups S T" "c < length (sd_firstclient T)" "pconf_args (c_ctx (the_client T c)) = ''GET'' # q"
    "c_sock_fd (the_client T c) = c_sock_fd (the_client S c)" "listening c T"
    using c ctx(2-4) assms(1)
    by (simp_all add: T_def same_ups_def with_client_def same_fds listening_def same_limits_def)
  have "client_line E c (with_client c (\<lambda>k. k\<lparr>c_ctx := ctx\<rparr>) S) = parse_net E c T"
    using c by (simp add: client_line_def do_time_def T_def with_client_def)
  also have "\<dots> = net_get E c q T"
    using T(3) by (simp add: parse_net_def find_get check_command_def FLAG_USER_def)
  also have "\<dots> = sent c [ans] T"
    using assms(3,4) T(1,2) by (simp add: reply_sent)
  finally have "client_read_loop E c S (line_text ?items) = sent c [ans] T" using ctx(1) by simp
  moreover have "snprintf (NUT_NET_ANSWER_MAX + 1) ans = ans"
    using assms(5) by (simp add: snprintf_def)
  ultimately have "serve E c S (line_text ?items) = (sent c [ans] T, ans)"
    using len T by (simp add: serve_def new_output_def sent_def same_ups_def)
  moreover have "listening c (sent c [ans] T)" using T(5) by (simp add: listening_def)
  ultimately show ?thesis
    using T(1) cmd by (auto simp: same_ups_def)
qed

section \<open>What GET VAR gives the client\<close>

text \<open>A connection of the library that is up, has nothing left to read and has the default limits.\<close>

definition conn_ready :: "upsconn \<Rightarrow> bool" where
  "conn_ready u \<longleftrightarrow> 0 \<le> uc_fd u \<and> uc_magic u \<and> uc_readbuf u = [] \<and>
     pconf_wf (uc_pc_ctx u) \<and> pc_wordbuf (uc_pc_ctx u) = [] \<and>
     pc_arg_limit (uc_pc_ctx u) = PCONF_DEFAULT_ARG_LIMIT \<and>
     pc_wordlen_limit (uc_pc_ctx u) = PCONF_DEFAULT_WORDLEN_LIMIT"

lemma link_ready:
  fixes n :: "upsd \<times> cstr"
  shows "0 \<le> fd \<Longrightarrow> reply_stream.ready fd snd u n \<longleftrightarrow> uc_fd u = fd \<and> uc_magic u \<and> uc_readbuf u = [] \<and>
     snd n = [] \<and> pconf_wf (uc_pc_ctx u) \<and> pc_wordbuf (uc_pc_ctx u) = []"
  using upsd_link.ready_def [of "nat fd" u n] upsd_link.idle_def [of "nat fd" u n] by simp

lemma conn_ready_link: "conn_ready u \<Longrightarrow> upsd_link.ready (nat (uc_fd u)) u (S, [])"
  by (simp add: conn_ready_def link_ready)

text \<open>The answer to GET VAR for a value: a line of four items.\<close>

definition var_items :: "cstr \<Rightarrow> cstr \<Rightarrow> cstr \<Rightarrow> item list" where
  "var_items upsname var val = [Bare ''VAR'', Bare upsname, Bare var, Quoted val]"

text \<open>The value as GET gives it: marked when the forced shutdown flag of the UPS is raised.\<close>

definition shown_value :: "ups \<Rightarrow> cstr \<Rightarrow> st_node \<Rightarrow> cstr" where
  "shown_value x var n =
     (if strcasecmp var ''ups.status'' = 0 \<and> u_fsd x then ''FSD '' else '''') @ n_raw n"

definition plain_name :: "cstr \<Rightarrow> bool" where
  "plain_name w \<longleftrightarrow> w \<noteq> [] \<and> list_all bare_char w \<and> length w \<le> 100"

lemma plain_item: "plain_name w \<Longrightarrow> item_ok PCONF_DEFAULT_WORDLEN_LIMIT (arg_item w) \<and> arg_item w = Bare w"
proof -
  assume w: "plain_name w"
  have "\<not> bare_char (CHR '' '')" by (simp add: bare_char_def)
  then have "CHR '' '' \<notin> set w"
    using w by (auto simp: plain_name_def list_all_iff)
  then show ?thesis
    using w by (simp add: plain_name_def arg_item_def item_ok_def PCONF_DEFAULT_WORDLEN_LIMIT_def)
qed

lemma special_bare [simp]: "bare_char (CHR ''V'')" "bare_char (CHR ''A'')" "bare_char (CHR ''R'')"
  by (simp_all add: bare_char_def word_char_def isspace_def pconf_escape_def)

lemma var_request_ok: "plain_name upsname \<Longrightarrow> plain_name var \<Longrightarrow> request_ok [''VAR'', upsname, var]"
  using plain_item [of upsname] plain_item [of var]
  by (auto simp: request_ok_def plain_name_def PCONF_DEFAULT_ARG_LIMIT_def UPSCLI_NETBUF_LEN_def
      arg_item_def item_ok_def PCONF_DEFAULT_WORDLEN_LIMIT_def)

lemma no_newline:
  "list_all word_char w \<Longrightarrow> NL \<notin> set (escape w) \<and> CHR 0x00 \<notin> set (escape w)"
  by (induction w) (auto simp: word_char_def)

lemma bare_is_word: "list_all bare_char w \<Longrightarrow> list_all word_char w \<and> escape w = w"
  using escape_bare [of w] by (auto simp: list_all_iff bare_char_def)

lemma escape_append [simp]: "escape (a @ b) = escape a @ escape b"
  by (simp add: escape_def)

lemma get_value_arrives:
  assumes net: "conn_ready u" "listening c S" "all_written E"
    and names: "plain_name upsname" "plain_name var" "strncasecmp var ''server.'' 7 \<noteq> 0"
    and ups: "get_ups_ptr S upsname = Some i" "unavailable_text (the_ups S i) = None"
    and val: "state_tree_find (u_inforoot (the_ups S i)) var = Some n" "node_wf n"
      "list_all word_char (n_raw n)" "length (escape (n_raw n)) \<le> 250"
  shows "\<exists>u' S' array. upscli_get (upsd_net E c) u (S, []) [''VAR'', upsname, var] =
      (u', (S', []), CliOk (4, array)) \<and> take 4 array = [''VAR'', upsname, var, shown_value (the_ups S i) var n] \<and>
    conn_ready u' \<and> sd_firstups S' = sd_firstups S \<and> listening c S'"
proof -
  let ?v = "shown_value (the_ups S i) var n" and ?is = "var_items upsname var (shown_value (the_ups S i) var n)"
  let ?q = "[''VAR'', upsname, var]"
  define line where "line = ''VAR '' @ upsname @ '' '' @ var @ '' '' @ quoted (escape ?v)"
  have v: "list_all word_char ?v" "length (escape ?v) \<le> 254"
    using val(3,4) by (auto simp: shown_value_def word_char_def pconf_escape_def)
  have stored: "n_val n = escape (n_raw n)"
    using val(2,4) by (simp add: node_wf_def pconf_encode_fits ST_MAX_VALUE_LEN_def)
  have plain: "length upsname \<le> 100" "length var \<le> 100" "list_all word_char upsname" "list_all word_char var"
    "escape upsname = upsname" "escape var = var"
    using names(1,2) bare_is_word by (auto simp: plain_name_def)
  have shape: "line_text ?is = line @ [NL]"
    by (simp add: var_items_def line_def quoted_def)
  have clean: "NL \<notin> set line" "CHR 0x00 \<notin> set line" "length line < UPSCLI_NETBUF_LEN - 1"
    "length (line @ [NL]) \<le> NUT_NET_ANSWER_MAX"
    using no_newline [OF v(1)] no_newline [OF plain(3)] no_newline [OF plain(4)] plain v(2)
    by (auto simp: line_def quoted_def UPSCLI_NETBUF_LEN_def NUT_NET_ANSWER_MAX_def SMALLBUF_def)
  have answered: "net_get E c ?q T = reply E c (line @ [NL]) T" if "same_ups S T" for T
  proof -
    have ptr: "get_ups_ptr T upsname = Some i" "the_ups T i = the_ups S i"
      using that ups(1) by (auto simp: same_ups_def get_ups_ptr_def)
    have "net_get E c ?q T = get_var E c upsname var T"
      by (simp add: net_get_def Let_def ci_simps c_tolower_def)
    then show ?thesis
      using names(3) ptr ups(2) val(1) stored
      by (auto simp: get_var_def ups_available_cases sstate_getinfo_def state_getinfo_def line_def shown_value_def
          pconf_escape_def)
  qed
  obtain S' where S': "serve E c S (build_cmd UPSCLI_NETBUF_LEN ''GET'' ?q) = (S', line @ [NL])"
    "sd_firstups S' = sd_firstups S" "listening c S'"
    using serve_get [OF net(2) var_request_ok [OF names(1,2)] net(3) answered clean(4)] by blast
  have fits: "line_fits (uc_pc_ctx u) ?is"
    using net(1) names(1,2) v
    length_escape [of ?v]
    by (auto simp: line_fits_def conn_ready_def var_items_def item_ok_def plain_name_def
        PCONF_DEFAULT_ARG_LIMIT_def PCONF_DEFAULT_WORDLEN_LIMIT_def)
  have "\<exists>u' n' array. upscli_get (upsd_net E c) u (S, []) ?q = (u', n', CliOk (length (map item_word ?is), array)) \<and>
      take (length (map item_word ?is)) array = map item_word ?is \<and> upsd_link.ready (nat (uc_fd u)) u' n' \<and>
      fst n' = S' \<and> same_limits (uc_pc_ctx u') (uc_pc_ctx u) \<and> uc_upserror u' = uc_upserror u"
    by (rule upsd_link.get_reply [OF conn_ready_link [OF net(1)] _ _ clean(1-3) _ fits shape])
      (use S' in \<open>simp_all add: var_items_def line_def strneq_def\<close>)
  then obtain u' n' array where g: "upscli_get (upsd_net E c) u (S, []) ?q = (u', n', CliOk (4, array))"
    "take 4 array = map item_word ?is" "upsd_link.ready (nat (uc_fd u)) u' n'" "fst n' = S'"
    "same_limits (uc_pc_ctx u') (uc_pc_ctx u)"
    by (auto simp: var_items_def numeral_eq_Suc)
  then have "n' = (S', [])" "conn_ready u'"
    using net(1) by (auto simp: link_ready conn_ready_def same_limits_def prod_eq_iff)
  then show ?thesis using g S'(2,3) by (auto simp: var_items_def)
qed

text \<open>An error of the server gives its number and leaves the connection usable.\<close>

lemma get_error_arrives:
  assumes "conn_ready u" "listening c S" "all_written E" "request_ok q" "q \<noteq> []"
    "\<And>T. same_ups S T \<Longrightarrow> net_get E c q T = send_err E c e T"
    "NL \<notin> set e" "CHR 0x00 \<notin> set e" "length e < 500"
  shows "\<exists>S'. upscli_get (upsd_net E c) u (S, []) q = (cli_fail (err_lookup e) u, (S', []), CliErr) \<and>
    sd_firstups S' = sd_firstups S \<and> listening c S'"
proof -
  have answered: "net_get E c q T = reply E c (''ERR '' @ e @ [NL]) T" if "same_ups S T" for T
    using assms(6) [OF that] by (simp add: send_err_def reply_def)
  have len: "length (''ERR '' @ e @ [NL]) \<le> NUT_NET_ANSWER_MAX"
    using assms(9) by (simp add: NUT_NET_ANSWER_MAX_def SMALLBUF_def)
  obtain S' where S': "serve E c S (build_cmd UPSCLI_NETBUF_LEN ''GET'' q) = (S', ''ERR '' @ e @ [NL])"
    "sd_firstups S' = sd_firstups S" "listening c S'"
    using serve_get [OF assms(2,4,3) answered len] by blast
  have "\<exists>n'. upscli_get (upsd_net E c) u (S, []) q = (cli_fail (err_lookup e) u, n', CliErr) \<and>
      upsd_link.ready (nat (uc_fd u)) u n' \<and> fst n' = S'"
    by (rule upsd_link.get_error [OF conn_ready_link [OF assms(1)] assms(5) _ assms(7-9)]) (use S' in simp)
  then show ?thesis
    using S'(2,3) assms(1) by (auto simp: link_ready conn_ready_def prod_eq_iff)
qed

lemma conn_ready_fail [simp]: "conn_ready (cli_fail e u) \<longleftrightarrow> conn_ready u"
  by (simp add: conn_ready_def cli_fail_def)

text \<open>A variable that the UPS does not have.\<close>

lemma get_absent_arrives:
  assumes "conn_ready u" "listening c S" "all_written E"
    "plain_name upsname" "plain_name var" "strncasecmp var ''server.'' 7 \<noteq> 0"
    "get_ups_ptr S upsname = Some i" "unavailable_text (the_ups S i) = None"
    "state_tree_find (u_inforoot (the_ups S i)) var = None"
  shows "\<exists>S'. upscli_get (upsd_net E c) u (S, []) [''VAR'', upsname, var] =
      (cli_fail (err_lookup ''VAR-NOT-SUPPORTED'') u, (S', []), CliErr) \<and>
    sd_firstups S' = sd_firstups S \<and> listening c S'"
proof (rule get_error_arrives [OF assms(1-3) var_request_ok [OF assms(4,5)]])
  fix T assume "same_ups S T"
  then have ptr: "get_ups_ptr T upsname = Some i" "the_ups T i = the_ups S i"
    using assms(7) by (auto simp: same_ups_def get_ups_ptr_def)
  have "net_get E c [''VAR'', upsname, var] T = get_var E c upsname var T"
    by (simp add: net_get_def Let_def ci_simps c_tolower_def)
  then show "net_get E c [''VAR'', upsname, var] T = send_err E c ''VAR-NOT-SUPPORTED'' T"
    using assms(6,8,9) ptr
    by (auto simp: get_var_def ups_available_cases sstate_getinfo_def state_getinfo_def)
qed simp_all

end
