(* ===== verification/UpsmonLink.thy ===== *)
theory UpsmonLink
  imports UpsmonSpec ClientLink
begin

text \<open>
  upsmon on a connection to the model of upsd: a poll reads ups.status from the state tree
  of the server, and a low battery that a driver reports there ends in the decision to
  shut down.
\<close>

section \<open>Reading variables\<close>

text \<open>
  The UPS of upsmon that is connected to the entry x of upsd, on the client c, with nothing
  left to read.
\<close>

definition watching :: "nat \<Rightarrow> cstr \<Rightarrow> ups \<Rightarrow> (upsd \<times> cstr) on \<Rightarrow> bool" where
  "watching c name x s \<longleftrightarrow> conn_ready (m_conn (fst s)) \<and> m_upsname (fst s) = Some name \<and>
     plain_name name \<and> unavailable_text x = None \<and>
     (\<exists>S i. mn_net (snd s) = (S, []) \<and> listening c S \<and> get_ups_ptr S name = Some i \<and> the_ups S i = x)"

text \<open>Only the connection and the server have moved.\<close>

definition only_asked :: "'n on \<Rightarrow> 'n on \<Rightarrow> bool" where
  "only_asked s s' \<longleftrightarrow> (\<exists>conn n. s' = ((fst s)\<lparr>m_conn := conn\<rparr>, (snd s)\<lparr>mn_net := n\<rparr>))"

lemma only_askedI: "only_asked (u, m) (u\<lparr>m_conn := conn\<rparr>, m\<lparr>mn_net := n\<rparr>)"
  by (auto simp: only_asked_def)

lemma only_asked_fields:
  assumes "only_asked s s'"
  shows "m_status (fst s') = m_status (fst s)" "m_tokens (fst s') = m_tokens (fst s)"
    "mn_conf (snd s') = mn_conf (snd s)" "m_pv (fst s') = m_pv (fst s)" "mn_ups (snd s') = mn_ups (snd s)"
  using assms by (auto simp: only_asked_def)

text \<open>A value as GET shows it that is short enough for the line and the buffers.\<close>

definition short_value :: "ups \<Rightarrow> cstr \<Rightarrow> st_node \<Rightarrow> bool" where
  "short_value x var n \<longleftrightarrow> state_tree_find (u_inforoot x) var = Some n \<and> node_wf n \<and>
     list_all word_char (n_raw n) \<and> length (escape (n_raw n)) \<le> 250"

lemma get_ups_ptr_same: "sd_firstups S' = sd_firstups S \<Longrightarrow> get_ups_ptr S' name = get_ups_ptr S name"
  by (simp add: get_ups_ptr_def)

lemma status_names [simp]:
  "plain_name ''ups.status''" "plain_name ''ups.mode.buzzwords''" "plain_name ''experimental.ups.mode.buzzwords''"
  by (simp_all add: plain_name_def bare_char_def word_char_def isspace_def pconf_escape_def)

lemma mon_get_status:
  assumes "watching c name x s" "all_written E" "short_value x ''ups.status'' n"
  shows "\<exists>s'. mon_get_var (upsd_net E c) ''status'' s = Inr (s', Some (shown_value x ''ups.status'' n)) \<and>
    watching c name x s' \<and> only_asked s s'"
proof -
  obtain u m where s: "s = (u, m)" by (cases s)
  obtain S i where S: "mn_net m = (S, [])" "listening c S" "get_ups_ptr S name = Some i" "the_ups S i = x"
    and u: "conn_ready (m_conn u)" "m_upsname u = Some name" "plain_name name" "unavailable_text x = None"
    using assms(1) by (auto simp: watching_def s)
  let ?v = "shown_value x ''ups.status'' n"
  have n: "state_tree_find (u_inforoot (the_ups S i)) ''ups.status'' = Some n" "node_wf n"
    "list_all word_char (n_raw n)" "length (escape (n_raw n)) \<le> 250"
    using assms(3) S(4) by (simp_all add: short_value_def)
  have notserver: "strncasecmp ''ups.status'' ''server.'' 7 \<noteq> 0" by code_simp
  obtain u' S' array where g: "upscli_get (upsd_net E c) (m_conn u) (S, []) [''VAR'', name, ''ups.status''] =
      (u', (S', []), CliOk (4, array))" "take 4 array = [''VAR'', name, ''ups.status'', ?v]"
    "conn_ready u'" "sd_firstups S' = sd_firstups S" "listening c S'"
    using get_value_arrives [OF u(1) S(2) assms(2) u(3) status_names(1) notserver S(3) _ n] u(4) S(4) by auto
  have "length ?v \<le> 254" using n(4) length_escape [of "n_raw n"] by (simp add: shown_value_def)
  then have "snprintf MON_SMALLBUF ?v = ?v" by (simp add: snprintf_def MON_SMALLBUF_def)
  moreover have "length (take 4 array) = 4" "take 4 array ! 3 = ?v" unfolding g(2) by simp_all
  ultimately have val: "length array \<ge> 4" "array ! 3 = ?v" "snprintf MON_SMALLBUF ?v = ?v" by simp_all
  have "mon_get_var (upsd_net E c) ''status'' s = Inr ((u\<lparr>m_conn := u'\<rparr>, m\<lparr>mn_net := (S', [])\<rparr>), Some ?v)"
    using g(1) u(2) S(1) val by (simp add: s mon_get_var_def var_query_def numeral_eq_Suc)
  moreover have "watching c name x (u\<lparr>m_conn := u'\<rparr>, m\<lparr>mn_net := (S', [])\<rparr>)"
    using g(3-5) u S(3,4) by (simp add: watching_def get_ups_ptr_same [OF g(4)])
  moreover have "only_asked s (u\<lparr>m_conn := u'\<rparr>, m\<lparr>mn_net := (S', [])\<rparr>)" unfolding s by (rule only_askedI)
  ultimately show ?thesis by blast
qed

lemma mon_get_absent:
  assumes "watching c name x s" "all_written E" "state_tree_find (u_inforoot x) var = None"
    "plain_name var" "strncasecmp var ''server.'' 7 \<noteq> 0" "var_query name q = [''VAR'', name, var]"
  shows "\<exists>s'. mon_get_var (upsd_net E c) q s = Inr (s', None) \<and> watching c name x s' \<and> only_asked s s'"
proof -
  obtain u m where s: "s = (u, m)" by (cases s)
  obtain S i where S: "mn_net m = (S, [])" "listening c S" "get_ups_ptr S name = Some i" "the_ups S i = x"
    and u: "conn_ready (m_conn u)" "m_upsname u = Some name" "plain_name name" "unavailable_text x = None"
    using assms(1) by (auto simp: watching_def s)
  let ?e = "cli_fail (err_lookup ''VAR-NOT-SUPPORTED'') (m_conn u)"
  obtain S' where g: "upscli_get (upsd_net E c) (m_conn u) (S, []) [''VAR'', name, var] = (?e, (S', []), CliErr)"
    "sd_firstups S' = sd_firstups S" "listening c S'"
    using get_absent_arrives [OF u(1) S(2) assms(2) u(3) assms(4,5) S(3)] u(4) S(4) assms(3) by auto
  have "mon_get_var (upsd_net E c) q s = Inr ((u\<lparr>m_conn := ?e\<rparr>, m\<lparr>mn_net := (S', [])\<rparr>), None)"
    using g(1) u(2) S(1) assms(6) by (simp add: s mon_get_var_def)
  moreover have "watching c name x (u\<lparr>m_conn := ?e\<rparr>, m\<lparr>mn_net := (S', [])\<rparr>)"
    using g(2,3) u S(3,4) by (simp add: watching_def get_ups_ptr_same [OF g(2)])
  moreover have "only_asked s (u\<lparr>m_conn := ?e\<rparr>, m\<lparr>mn_net := (S', [])\<rparr>)" unfolding s by (rule only_askedI)
  ultimately show ?thesis by blast
qed

lemma only_asked_trans: "only_asked s t \<Longrightarrow> only_asked t r \<Longrightarrow> only_asked s r"
  by (force simp: only_asked_def)

section \<open>A poll\<close>

lemma recovered_fields:
  "m_status (fst (recovered s)) = m_status (fst s)" "m_tokens (fst (recovered s)) = m_tokens (fst s)"
  "mn_conf (snd (recovered s)) = mn_conf (snd s)" "mn_events (snd (recovered s)) = mn_events (snd s)"
  "m_commstate (fst (recovered s)) = m_commstate (fst s)"
  by (auto simp: recovered_def log_action_def split_beta Let_def)

lemma not_server:
  "strncasecmp ''ups.mode.buzzwords'' ''server.'' 7 \<noteq> 0"
  "strncasecmp ''experimental.ups.mode.buzzwords'' ''server.'' 7 \<noteq> 0"
  by code_simp+

lemma pollups_reads:
  assumes "watching c name x s" "all_written E" "short_value x ''ups.status'' n"
    "state_tree_find (u_inforoot x) ''ups.mode.buzzwords'' = None"
    "state_tree_find (u_inforoot x) ''experimental.ups.mode.buzzwords'' = None"
    "has_st ST_CLICONNECTED (fst s)"
  shows "\<exists>t. only_asked s t \<and> pollups (upsd_net E c) s =
    parse_status (upsd_net E c) (shown_value x ''ups.status'' n) [] [] (recovered t)"
proof -
  obtain a where a: "mon_get_var (upsd_net E c) ''status'' s = Inr (a, Some (shown_value x ''ups.status'' n))"
    "watching c name x a" "only_asked s a"
    using mon_get_status [OF assms(1-3)] by blast
  obtain b where b: "mon_get_var (upsd_net E c) ''buzzword'' a = Inr (b, None)"
    "watching c name x b" "only_asked a b"
    using mon_get_absent [OF a(2) assms(2,4) status_names(2) not_server(1), of "''buzzword''"]
    by (auto simp: var_query_def)
  obtain d where d: "mon_get_var (upsd_net E c) ''X-buzzword'' b = Inr (d, None)" "only_asked b d"
    using mon_get_absent [OF b(2) assms(2,5) status_names(3) not_server(2), of "''X-buzzword''"]
    by (auto simp: var_query_def)
  have "only_asked s d" using a(3) b(3) d(2) only_asked_trans by metis
  then show ?thesis
    using a(1) b(1) d(1) assms(6) by (intro exI [of _ d]) (simp add: pollups_def)
qed

text \<open>recalc() leaves the settings and the roles alone.\<close>

lemma power_value_keeps:
  "power_value us m = (us', m', val_ol) \<Longrightarrow>
   mn_conf m' = mn_conf m \<and> map (has_st ST_PRIMARY) us' = map (has_st ST_PRIMARY) us"
proof (induction us arbitrary: m us' m' val_ol)
  case (Cons u us)
  obtain u1 m1 c where c: "is_ups_critical (promote_dead (u, m)) = ((u1, m1), c)" by (metis prod.exhaust)
  obtain us2 m2 v where v: "power_value us m1 = (us2, m2, v)" by (metis prod.exhaust)
  have "has_st ST_PRIMARY (fst (fst (is_ups_critical (promote_dead (u, m))))) = has_st ST_PRIMARY u"
    by (simp add: is_ups_critical_def promote_dead_def set_st_def has_st_def Let_def isset_setflag)
  moreover have "mn_conf m1 = mn_conf m"
    using c is_ups_critical_clock promote_dead_eq by (metis same_clock_def)
  ultimately show ?case using Cons.IH [OF v] Cons.prems c v by auto
qed simp

lemma recalc_keeps:
  "mn_conf (fst (recalc m)) = mn_conf m"
  "list_all (has_st ST_PRIMARY) (mn_ups (fst (recalc m))) = list_all (has_st ST_PRIMARY) (mn_ups m)"
proof -
  obtain us m' v where p: "power_value (mn_ups m) m = (us, m', v)" by (metis prod.exhaust)
  note k = power_value_keeps [OF p]
  have "list_all (has_st ST_PRIMARY) us = list_all id (map (has_st ST_PRIMARY) us)" for us
    by (simp add: list.pred_map comp_def)
  then show "mn_conf (fst (recalc m)) = mn_conf m"
    "list_all (has_st ST_PRIMARY) (mn_ups (fst (recalc m))) = list_all (has_st ST_PRIMARY) (mn_ups m)"
    using k by (simp_all add: recalc_def p)
qed

text \<open>A turn of the main loop for one UPS whose battery runs low.\<close>

lemma low_battery_turn:
  assumes mon: "mn_ups m = [u]" "watching c name x (u, m)" "all_written E"
    "has_st ST_CLICONNECTED u" "has_st ST_PRIMARY u" "one_line (m_status u)" "t_root (m_tokens u) = None"
    and srv: "short_value x ''ups.status'' n"
      "state_tree_find (u_inforoot x) ''ups.mode.buzzwords'' = None"
      "state_tree_find (u_inforoot x) ''experimental.ups.mode.buzzwords'' = None"
    and status: "status = shown_value x ''ups.status'' n" "plain_status status"
      "said status ''OB''" "said status ''LB''" "\<not> said status ''CAL''"
    and conf: "g_oblbdurationtime (mn_conf m) \<le> 0" "0 < g_minsupplies (mn_conf m)"
  shows "\<exists>m'. poll_turn (upsd_net E c) ticks m = to_shutdown (forceshutdown (upsd_net E c) ticks m') \<and>
    mn_conf m' = mn_conf m \<and> list_all (has_st ST_PRIMARY) (mn_ups m')"
proof -
  obtain t where t: "only_asked (u, m) t" "pollups (upsd_net E c) (u, m) =
      parse_status (upsd_net E c) status [] [] (recovered t)"
    using pollups_reads [OF mon(2,3) srv] mon(4) status(1) by auto
  note same = only_asked_fields [OF t(1)]
  have line: "one_line (m_status (fst (recovered t)))" "t_root (m_tokens (fst (recovered t))) = None"
    using mon(6,7) same by (simp_all add: recovered_fields)
  have quiet_words: "\<not> buzz_eco []" by (simp add: buzz_eco_def)
  obtain u' m' where p: "parse_status (upsd_net E c) status [] [] (recovered t) = Inr (u', m')"
    "agrees status (m_status u')" "mn_conf m' = mn_conf m"
    using plain_poll [OF status(2) quiet_words quiet_words line, of "upsd_net E c"] same(3)
    by (auto simp: recovered_fields)
  have st: "m_status u' = status_after status False (m_status u)"
    using parse_status_after [OF p(1)] status(2) same(1) quiet_words
    by (simp add: plain_status_def recovered_fields)
  have primary: "has_st ST_PRIMARY u'"
    using mon(5) st other_flag_after [of ST_PRIMARY] by (simp add: has_st_def)
  have low: "has_st ST_ONBATT u'" "has_st ST_LOWBATT u'" "\<not> has_st ST_CAL u'"
    using p(2) status(3-5) agrees_level [OF p(2) level_member(1)] agrees_level [OF p(2) level_member(3)]
    by (simp_all add: has_st_def agrees_def line_flags_def)
  let ?m = "m'\<lparr>mn_ups := [u']\<rparr>"
  have all: "poll_all (upsd_net E c) 0 m = Inr ?m"
    using mon(1) t(2) p(1) by (simp add: poll_all.simps)
  have conf': "g_oblbdurationtime (mn_conf ?m) \<le> 0" using conf(1) p(3) by simp
  have crit: "critical ?m u'" by (rule critical_low_battery [OF low primary conf'])
  then have "good_power ?m = 0" by (simp add: good_power_def)
  then have "snd (recalc ?m)"
    using recalc_good_power [of ?m] conf(2) p(3) by (simp add: word_less_nat_alt)
  then have "poll_turn (upsd_net E c) ticks m = to_shutdown (forceshutdown (upsd_net E c) ticks (fst (recalc ?m)))"
    by (simp add: poll_turn_def all split_beta)
  moreover have "mn_conf (fst (recalc ?m)) = mn_conf m" "list_all (has_st ST_PRIMARY) (mn_ups (fst (recalc ?m)))"
    using recalc_keeps [of ?m] primary p(3) by simp_all
  ultimately show ?thesis by blast
qed

end
