(* ===== verification/UpsmonProps.thy ===== *)
theory UpsmonProps
  imports UpsmonLink Demo
begin

text \<open>
  The properties of the client library and of upsmon, with the small monitor that the
  witnesses use: it watches the UPS of the demonstration server over one connection.
\<close>

section \<open>A monitor for the witnesses\<close>

definition demo_conn :: upsconn where
  "demo_conn = fresh_conn\<lparr>uc_fd := 3, uc_pc_ctx := pconf_init cli_zero_ctx\<rparr>"

definition watched :: "cstr \<Rightarrow> upsd" where
  "watched status = (demo_server [] [])\<lparr>sd_firstups :=
     [demo_ups\<lparr>u_inforoot := Node Leaf (new_node 0 ''ups.status'' status) Leaf\<rparr>]\<rparr>"

definition demo_utype :: "32 word \<Rightarrow> utype" where
  "demo_utype status = (new_utype ''rack@localhost'' 1 ''adm'' ''pw'' ''secondary'')\<lparr>
     m_conn := demo_conn, m_status := status\<rparr>"

definition demo_mon :: "utype list \<Rightarrow> 'n \<Rightarrow> 'n mon" where
  "demo_mon us n = \<lparr>mn_ups = us, mn_conf = default_settings, mn_notifylist = notifylist, mn_sleepval = 5,
     mn_totalpv = 1, mn_alarms_prev = [], mn_reload_flag = 0, mn_userfsd = False, mn_events = [],
     mn_actions = [], mn_forks = True, mn_now = 1000, mn_mono = 100, mn_net = n\<rparr>"

lemma demo_conn_ready: "conn_ready demo_conn"
  using pconf_init_wf [of cli_zero_ctx]
  by (simp add: conn_ready_def demo_conn_def fresh_conn_def zero_conn_def) (simp add: pconf_init_def)

lemma demo_mon_fields [simp]:
  "mn_ups (demo_mon us n) = us" "mn_conf (demo_mon us n) = default_settings" "mn_net (demo_mon us n) = n"
  "mn_now (demo_mon us n) = 1000"
  by (simp_all add: demo_mon_def)

lemma demo_utype_fields [simp]:
  "m_conn (demo_utype v) = demo_conn" "m_upsname (demo_utype v) = Some ''rack''" "m_status (demo_utype v) = v"
  "t_root (m_tokens (demo_utype v)) = None" "m_commstate (demo_utype v) = -1"
proof -
  have split: "upscli_splitname ''rack@localhost'' None None 0 = (True, Some ''rack'', Some ''localhost'', 3493)"
    by code_simp
  show "m_conn (demo_utype v) = demo_conn" "m_upsname (demo_utype v) = Some ''rack''" "m_status (demo_utype v) = v"
    "t_root (m_tokens (demo_utype v)) = None" "m_commstate (demo_utype v) = -1"
    by (simp_all add: demo_utype_def new_utype_def split no_tokens_def)
qed

lemma watched_listening: "listening 0 (watched status)"
  using demo_ctx_wf [of "[]"]
  by (simp add: listening_def watched_def line_start_def) (simp add: demo_ctx_def tok_ended_def)

lemma watched_ups:
  "get_ups_ptr (watched status) ''rack'' = Some 0" "unavailable_text (the_ups (watched status) 0) = None"
  "u_inforoot (the_ups (watched status) 0) = Node Leaf (new_node 0 ''ups.status'' status) Leaf"
  "u_fsd (the_ups (watched status) 0) = False"
  by (simp_all add: watched_def get_ups_ptr_def unavailable_text_def valid_fd_def)

lemma rack_name: "plain_name ''rack''"
  by (simp add: plain_name_def bare_char_def word_char_def isspace_def pconf_escape_def)

section \<open>The client library\<close>

text \<open>C10. A GET VAR of a client for a variable of a connected and fresh UPS, written by
  upscli_get() and read byte by byte by upsd, gives the client exactly the four words of the
  answer, the value of the state tree among them, marked FSD for ups.status of a UPS with the
  flag; connection and server are ready for the next request.  The names are plain words of up to
  100 characters, and the value takes up to 250 when it is escaped.\<close>

theorem client_gets_the_value:
  assumes "conn_ready u" "listening c S" "all_written E"
    and "plain_name upsname" "plain_name var" "strncasecmp var ''server.'' 7 \<noteq> 0"
    and "get_ups_ptr S upsname = Some i" "unavailable_text (the_ups S i) = None"
    and "state_tree_find (u_inforoot (the_ups S i)) var = Some n" "node_wf n"
      "list_all word_char (n_raw n)" "length (escape (n_raw n)) \<le> 250"
  shows "\<exists>u' S' array. upscli_get (upsd_net E c) u (S, []) [''VAR'', upsname, var] =
      (u', (S', []), CliOk (4, array)) \<and>
    take 4 array = [''VAR'', upsname, var,
      (if strcasecmp var ''ups.status'' = 0 \<and> u_fsd (the_ups S i) then ''FSD '' else '''') @ n_raw n] \<and>
    conn_ready u' \<and> listening c S' \<and> sd_firstups S' = sd_firstups S"
  using get_value_arrives [OF assms] unfolding shown_value_def by blast

lemma demo_status:
  "state_tree_find (Node Leaf (new_node 0 ''ups.status'' status) Leaf) ''ups.status'' = Some (new_node 0 ''ups.status'' status)"
  "n_raw (new_node 0 ''ups.status'' status) = status"
  by (simp_all add: new_node_def val_escape_def st_tree_node_refresh_timestamp_def Let_def)

lemma client_gets_the_value_witness:
  "\<exists>u' S' array. upscli_get (upsd_net demo_os 0) demo_conn (watched ''OL CHRG'', []) [''VAR'', ''rack'', ''ups.status''] =
      (u', (S', []), CliOk (4, array)) \<and> take 4 array = [''VAR'', ''rack'', ''ups.status'', ''OL CHRG'']"
proof -
  have "strncasecmp ''ups.status'' ''server.'' 7 \<noteq> 0" by code_simp
  moreover have "list_all word_char ''OL CHRG''" "length (escape ''OL CHRG'') \<le> 250"
    by (simp_all add: word_char_def pconf_escape_def)
  ultimately show ?thesis
    using client_gets_the_value [OF demo_conn_ready watched_listening demo_os_written rack_name status_names(1) _
        watched_ups(1,2), of "''OL CHRG''" "new_node 0 ''ups.status'' ''OL CHRG''"]
      new_node_wf [of 0 "''ups.status''" "''OL CHRG''"]
    by (auto simp: watched_ups demo_status)
qed

text \<open>C15. Whatever the server answers, upscli_get() compares and returns only words that are
  there: a successful answer has at least as many words as the request, they are those of the
  request up to case, and no word behind the array is looked at.\<close>

theorem get_stays_within_answer:
  assumes "pconf_wf (uc_pc_ctx u)" "upscli_get N u n query = (u', n', r)"
  shows "r \<noteq> CliBeyond \<and> (\<forall>numa array. r = CliOk (numa, array) \<longrightarrow>
    length query \<le> numa \<and> numa \<le> length array \<and>
    list_all2 (\<lambda>q a. strcasecmp q a = 0) query (take (length query) array))"
proof -
  obtain u1 n1 l where ask: "ask N u n ''GET'' query = (u1, n1, l)" by (metis prod.exhaust)
  show ?thesis
  proof (cases l)
    case None
    then show ?thesis using assms(2) ask by (auto simp: upscli_get_def split: if_splits)
  next
    case (Some tmp)
    have "pconf_wf (uc_pc_ctx u1)" using ask_keeps_ctx [of N u n] ask Some assms(1) by simp
    obtain u2 ok where p: "parse_answer u1 tmp = (u2, ok)" by (metis prod.exhaust)
    have "pc_numargs (uc_pc_ctx u2) \<le> length (pc_arglist (uc_pc_ctx u2))"
      by (rule parse_answer_wf [OF \<open>pconf_wf (uc_pc_ctx u1)\<close> p])
    then show ?thesis
      using assms(2) ask Some p
      by (auto simp: upscli_get_def Let_def verify_resp_long split: if_splits bool.splits)
  qed
qed

lemma get_stays_within_answer_witness:
  "(case upscli_get (upsd_net demo_os 0) demo_conn (watched ''OL'', []) [''VAR'', ''rack'', ''ups.status''] of
     (u', n', r) \<Rightarrow> r \<noteq> CliBeyond)"
proof -
  have "pconf_wf (uc_pc_ctx demo_conn)" using demo_conn_ready by (simp add: conn_ready_def)
  moreover obtain u' n' r where e: "upscli_get (upsd_net demo_os 0) demo_conn (watched ''OL'', [])
      [''VAR'', ''rack'', ''ups.status''] = (u', n', r)"
    by (metis prod.exhaust)
  ultimately show ?thesis using get_stays_within_answer [OF _ e] by (simp add: e)
qed

section \<open>What a poll makes of a status\<close>

text \<open>C12. After a poll with an answer, the flag of a word of ups.status (LB, FSD, CAL, OFF,
  BYPASS, ALARM, OVER, TRIM, BOOST) is set exactly if the word was in the status, provided
  that the word is not only a part of another one; ONLINE and ONBATT follow the last of the
  words OL and OB; the role of this host and the state of the connection are not touched.\<close>

theorem flags_follow_words:
  assumes "parse_status N status b x s = Inr s'" "status \<noteq> []"
    and "(t, flag) \<in> set level_words" "strstr status t \<longrightarrow> said status t"
    and "one_line (m_status (fst s))" "own \<in> {ST_PRIMARY, ST_LOGIN, ST_CLICONNECTED}"
  shows "has_st flag (fst s') = said status t \<and>
    line_flags (m_status (fst s')) = lines_said (split_words status) (line_flags (m_status (fst s))) \<and>
    has_st own (fst s') = has_st own (fst s)"
  using assms(2,4) level_after [OF assms(3)] line_after [OF assms(5)] other_flag_after [OF assms(6)]
  by (simp add: has_st_def parse_status_after [OF assms(1)])

lemma demo_split: "split_words ''OB LB'' = [''OB'', ''LB'']" "split_words ''OL TRIM'' = [''OL'', ''TRIM'']"
  by code_simp+

lemma demo_plain: "plain_status ''OB LB''" "plain_status ''OL TRIM''"
  unfolding plain_status_def said_def demo_split
  by (simp_all add: plain_words_def level_words_def strcasecmp_eq_0 c_tolower_def)

lemma demo_status_poll:
  assumes "plain_status status" "one_line v"
  obtains s' where "parse_status N status [] [] (demo_utype v, demo_mon us n) = Inr s'"
  using plain_poll [OF assms(1) _ _ , of "[]" "[]" "(demo_utype v, demo_mon us n)" N] assms(2)
  by (auto simp: buzz_eco_def)

lemma flags_follow_words_witness:
  "\<exists>s'. parse_status (upsd_net demo_os 0) ''OB LB'' [] [] (demo_utype (setflag 0 ST_PRIMARY), demo_mon [] (watched ''OB LB'', [])) = Inr s' \<and>
    has_st ST_LOWBATT (fst s') \<and> has_st ST_ONBATT (fst s') \<and> has_st ST_PRIMARY (fst s')"
proof -
  let ?v = "setflag 0 ST_PRIMARY"
  have v: "one_line ?v" "flag_isset ?v ST_PRIMARY" by (simp_all add: one_line_def isset_setflag)
  obtain s' where s': "parse_status (upsd_net demo_os 0) ''OB LB'' [] [] (demo_utype ?v, demo_mon [] (watched ''OB LB'', [])) = Inr s'"
    by (rule demo_status_poll [OF demo_plain(1) v(1)])
  have said: "said ''OB LB'' ''LB''" by code_simp
  have line: "lines_said (split_words ''OB LB'') p = (False, True)" for p by code_simp
  have "has_st ST_LOWBATT (fst s') = said ''OB LB'' ''LB'' \<and>
      line_flags (m_status (fst s')) = lines_said (split_words ''OB LB'') (line_flags ?v) \<and>
      has_st ST_PRIMARY (fst s') = has_st ST_PRIMARY (demo_utype ?v)"
    using flags_follow_words [OF s' _ level_member(1), of ST_PRIMARY] v said by simp
  then show ?thesis using s' v said line by (auto simp: line_flags_def has_st_def)
qed

text \<open>C13. A status that is read twice in a row, of plain words and whatever time passes
  between the polls, is announced once: the second poll sends no notification.\<close>

theorem repeated_status_is_silent:
  assumes "plain_status status" "\<not> buzz_eco b" "\<not> buzz_eco x" "one_line (m_status u)"
    and "t_root (m_tokens u) = None" "parse_status N status b x (u, m) = Inr (u1, m1)"
  shows "\<exists>s2. parse_status N status b x (u1, m1\<lparr>mn_now := now, mn_mono := clock\<rparr>) = Inr s2 \<and>
    mn_events (snd s2) = mn_events m1"
proof -
  have one: "agrees status (m_status u1)" "m_commstate u1 = 1" "t_root (m_tokens u1) = None"
    using plain_poll [OF assms(1-3), of "(u, m)" N] assms(4-6) by auto
  have "m_status u1 = status_after status False (m_status u)"
    using parse_status_after [OF assms(6)] assms(1-3) by (simp add: plain_status_def)
  then have "one_line (m_status u1)" using one_line_after [OF assms(4)] by simp
  then show ?thesis
    using plain_poll [OF assms(1-3), of "(u1, m1\<lparr>mn_now := now, mn_mono := clock\<rparr>)" N] one by auto
qed

lemma repeated_status_is_silent_witness:
  "\<exists>u1 m1 s2. parse_status (upsd_net demo_os 0) ''OL TRIM'' [] [] (demo_utype 0, demo_mon [] (watched ''OL TRIM'', [])) = Inr (u1, m1) \<and>
    parse_status (upsd_net demo_os 0) ''OL TRIM'' [] [] (u1, m1\<lparr>mn_now := 1005, mn_mono := 105\<rparr>) = Inr s2 \<and>
    mn_events (snd s2) = mn_events m1"
proof -
  have v: "one_line 0" by (simp add: one_line_def flag_isset_def flag_defs)
  obtain u1 m1 where s': "parse_status (upsd_net demo_os 0) ''OL TRIM'' [] [] (demo_utype 0, demo_mon [] (watched ''OL TRIM'', [])) = Inr (u1, m1)"
    using demo_status_poll [OF demo_plain(2) v] by (metis prod.exhaust)
  have b: "\<not> buzz_eco []" by (simp add: buzz_eco_def)
  show ?thesis
    using repeated_status_is_silent [OF demo_plain(2) b b _ _ s', where now = 1005 and clock = 105] s' v by auto
qed

text \<open>A non-empty list of buzzwords puts a UPS into ECO mode unless it names all of ECO,
  ESS, HE and SMART, whatever the status says: the comparisons with the four names are negated.\<close>

theorem any_buzzword_is_eco:
  assumes "parse_status N status b x s = Inr s'" "status \<noteq> []" "b \<noteq> []"
    and "\<not> (strstr b '':ECO'' \<and> strstr b '':ESS'' \<and> strstr b '':HE'' \<and> strstr b '':SMART'')"
  shows "has_st ST_ECO (fst s')"
proof -
  have "buzz_eco b" using assms(3,4) by (auto simp: buzz_eco_def)
  then show ?thesis
    using assms(2) eco_after by (simp add: has_st_def parse_status_after [OF assms(1)])
qed

lemma any_buzzword_is_eco_witness:
  "(case parse_status (upsd_net demo_os 0) ''OL'' ''vendor:apc:TestPassed'' [] (demo_utype 0, demo_mon [] (watched ''OL'', [])) of
     Inl e \<Rightarrow> False | Inr s' \<Rightarrow> has_st ST_ECO (fst s'))"
proof -
  have b: "''vendor:apc:TestPassed'' \<noteq> []" "\<not> (strstr ''vendor:apc:TestPassed'' '':ECO'' \<and>
      strstr ''vendor:apc:TestPassed'' '':ESS'' \<and> strstr ''vendor:apc:TestPassed'' '':HE'' \<and>
      strstr ''vendor:apc:TestPassed'' '':SMART'')"
    by code_simp+
  let ?c = "clear_absent ''OL'' ''vendor:apc:TestPassed'' [] (ups_is_alive (demo_utype 0, demo_mon [] (watched ''OL'', [])))"
  have split: "split_words ''OL'' = [''OL'']" by code_simp
  obtain t where w: "stat_words (upsd_net demo_os 0) [''OL''] (?c, [], 0) = Inr (t, [], 0)" "states_only ?c t"
    using plain_stat_words [of "[''OL'']" "upsd_net demo_os 0" ?c "[]" 0] by (auto simp: plain_words_def)
  have "states_only (ups_is_alive (demo_utype 0, demo_mon [] (watched ''OL'', []))) t"
    using clear_absent_states w(2) by (rule states_only_trans)
  then have "t_root (m_tokens (fst t)) = None"
    by (simp add: states_only_fields ups_is_alive_def announce_def Let_def)
  then obtain s' where s': "parse_status (upsd_net demo_os 0) ''OL'' ''vendor:apc:TestPassed'' []
      (demo_utype 0, demo_mon [] (watched ''OL'', [])) = Inr s'"
    using w(1) finish_plain [of t] by (simp add: parse_status_def split Let_def)
  then show ?thesis using any_buzzword_is_eco [OF s' _ b] by simp
qed

text \<open>When a UPS on battery stops to trim the voltage, upsmon goes back to the relaxed
  polling frequency and stays there while the battery is in use: the test asks whether all
  alarming flags are set at once.\<close>

theorem polling_relaxes_on_battery:
  assumes "has_st ST_ONBATT u" "has_st ST_TRIM u"
  shows "mn_sleepval (snd (ups_on_batt (ups_is_nottrim (u, m)))) = g_pollfreq (mn_conf m) \<and>
    has_st ST_ONBATT (fst (ups_on_batt (ups_is_nottrim (u, m))))"
proof -
  have "\<not> flag_isset (clearflag (m_status u) ST_TRIM)
      (ST_ONBATT OR ST_OFF OR ST_BYPASS OR ST_ALARM OR ST_CAL OR ST_OVER OR ST_TRIM OR ST_BOOST)"
    by (simp add: isset_or isset_clearflag)
  then show ?thesis
    using assms
    by (simp add: ups_is_nottrim_def ended_def ups_on_batt_def try_restore_pollfreq_def clear_st_def
        announce_def has_st_def isset_clearflag)
qed

lemma polling_relaxes_on_battery_witness:
  "mn_sleepval (snd (ups_on_batt (ups_is_nottrim (demo_utype (ST_ONBATT OR ST_TRIM), (demo_mon [] ())\<lparr>mn_sleepval := 1\<rparr>)))) = 5"
proof -
  have "has_st ST_ONBATT (demo_utype (ST_ONBATT OR ST_TRIM))" "has_st ST_TRIM (demo_utype (ST_ONBATT OR ST_TRIM))"
    by (simp_all add: has_st_def flag_isset_def flag_defs)
  then show ?thesis
    using polling_relaxes_on_battery [of "demo_utype (ST_ONBATT OR ST_TRIM)" "(demo_mon [] ())\<lparr>mn_sleepval := 1\<rparr>"]
    by (simp add: default_settings_def)
qed

section \<open>The decision to shut down\<close>

text \<open>C14. While the UPSes that are in contact, not on battery, not switched off for long and
  without a forced shutdown feed enough supplies, and the power values do not exceed 32 bits,
  no shutdown is decided, whatever the state of the other UPSes.\<close>

theorem no_shutdown_while_power_suffices:
  assumes "(\<Sum>u\<leftarrow>mn_ups m. unat (m_pv u)) < 2 ^ 32"
    and "unat (g_minsupplies (mn_conf m)) \<le>
      (\<Sum>u\<leftarrow>filter (\<lambda>u. m_commstate u \<noteq> 0 \<and> \<not> has_st ST_ONBATT u \<and> \<not> has_st ST_FSD u \<and> m_offstate u \<noteq> 1) (mn_ups m).
        unat (m_pv u))"
  shows "\<not> snd (recalc m)"
proof -
  let ?fed = "\<lambda>u. m_commstate u \<noteq> 0 \<and> \<not> has_st ST_ONBATT u \<and> \<not> has_st ST_FSD u \<and> m_offstate u \<noteq> 1"
  have "?fed u \<Longrightarrow> \<not> critical m u" for u using critical_in_contact [of m u] by blast
  then have "(\<Sum>u\<leftarrow>filter ?fed (mn_ups m). unat (m_pv u)) \<le> good_power m"
    unfolding good_power_def by (intro sum_list_filter_mono) auto
  moreover have "good_power m \<le> (\<Sum>u\<leftarrow>mn_ups m. unat (m_pv u))"
    unfolding good_power_def by (rule sum_list_filter_le_nat)
  ultimately show ?thesis using assms recalc_good_power [of m] by simp
qed

lemma no_shutdown_while_power_suffices_witness:
  "\<not> snd (recalc (demo_mon [demo_utype ST_ONLINE, (demo_utype (ST_ONBATT OR ST_LOWBATT))\<lparr>m_sys := ''b@h''\<rparr>] ()))"
proof -
  let ?a = "demo_utype ST_ONLINE" let ?b = "(demo_utype (ST_ONBATT OR ST_LOWBATT))\<lparr>m_sys := ''b@h''\<rparr>"
  have "m_pv ?a = 1" "m_pv ?b = 1" "m_offstate ?a = -1" by (simp_all add: demo_utype_def new_utype_def split_beta)
  moreover have "\<not> has_st ST_ONBATT ?a" "\<not> has_st ST_FSD ?a" "has_st ST_ONBATT ?b"
    by (simp_all add: has_st_def flag_isset_def flag_defs)
  ultimately show ?thesis
    using no_shutdown_while_power_suffices [of "demo_mon [?a, ?b] ()"] by (simp add: default_settings_def)
qed

text \<open>C9. ups.status of upsd's state tree decides: a turn of the main loop of upsmon, connected
  as primary to an available UPS whose status says OB and LB and not CAL, reads it over the
  connection and ends in forceshutdown(), unless OBLBDURATION delays it.  This is for a monitor
  of this one UPS with MINSUPPLIES above 0, a status of words that upsmon knows, and a UPS
  without buzzwords.\<close>

theorem low_battery_starts_shutdown:
  assumes "mn_ups m = [u]" "watching c name x (u, m)" "all_written E"
    "has_st ST_CLICONNECTED u" "has_st ST_PRIMARY u" "one_line (m_status u)" "t_root (m_tokens u) = None"
    and "short_value x ''ups.status'' n"
      "state_tree_find (u_inforoot x) ''ups.mode.buzzwords'' = None"
      "state_tree_find (u_inforoot x) ''experimental.ups.mode.buzzwords'' = None"
    and "status = shown_value x ''ups.status'' n" "plain_status status"
      "said status ''OB''" "said status ''LB''" "\<not> said status ''CAL''"
    and "g_oblbdurationtime (mn_conf m) \<le> 0" "0 < g_minsupplies (mn_conf m)"
  shows "\<exists>m'. poll_turn (upsd_net E c) ticks m = to_shutdown (forceshutdown (upsd_net E c) ticks m') \<and>
    mn_conf m' = mn_conf m \<and> list_all (has_st ST_PRIMARY) (mn_ups m')"
  by (rule low_battery_turn [OF assms])

lemma low_battery_starts_shutdown_witness:
  "\<exists>m'. poll_turn (upsd_net demo_os 0) [1000]
      (demo_mon [demo_utype (ST_PRIMARY OR ST_CLICONNECTED)] (watched ''OB LB'', [])) =
    to_shutdown (forceshutdown (upsd_net demo_os 0) [1000] m') \<and> mn_conf m' = default_settings"
proof -
  let ?u = "demo_utype (ST_PRIMARY OR ST_CLICONNECTED)" let ?S = "watched ''OB LB''"
  let ?m = "demo_mon [?u] (?S, [])" let ?x = "the_ups ?S 0" let ?n = "new_node 0 ''ups.status'' ''OB LB''"
  have st: "has_st ST_CLICONNECTED ?u" "has_st ST_PRIMARY ?u" "one_line (m_status ?u)"
    by (simp_all add: has_st_def one_line_def flag_isset_def flag_defs)
  have watch: "watching 0 ''rack'' ?x (?u, ?m)"
    using demo_conn_ready watched_listening [of "''OB LB''"] watched_ups rack_name by (auto simp: watching_def)
  have chars: "list_all word_char ''OB LB''" "length (escape ''OB LB'') \<le> 250"
    by (simp_all add: word_char_def pconf_escape_def)
  have val: "short_value ?x ''ups.status'' ?n"
    using chars new_node_wf [of 0 "''ups.status''" "''OB LB''"] unfolding short_value_def watched_ups by (simp add: demo_status)
  have none: "state_tree_find (u_inforoot ?x) ''ups.mode.buzzwords'' = None"
    "state_tree_find (u_inforoot ?x) ''experimental.ups.mode.buzzwords'' = None"
    unfolding watched_ups by code_simp+
  have shown: "''OB LB'' = shown_value ?x ''ups.status'' ?n" by (simp add: shown_value_def watched_ups demo_status)
  have said: "said ''OB LB'' ''OB''" "said ''OB LB'' ''LB''" "\<not> said ''OB LB'' ''CAL''" by code_simp+
  show ?thesis
    using low_battery_starts_shutdown [where ticks = "[1000]", OF _ watch demo_os_written st _ val none shown demo_plain(1) said]
    by (auto simp: default_settings_def)
qed

text \<open>C16. The wait of a primary for its secondaries ends: whatever the servers answer, the loop
  has returned at the latest when a reading of the clock is more than HOSTSYNC later than its start.\<close>

theorem wait_for_secondaries_ends:
  assumes "sync_secondaries N start ticks m = Inr (m', r)" "now \<in> set ticks"
    and "g_hostsync (mn_conf m) < now - start"
  shows "r \<noteq> None"
  using sync_secondaries_ends [OF assms(1)] assms(2,3) by blast

lemma wait_for_secondaries_ends_witness:
  "(case sync_secondaries (upsd_net demo_os 0) 1000 [1000, 1016] (demo_mon [] (watched ''OB LB'', [])) of
     Inl e \<Rightarrow> False | Inr (m', r) \<Rightarrow> r \<noteq> None)"
proof -
  have "max_logins (upsd_net demo_os 0) 0 0 (demo_mon [] (watched ''OB LB'', [])) = Inr (demo_mon [] (watched ''OB LB'', []), 0)"
    by (subst max_logins.simps) (simp del: max_logins.simps)
  then have s: "sync_secondaries (upsd_net demo_os 0) 1000 [1000, 1016] (demo_mon [] (watched ''OB LB'', [])) =
      Inr (demo_mon [] (watched ''OB LB'', []), Some True)"
    by (simp del: max_logins.simps)
  show ?thesis unfolding s sum.case prod.case
    by (rule wait_for_secondaries_ends [OF s, of 1016]) (simp_all add: default_settings_def)
qed

text \<open>A server that answers every request with the same bytes.\<close>

definition canned :: "cstr \<Rightarrow> cstr net" where
  "canned ans = \<lparr>nt_write = (\<lambda>n fd req. (ans, 1)), nt_errno = (\<lambda>n. 0),
     nt_read = (\<lambda>n fd k. (drop k n, RdBytes (take k n))), nt_resolve = (\<lambda>n host port fam. (n, GaiNoname)),
     nt_dial = (\<lambda>n ai. (n, NoFamily)), nt_close = (\<lambda>n fd. n), nt_timeout = False, nt_strerror = (\<lambda>e. [])\<rparr>"

text \<open>C17. POLLFAIL_LOG_THROTTLE_MAX over a row of polls: each asks upsd for status, buzzword and
  X-buzzword, gets none of them, ends with the same error and keeps its connection.  When that
  error is new the first of them puts its failure into syslog; of the others every most-th does,
  with a setting of 0 none does, and with a negative one all do.  (A poll that loses the
  connection is not throttled: drop_connection() forgets the error, so that the next failure is
  new again.)\<close>

theorem repeated_failures_are_throttled:
  assumes "m_throttle_state (fst s) \<noteq> e" "polls_fail N e (Suc n) s"
  shows "polls_reported N (Suc n) s = True #
    (let most = g_pollfail_log_throttle_max (mn_conf (snd s)) in
     if most < 0 then replicate n True else if most = 0 then replicate n False
     else map (\<lambda>i. (int i + 1) mod most = 0) [0..<n])"
  using reported_row [OF assms] by (simp add: repeats_def Let_def del: polls_reported.simps)

definition stale_poll :: "cstr on" where
  "stale_poll = (demo_utype ST_CLICONNECTED,
     (demo_mon [] [])\<lparr>mn_conf := default_settings\<lparr>g_pollfail_log_throttle_max := 2\<rparr>\<rparr>)"

lemma repeated_failures_are_throttled_witness:
  "polls_reported (canned (''ERR DATA-STALE'' @ [NL])) 3 stale_poll = [True, False, True]"
proof -
  have "m_throttle_state (fst stale_poll) \<noteq> 10"
    by (simp add: stale_poll_def demo_utype_def new_utype_def split_beta UPSCLI_ERR_NONE_def)
  moreover have "polls_fail (canned (''ERR DATA-STALE'' @ [NL])) 10 (Suc 2) stale_poll" by code_simp
  ultimately have "polls_reported (canned (''ERR DATA-STALE'' @ [NL])) (Suc 2) stale_poll = True #
    (let most = g_pollfail_log_throttle_max (mn_conf (snd stale_poll)) in
     if most < 0 then replicate 2 True else if most = 0 then replicate 2 False
     else map (\<lambda>i. (int i + 1) mod most = 0) [0..<2])"
    by (rule repeated_failures_are_throttled)
  moreover have "map (\<lambda>i. (int i + 1) mod 2 = 0) [0..<2] = [False, True]" by code_simp
  ultimately show ?thesis by (simp add: stale_poll_def numeral_3_eq_3 numeral_2_eq_2 del: polls_reported.simps)
qed

section \<open>Where the code goes wrong\<close>

lemma canned_ask:
  assumes "verb \<noteq> []" "upscli_readline (canned ans) demo_conn ans UPSCLI_NETBUF_LEN = (u, n, Some tmp)"
    "\<not> strneq tmp ''ERR'' 3"
  shows "ask (canned ans) demo_conn [] verb query = (u, n, Some tmp)"
proof -
  have "build_cmd UPSCLI_NETBUF_LEN verb query \<noteq> []"
  proof -
    have "snprintfcat b k s \<noteq> []" if "b \<noteq> []" for b k s using that by (simp add: snprintfcat_def Let_def)
    then have "foldl (\<lambda>b a. snprintfcat b k (f a)) b xs \<noteq> []" if "b \<noteq> []" for b k f and xs :: "cstr list"
      using that by (induction xs arbitrary: b) auto
    then show ?thesis
      using assms(1) by (simp add: build_cmd_def Let_def snprintf_def UPSCLI_NETBUF_LEN_def)
  qed
  moreover have "0 \<le> uc_fd demo_conn" "uc_magic demo_conn"
    by (simp_all add: demo_conn_def fresh_conn_def)
  ultimately have "upscli_sendline (canned ans) demo_conn [] (build_cmd UPSCLI_NETBUF_LEN verb query) = (demo_conn, ans, True)"
    by (simp add: upscli_sendline_def net_write_def canned_def Suc_le_eq)
  then show ?thesis using assms(2,3) by (simp add: ask_def upscli_errcheck_def)
qed

text \<open>C36. On the first request of a connection, a server that opens a list with nothing but
  BEGIN LIST makes upscli_list_start() compare words that were never read: it checks for two
  words and then looks at those behind them.\<close>

theorem short_list_frame_overruns:
  assumes "query \<noteq> []"
  shows "snd (snd (upscli_list_start (canned (''BEGIN LIST'' @ [NL])) demo_conn [] query)) = CliBeyond"
proof -
  let ?N = "canned (''BEGIN LIST'' @ [NL])"
  have line: "upscli_readline ?N demo_conn (''BEGIN LIST'' @ [NL]) UPSCLI_NETBUF_LEN = (demo_conn, [], Some ''BEGIN LIST'')"
    by code_simp
  have ask: "ask ?N demo_conn [] ''LIST'' query = (demo_conn, [], Some ''BEGIN LIST'')"
    by (rule canned_ask [OF _ line]) (simp_all add: strneq_def)
  have parse: "(case parse_answer demo_conn ''BEGIN LIST'' of (u, ok) \<Rightarrow>
      ok \<and> pc_numargs (uc_pc_ctx u) = 2 \<and> pc_arglist (uc_pc_ctx u) = [''BEGIN'', ''LIST''])"
    by code_simp
  then show ?thesis
    using assms ask by (cases query) (auto simp: upscli_list_start_def Let_def split: prod.splits)
qed

lemma short_list_frame_overruns_witness:
  "snd (snd (upscli_list_start (canned (''BEGIN LIST'' @ [NL])) demo_conn [] [''UPS''])) = CliBeyond"
  by (rule short_list_frame_overruns) simp

text \<open>C35. Two different words of ups.status that upsmon does not know: a poll that says both, the
  first time for this UPS, then a poll that says only the one named first, then a poll that says
  both again.  The second poll frees the node of the word that is gone without unlinking it from
  the node of the word that stays, so the third poll follows a pointer to freed memory.  (The
  word that stays is the root of the tree here: a root that goes is unlinked.)\<close>

theorem vanished_word_leaves_dangling_node:
  assumes "m_tokens u = no_tokens" "unknown_word x" "unknown_word y" "strcasecmp x y \<noteq> 0"
    "CHR '' '' \<notin> set x" "CHR '' '' \<notin> set y"
  shows "polls N [x @ '' '' @ y, x, x @ '' '' @ y] (u, m) = Inl Freed_access"
proof -
  have unknown: "list_all unknown_word [x, y]" "list_all unknown_word [x]" "x \<noteq> []"
    using assms(2,3) by (simp_all add: unknown_word_def)
  note both = unknown_poll [OF split_pair [OF assms(5,6)] unknown(1)]
    and one = unknown_poll [OF split_word [OF assms(5)] unknown(2)]
  define t where "t = mn_mono m"
  obtain u1 m1 where p1: "parse_status N (x @ '' '' @ y) [] [] (u, m) = Inr (u1, m1)"
    "m_tokens u1 = two_words x y t t" "mn_mono m1 = t"
    using both [where N = N and s = "(u, m)"] pair_appears [OF assms(4), of t] assms(1) by (auto simp: t_def)
  obtain u2 m2 where p2: "parse_status N x [] [] (u1, m1\<lparr>mn_mono := t + 5, mn_now := mn_now m1 + 5\<rparr>) = Inr (u2, m2)"
    "m_tokens u2 = one_word x y (t + 5)"
    using one [where N = N and s = "(u1, m1\<lparr>mn_mono := t + 5, mn_now := mn_now m1 + 5\<rparr>)"]
      second_vanishes [OF assms(4), of t "t + 5"] p1(2) unknown(3) by auto
  have p3: "parse_status N (x @ '' '' @ y) [] [] (u2, m2\<lparr>mn_mono := k, mn_now := j\<rparr>) = Inl Freed_access" for k j
    using both [where N = N and s = "(u2, m2\<lparr>mn_mono := k, mn_now := j\<rparr>)"]
      second_returns [OF assms(4), of k "t + 5"] p2(2) by simp
  show ?thesis using p1 p2 p3 by simp
qed

lemma vanished_word_leaves_dangling_node_witness:
  "polls (canned []) [''TEST-A TEST-B'', ''TEST-A'', ''TEST-A TEST-B''] (demo_utype 0, demo_mon [] []) = Inl Freed_access"
proof -
  have "unknown_word ''TEST-A''" "unknown_word ''TEST-B''" by code_simp+
  moreover have "strcasecmp ''TEST-A'' ''TEST-B'' \<noteq> 0" by (simp add: ci_simps c_tolower_def)
  ultimately show ?thesis
    using vanished_word_leaves_dangling_node [of "demo_utype 0" "''TEST-A''" "''TEST-B''" "canned []" "demo_mon [] []"]
    by (simp add: demo_utype_def new_utype_def split_beta)
qed

lemmas number_simps = strtol_def valid_base_def scan_num_def scan_sign_def scan_base_def digits_value_def
  digit_val_def isdigit_def isspace_def Let_def LONG_MAX_def LONG_MIN_def

text \<open>C37. Power values up to UINT_MAX are accepted but summed in 32 bits, by the check of the
  configuration as well as by recalc().  Three supplies with the power values 2147483648,
  2147483648 and 1 and MINSUPPLIES 1 make a sum of 1: upsmon starts, yet from then on whenever
  only the third of them is critical it decides to shut down, although the other two feed the
  host.\<close>

definition monitor_line :: "cstr \<Rightarrow> cstr \<Rightarrow> cstr list" where
  "monitor_line sys pv = [''MONITOR'', sys, pv, ''adm'', ''pw'', ''primary'']"

lemma monitor_line_loads:
  assumes "fst (strtol pv 10) = int k" "k \<le> 4294967295" "find_idx (\<lambda>u. m_sys u = sys) (mn_ups m) = None" "mn_reload_flag m = 0"
  shows "conf_lines N (Some (monitor_line sys pv) # ls) m = conf_lines N ls (m\<lparr>mn_totalpv := mn_totalpv m + of_nat k,
    mn_ups := mn_ups m @ [new_utype sys (of_nat k) ''adm'' ''pw'' ''primary'']\<rparr>)"
proof -
  have "conf_setting ''MONITOR'' v c = None" for v c
    by (simp add: conf_setting_def Let_def c_tolower_def strcasecmp_eq_0)
  then have "parse_conf_arg N (monitor_line sys pv) m = Inr (addups N 0 sys pv ''adm'' ''pw'' ''primary'' m, True)"
    by (simp add: monitor_line_def parse_conf_arg_def assms(4) Let_def)
  then show ?thesis
    using assms(1-3) by (simp add: monitor_line_def addups_def UINT_MAX_def Let_def)
qed

theorem large_power_values_cancel:
  fixes m :: "'n mon"
  assumes "mn_ups m = []" "mn_totalpv m = 0" "mn_reload_flag m = 0" "g_minsupplies (mn_conf m) = 1"
    and "g_powerdownflag (mn_conf m) = None" "distinct [a, b, c]"
    and "lines = [monitor_line a ''2147483648'', monitor_line b ''2147483648'', monitor_line c ''1'']"
  shows "\<exists>m'. start_up N False (Some (map Some lines)) content m = Inr (Ready m') \<and>
    map m_sys (mn_ups m') = [a, b, c] \<and> map m_pv (mn_ups m') = [2147483648, 2147483648, 1] \<and>
    mn_totalpv m' = 1 \<and> g_minsupplies (mn_conf m') = 1 \<and>
    (\<forall>k :: 'n mon. map m_pv (mn_ups k) = map m_pv (mn_ups m') \<longrightarrow> g_minsupplies (mn_conf k) = g_minsupplies (mn_conf m') \<longrightarrow>
       map (critical k) (mn_ups k) = [False, False, True] \<longrightarrow> snd (recalc k))"
proof -
  have pv: "fst (strtol ''2147483648'' 10) = int 2147483648" "fst (strtol ''1'' 10) = int 1"
    by (simp_all add: number_simps)
  have new: "m_sys (new_utype sys pv ''adm'' ''pw'' ''primary'') = sys" "m_pv (new_utype sys pv ''adm'' ''pw'' ''primary'') = pv"
    for sys pv by (simp_all add: new_utype_def split_beta)
  let ?ups = "[new_utype a 2147483648 ''adm'' ''pw'' ''primary'', new_utype b 2147483648 ''adm'' ''pw'' ''primary'',
    new_utype c 1 ''adm'' ''pw'' ''primary'']"
  define m1 where "m1 = m\<lparr>mn_totalpv := 1, mn_ups := ?ups\<rparr>"
  have wrap: "(2147483648 + 2147483648 :: 32 word) = 0" by code_simp
  have load: "loadconfig N (Some (map Some lines)) m = Inr m1"
    using assms(1-3,6) wrap
    by (simp add: loadconfig_def assms(7) monitor_line_loads pv new m1_def del: conf_lines.simps(3))
  define m2 where "m2 = m1\<lparr>mn_conf := (mn_conf m1)\<lparr>g_debug_level := max (g_debug_level_global (mn_conf m1)) (g_debug_level (mn_conf m1))\<rparr>\<rparr>"
  have m2: "mn_ups m2 = ?ups" "mn_totalpv m2 = 1" "g_minsupplies (mn_conf m2) = 1" "g_powerdownflag (mn_conf m2) = None"
    using assms(4,5) by (simp_all add: m2_def m1_def)
  have start: "start_up N False (Some (map Some lines)) content m = Inr (Ready m2)"
    using m2(2-4) by (simp add: start_up_def load Let_def flip: m2_def)
  have "snd (recalc k)" if "map m_pv (mn_ups k) = map m_pv ?ups" "g_minsupplies (mn_conf k) = 1"
    "map (critical k) (mn_ups k) = [False, False, True]" for k :: "'n mon"
  proof -
    have zip: "(\<Sum>u\<leftarrow>us. if critical k u then 0 else m_pv u) =
        (\<Sum>(p, q)\<leftarrow>zip (map (critical k) us) (map m_pv us). if p then 0 else q)" for us
      by (induction us) simp_all
    show ?thesis by (simp add: recalc_sum zip that new wrap)
  qed
  then show ?thesis using start m2 by (intro exI [of _ m2]) (auto simp: new)
qed

definition lone_monitor :: "cstr mon" where
  "lone_monitor = (demo_mon [] [])\<lparr>mn_totalpv := 0\<rparr>"

definition strong_pair :: "cstr mon" where
  "strong_pair = demo_mon [(demo_utype ST_ONLINE)\<lparr>m_pv := 2147483648\<rparr>, (demo_utype ST_ONLINE)\<lparr>m_pv := 2147483648\<rparr>,
     demo_utype (ST_ONBATT OR ST_LOWBATT)] []"

lemma large_power_values_cancel_witness:
  "(\<exists>m'. start_up (canned []) False (Some (map Some [monitor_line ''a@h'' ''2147483648'',
      monitor_line ''b@h'' ''2147483648'', monitor_line ''c@h'' ''1''])) (\<lambda>fn. None) lone_monitor = Inr (Ready m')) \<and>
    snd (recalc strong_pair)"
proof -
  have k: "map (critical strong_pair) (mn_ups strong_pair) = [False, False, True]" by code_simp
  have pv: "map m_pv (mn_ups strong_pair) = [2147483648, 2147483648, 1]" by code_simp
  have lone: "mn_ups lone_monitor = []" "mn_totalpv lone_monitor = 0" "mn_reload_flag lone_monitor = 0"
    "g_minsupplies (mn_conf lone_monitor) = 1" "g_powerdownflag (mn_conf lone_monitor) = None"
    by (simp_all add: lone_monitor_def default_settings_def) (simp add: demo_mon_def)
  have names: "distinct [''a@h'', ''b@h'', ''c@h'']" by simp
  have low: "g_minsupplies (mn_conf strong_pair) = 1" by (simp add: strong_pair_def default_settings_def)
  from large_power_values_cancel [OF lone names refl, of "canned []" "\<lambda>fn. None"] show ?thesis
  proof (elim exE conjE, intro conjI exI)
    fix m' assume m': "map m_pv (mn_ups m') = [2147483648, 2147483648, 1]" "g_minsupplies (mn_conf m') = 1"
      "\<forall>k :: cstr mon. map m_pv (mn_ups k) = map m_pv (mn_ups m') \<longrightarrow>
         g_minsupplies (mn_conf k) = g_minsupplies (mn_conf m') \<longrightarrow>
         map (critical k) (mn_ups k) = [False, False, True] \<longrightarrow> snd (recalc k)"
    show "snd (recalc strong_pair)"
      by (rule m'(3) [rule_format]) (simp_all only: m'(1,2) k pv low)
  qed
qed

text \<open>C40. A reload counts the power value of a UPS once for every MONITOR line that names it, while
  the UPS is polled and counted once: a configuration that can never feed MINSUPPLIES passes the
  check of reload_conf().\<close>

theorem reload_counts_duplicate_twice:
  assumes "mn_ups m = [u]" "m_sys u = sys" "m_un u = Some un" "m_pw u = Some pw" "\<not> has_st ST_PRIMARY u"
    and "mn_reload_flag m = 1" "g_minsupplies (mn_conf m) = 2"
    and "line = [''MONITOR'', sys, ''1'', un, pw, ''secondary'']"
  shows "\<exists>m'. reload_conf N True (Some [Some line, Some line]) m = Inr m' \<and> mn_totalpv m' = 2 \<and> good_power m' \<le> 1"
proof -
  have pv: "fst (strtol ''1'' 10) = 1"
    by (simp add: number_simps)
  have role: "wants_secondary ''secondary''" "\<not> wants_primary ''secondary''" by code_simp+
  have word: "conf_setting ''MONITOR'' v c = None" for v c
    by (simp add: conf_setting_def Let_def c_tolower_def strcasecmp_eq_0)
  have redefine: "redefine_ups N 1 un pw ''secondary'' (w, k) =
      (w\<lparr>m_retain := True, m_pv := 1\<rparr>, k\<lparr>mn_totalpv := mn_totalpv k + 1\<rparr>)"
    if "m_un w = Some un" "m_pw w = Some pw" "\<not> has_st ST_PRIMARY w" for w and k :: "'a mon"
    using that by (simp add: redefine_ups_def role has_st_def Let_def)
  have add: "addups N 1 sys ''1'' un pw ''secondary'' k =
      k\<lparr>mn_totalpv := mn_totalpv k + 1, mn_ups := [w\<lparr>m_retain := True, m_pv := 1\<rparr>]\<rparr>"
    if "mn_ups k = [w]" "m_sys w = sys" "m_un w = Some un" "m_pw w = Some pw" "\<not> has_st ST_PRIMARY w" for w and k :: "'a mon"
    using that by (simp add: addups_def pv UINT_MAX_def at_ups_def redefine)
  have one_line: "parse_conf_arg N line k = Inr (addups N (mn_reload_flag k) sys ''1'' un pw ''secondary'' k, True)" for k
    by (simp add: assms(8) parse_conf_arg_def word Let_def numeral_eq_Suc)
  have len: "length line = 6" by (simp add: assms(8))
  have lines: "conf_lines N [Some line, Some line] k =
      Inr (k\<lparr>mn_totalpv := mn_totalpv k + 2, mn_ups := [w\<lparr>m_retain := True, m_pv := 1\<rparr>]\<rparr>)"
    if "mn_ups k = [w]" "m_sys w = sys" "m_un w = Some un" "m_pw w = Some pw" "\<not> has_st ST_PRIMARY w"
      "mn_reload_flag k = 1" for w and k :: "'a mon"
    using that by (simp add: one_line len add has_st_def)
  let ?u = "if 0 \<le> g_pollfail_log_throttle_max (mn_conf m) then reset_throttle (u\<lparr>m_retain := False\<rparr>) else u\<lparr>m_retain := False\<rparr>"
  have u: "m_sys ?u = sys" "m_un ?u = Some un" "m_pw ?u = Some pw" "\<not> has_st ST_PRIMARY ?u"
    using assms(2-5) by (simp_all add: reset_throttle_def has_st_def)
  obtain m1 where load: "loadconfig N (Some [Some line, Some line])
      (m\<lparr>mn_ups := map (\<lambda>u. u\<lparr>m_retain := False\<rparr>) (mn_ups m), mn_totalpv := 0\<rparr>) = Inr m1"
    "mn_totalpv m1 = 2" "mn_ups m1 = [?u\<lparr>m_retain := True, m_pv := 1\<rparr>]" "g_minsupplies (mn_conf m1) = 2"
  proof (cases "0 \<le> g_pollfail_log_throttle_max (mn_conf m)")
    case True
    then show ?thesis
      using that assms(1,6,7) u by (simp add: loadconfig_def lines [of _ "reset_throttle (u\<lparr>m_retain := False\<rparr>)"] Let_def
          del: conf_lines.simps)
  next
    case False
    then show ?thesis
      using that assms(1,6,7) u by (simp add: loadconfig_def lines [of _ "u\<lparr>m_retain := False\<rparr>"] Let_def del: conf_lines.simps)
  qed
  then show ?thesis
    using assms(6) by (simp add: reload_conf_def good_power_def)
qed

lemma reload_counts_duplicate_twice_witness:
  "\<exists>m'. reload_conf (canned []) True (Some [Some [''MONITOR'', ''rack@localhost'', ''1'', ''adm'', ''pw'', ''secondary''],
      Some [''MONITOR'', ''rack@localhost'', ''1'', ''adm'', ''pw'', ''secondary'']])
    ((demo_mon [demo_utype 0] [])\<lparr>mn_reload_flag := 1, mn_conf := default_settings\<lparr>g_minsupplies := 2\<rparr>\<rparr>) = Inr m' \<and>
    mn_totalpv m' = 2 \<and> good_power m' \<le> 1"
  by (rule reload_counts_duplicate_twice [OF _ _ _ _ _ _ _ refl, where u = "demo_utype 0"])
    (simp_all add: demo_utype_def new_utype_def split_beta has_st_def wants_primary_def)

text \<open>When upsd answers a GET with one of its errors, upscli_get() fails with the number of
  that error, and the connection is as usable as before.\<close>

theorem client_gets_the_error:
  assumes "conn_ready u" "listening c S" "all_written E" "request_ok q" "q \<noteq> []"
    and "\<And>T. same_ups S T \<Longrightarrow> net_get E c q T = send_err E c e T" "(num, e) \<in> set upsd_errlist"
  shows "\<exists>u' S'. upscli_get (upsd_net E c) u (S, []) q = (u', (S', []), CliErr) \<and>
    uc_upserror u' = num \<and> conn_ready u' \<and> listening c S' \<and> sd_firstups S' = sd_firstups S"
proof -
  have "list_all (\<lambda>(num, e). err_lookup e = num \<and> NL \<notin> set e \<and> CHR 0x00 \<notin> set e \<and> length e < 500) upsd_errlist"
    by code_simp
  then have e: "err_lookup e = num" "NL \<notin> set e" "CHR 0x00 \<notin> set e" "length e < 500"
    using assms(7) by (auto simp: list_all_iff)
  show ?thesis
    using get_error_arrives [OF assms(1-6) e(2-4)] assms(1) e(1) by (auto simp: cli_fail_def conn_ready_def)
qed

lemma client_gets_the_error_witness:
  "\<exists>u' S'. upscli_get (upsd_net demo_os 0) demo_conn (watched ''OL'', []) [''VAR'', ''tower'', ''ups.status''] =
    (u', (S', []), CliErr) \<and> uc_upserror u' = UPSCLI_ERR_UNKNOWNUPS"
proof -
  have tower: "plain_name ''tower''" by (simp add: plain_name_def bare_char_def word_char_def isspace_def pconf_escape_def)
  have "net_get demo_os 0 [''VAR'', ''tower'', ''ups.status''] T = send_err demo_os 0 ''UNKNOWN-UPS'' T"
    if "same_ups (watched ''OL'') T" for T
  proof -
    have "strcasecmp ''rack'' ''tower'' \<noteq> 0" "strncasecmp ''ups.status'' ''server.'' 7 \<noteq> 0" by code_simp+
    moreover have "net_get demo_os 0 [''VAR'', ''tower'', ''ups.status''] T = get_var demo_os 0 ''tower'' ''ups.status'' T"
      by (simp add: net_get_def Let_def ci_simps c_tolower_def)
    moreover have "get_ups_ptr T ''tower'' = None"
      using that calculation(1) by (simp add: same_ups_def watched_def get_ups_ptr_def)
    ultimately show ?thesis by (simp add: get_var_def)
  qed
  then show ?thesis
    using client_gets_the_error [OF demo_conn_ready watched_listening demo_os_written var_request_ok [OF tower status_names(1)],
        of "''OL''" "''UNKNOWN-UPS''" UPSCLI_ERR_UNKNOWNUPS]
    by (auto simp: upsd_errlist_def UPSCLI_ERR_UNKNOWNUPS_def)
qed

end
