(* ===== verification/UpsSched.thy ===== *)
theory UpsSched
  imports DriverState ConfFile
begin

text \<open>
  clients/upssched.c: the timers of upsmon's events.  upsmon starts the program for every
  event; it looks the event up in upssched.conf and sends START or CANCEL to a daemon,
  which it forks when none listens.  The daemon keeps a list of timers and runs CMDSCRIPT
  with the name of every timer whose time has come; without timers it ends.

  Timers and connections are malloc()ed and are reached by their address, so that going
  through the pointer to a freed one is the fault Freed_access.  What system calls answer
  is given by the records senv (the daemon) and cenv (the program upsmon starts), by the
  number of the call; q_ran and Ran are the commands given to system().
\<close>

section \<open>The daemon\<close>

definition US_EMPTY_WAIT :: int where "US_EMPTY_WAIT = 15"
definition US_MAX_TRIES :: nat where "US_MAX_TRIES = 30"
definition US_SOCK_BUF_LEN :: nat where "US_SOCK_BUF_LEN = 256"
definition US_MAX_READ :: nat where "US_MAX_READ = 128"
definition US_LARGEBUF :: nat where "US_LARGEBUF = 1024"

record ttype =
  t_addr :: nat
  t_name :: cstr
  t_etime :: int

record sconn =
  sc_addr :: nat
  sc_fd :: int
  sc_ctx :: pconf_ctx

record sched =
  q_thead :: "ttype list"
  q_connhead :: "sconn list"
  q_emptyctr :: int
  q_cmdscript :: cstr
  q_fresh :: nat
  q_tick :: nat
  q_ran :: "cstr list"
  q_wire :: "(int \<times> cstr) list"

text \<open>A read() of one byte; GotNothing is a return of 0, with whether the probes say that
  the descriptor is dead.\<close>

datatype byte_read = GotByte char | GotNothing bool | GotAgain | GotError

record senv =
  se_listen :: int
  se_time :: "nat \<Rightarrow> int"
  se_read :: "nat \<Rightarrow> int \<Rightarrow> byte_read"
  se_write :: "nat \<Rightarrow> int \<Rightarrow> cstr \<Rightarrow> int"
  se_accept :: "nat \<Rightarrow> int"
  se_nonblock :: "nat \<Rightarrow> int \<Rightarrow> bool"
  se_select :: "nat \<Rightarrow> int list \<Rightarrow> int \<times> int list"
  se_memory :: "nat \<Rightarrow> pconf_ctx"

text \<open>time_t is a long; the overflow of a sum, which the standard leaves open, wraps.\<close>

definition c_time :: "int \<Rightarrow> int" where
  "c_time x = sint (word_of_int x :: 64 word)"

definition script_line :: "cstr \<Rightarrow> cstr \<Rightarrow> cstr" where
  "script_line script cmd = snprintf US_LARGEBUF (script @ '' '' @ cmd)"

definition exec_cmd :: "cstr \<Rightarrow> sched \<Rightarrow> sched" where
  "exec_cmd cmd q = q\<lparr>q_ran := q_ran q @ [script_line (q_cmdscript q) cmd]\<rparr>"

subsection \<open>Timers\<close>

text \<open>Lists of objects with an address: the object behind a pointer, the pointers to the first
  one and to the next one, and taking one out.\<close>

fun object_at :: "('a \<Rightarrow> nat) \<Rightarrow> nat \<Rightarrow> 'a list \<Rightarrow> fault + 'a" where
  "object_at ad a [] = Inl Freed_access"
| "object_at ad a (x # xs) = (if ad x = a then Inr x else object_at ad a xs)"

definition head_ptr :: "('a \<Rightarrow> nat) \<Rightarrow> 'a list \<Rightarrow> nat option" where
  "head_ptr ad xs = (case xs of [] \<Rightarrow> None | x # _ \<Rightarrow> Some (ad x))"

fun next_ptr :: "('a \<Rightarrow> nat) \<Rightarrow> nat \<Rightarrow> 'a list \<Rightarrow> nat option" where
  "next_ptr ad a [] = None"
| "next_ptr ad a (x # xs) = (if ad x = a then head_ptr ad xs else next_ptr ad a xs)"

fun unlink_at :: "('a \<Rightarrow> nat) \<Rightarrow> nat \<Rightarrow> 'a list \<Rightarrow> 'a list" where
  "unlink_at ad a [] = []"
| "unlink_at ad a (x # xs) = (if ad x = a then xs else x # unlink_at ad a xs)"

definition removetimer :: "nat \<Rightarrow> sched \<Rightarrow> sched" where
  "removetimer a q = q\<lparr>q_thead := unlink_at t_addr a (q_thead q)\<rparr>"

text \<open>The walk of checktimers() from the pointer tmp; n bounds its steps.\<close>

fun timer_loop :: "int \<Rightarrow> nat \<Rightarrow> nat option \<Rightarrow> sched \<Rightarrow> fault + sched" where
  "timer_loop now n None q = Inr q"
| "timer_loop now 0 (Some a) q = Inl Endless"
| "timer_loop now (Suc n) (Some a) q =
     and_then (object_at t_addr a (q_thead q)) (\<lambda>tmp.
       let tmpnext = next_ptr t_addr a (q_thead q);
           q = (if t_etime tmp \<le> now then removetimer a (exec_cmd (t_name tmp) q) else q)
       in timer_loop now n tmpnext q)"

text \<open>checktimers(); the flag is set when the daemon exits.\<close>

definition checktimers :: "senv \<Rightarrow> sched \<Rightarrow> fault + (sched \<times> bool)" where
  "checktimers E q =
     (if q_thead q = [] then
        (let q = q\<lparr>q_emptyctr := q_emptyctr q + 1\<rparr> in Inr (q, \<not> q_emptyctr q < US_EMPTY_WAIT))
      else
        (let q = q\<lparr>q_emptyctr := 0\<rparr>;
             now = se_time E (q_tick q);
             q = q\<lparr>q_tick := Suc (q_tick q)\<rparr>
         in and_then (timer_loop now (length (q_thead q)) (head_ptr t_addr (q_thead q)) q)
              (\<lambda>q. Inr (q, False))))"

definition start_timer :: "senv \<Rightarrow> cstr \<Rightarrow> cstr \<Rightarrow> sched \<Rightarrow> sched" where
  "start_timer E name ofsstr q =
     (let now = se_time E (q_tick q);
          q = q\<lparr>q_tick := Suc (q_tick q)\<rparr>;
          ofs = fst (strtol ofsstr 10)
      in if ofs < 0 then q
         else q\<lparr>q_thead := q_thead q @ [\<lparr>t_addr = q_fresh q, t_name = name, t_etime = c_time (now + ofs)\<rparr>],
                q_fresh := Suc (q_fresh q)\<rparr>)"

definition cancel_timer :: "cstr \<Rightarrow> cstr option \<Rightarrow> sched \<Rightarrow> sched" where
  "cancel_timer name cname q =
     (case find (\<lambda>t. t_name t = name) (q_thead q) of
        Some t \<Rightarrow> removetimer (t_addr t) q
      | None \<Rightarrow>
          (case cname of None \<Rightarrow> q | Some cmd \<Rightarrow> (if cmd \<noteq> [] then exec_cmd cmd q else q)))"

subsection \<open>Connections\<close>

definition deref_conn :: "nat \<Rightarrow> sched \<Rightarrow> fault + sconn" where
  "deref_conn a q = object_at sc_addr a (q_connhead q)"

definition conn_del :: "nat \<Rightarrow> sched \<Rightarrow> sched" where
  "conn_del a q = q\<lparr>q_connhead := unlink_at sc_addr a (q_connhead q)\<rparr>"

definition put_sctx :: "nat \<Rightarrow> pconf_ctx \<Rightarrow> sched \<Rightarrow> sched" where
  "put_sctx a ctx q =
     q\<lparr>q_connhead := map (\<lambda>k. if sc_addr k = a then k\<lparr>sc_ctx := ctx\<rparr> else k) (q_connhead q)\<rparr>"

definition sched_send_to_one :: "senv \<Rightarrow> nat \<Rightarrow> cstr \<Rightarrow> sched \<Rightarrow> fault + (sched \<times> bool)" where
  "sched_send_to_one E a msg q =
     and_then (deref_conn a q) (\<lambda>conn.
       let buf = snprintf US_SOCK_BUF_LEN msg;
           ret = se_write E (q_tick q) (sc_fd conn) buf;
           q = q\<lparr>q_tick := Suc (q_tick q), q_wire := q_wire q @ [(sc_fd conn, buf)]\<rparr>
       in if ret < 1 \<or> ret \<noteq> int (length buf) then Inr (conn_del a q, False) else Inr (q, True))"

text \<open>A new connection; pconf_init() works on the memory that malloc() returned.\<close>

definition conn_add :: "senv \<Rightarrow> sched \<Rightarrow> sched" where
  "conn_add E q =
     (let tick = q_tick q; q = q\<lparr>q_tick := Suc tick\<rparr>; acc = se_accept E tick in
      if \<not> valid_fd acc then q
      else if \<not> se_nonblock E tick acc then q
      else q\<lparr>q_connhead := q_connhead q @
               [\<lparr>sc_addr = q_fresh q, sc_fd = acc, sc_ctx = pconf_init (se_memory E tick)\<rparr>],
             q_fresh := Suc (q_fresh q)\<rparr>)"

subsection \<open>Commands\<close>

text \<open>arglist[i]: behind the end of the array there is nothing that was ever written.\<close>

definition ctx_word :: "pconf_ctx \<Rightarrow> nat \<Rightarrow> fault + cstr" where
  "ctx_word ctx i = (if i < pc_maxargs ctx then Inr (pc_arglist ctx ! i) else Inl Stray_read)"

definition sched_sock_arg :: "senv \<Rightarrow> nat \<Rightarrow> sched \<Rightarrow> fault + (sched \<times> int)" where
  "sched_sock_arg E a q =
     and_then (deref_conn a q) (\<lambda>conn.
       let ctx = sc_ctx conn; numargs = pc_numargs ctx; arg = pc_arglist ctx in
       if numargs < 1 then Inr (q, 0)
       else if arg ! 0 = ''CANCEL'' then
         and_then (ctx_word ctx 1) (\<lambda>name.
           let q = cancel_timer name (if numargs < 3 then None else Some (arg ! 2)) q in
           and_then (sched_send_to_one E a (''OK'' @ [NL]) q) (\<lambda>(q, sent). Inr (q, 1)))
       else if numargs < 3 then Inr (q, 0)
       else if arg ! 0 = ''START'' then
         (let q = start_timer E (arg ! 1) (arg ! 2) q in
          and_then (sched_send_to_one E a (''OK'' @ [NL]) q) (\<lambda>(q, sent). Inr (q, 1)))
       else Inr (q, 0))"

text \<open>A complete line: the handler, or the answer to an unknown command.\<close>

definition sock_command :: "senv \<Rightarrow> nat \<Rightarrow> sched \<Rightarrow> fault + (sched \<times> int)" where
  "sock_command E a q =
     and_then (sched_sock_arg E a q) (\<lambda>(q, known).
       if known = 0 then
         and_then (sched_send_to_one E a (''ERR UNKNOWN'' @ [NL]) q) (\<lambda>(q, sent). Inr (q, 1))
       else Inr (q, 1))"

text \<open>The loop of sock_read() with n reads left: 1 after a command, 0 when there is nothing
  to do yet, -1 when the connection has to be closed.\<close>

fun read_bytes :: "senv \<Rightarrow> nat \<Rightarrow> nat \<Rightarrow> sched \<Rightarrow> fault + (sched \<times> int)" where
  "read_bytes E a 0 q = Inr (q, 0)"
| "read_bytes E a (Suc n) q =
     and_then (deref_conn a q) (\<lambda>conn.
       let tick = q_tick q; q = q\<lparr>q_tick := Suc tick\<rparr> in
       case se_read E tick (sc_fd conn) of
         GotAgain \<Rightarrow> Inr (q, 0)
       | GotError \<Rightarrow> Inr (q, -1)
       | GotNothing dead \<Rightarrow> (if dead \<or> n = 0 then Inr (q, -1) else read_bytes E a n q)
       | GotByte c \<Rightarrow>
           (case pconf_char (sc_ctx conn) c of (ctx, ret) \<Rightarrow>
              let q = put_sctx a ctx q in
              if ret = 0 then read_bytes E a n q
              else if ret = -1 then Inr (q, 0)
              else sock_command E a q))"

definition sched_sock_read :: "senv \<Rightarrow> nat \<Rightarrow> sched \<Rightarrow> fault + (sched \<times> int)" where
  "sched_sock_read E a q = read_bytes E a US_MAX_READ q"

subsection \<open>The loop of the daemon\<close>

text \<open>The loop over the connections from the pointer tmp; n bounds its steps.\<close>

fun conn_loop :: "senv \<Rightarrow> int list \<Rightarrow> nat \<Rightarrow> nat option \<Rightarrow> sched \<Rightarrow> fault + sched" where
  "conn_loop E ready n None q = Inr q"
| "conn_loop E ready 0 (Some a) q = Inl Endless"
| "conn_loop E ready (Suc n) (Some a) q =
     and_then (deref_conn a q) (\<lambda>tmp.
       let tmpnext = next_ptr sc_addr a (q_connhead q) in
       and_then
         (if sc_fd tmp \<in> set ready then
            and_then (sched_sock_read E a q) (\<lambda>(q, ret). Inr (if ret < 0 then conn_del a q else q))
          else Inr q)
         (\<lambda>q. conn_loop E ready n tmpnext q))"

text \<open>One turn of the loop of start_daemon(), without the sleep that throttles it; the flag is
  set when the daemon exits.\<close>

definition daemon_turn :: "senv \<Rightarrow> sched \<Rightarrow> fault + (sched \<times> bool)" where
  "daemon_turn E q =
     (let (ret, ready) = se_select E (q_tick q) (se_listen E # map sc_fd (q_connhead q));
          q = q\<lparr>q_tick := Suc (q_tick q)\<rparr>
      in and_then
           (if 0 < ret then
              (let q = (if se_listen E \<in> set ready then conn_add E q else q) in
               conn_loop E ready (length (q_connhead q)) (head_ptr sc_addr (q_connhead q)) q)
            else Inr q)
           (\<lambda>q. checktimers E q))"

text \<open>At most n turns; the flag tells whether the daemon has ended.\<close>

fun daemon_turns :: "nat \<Rightarrow> senv \<Rightarrow> sched \<Rightarrow> fault + (sched \<times> bool)" where
  "daemon_turns 0 E q = Inr (q, False)"
| "daemon_turns (Suc n) E q =
     and_then (daemon_turn E q) (\<lambda>(q, ended). if ended then Inr (q, True) else daemon_turns n E q)"

text \<open>The daemon right after the fork: connhead, thead and emptyctr as they start out.\<close>

definition new_daemon :: "cstr \<Rightarrow> sched" where
  "new_daemon script = \<lparr>q_thead = [], q_connhead = [], q_emptyctr = 0, q_cmdscript = script,
     q_fresh = 0, q_tick = 0, q_ran = [], q_wire = []\<rparr>"

end
