(* ===== verification/UpsSchedCmd.thy ===== *)
theory UpsSchedCmd
  imports UpsSched
begin

text \<open>
  clients/upssched.c, the program that upsmon starts for an event: upssched.conf, and the
  request to the timer daemon with its repetitions.
\<close>

section \<open>The process\<close>

datatype sched_act = Sent cstr | Ran cstr | Daemon_started

record cenv =
  ce_connect :: "nat \<Rightarrow> int"
  ce_lock :: "nat \<Rightarrow> int"
  ce_write :: "nat \<Rightarrow> cstr \<Rightarrow> int"
  ce_reply :: "nat \<Rightarrow> (int \<times> cstr) option"

record schedcmd =
  sx_cmdscript :: "cstr option"
  sx_pipefn :: "cstr option"
  sx_lockfn :: "cstr option"
  sx_upsname :: cstr
  sx_notify_type :: cstr
  sx_tick :: nat
  sx_acts :: "sched_act list"

definition did :: "sched_act \<Rightarrow> schedcmd \<Rightarrow> schedcmd" where
  "did a c = c\<lparr>sx_acts := sx_acts c @ [a]\<rparr>"

definition next_call :: "schedcmd \<Rightarrow> schedcmd" where
  "next_call c = c\<lparr>sx_tick := Suc (sx_tick c)\<rparr>"

section \<open>Sending a command\<close>

datatype parent = Connected int | Parent_started | Parent_unnecessary

text \<open>The tries of check_parent() that are left; in the parent process start_daemon() only
  waits for the child.\<close>

fun check_parent :: "cenv \<Rightarrow> cstr \<Rightarrow> cstr option \<Rightarrow> nat \<Rightarrow> schedcmd \<Rightarrow> fault + (schedcmd \<times> parent)" where
  "check_parent E cmd arg2 0 c = Inl Fatal_exit"
| "check_parent E cmd arg2 (Suc n) c =
     (let pipefd = ce_connect E (sx_tick c); c = next_call c in
      if valid_fd pipefd then Inr (c, Connected pipefd)
      else if cmd = ''CANCEL'' \<and> arg2 = None then Inr (c, Parent_unnecessary)
      else
        (let lockfd = ce_lock E (sx_tick c); c = next_call c in
         if valid_fd lockfd then Inr (did Daemon_started c, Parent_started)
         else check_parent E cmd arg2 n c))"

text \<open>The request, built in buf of SMALLBUF bytes from words encoded in enc.\<close>

definition request_text :: "cstr \<Rightarrow> cstr \<Rightarrow> cstr option \<Rightarrow> cstr" where
  "request_text cmd arg1 arg2 =
     (let enc = (\<lambda>w. pconf_encode w (SMALLBUF + 8));
          buf = snprintf SMALLBUF (cmd @ '' '' @ [QUOTE] @ enc arg1 @ [QUOTE]);
          buf = (case arg2 of None \<Rightarrow> buf
                 | Some w \<Rightarrow> snprintfcat buf SMALLBUF ('' '' @ [QUOTE] @ enc w @ [QUOTE]))
      in snprintf (SMALLBUF + 8) (buf @ [NL]))"

text \<open>
  The tries of sendcmd() that are left.  The answer is what select() and read() end with;
  None stands for an answer that never comes, which the inner loop waits for forever.
\<close>

fun send_tries :: "cenv \<Rightarrow> cstr \<Rightarrow> cstr option \<Rightarrow> cstr \<Rightarrow> nat \<Rightarrow> schedcmd \<Rightarrow> fault + schedcmd" where
  "send_tries E cmd arg2 enc 0 c = Inl Fatal_exit"
| "send_tries E cmd arg2 enc (Suc n) c =
     and_then (check_parent E cmd arg2 US_MAX_TRIES c) (\<lambda>(c, parent).
       case parent of
         Parent_started \<Rightarrow> send_tries E cmd arg2 enc n c
       | Parent_unnecessary \<Rightarrow> Inr c
       | Connected pipefd \<Rightarrow>
           (let ret = ce_write E (sx_tick c) enc; c = did (Sent enc) (next_call c) in
            if ret < 1 \<or> ret \<noteq> int (length enc) then send_tries E cmd arg2 enc n c
            else
              (case ce_reply E (sx_tick c) of
                 None \<Rightarrow> Inl Endless
               | Some (ret, buf) \<Rightarrow>
                   (let c = next_call c in
                    if ret < 2 then send_tries E cmd arg2 enc n c
                    else if take 2 buf = ''OK'' then Inr c
                    else send_tries E cmd arg2 enc n c))))"

definition sendcmd :: "cenv \<Rightarrow> cstr \<Rightarrow> cstr option \<Rightarrow> cstr option \<Rightarrow> schedcmd \<Rightarrow> fault + schedcmd" where
  "sendcmd E cmd arg1 arg2 c =
     (case arg1 of None \<Rightarrow> Inr c
      | Some w \<Rightarrow> send_tries E cmd arg2 (request_text cmd w arg2) US_MAX_TRIES c)"

section \<open>upssched.conf\<close>

definition parse_at :: "cenv \<Rightarrow> cstr \<Rightarrow> cstr \<Rightarrow> cstr \<Rightarrow> cstr \<Rightarrow> cstr option \<Rightarrow> schedcmd \<Rightarrow> fault + schedcmd" where
  "parse_at E ntype un cmd ca1 ca2 c =
     (case sx_cmdscript c of
        None \<Rightarrow> Inl Fatal_exit
      | Some script \<Rightarrow>
          (if sx_pipefn c = None then Inl Fatal_exit
           else if sx_lockfn c = None then Inl Fatal_exit
           else if sx_upsname c \<noteq> un \<and> un \<noteq> ''*'' then Inr c
           else if strcasecmp (sx_notify_type c) ntype \<noteq> 0 then Inr c
           else if cmd = ''START-TIMER'' then sendcmd E ''START'' (Some ca1) ca2 c
           else if cmd = ''CANCEL-TIMER'' then sendcmd E ''CANCEL'' (Some ca1) ca2 c
           else if cmd = ''EXECUTE'' then
             (if ca1 = [] then Inr c else Inr (did (Ran (script_line script ca1)) c))
           else Inr c))"

definition sched_conf_arg :: "cenv \<Rightarrow> cstr list \<Rightarrow> schedcmd \<Rightarrow> fault + (schedcmd \<times> int)" where
  "sched_conf_arg E arg c =
     (let numargs = length arg in
      if numargs < 2 then Inr (c, 0)
      else if arg ! 0 = ''CMDSCRIPT'' then Inr (c\<lparr>sx_cmdscript := Some (arg ! 1)\<rparr>, 1)
      else if arg ! 0 = ''PIPEFN'' then Inr (c\<lparr>sx_pipefn := Some (arg ! 1)\<rparr>, 1)
      else if arg ! 0 = ''LOCKFN'' then Inr (c\<lparr>sx_lockfn := Some (arg ! 1)\<rparr>, 1)
      else if numargs < 5 then Inr (c, 0)
      else if arg ! 0 = ''AT'' then
        and_then (parse_at E (arg ! 1) (arg ! 2) (arg ! 3) (arg ! 4)
                    (if 5 < numargs then Some (arg ! 5) else None) c)
          (\<lambda>c. Inr (c, 1))
      else Inr (c, 0))"

text \<open>A line of the file, or a parse error; what is wrong with it is only logged.\<close>

definition sched_conf_line :: "cenv \<Rightarrow> cstr list option \<Rightarrow> fault + schedcmd \<Rightarrow> fault + schedcmd" where
  "sched_conf_line E line m =
     and_then m (\<lambda>c.
       case line of
         None \<Rightarrow> Inr c
       | Some arg \<Rightarrow>
           (if length arg < 1 then Inr c
            else and_then (sched_conf_arg E arg c) (\<lambda>(c, known). Inr c)))"

definition checkconf :: "cenv \<Rightarrow> pconf_ctx \<Rightarrow> cstr + cstr \<Rightarrow> schedcmd \<Rightarrow> fault + schedcmd" where
  "checkconf E ctx0 opened c =
     (case pconf_file_begin (pconf_init ctx0) ''upssched.conf'' opened of
        (ctx, False) \<Rightarrow> Inl Fatal_exit
      | (ctx, True) \<Rightarrow> snd (pconf_file_iter (sched_conf_line E) ctx (Inr c)))"

end
