(* ===== verification/SchedFacts.thy ===== *)
theory SchedFacts
  imports UpsSchedCmd LineSpec
begin

text \<open>
  The timer daemon: lists reached through addresses, the invariant sched_ok, and what one
  turn of the loop does.
\<close>

section \<open>Lists with addresses\<close>

definition addresses_ok :: "('a \<Rightarrow> nat) \<Rightarrow> nat \<Rightarrow> 'a list \<Rightarrow> bool" where
  "addresses_ok ad fresh xs \<longleftrightarrow> distinct (map ad xs) \<and> (\<forall>x\<in>set xs. ad x < fresh)"

lemma addresses_ok_simps [simp]:
  "addresses_ok ad fresh []"
  "addresses_ok ad fresh (x # xs) \<longleftrightarrow> ad x < fresh \<and> ad x \<notin> ad ` set xs \<and> addresses_ok ad fresh xs"
  "addresses_ok ad fresh (xs @ ys) \<longleftrightarrow>
     addresses_ok ad fresh xs \<and> addresses_ok ad fresh ys \<and> ad ` set xs \<inter> ad ` set ys = {}"
  by (auto simp: addresses_ok_def)

lemma addresses_ok_later: "addresses_ok ad fresh xs \<Longrightarrow> fresh \<le> fresh' \<Longrightarrow> addresses_ok ad fresh' xs"
  by (auto simp: addresses_ok_def)

lemma addresses_ok_fresh: "addresses_ok ad fresh xs \<Longrightarrow> fresh \<notin> ad ` set xs"
  by (auto simp: addresses_ok_def)

lemma head_ptr_simps [simp]: "head_ptr ad [] = None" "head_ptr ad (x # xs) = Some (ad x)"
  by (simp_all add: head_ptr_def)

text \<open>An element of a list whose addresses differ is found at its own place.\<close>

lemma object_at_mid [simp]: "ad x \<notin> ad ` set pre \<Longrightarrow> object_at ad (ad x) (pre @ x # xs) = Inr x"
  by (induction pre) auto

lemma next_ptr_mid [simp]: "ad x \<notin> ad ` set pre \<Longrightarrow> next_ptr ad (ad x) (pre @ x # xs) = head_ptr ad xs"
  by (induction pre) auto

lemma unlink_at_mid [simp]: "ad x \<notin> ad ` set pre \<Longrightarrow> unlink_at ad (ad x) (pre @ x # xs) = pre @ xs"
  by (induction pre) auto

lemma unlink_at_none: "a \<notin> ad ` set xs \<Longrightarrow> unlink_at ad a xs = xs"
  by (induction xs) auto

lemma object_at_Inr:
  "object_at ad a xs = Inr x \<Longrightarrow> \<exists>pre post. xs = pre @ x # post \<and> ad x = a \<and> a \<notin> ad ` set pre"
proof (induction xs)
  case (Cons y xs)
  show ?case
  proof (cases "ad y = a")
    case True
    then show ?thesis using Cons.prems by (intro exI [of _ "[]"] exI [of _ xs]) auto
  next
    case False
    then obtain pre post where "xs = pre @ x # post" "ad x = a" "a \<notin> ad ` set pre"
      using Cons by auto
    then show ?thesis using False by (intro exI [of _ "y # pre"] exI [of _ post]) auto
  qed
qed simp

section \<open>Timers that are due\<close>

definition due :: "int \<Rightarrow> ttype \<Rightarrow> bool" where
  "due now t \<longleftrightarrow> t_etime t \<le> now"

text \<open>The state when the due ones of the timers ts, which follow pre, have run.\<close>

definition after_due :: "int \<Rightarrow> ttype list \<Rightarrow> ttype list \<Rightarrow> sched \<Rightarrow> sched" where
  "after_due now pre ts q = q\<lparr>q_thead := pre @ filter (\<lambda>t. \<not> due now t) ts,
     q_ran := q_ran q @ map (\<lambda>t. script_line (q_cmdscript q) (t_name t)) (filter (due now) ts)\<rparr>"

lemma timer_loop_runs:
  assumes "q_thead q = pre @ ts" "addresses_ok t_addr fresh (pre @ ts)" "length ts \<le> n"
  shows "timer_loop now n (head_ptr t_addr ts) q = Inr (after_due now pre ts q)"
  using assms
proof (induction ts arbitrary: n pre q)
  case Nil
  then show ?case by (simp add: after_due_def)
next
  case (Cons t ts)
  obtain m where n: "n = Suc m" "length ts \<le> m" using Cons.prems(3) by (cases n) auto
  have t: "t_addr t \<notin> t_addr ` set pre" using Cons.prems(2) by auto
  show ?case
  proof (cases "due now t")
    case True
    then have run: "timer_loop now n (head_ptr t_addr (t # ts)) q =
        timer_loop now m (head_ptr t_addr ts) (removetimer (t_addr t) (exec_cmd (t_name t) q))"
      using n(1) t Cons.prems(1) by (simp add: due_def Let_def)
    show ?thesis
      unfolding run using Cons.IH [of "removetimer (t_addr t) (exec_cmd (t_name t) q)" pre m] Cons.prems t n(2) True
      by (simp add: removetimer_def exec_cmd_def after_due_def)
  next
    case False
    then have skip: "timer_loop now n (head_ptr t_addr (t # ts)) q = timer_loop now m (head_ptr t_addr ts) q"
      using n(1) t Cons.prems(1) by (simp add: due_def Let_def)
    show ?thesis
      unfolding skip using Cons.IH [of q "pre @ [t]" m] Cons.prems n(2) False by (simp add: after_due_def)
  qed
qed

section \<open>The invariant\<close>

definition sched_ok :: "sched \<Rightarrow> bool" where
  "sched_ok q \<longleftrightarrow> addresses_ok t_addr (q_fresh q) (q_thead q) \<and> addresses_ok sc_addr (q_fresh q) (q_connhead q) \<and>
     (\<forall>k\<in>set (q_connhead q). pconf_wf (sc_ctx k))"

lemma new_daemon_ok: "sched_ok (new_daemon script)"
  by (simp add: sched_ok_def new_daemon_def)

lemma addresses_ok_filter: "addresses_ok ad fresh xs \<Longrightarrow> addresses_ok ad fresh (filter p xs)"
  by (auto simp: addresses_ok_def distinct_map_filter)

lemma checktimers_runs:
  assumes "sched_ok q" "q_thead q \<noteq> []"
  shows "checktimers E q = Inr (after_due (se_time E (q_tick q)) [] (q_thead q)
    (q\<lparr>q_emptyctr := 0, q_tick := Suc (q_tick q)\<rparr>), False)"
  using assms timer_loop_runs [of "q\<lparr>q_emptyctr := 0, q_tick := Suc (q_tick q)\<rparr>" "[]" "q_thead q" "q_fresh q"]
  by (simp add: checktimers_def sched_ok_def)

lemma checktimers_ok:
  assumes "sched_ok q"
  shows "\<exists>q' ended. checktimers E q = Inr (q', ended) \<and> sched_ok q' \<and> q_connhead q' = q_connhead q \<and> q_wire q' = q_wire q"
proof (cases "q_thead q = []")
  case True
  then show ?thesis using assms by (simp add: checktimers_def sched_ok_def)
next
  case False
  then show ?thesis
    using assms checktimers_runs [OF assms False, of E]
    by (auto simp: after_due_def sched_ok_def intro: addresses_ok_filter)
qed

section \<open>Serving one connection\<close>

text \<open>What holds of a result, when the only fault may be a word that was never written.\<close>

definition unless_stray :: "('a \<Rightarrow> bool) \<Rightarrow> fault + 'a \<Rightarrow> bool" where
  "unless_stray P m = (case m of Inl e \<Rightarrow> e = Stray_read | Inr x \<Rightarrow> P x)"

lemma unless_stray_simps [simp]:
  "unless_stray P (Inl e) \<longleftrightarrow> e = Stray_read" "unless_stray P (Inr x) \<longleftrightarrow> P x"
  by (simp_all add: unless_stray_def)

lemma unless_stray_and_then:
  "unless_stray Q m \<Longrightarrow> (\<And>x. Q x \<Longrightarrow> unless_stray P (f x)) \<Longrightarrow> unless_stray P (and_then m f)"
  by (cases m) auto

definition timers_ok :: "nat \<Rightarrow> sched \<Rightarrow> bool" where
  "timers_ok low q \<longleftrightarrow> addresses_ok t_addr (q_fresh q) (q_thead q) \<and> low \<le> q_fresh q"

text \<open>The connection at address a is in its place, or it is there no more.\<close>

definition in_place :: "nat \<Rightarrow> sconn list \<Rightarrow> sconn list \<Rightarrow> nat \<Rightarrow> sched \<Rightarrow> bool" where
  "in_place a pre post low q \<longleftrightarrow> timers_ok low q \<and> a \<notin> sc_addr ` set pre \<and>
     (\<exists>k. q_connhead q = pre @ k # post \<and> sc_addr k = a \<and> pconf_wf (sc_ctx k))"

definition served :: "nat \<Rightarrow> sconn list \<Rightarrow> sconn list \<Rightarrow> nat \<Rightarrow> sched \<Rightarrow> bool" where
  "served a pre post low q \<longleftrightarrow>
     in_place a pre post low q \<or> timers_ok low q \<and> q_connhead q = pre @ post"

lemma connected_conns:
  "in_place a pre post low q \<Longrightarrow> timers_ok low q' \<Longrightarrow> q_connhead q' = q_connhead q \<Longrightarrow> in_place a pre post low q'"
  by (simp add: in_place_def)

lemma connected_object:
  "in_place a pre post low q \<Longrightarrow>
     \<exists>k. deref_conn a q = Inr k \<and> q_connhead q = pre @ k # post \<and> sc_addr k = a \<and> pconf_wf (sc_ctx k)"
  by (auto simp: in_place_def deref_conn_def)

lemma connected_del: "in_place a pre post low q \<Longrightarrow> served a pre post low (conn_del a q)"
  by (auto simp: in_place_def served_def conn_del_def timers_ok_def)

lemma connected_put:
  assumes "in_place a pre post low q" "a \<notin> sc_addr ` set post" "pconf_wf ctx"
  shows "in_place a pre post low (put_sctx a ctx q)"
proof -
  have same: "map (\<lambda>k. if sc_addr k = a then k\<lparr>sc_ctx := ctx\<rparr> else k) ks = ks"
    if "a \<notin> sc_addr ` set ks" for ks
    using that by (intro map_idI) auto
  then show ?thesis
    using assms by (auto simp: in_place_def put_sctx_def timers_ok_def)
qed

lemma timers_ok_start: "timers_ok low q \<Longrightarrow> timers_ok low (start_timer E name ofsstr q)"
  by (auto simp: timers_ok_def start_timer_def Let_def addresses_ok_fresh intro: addresses_ok_later)

lemma connhead_timers [simp]:
  "q_connhead (start_timer E name ofsstr q) = q_connhead q"
  "q_connhead (cancel_timer name cname q) = q_connhead q"
  by (simp_all add: start_timer_def cancel_timer_def removetimer_def exec_cmd_def Let_def split: option.split)

lemma unlink_at_subset: "set (unlink_at ad a xs) \<subseteq> set xs"
  by (induction xs) auto

lemma addresses_ok_unlink: "addresses_ok ad fresh xs \<Longrightarrow> addresses_ok ad fresh (unlink_at ad a xs)"
  by (induction xs) (auto dest: subsetD [OF unlink_at_subset])

lemma timers_ok_cancel: "timers_ok low q \<Longrightarrow> timers_ok low (cancel_timer name cname q)"
  by (simp add: timers_ok_def cancel_timer_def removetimer_def exec_cmd_def addresses_ok_unlink split: option.split)

lemma send_served:
  assumes "in_place a pre post low q"
  shows "unless_stray (\<lambda>(q', sent). served a pre post low q') (sched_send_to_one E a msg q)"
proof -
  obtain k where k: "deref_conn a q = Inr k" using connected_object [OF assms] by blast
  have "in_place a pre post low (q\<lparr>q_tick := t, q_wire := w\<rparr>)" for t w
    using assms by (simp add: in_place_def timers_ok_def)
  from this connected_del [OF this] show ?thesis
    by (simp add: sched_send_to_one_def k Let_def served_def)
qed

lemma answer_served:
  assumes "in_place a pre post low q" "\<And>q'. served a pre post low q' \<Longrightarrow> P (q', 1)"
  shows "unless_stray P (and_then (sched_send_to_one E a msg q) (\<lambda>(q, sent). Inr (q, 1::int)))"
  by (rule unless_stray_and_then [OF send_served [OF assms(1)]]) (auto simp: assms(2))

definition handled :: "nat \<Rightarrow> sconn list \<Rightarrow> sconn list \<Rightarrow> nat \<Rightarrow> sched \<times> int \<Rightarrow> bool" where
  "handled a pre post low = (\<lambda>(q, r). r = 0 \<and> in_place a pre post low q \<or> r = 1 \<and> served a pre post low q)"

lemma command_served:
  assumes "in_place a pre post low q"
  shows "unless_stray (handled a pre post low) (sched_sock_arg E a q)"
proof -
  obtain k where k: "deref_conn a q = Inr k" using connected_object [OF assms] by blast
  have t: "timers_ok low q" using assms by (simp add: in_place_def)
  have "in_place a pre post low (start_timer E name ofs q)" for name ofs
    by (rule connected_conns [OF assms]) (simp_all add: timers_ok_start t)
  moreover have "in_place a pre post low (cancel_timer name cname q)" for name cname
    by (rule connected_conns [OF assms]) (simp_all add: timers_ok_cancel t)
  moreover have "handled a pre post low (q, 0)" using assms by (simp add: handled_def)
  moreover have "unless_stray (handled a pre post low)
      (and_then (sched_send_to_one E a msg q') (\<lambda>(q, sent). Inr (q, 1)))"
    if "in_place a pre post low q'" for msg q'
    by (rule answer_served [OF that]) (simp add: handled_def)
  ultimately show ?thesis
    by (simp add: sched_sock_arg_def k Let_def ctx_word_def)
qed

definition answered :: "nat \<Rightarrow> sconn list \<Rightarrow> sconn list \<Rightarrow> nat \<Rightarrow> sched \<times> int \<Rightarrow> bool" where
  "answered a pre post low = (\<lambda>(q, r). r = 1 \<and> served a pre post low q)"

lemma line_served:
  assumes "in_place a pre post low q"
  shows "unless_stray (answered a pre post low) (sock_command E a q)"
  unfolding sock_command_def
proof (rule unless_stray_and_then [OF command_served [OF assms]])
  fix x :: "sched \<times> int"
  assume h: "handled a pre post low x"
  obtain q' r where x: "x = (q', r)" by (cases x)
  show "unless_stray (answered a pre post low)
      (case x of (q, known) \<Rightarrow>
         if known = 0 then and_then (sched_send_to_one E a (''ERR UNKNOWN'' @ [NL]) q) (\<lambda>(q, sent). Inr (q, 1))
         else Inr (q, 1))"
  proof (cases "r = 0")
    case True
    then have "in_place a pre post low q'" using h by (simp add: handled_def x)
    then show ?thesis using True x by (simp add: answered_def answer_served)
  qed (use h in \<open>simp add: x handled_def answered_def\<close>)
qed

definition read_done :: "nat \<Rightarrow> sconn list \<Rightarrow> sconn list \<Rightarrow> nat \<Rightarrow> sched \<times> int \<Rightarrow> bool" where
  "read_done a pre post low =
     (\<lambda>(q, r). r < 0 \<and> in_place a pre post low q \<or> 0 \<le> r \<and> served a pre post low q)"

lemma read_served:
  assumes "in_place a pre post low q" "a \<notin> sc_addr ` set post"
  shows "unless_stray (read_done a pre post low) (read_bytes E a n q)"
  using assms(1)
proof (induction n arbitrary: q)
  case 0
  then show ?case by (simp add: read_done_def served_def)
next
  case (Suc n)
  obtain k where k: "deref_conn a q = Inr k" "pconf_wf (sc_ctx k)" using connected_object [OF Suc.prems] by blast
  have tick: "in_place a pre post low (q\<lparr>q_tick := t\<rparr>)" for t
    using Suc.prems by (simp add: in_place_def timers_ok_def)
  have stop: "read_done a pre post low (q', 0)" "read_done a pre post low (q', -1)"
    if "in_place a pre post low q'" for q'
    using that by (simp_all add: read_done_def served_def)
  show ?case
  proof (cases "se_read E (q_tick q) (sc_fd k)")
    case (GotByte c)
    obtain ctx ret where ctx: "pconf_char (sc_ctx k) c = (ctx, ret)" by (cases "pconf_char (sc_ctx k) c")
    have "pconf_wf ctx" using pconf_char_wf [OF k(2), of c] ctx by simp
    then have put: "in_place a pre post low (put_sctx a ctx (q\<lparr>q_tick := Suc (q_tick q)\<rparr>))"
      by (rule connected_put [OF tick assms(2)])
    have "unless_stray (read_done a pre post low) (sock_command E a (put_sctx a ctx (q\<lparr>q_tick := Suc (q_tick q)\<rparr>)))"
      using line_served [OF put, of E]
      by (cases "sock_command E a (put_sctx a ctx (q\<lparr>q_tick := Suc (q_tick q)\<rparr>))")
        (auto simp: answered_def read_done_def)
    then show ?thesis
      using GotByte k(1) ctx Suc.IH [OF put] stop [OF put] by (simp add: Let_def)
  next
    case (GotNothing dead)
    then show ?thesis using k(1) Suc.IH [OF tick] stop [OF tick] by (simp add: Let_def)
  qed (use k(1) stop [OF tick] in \<open>simp_all add: Let_def\<close>)
qed

section \<open>A turn of the loop\<close>

lemma sched_ok_tick [simp]: "sched_ok (q\<lparr>q_tick := t\<rparr>) = sched_ok q"
  by (simp add: sched_ok_def)

text \<open>What a served connection leaves: the invariant, and the connections after it in place.\<close>

lemma served_ok:
  assumes "sched_ok q" "q_connhead q = pre @ k # post" "served (sc_addr k) pre post (q_fresh q) q'"
  shows "\<exists>pre'. sched_ok q' \<and> q_connhead q' = pre' @ post"
proof -
  have low: "q_fresh q \<le> q_fresh q'" "addresses_ok t_addr (q_fresh q') (q_thead q')"
    using assms(3) by (auto simp: served_def in_place_def timers_ok_def)
  have "addresses_ok sc_addr (q_fresh q') (pre @ k # post)"
    using assms(1,2) low(1) by (auto simp: sched_ok_def intro: addresses_ok_later)
  moreover have "\<forall>x\<in>set (pre @ post). pconf_wf (sc_ctx x)" using assms(1,2) by (auto simp: sched_ok_def)
  moreover have "(\<exists>k'. q_connhead q' = (pre @ [k']) @ post \<and> sc_addr k' = sc_addr k \<and> pconf_wf (sc_ctx k')) \<or>
      q_connhead q' = pre @ post"
    using assms(3) by (auto simp: served_def in_place_def)
  ultimately show ?thesis using low(2) by (auto simp: sched_ok_def)
qed

lemma conn_loop_ok:
  assumes "sched_ok q" "q_connhead q = pre @ ks" "length ks \<le> n"
  shows "unless_stray sched_ok (conn_loop E ready n (head_ptr sc_addr ks) q)"
  using assms
proof (induction ks arbitrary: n pre q)
  case Nil
  then show ?case by simp
next
  case (Cons k ks)
  obtain m where n: "n = Suc m" "length ks \<le> m" using Cons.prems(3) by (cases n) auto
  have fresh: "sc_addr k \<notin> sc_addr ` set pre" "sc_addr k \<notin> sc_addr ` set ks" "pconf_wf (sc_ctx k)"
    using Cons.prems(1,2) by (auto simp: sched_ok_def)
  have here: "in_place (sc_addr k) pre ks (q_fresh q) q"
    using Cons.prems(1,2) fresh by (auto simp: in_place_def timers_ok_def sched_ok_def)
  define read where "read = (if sc_fd k \<in> set ready
      then and_then (sched_sock_read E (sc_addr k) q) (\<lambda>(q, ret). Inr (if ret < 0 then conn_del (sc_addr k) q else q))
      else Inr q)"
  have "unless_stray (served (sc_addr k) pre ks (q_fresh q)) read"
    using read_served [OF here fresh(2), of E US_MAX_READ] here
    by (auto simp: read_def sched_sock_read_def served_def read_done_def
        intro!: unless_stray_and_then dest: connected_del)
  then have "unless_stray sched_ok (and_then read (\<lambda>q. conn_loop E ready m (head_ptr sc_addr ks) q))"
  proof (rule unless_stray_and_then)
    fix q' assume "served (sc_addr k) pre ks (q_fresh q) q'"
    then obtain pre' where "sched_ok q'" "q_connhead q' = pre' @ ks"
      using served_ok [OF Cons.prems(1,2)] by blast
    then show "unless_stray sched_ok (conn_loop E ready m (head_ptr sc_addr ks) q')"
      using Cons.IH n(2) by blast
  qed
  then show ?case
    using n(1) fresh(1) Cons.prems(2) by (simp add: deref_conn_def read_def Let_def)
qed

lemma conn_add_ok: "sched_ok q \<Longrightarrow> sched_ok (conn_add E q)"
  by (auto simp: conn_add_def sched_ok_def Let_def pconf_init_wf addresses_ok_fresh intro: addresses_ok_later)

definition turn_ok :: "sched \<times> bool \<Rightarrow> bool" where
  "turn_ok = (\<lambda>(q, ended). sched_ok q)"

lemma daemon_turn_ok:
  assumes "sched_ok q"
  shows "unless_stray turn_ok (daemon_turn E q)"
proof -
  obtain ret ready where s: "se_select E (q_tick q) (se_listen E # map sc_fd (q_connhead q)) = (ret, ready)"
    by (cases "se_select E (q_tick q) (se_listen E # map sc_fd (q_connhead q))")
  have "unless_stray turn_ok (checktimers E q')" if "sched_ok q'" for q'
    using checktimers_ok [OF that, of E] by (auto simp: turn_ok_def)
  moreover have "unless_stray sched_ok (conn_loop E ready (length ks) (head_ptr sc_addr ks) q')"
    if "sched_ok q'" "q_connhead q' = ks" for q' ks
    using that by (intro conn_loop_ok [where pre = "[]"]) simp_all
  ultimately show ?thesis
    using assms
    by (auto simp: daemon_turn_def s conn_add_ok Let_def
        intro!: unless_stray_and_then [where Q = sched_ok and f = "checktimers E"])
qed

lemma daemon_turns_ok: "sched_ok q \<Longrightarrow> unless_stray turn_ok (daemon_turns n E q)"
proof (induction n arbitrary: q)
  case (Suc n)
  show ?case
    unfolding daemon_turns.simps
    by (rule unless_stray_and_then [OF daemon_turn_ok [OF Suc.prems]])
      (use Suc.IH in \<open>auto simp: turn_ok_def\<close>)
qed (simp add: turn_ok_def)

section \<open>Nobody asks for anything\<close>

definition silent :: "senv \<Rightarrow> bool" where
  "silent E \<longleftrightarrow> (\<forall>n fds. fst (se_select E n fds) \<le> 0)"

lemma silent_turn: "silent E \<Longrightarrow> daemon_turn E q = checktimers E (q\<lparr>q_tick := Suc (q_tick q)\<rparr>)"
proof -
  assume s: "silent E"
  obtain ret ready where r: "se_select E (q_tick q) (se_listen E # map sc_fd (q_connhead q)) = (ret, ready)"
    by (cases "se_select E (q_tick q) (se_listen E # map sc_fd (q_connhead q))")
  then have "\<not> 0 < ret"
    using s [unfolded silent_def, rule_format, of "q_tick q" "se_listen E # map sc_fd (q_connhead q)"] by simp
  then show ?thesis by (simp add: daemon_turn_def r Let_def)
qed

text \<open>Without timers the counter of empty passes decides.\<close>

lemma silent_turns_idle:
  assumes "silent E" "q_thead q = []" "q_emptyctr q < US_EMPTY_WAIT" "0 \<le> q_emptyctr q"
  shows "\<exists>q'. daemon_turns n E q = Inr (q', US_EMPTY_WAIT - q_emptyctr q \<le> int n) \<and> q_ran q' = q_ran q"
  using assms(2-)
proof (induction n arbitrary: q)
  case (Suc n)
  have turn: "daemon_turn E q = Inr (q\<lparr>q_tick := Suc (q_tick q), q_emptyctr := q_emptyctr q + 1\<rparr>,
      \<not> q_emptyctr q + 1 < US_EMPTY_WAIT)"
    using Suc.prems(1) by (simp add: silent_turn [OF assms(1)] checktimers_def Let_def)
  show ?case
  proof (cases "q_emptyctr q + 1 < US_EMPTY_WAIT")
    case True
    then show ?thesis
      using Suc.IH [of "q\<lparr>q_tick := Suc (q_tick q), q_emptyctr := q_emptyctr q + 1\<rparr>"] Suc.prems
      by (simp add: turn algebra_simps)
  next
    case False
    then show ?thesis using Suc.prems by (simp add: turn)
  qed
qed simp

lemma silent_turns_due:
  assumes "silent E" "sched_ok q" "q_thead q \<noteq> []" "\<forall>t\<in>set (q_thead q). \<forall>n. t_etime t \<le> se_time E n"
  shows "\<exists>q'. daemon_turns (Suc n) E q = Inr (q', US_EMPTY_WAIT \<le> int n) \<and>
    q_ran q' = q_ran q @ map (\<lambda>t. script_line (q_cmdscript q) (t_name t)) (q_thead q)"
proof -
  let ?q = "q\<lparr>q_tick := Suc (q_tick q)\<rparr>"
  define q1 where "q1 = after_due (se_time E (q_tick ?q)) [] (q_thead ?q) (?q\<lparr>q_emptyctr := 0, q_tick := Suc (q_tick ?q)\<rparr>)"
  have turn: "daemon_turn E q = Inr (q1, False)"
    using checktimers_runs [of ?q E] assms(2,3) by (simp add: silent_turn [OF assms(1)] q1_def)
  have all: "filter (due (se_time E m)) (q_thead q) = q_thead q" "filter (\<lambda>t. \<not> due (se_time E m) t) (q_thead q) = []" for m
    using assms(4) by (auto simp: due_def intro: filter_True)
  have q1: "q_thead q1 = []" "q_emptyctr q1 = 0"
    "q_ran q1 = q_ran q @ map (\<lambda>t. script_line (q_cmdscript q) (t_name t)) (q_thead q)"
    using all [of "Suc (q_tick q)"] by (simp_all add: q1_def after_due_def)
  then show ?thesis
    using silent_turns_idle [OF assms(1), of q1 n] by (simp add: turn US_EMPTY_WAIT_def)
qed

end
