(* ===== verification/SchedLink.thy ===== *)
theory SchedLink
  imports SchedFacts
begin

text \<open>
  From upssched to its daemon: a request is read byte by byte by sock_read() and reaches
  sock_arg() as its words.  The reading of a line is an interpretation of line_scanner.
\<close>

section \<open>Reading a line\<close>

text \<open>The bytes up to the end of a line or a parse error, without the state around.\<close>

fun scan_line :: "pconf_ctx \<Rightarrow> cstr \<Rightarrow> pconf_ctx \<times> int \<times> cstr" where
  "scan_line ctx [] = (ctx, 0, [])"
| "scan_line ctx (c # cs) =
     (case pconf_char ctx c of (ctx, ret) \<Rightarrow> if ret = 0 then scan_line ctx cs else (ctx, ret, cs))"

interpretation sched_line: line_scanner "\<lambda>ctx. ctx" "\<lambda>ctx _. ctx" "\<lambda>ctx cs. (ctx, 1, cs)" scan_line "\<lambda>_. True"
  by unfold_locales simp_all

definition hears :: "senv \<Rightarrow> nat \<Rightarrow> int \<Rightarrow> cstr \<Rightarrow> bool" where
  "hears E tick fd bytes \<longleftrightarrow> (\<forall>i<length bytes. se_read E (tick + i) fd = GotByte (bytes ! i))"

lemma hears_Cons: "hears E t fd (c # cs) \<longleftrightarrow> se_read E t fd = GotByte c \<and> hears E (Suc t) fd cs"
proof -
  have "hears E t fd (c # cs) \<longleftrightarrow> se_read E (t + 0) fd = GotByte ((c # cs) ! 0) \<and>
      (\<forall>i<length cs. se_read E (t + Suc i) fd = GotByte ((c # cs) ! Suc i))"
    by (auto simp: hears_def less_Suc_eq_0_disj)
  then show ?thesis by (simp add: hears_def)
qed

lemma object_at_map:
  assumes "\<And>x. ad (f x) = ad x"
  shows "object_at ad a (map f xs) = and_then (object_at ad a xs) (\<lambda>x. Inr (f x))"
  by (induction xs) (auto simp: assms)

lemma object_at_addr: "object_at ad a xs = Inr x \<Longrightarrow> ad x = a"
  by (induction xs) (auto split: if_splits)

lemma deref_put [simp]: "deref_conn a q = Inr k \<Longrightarrow> deref_conn a (put_sctx a ctx q) = Inr (k\<lparr>sc_ctx := ctx\<rparr>)"
  using object_at_addr [of sc_addr a "q_connhead q" k]
  by (simp add: deref_conn_def put_sctx_def object_at_map)

lemma deref_conn_tick [simp]: "deref_conn a (q\<lparr>q_tick := t\<rparr>) = deref_conn a q"
  by (simp add: deref_conn_def)

lemma put_sctx_put [simp]: "put_sctx a ctx (put_sctx a ctx' q) = put_sctx a ctx q"
  by (simp add: put_sctx_def o_def if_distrib [of "\<lambda>k. if sc_addr k = a then _ k else k"] cong: if_cong)

lemma put_sctx_fields [simp]:
  "q_tick (put_sctx a ctx q) = q_tick q" "q_thead (put_sctx a ctx q) = q_thead q"
  "q_wire (put_sctx a ctx q) = q_wire q" "q_ran (put_sctx a ctx q) = q_ran q"
  "q_cmdscript (put_sctx a ctx q) = q_cmdscript q" "q_fresh (put_sctx a ctx q) = q_fresh q"
  "(put_sctx a ctx q)\<lparr>q_tick := t\<rparr> = put_sctx a ctx (q\<lparr>q_tick := t\<rparr>)"
  by (simp_all add: put_sctx_def)

lemma put_sctx_same:
  assumes "distinct (map sc_addr (q_connhead q))" "deref_conn a q = Inr k"
  shows "put_sctx a (sc_ctx k) q = q"
proof -
  obtain pre post where ks: "q_connhead q = pre @ k # post" "sc_addr k = a" "a \<notin> sc_addr ` set pre"
    using object_at_Inr assms(2) unfolding deref_conn_def by metis
  have "map (\<lambda>x. if sc_addr x = a then x\<lparr>sc_ctx := sc_ctx k\<rparr> else x) (q_connhead q) = q_connhead q"
  proof (rule map_idI)
    fix x assume "x \<in> set (q_connhead q)"
    then have "x = k \<or> sc_addr x \<noteq> a" using ks assms(1) by (metis distinct_map inj_on_eq_iff in_set_conv_decomp)
    then show "(if sc_addr x = a then x\<lparr>sc_ctx := sc_ctx k\<rparr> else x) = x" by auto
  qed
  then show ?thesis by (simp add: put_sctx_def)
qed

lemma addr_put [simp]: "map sc_addr (q_connhead (put_sctx a ctx q)) = map sc_addr (q_connhead q)"
  by (simp add: put_sctx_def)

definition after_scan :: "senv \<Rightarrow> nat \<Rightarrow> nat \<Rightarrow> pconf_ctx \<times> int \<times> cstr \<Rightarrow> nat \<Rightarrow> sched \<Rightarrow> fault + (sched \<times> int)" where
  "after_scan E a n r len q = (case r of (ctx, ret, rest) \<Rightarrow>
     let q = put_sctx a ctx (q\<lparr>q_tick := q_tick q + (len - length rest)\<rparr>) in
     if ret = 0 then read_bytes E a n q else if ret = -1 then Inr (q, 0) else sock_command E a q)"

lemma scan_line_rest: "scan_line ctx cs = (ctx', ret, rest) \<Longrightarrow> length rest \<le> length cs \<and> (ret = 0 \<longrightarrow> rest = [])"
  by (induction ctx cs arbitrary: rest rule: scan_line.induct)
    (fastforce split: prod.splits if_splits)+

lemma read_bytes_scans:
  assumes "distinct (map sc_addr (q_connhead q))" "deref_conn a q = Inr k"
    "hears E (q_tick q) (sc_fd k) bytes"
  shows "read_bytes E a (length bytes + n) q = after_scan E a n (scan_line (sc_ctx k) bytes) (length bytes) q"
  using assms
proof (induction bytes arbitrary: q k)
  case Nil
  then show ?case by (simp add: after_scan_def put_sctx_same)
next
  case (Cons c cs)
  obtain ctx ret where ctx: "pconf_char (sc_ctx k) c = (ctx, ret)" by (cases "pconf_char (sc_ctx k) c")
  have c: "se_read E (q_tick q) (sc_fd k) = GotByte c" "hears E (Suc (q_tick q)) (sc_fd k) cs"
    using Cons.prems(3) by (simp_all add: hears_Cons)
  let ?q = "put_sctx a ctx (q\<lparr>q_tick := Suc (q_tick q)\<rparr>)"
  show ?case
  proof (cases "ret = 0")
    case True
    have d: "deref_conn a ?q = Inr (k\<lparr>sc_ctx := ctx\<rparr>)" using Cons.prems(2) by simp
    have "read_bytes E a (length (c # cs) + n) q = read_bytes E a (length cs + n) ?q"
      using True Cons.prems(2) c(1) ctx by (simp add: Let_def)
    also have "\<dots> = after_scan E a n (scan_line ctx cs) (length cs) ?q"
      using Cons.IH [OF _ d] Cons.prems(1) c(2) by simp
    also have "\<dots> = after_scan E a n (scan_line (sc_ctx k) (c # cs)) (length (c # cs)) q"
      using True ctx scan_line_rest [of ctx cs]
      by (auto simp: after_scan_def Let_def Suc_diff_le split: prod.split)
    finally show ?thesis .
  next
    case False
    then show ?thesis
      using Cons.prems(2) c(1) ctx by (simp add: after_scan_def Let_def)
  qed
qed

section \<open>Requests\<close>

definition request_items :: "cstr \<Rightarrow> cstr list \<Rightarrow> item list" where
  "request_items cmd ws = Bare cmd # map Quoted ws"

text \<open>A request that fits its buffers is a line of its words.\<close>

lemma request_text_line:
  assumes "length cmd + length (escape name) + length (escape w) + 8 \<le> SMALLBUF"
  shows "request_text cmd name (Some w) = line_text (request_items cmd [name, w])"
  using assms
  by (simp add: request_text_def request_items_def pconf_encode_fits snprintf_fits snprintfcat_fits SMALLBUF_def)

lemma request_text_line1:
  assumes "length cmd + length (escape name) + 4 \<le> SMALLBUF"
  shows "request_text cmd name None = line_text (request_items cmd [name])"
  using assms by (simp add: request_text_def request_items_def pconf_encode_fits snprintf_fits SMALLBUF_def)

text \<open>A line that one call of sock_read() can take reaches sock_arg() with its words.\<close>

lemma line_reaches_command:
  assumes "sched_ok q" "deref_conn a q = Inr k" "line_start (sc_ctx k)" "line_fits (sc_ctx k) is"
    "hears E (q_tick q) (sc_fd k) (line_text is)" "length (line_text is) \<le> US_MAX_READ"
  shows "\<exists>ctx. sched_sock_read E a q = sock_command E a (put_sctx a ctx (q\<lparr>q_tick := q_tick q + length (line_text is)\<rparr>)) \<and>
    line_start ctx \<and> pconf_args ctx = map item_word is"
proof -
  obtain ctx where ctx: "scan_line (sc_ctx k) (line_text is @ []) = (ctx, 1, [])" "line_start ctx"
    "pconf_args ctx = map item_word is"
    using sched_line.loop_line [of "sc_ctx k" "is" "[]"] assms(3,4) by auto
  have "distinct (map sc_addr (q_connhead q))" using assms(1) by (simp add: sched_ok_def addresses_ok_def)
  then have "read_bytes E a (length (line_text is) + (US_MAX_READ - length (line_text is))) q =
      after_scan E a (US_MAX_READ - length (line_text is)) (ctx, 1, []) (length (line_text is)) q"
    using read_bytes_scans [OF _ assms(2,5), of "US_MAX_READ - length (line_text is)"] ctx(1) by simp
  then show ?thesis
    using assms(6) ctx(2,3) by (auto simp: sched_sock_read_def after_scan_def Let_def)
qed

section \<open>Commands that arrive\<close>

definition all_taken :: "senv \<Rightarrow> bool" where
  "all_taken E \<longleftrightarrow> (\<forall>n fd s. se_write E n fd s = int (length s))"

lemma ctx_words:
  assumes "line_start ctx" "pconf_args ctx = ws"
  shows "pc_numargs ctx = length ws \<and> length ws \<le> pc_maxargs ctx \<and> (\<forall>i<length ws. pc_arglist ctx ! i = ws ! i)"
  using assms by (auto simp: line_start_def pconf_wf_def pconf_args_def min_def split: if_splits)

lemma send_taken:
  assumes "all_taken E" "deref_conn a q = Inr k" "msg \<noteq> []" "length msg < US_SOCK_BUF_LEN"
  shows "sched_send_to_one E a msg q =
    Inr (q\<lparr>q_tick := Suc (q_tick q), q_wire := q_wire q @ [(sc_fd k, msg)]\<rparr>, True)"
  using assms by (simp add: sched_send_to_one_def all_taken_def snprintf_fits Let_def)

lemma deref_timers [simp]:
  "deref_conn a (start_timer E name ofsstr q) = deref_conn a q"
  "deref_conn a (cancel_timer name cname q) = deref_conn a q"
  by (simp_all add: deref_conn_def)

lemma start_command:
  assumes "all_taken E" "deref_conn a q = Inr k" "line_start (sc_ctx k)" "pconf_args (sc_ctx k) = [''START'', name, secs]"
  shows "sock_command E a q =
    (let q = start_timer E name secs q in
     Inr (q\<lparr>q_tick := Suc (q_tick q), q_wire := q_wire q @ [(sc_fd k, ''OK'' @ [NL])]\<rparr>, 1))"
proof -
  have w: "pc_numargs (sc_ctx k) = 3" "pc_arglist (sc_ctx k) ! 0 = ''START''" "pc_arglist (sc_ctx k) ! Suc 0 = name"
    "pc_arglist (sc_ctx k) ! 2 = secs"
    using ctx_words [OF assms(3,4)] by (auto simp: numeral_2_eq_2)
  show ?thesis
    using w assms(2) send_taken [OF assms(1), of a "start_timer E name secs q" k "''OK'' @ [NL]"]
    by (simp add: sock_command_def sched_sock_arg_def Let_def US_SOCK_BUF_LEN_def)
qed

lemma unknown_command:
  assumes "all_taken E" "deref_conn a q = Inr k" "line_start (sc_ctx k)" "pconf_args (sc_ctx k) = [''START'', name]"
  shows "sock_command E a q =
    Inr (q\<lparr>q_tick := Suc (q_tick q), q_wire := q_wire q @ [(sc_fd k, ''ERR UNKNOWN'' @ [NL])]\<rparr>, 1)"
proof -
  have w: "pc_numargs (sc_ctx k) = 2" "pc_arglist (sc_ctx k) ! 0 = ''START''"
    using ctx_words [OF assms(3,4)] by auto
  show ?thesis
    using w assms(2) send_taken [OF assms(1,2), of "''ERR UNKNOWN'' @ [NL]"]
    by (simp add: sock_command_def sched_sock_arg_def Let_def US_SOCK_BUF_LEN_def)
qed

section \<open>The other end\<close>

text \<open>A daemon listens, takes the request and answers with the bytes buf.\<close>

definition replies_with :: "cenv \<Rightarrow> cstr \<Rightarrow> bool" where
  "replies_with F buf \<longleftrightarrow> (\<forall>n. valid_fd (ce_connect F n)) \<and> (\<forall>n s. ce_write F n s = int (length s)) \<and>
     (\<forall>n. ce_reply F n = Some (int (length buf), buf))"

lemma check_parent_listening:
  assumes "\<forall>n. valid_fd (ce_connect F n)"
  shows "check_parent F cmd arg2 US_MAX_TRIES c = Inr (next_call c, Connected (ce_connect F (sx_tick c)))"
proof -
  obtain n where n: "US_MAX_TRIES = Suc n" by (simp add: US_MAX_TRIES_def numeral_eq_Suc)
  show ?thesis unfolding n using assms by (simp add: Let_def)
qed

lemma request_not_Nil: "request_text cmd name arg2 \<noteq> []"
  by (auto simp: request_text_def Let_def snprintf_def SMALLBUF_def split: option.split)

lemma send_tries_ok:
  assumes "replies_with F (''OK'' @ rest)" "enc \<noteq> []"
  shows "\<exists>c'. send_tries F cmd arg2 enc (Suc n) c = Inr c' \<and> sx_acts c' = sx_acts c @ [Sent enc]"
  using assms
  by (simp add: replies_with_def check_parent_listening did_def next_call_def Let_def)

lemma send_tries_refused:
  assumes "replies_with F buf" "enc \<noteq> []" "take 2 buf \<noteq> ''OK''"
  shows "send_tries F cmd arg2 enc n c = Inl Fatal_exit"
  using assms
  by (induction n arbitrary: c)
    (simp_all add: replies_with_def check_parent_listening Let_def)

section \<open>A name that is too long\<close>

text \<open>Inside an open quote the end of the line is only one more byte.\<close>

definition in_quotes :: "pconf_state \<Rightarrow> bool" where
  "in_quotes st \<longleftrightarrow> st = ST_QUOTECOLLECT \<or> st = ST_QC_LITERAL"

lemma quoted_prefix:
  assumes "list_all word_char w"
  shows "tok_busy al wl (ST_QUOTECOLLECT, ws, cur) (take k (escape w)) \<and>
    in_quotes (fst (tok_run al wl (ST_QUOTECOLLECT, ws, cur) (take k (escape w))))"
  using assms
proof (induction w arbitrary: k cur)
  case Nil
  then show ?case by (simp add: in_quotes_def)
next
  case (Cons c w)
  have lit: "tok_step al wl (ST_QUOTECOLLECT, ws, cur) BSLASH = (ST_QC_LITERAL, ws, cur)"
    by (simp add: tok_step_def tok_trans_def tok_ended_def)
  have nl: "c \<noteq> NL" using Cons.prems by (auto simp: word_char_def)
  have esc: "tok_step al wl (ST_QC_LITERAL, ws, cur) c = (ST_QUOTECOLLECT, ws, tok_char wl cur c)"
    using nl by (simp add: tok_step_def tok_trans_def tok_ended_def)
  show ?case
  proof (cases "pconf_escape c")
    case True
    consider "k = 0" | "k = Suc 0" | j where "k = Suc (Suc j)" by (metis not0_implies_Suc)
    then show ?thesis
      using True Cons.IH [where cur = "tok_char wl cur c"] Cons.prems lit esc
      by cases (auto simp: in_quotes_def tok_ended_def)
  next
    case False
    have step: "tok_step al wl (ST_QUOTECOLLECT, ws, cur) c = (ST_QUOTECOLLECT, ws, tok_char wl cur c)"
      using False by (auto simp: tok_step_def tok_trans_def tok_ended_def pconf_escape_def)
    show ?thesis
      using False Cons.IH [where cur = "tok_char wl cur c"] Cons.prems step
      by (cases k) (auto simp: in_quotes_def tok_ended_def)
  qed
qed

lemma encode_loop_long:
  "0 < m \<Longrightarrow> d \<le> m \<Longrightarrow> encode_loop m d src = escape src \<or> m \<le> Suc (d + length (encode_loop m d src))"
proof (induction src arbitrary: d)
  case (Cons c src)
  have sp: "size_pred m = m - 1" using Cons.prems(1) by (simp add: size_pred_def)
  show ?case
  proof (cases "pconf_escape c")
    case True
    have "d + 2 \<le> m \<Longrightarrow> encode_loop m (d + 2) src = escape src \<or> m \<le> Suc (d + 2 + length (encode_loop m (d + 2) src))"
      using Cons.IH Cons.prems(1) by blast
    then show ?thesis using True sp by (cases "d + 2 \<le> m") (simp_all, linarith?)
  next
    case False
    have "d + 1 \<le> m \<Longrightarrow> encode_loop m (d + 1) src = escape src \<or> m \<le> Suc (d + 1 + length (encode_loop m (d + 1) src))"
      using Cons.IH Cons.prems(1) by blast
    then show ?thesis using False by (cases "d + 1 \<le> m") simp_all
  qed
qed simp

lemma escape_prefix: "\<exists>j. escape (take k s) = take j (escape s)"
proof -
  have "escape (take k s @ drop k s) = escape (take k s) @ escape (drop k s)"
    unfolding escape_def by (simp only: map_append concat_append)
  then have "escape (take k s) = take (length (escape (take k s))) (escape s)" by simp
  then show ?thesis by blast
qed

text \<open>Such a request ends inside the quotes of the name, and a second word is left out.\<close>

lemma long_request:
  assumes "SMALLBUF \<le> length cmd + length (escape name) + 3" "length cmd \<le> 100"
  shows "\<exists>m. request_text cmd name arg2 = cmd @ '' '' @ [QUOTE] @ take m (escape name) @ [NL]"
proof -
  define enc where "enc = pconf_encode name (SMALLBUF + 8)"
  obtain k where "enc = escape (take k name)"
    using encode_loop_prefix [of "SMALLBUF + 7" 0 name] by (auto simp: enc_def pconf_encode_def SMALLBUF_def)
  then obtain j where j: "enc = take j (escape name)" using escape_prefix [of k name] by auto
  have long: "SMALLBUF \<le> length cmd + length enc + 3"
    using encode_loop_long [of "SMALLBUF + 7" 0 name] assms(1)
    by (auto simp: enc_def pconf_encode_def SMALLBUF_def)
  define m where "m = SMALLBUF - 3 - length cmd"
  define p where "p = cmd @ '' '' @ [QUOTE]"
  have "take (SMALLBUF - 1) (p @ enc @ [QUOTE]) = p @ take m enc"
    using long assms(2) by (simp add: p_def m_def SMALLBUF_def del: append.simps append_assoc)
  then have buf: "snprintf SMALLBUF (cmd @ '' '' @ [QUOTE] @ enc @ [QUOTE]) = cmd @ '' '' @ [QUOTE] @ take m enc"
    by (simp add: snprintf_def p_def)
  have len: "length (cmd @ '' '' @ [QUOTE] @ take m enc) = SMALLBUF - 1"
    using long assms(2) by (simp add: m_def SMALLBUF_def)
  have full: "snprintfcat b SMALLBUF x = b" if "length b = SMALLBUF - 1" for b x
    using that by (simp add: snprintfcat_def)
  have last: "snprintf (SMALLBUF + 8) (b @ [NL]) = b @ [NL]" if "length b = SMALLBUF - 1" for b
    using that by (intro snprintf_fits) (simp add: SMALLBUF_def)
  have "request_text cmd name arg2 = (cmd @ '' '' @ [QUOTE] @ take m enc) @ [NL]"
    unfolding request_text_def Let_def enc_def [symmetric] buf full [OF len]
    by (cases arg2) (simp_all only: option.case last [OF len])
  then show ?thesis by (auto simp: j)
qed

lemma open_quote_scan:
  assumes "line_start ctx" "list_all bare_char cmd" "cmd \<noteq> []" "length cmd \<le> pc_wordlen_limit ctx"
    "list_all word_char name"
  shows "\<exists>ctx'. scan_line ctx (cmd @ '' '' @ [QUOTE] @ take m (escape name) @ [NL]) = (ctx', 0, [])"
proof -
  let ?al = "pc_arg_limit ctx" and ?wl = "pc_wordlen_limit ctx" and ?start = "(ST_FINDWORDSTART, [], []) :: tok"
  have item: "item_ok ?wl (Bare cmd)" using assms(2-4) by (auto simp: item_ok_def)
  have room: "?al = 0 \<or> length ([] :: cstr list) < ?al" by auto
  have run: "tok_run ?al ?wl ?start (cmd @ '' '') = (ST_FINDWORDSTART, [cmd], [])"
    using tok_item [OF item room, of "CHR '' ''"] by simp
  have quote: "tok_step ?al ?wl (ST_FINDWORDSTART, [cmd], []) QUOTE = (ST_QUOTECOLLECT, [cmd], [])"
    by (simp add: tok_step_def tok_trans_def tok_ended_def)
  obtain st ws cur where pre: "tok_run ?al ?wl (ST_QUOTECOLLECT, [cmd], []) (take m (escape name)) = (st, ws, cur)"
    by (cases "tok_run ?al ?wl (ST_QUOTECOLLECT, [cmd], []) (take m (escape name))")
  have busy_name: "tok_busy ?al ?wl (ST_QUOTECOLLECT, [cmd], []) (take m (escape name))" "in_quotes st"
    using quoted_prefix [OF assms(5), of ?al ?wl "[cmd]" "[]" m] pre by simp_all
  have nl: "\<not> tok_ended (fst (tok_step ?al ?wl (st, ws, cur) NL))"
    using busy_name(2) by (auto simp: in_quotes_def tok_step_def tok_trans_def tok_ended_def)
  have busy_cmd: "tok_busy ?al ?wl ?start (cmd @ '' '')"
    using tok_busy_item [OF item room] run by (auto simp: tok_ended_def)
  have "tok_busy ?al ?wl ?start ((cmd @ '' '') @ [QUOTE] @ take m (escape name) @ [NL])"
    unfolding tok_busy_append [of _ _ _ "cmd @ '' ''"] run
    using busy_cmd busy_name(1) nl by (simp add: quote pre tok_ended_def)
  then have busy: "tok_busy ?al ?wl ?start (cmd @ '' '' @ [QUOTE] @ take m (escape name) @ [NL])" by simp
  have start: "tok_step ?al ?wl (tok_abs ctx) c = tok_step ?al ?wl ?start c" for c
    using assms(1) by (auto simp: line_start_def tok_step_def tok_abs_def tok_ended_def pconf_args_def)
  have "tok_busy ?al ?wl (tok_abs ctx) (cmd @ '' '' @ [QUOTE] @ take m (escape name) @ [NL])"
    using busy start assms(3) by (cases cmd) auto
  moreover have "pconf_wf ctx" using assms(1) by (simp add: line_start_def)
  ultimately obtain ctx' where "scan_line ctx ((cmd @ '' '' @ [QUOTE] @ take m (escape name) @ [NL]) @ []) = scan_line ctx' []"
    using sched_line.loop_busy [of ctx "cmd @ '' '' @ [QUOTE] @ take m (escape name) @ [NL]" "[]"] by blast
  then show ?thesis by simp
qed

section \<open>Cancelling\<close>

lemma find_remove1:
  assumes "addresses_ok t_addr fresh ts"
  shows "case find (\<lambda>t. t_name t = name) ts of
      None \<Rightarrow> name \<notin> t_name ` set ts
    | Some t \<Rightarrow> name \<in> t_name ` set ts \<and> map t_name (unlink_at t_addr (t_addr t) ts) = remove1 name (map t_name ts)"
  using assms
proof (induction ts)
  case (Cons t ts)
  show ?case
  proof (cases "t_name t = name")
    case True
    then show ?thesis by simp
  next
    case False
    show ?thesis
    proof (cases "find (\<lambda>t. t_name t = name) ts")
      case None
      then show ?thesis using Cons False by simp
    next
      case (Some u)
      then have "u \<in> set ts" by (auto simp: find_Some_iff)
      then have "t_addr t \<noteq> t_addr u" using Cons.prems by auto
      then show ?thesis using Cons False Some by auto
    qed
  qed
qed simp

end
