(* ===== verification/SchedProps.thy ===== *)
theory SchedProps
  imports SchedLink
begin

text \<open>
  The properties of clients/upssched.c: the timer daemon, the requests it gets, and what
  goes wrong with requests it cannot read.
\<close>

section \<open>A concrete daemon\<close>

definition empty_ctx :: pconf_ctx where
  "empty_ctx = \<lparr>pc_f = None, pc_state = ST_FINDWORDSTART, pc_ch = 0, pc_arglist = [], pc_argsize = [],
     pc_numargs = 0, pc_maxargs = 0, pc_wordbuf = [], pc_wordbufsize = 0, pc_linenum = 0,
     pc_error = False, pc_errmsg = [], pc_magic = 0, pc_arg_limit = 0, pc_wordlen_limit = 0\<rparr>"

text \<open>One connection, on descriptor 5, and the timers given.\<close>

definition timer_daemon :: "ttype list \<Rightarrow> sched" where
  "timer_daemon ts = \<lparr>q_thead = ts, q_connhead = [\<lparr>sc_addr = 7, sc_fd = 5, sc_ctx = pconf_init empty_ctx\<rparr>],
     q_emptyctr = 0, q_cmdscript = ''/bin/sched'', q_fresh = 8, q_tick = 0, q_ran = [], q_wire = []\<rparr>"

text \<open>The clock stands at 1000, every write succeeds, the bytes of text can be read.\<close>

definition sched_world :: "cstr \<Rightarrow> senv" where
  "sched_world bytes = \<lparr>se_listen = 3, se_time = (\<lambda>n. 1000),
     se_read = (\<lambda>n fd. if n < length bytes then GotByte (bytes ! n) else GotAgain),
     se_write = (\<lambda>n fd s. int (length s)), se_accept = (\<lambda>n. -1), se_nonblock = (\<lambda>n fd. True),
     se_select = (\<lambda>n fds. (0, [])), se_memory = (\<lambda>n. empty_ctx)\<rparr>"

definition sched_peer :: "cstr option \<Rightarrow> cenv" where
  "sched_peer answer = \<lparr>ce_connect = (\<lambda>n. 4), ce_lock = (\<lambda>n. -1), ce_write = (\<lambda>n s. int (length s)),
     ce_reply = (\<lambda>n. case answer of None \<Rightarrow> None | Some buf \<Rightarrow> Some (int (length buf), buf))\<rparr>"

definition sched_caller :: schedcmd where
  "sched_caller = \<lparr>sx_cmdscript = Some ''/bin/sched'', sx_pipefn = Some ''/run/p'', sx_lockfn = Some ''/run/l'',
     sx_upsname = ''ups@host'', sx_notify_type = ''ONBATT'', sx_tick = 0, sx_acts = []\<rparr>"

lemma sched_demo:
  "deref_conn 7 (timer_daemon ts) = Inr \<lparr>sc_addr = 7, sc_fd = 5, sc_ctx = pconf_init empty_ctx\<rparr>"
  "line_start (pconf_init empty_ctx)" "all_taken (sched_world bytes)" "silent (sched_world bytes)"
  "hears (sched_world bytes) (q_tick (timer_daemon ts)) fd bytes" "q_thead (timer_daemon ts) = ts"
  "se_time (sched_world bytes) n = 1000" "q_cmdscript (timer_daemon ts) = ''/bin/sched''" "q_ran (timer_daemon ts) = []"
  by (simp_all add: timer_daemon_def deref_conn_def line_start_def pconf_init_def pconf_wf_def PCONF_CTX_t_MAGIC_def
      PCONF_DEFAULT_ARG_LIMIT_def PCONF_DEFAULT_WORDLEN_LIMIT_def sched_world_def all_taken_def silent_def hears_def)

lemma timer_daemon_ok: "addresses_ok t_addr 8 ts \<Longrightarrow> sched_ok (timer_daemon ts)"
  using sched_demo(2) by (simp add: sched_ok_def timer_daemon_def line_start_def)

lemma sched_peer_answers: "replies_with (sched_peer (Some buf)) buf"
  by (simp add: replies_with_def sched_peer_def valid_fd_def)

section \<open>Requests arrive\<close>

text \<open>C18. START-TIMER in upssched reaches the daemon: the bytes of the request, read from the
  connection one by one, append a timer of that name whose time is the clock, read after
  the last byte, plus the interval, the daemon answers OK, and upssched takes that answer for
  success after sending the request once.  Name and interval take at most 116 characters together
  when they are escaped, so that one read() of the daemon gets the whole request.\<close>

theorem start_request_arrives:
  assumes "sched_ok q" "deref_conn a q = Inr k" "line_start (sc_ctx k)"
    "line_fits (sc_ctx k) (request_items ''START'' [name, secs])"
    "length (escape name) + length (escape secs) \<le> 116"
    "hears E (q_tick q) (sc_fd k) (request_text ''START'' name (Some secs))" "all_taken E"
    "0 \<le> fst (strtol secs 10)" "replies_with F (''OK'' @ [NL])"
  shows "(\<exists>q'. sched_sock_read E a q = Inr (q', 1) \<and>
      q_thead q' = q_thead q @ [\<lparr>t_addr = q_fresh q, t_name = name,
        t_etime = c_time (se_time E (q_tick q + length (request_text ''START'' name (Some secs))) + fst (strtol secs 10))\<rparr>] \<and>
      q_wire q' = q_wire q @ [(sc_fd k, ''OK'' @ [NL])]) \<and>
    (\<exists>c'. sendcmd F ''START'' (Some name) (Some secs) c = Inr c' \<and>
      sx_acts c' = sx_acts c @ [Sent (request_text ''START'' name (Some secs))])"
proof
  have line: "request_text ''START'' name (Some secs) = line_text (request_items ''START'' [name, secs])"
    using assms(5) by (intro request_text_line) (simp add: SMALLBUF_def)
  have len: "length (line_text (request_items ''START'' [name, secs])) \<le> US_MAX_READ"
    using assms(5) by (simp add: request_items_def US_MAX_READ_def)
  obtain ctx where ctx: "sched_sock_read E a q = sock_command E a (put_sctx a ctx (q\<lparr>q_tick := q_tick q +
      length (line_text (request_items ''START'' [name, secs]))\<rparr>))" "line_start ctx" "pconf_args ctx = [''START'', name, secs]"
    using line_reaches_command [OF assms(1-4)] assms(6) len unfolding line by (auto simp: request_items_def)
  show "\<exists>q'. sched_sock_read E a q = Inr (q', 1) \<and>
      q_thead q' = q_thead q @ [\<lparr>t_addr = q_fresh q, t_name = name,
        t_etime = c_time (se_time E (q_tick q + length (request_text ''START'' name (Some secs))) + fst (strtol secs 10))\<rparr>] \<and>
      q_wire q' = q_wire q @ [(sc_fd k, ''OK'' @ [NL])]"
    unfolding ctx(1) line using assms(2,7,8) ctx(2,3)
      start_command [OF assms(7), of a "put_sctx a ctx (q\<lparr>q_tick := q_tick q +
        length (line_text (request_items ''START'' [name, secs]))\<rparr>)" "k\<lparr>sc_ctx := ctx\<rparr>" name secs]
    by (auto simp: start_timer_def Let_def)
  show "\<exists>c'. sendcmd F ''START'' (Some name) (Some secs) c = Inr c' \<and>
      sx_acts c' = sx_acts c @ [Sent (request_text ''START'' name (Some secs))]"
    using send_tries_ok [OF assms(9) request_not_Nil, of "''START''" "Some secs" "''START''" name "Some secs" 29 c]
    by (simp add: sendcmd_def US_MAX_TRIES_def)
qed

lemma start_request_arrives_witness:
  "\<exists>q'. sched_sock_read (sched_world (request_text ''START'' ''off'' (Some ''30''))) 7 (timer_daemon []) = Inr (q', 1) \<and>
     map t_name (q_thead q') = [''off''] \<and> q_wire q' = [(5, ''OK'' @ [NL])]"
proof -
  let ?req = "request_text ''START'' ''off'' (Some ''30'')"
  have chars: "list_all bare_char ''START''" "list_all word_char ''off''" "list_all word_char ''30''" by code_simp+
  have "(\<exists>q'. sched_sock_read (sched_world ?req) 7 (timer_daemon []) = Inr (q', 1) \<and>
      q_thead q' = q_thead (timer_daemon []) @ [\<lparr>t_addr = q_fresh (timer_daemon []), t_name = ''off'',
        t_etime = c_time (se_time (sched_world ?req) (q_tick (timer_daemon []) + length ?req) + fst (strtol ''30'' 10))\<rparr>] \<and>
      q_wire q' = q_wire (timer_daemon []) @ [(sc_fd \<lparr>sc_addr = 7, sc_fd = 5, sc_ctx = pconf_init empty_ctx\<rparr>, ''OK'' @ [NL])]) \<and>
    (\<exists>c'. sendcmd (sched_peer (Some (''OK'' @ [NL]))) ''START'' (Some ''off'') (Some ''30'') sched_caller = Inr c' \<and>
      sx_acts c' = sx_acts sched_caller @ [Sent ?req])"
  proof (rule start_request_arrives)
    show "sched_ok (timer_daemon [])" by (rule timer_daemon_ok) simp
    show "line_fits (sc_ctx \<lparr>sc_addr = 7, sc_fd = 5, sc_ctx = pconf_init empty_ctx\<rparr>) (request_items ''START'' [''off'', ''30''])"
      using chars by (simp add: line_fits_def request_items_def item_ok_def pconf_init_def
          PCONF_DEFAULT_WORDLEN_LIMIT_def PCONF_DEFAULT_ARG_LIMIT_def)
    show "0 \<le> fst (strtol ''30'' 10)" by code_simp
  qed (simp_all add: sched_demo sched_peer_answers pconf_escape_def)
  then show ?thesis by (auto simp: timer_daemon_def)
qed

section \<open>Timers\<close>

text \<open>C19. A pass of the daemon over its timers, with one reading of the clock, runs the script
  once for every timer whose time has come, in the order of the list, and for no other, and
  takes exactly those from the list.\<close>

theorem timers_run_when_due:
  assumes "sched_ok q" "q_thead q \<noteq> []"
  shows "\<exists>q'. checktimers E q = Inr (q', False) \<and>
    q_thead q' = filter (\<lambda>t. se_time E (q_tick q) < t_etime t) (q_thead q) \<and>
    q_ran q' = q_ran q @ map (\<lambda>t. script_line (q_cmdscript q) (t_name t))
      (filter (\<lambda>t. t_etime t \<le> se_time E (q_tick q)) (q_thead q)) \<and>
    q_connhead q' = q_connhead q \<and> q_emptyctr q' = 0"
  using checktimers_runs [OF assms, of E] by (simp add: after_due_def due_def not_le cong: filter_cong)

lemma timers_run_when_due_witness:
  "\<exists>q'. checktimers (sched_world []) (timer_daemon [\<lparr>t_addr = 1, t_name = ''late'', t_etime = 2000\<rparr>,
       \<lparr>t_addr = 2, t_name = ''now'', t_etime = 1000\<rparr>]) = Inr (q', False) \<and>
     map t_name (q_thead q') = [''late''] \<and> q_ran q' = [''/bin/sched now'']"
proof -
  let ?ts = "[\<lparr>t_addr = 1, t_name = ''late'', t_etime = 2000\<rparr>, \<lparr>t_addr = 2, t_name = ''now'', t_etime = 1000\<rparr>]"
  have "sched_ok (timer_daemon ?ts)" by (rule timer_daemon_ok) simp
  then show ?thesis
    using timers_run_when_due [of "timer_daemon ?ts" "sched_world []"]
    by (auto simp: sched_demo script_line_def snprintf_def US_LARGEBUF_def)
qed

text \<open>C20. Whatever clients of the socket send, however reads and writes fail: a daemon that
  starts without timers and connections never goes through a pointer to a freed timer or
  connection, and its walks over the lists end.\<close>

theorem daemon_uses_no_freed_memory:
  "daemon_turns n E (new_daemon script) \<noteq> Inl Freed_access \<and> daemon_turns n E (new_daemon script) \<noteq> Inl Endless"
  using daemon_turns_ok [OF new_daemon_ok, of n E script] by auto

text \<open>C21. When nobody asks for anything any more and the time of every timer has come, the daemon
  runs every timer exactly once, in order, and after 15 passes without timers it exits, not
  before.\<close>

theorem daemon_ends_after_last_timer:
  assumes "silent E" "sched_ok q" "q_thead q \<noteq> []" "\<forall>t\<in>set (q_thead q). \<forall>n. t_etime t \<le> se_time E n"
  shows "\<exists>q'. daemon_turns (Suc n) E q = Inr (q', 15 \<le> n) \<and>
    q_ran q' = q_ran q @ map (\<lambda>t. script_line (q_cmdscript q) (t_name t)) (q_thead q)"
  using silent_turns_due [OF assms, of n] by (simp add: US_EMPTY_WAIT_def)

lemma daemon_ends_after_last_timer_witness:
  "\<exists>q'. daemon_turns 16 (sched_world []) (timer_daemon [\<lparr>t_addr = 1, t_name = ''now'', t_etime = 1000\<rparr>]) = Inr (q', True) \<and>
     length (q_ran q') = 1"
proof -
  let ?q = "timer_daemon [\<lparr>t_addr = 1, t_name = ''now'', t_etime = 1000\<rparr>]"
  have "sched_ok ?q" by (rule timer_daemon_ok) simp
  then have "\<exists>q'. daemon_turns (Suc 15) (sched_world []) ?q = Inr (q', 15 \<le> (15::nat)) \<and>
      q_ran q' = q_ran ?q @ map (\<lambda>t. script_line (q_cmdscript ?q) (t_name t)) (q_thead ?q)"
    by (intro daemon_ends_after_last_timer) (simp_all add: sched_demo)
  then show ?thesis by (auto simp: timer_daemon_def)
qed

text \<open>Cancelling takes away the first timer of the name, so a second one started for the same
  name, as by two UPSes under one wildcard entry, stays and fires; the command for a timer
  that is gone runs only when none was found.\<close>

theorem cancel_removes_first:
  assumes "sched_ok q"
  shows "map t_name (q_thead (cancel_timer name cname q)) = remove1 name (map t_name (q_thead q)) \<and>
    q_ran (cancel_timer name cname q) = q_ran q @
      (if name \<in> t_name ` set (q_thead q) \<or> cname = None \<or> cname = Some [] then []
       else [script_line (q_cmdscript q) (the cname)])"
proof -
  have "addresses_ok t_addr (q_fresh q) (q_thead q)" using assms by (simp add: sched_ok_def)
  from find_remove1 [OF this, of name] show ?thesis
    by (auto simp: cancel_timer_def removetimer_def exec_cmd_def remove1_idem split: option.splits)
qed

lemma cancel_removes_first_witness:
  "map t_name (q_thead (cancel_timer ''gone'' None (timer_daemon [\<lparr>t_addr = 1, t_name = ''gone'', t_etime = 1000\<rparr>,
       \<lparr>t_addr = 2, t_name = ''gone'', t_etime = 1005\<rparr>]))) = [''gone'']"
proof -
  let ?ts = "[\<lparr>t_addr = 1, t_name = ''gone'', t_etime = 1000\<rparr>, \<lparr>t_addr = 2, t_name = ''gone'', t_etime = 1005\<rparr>]"
  have "sched_ok (timer_daemon ?ts)" by (rule timer_daemon_ok) simp
  then show ?thesis using cancel_removes_first [of "timer_daemon ?ts" "''gone''" None] by (simp add: sched_demo)
qed

section \<open>Requests that go wrong\<close>

text \<open>C38. An AT line that starts a timer without an interval is accepted: upssched sends START
  with one word, the daemon answers ERR UNKNOWN and starts nothing, and upssched repeats the
  request until it ends with the message that it cannot connect to the daemon; the rest of
  upssched.conf is not read.\<close>

theorem start_without_interval_is_fatal:
  assumes "sched_ok q" "deref_conn a q = Inr k" "line_start (sc_ctx k)"
    "line_fits (sc_ctx k) (request_items ''START'' [name])" "length (escape name) \<le> 116"
    "hears E (q_tick q) (sc_fd k) (request_text ''START'' name None)" "all_taken E"
    "replies_with F (''ERR UNKNOWN'' @ [NL])" "sx_cmdscript c \<noteq> None" "sx_pipefn c \<noteq> None" "sx_lockfn c \<noteq> None"
  shows "(\<exists>q'. sched_sock_read E a q = Inr (q', 1) \<and> q_thead q' = q_thead q \<and>
      q_wire q' = q_wire q @ [(sc_fd k, ''ERR UNKNOWN'' @ [NL])]) \<and>
    sched_conf_arg F [''AT'', sx_notify_type c, ''*'', ''START-TIMER'', name] c = Inl Fatal_exit"
proof
  have line: "request_text ''START'' name None = line_text (request_items ''START'' [name])"
    using assms(5) by (intro request_text_line1) (simp add: SMALLBUF_def)
  have len: "length (line_text (request_items ''START'' [name])) \<le> US_MAX_READ"
    using assms(5) by (simp add: request_items_def US_MAX_READ_def)
  obtain ctx where ctx: "sched_sock_read E a q = sock_command E a (put_sctx a ctx (q\<lparr>q_tick := q_tick q +
      length (line_text (request_items ''START'' [name]))\<rparr>))" "line_start ctx" "pconf_args ctx = [''START'', name]"
    using line_reaches_command [OF assms(1-4)] assms(6) len unfolding line by (auto simp: request_items_def)
  show "\<exists>q'. sched_sock_read E a q = Inr (q', 1) \<and> q_thead q' = q_thead q \<and>
      q_wire q' = q_wire q @ [(sc_fd k, ''ERR UNKNOWN'' @ [NL])]"
    unfolding ctx(1) using assms(2) ctx(2,3)
      unknown_command [OF assms(7), of a "put_sctx a ctx (q\<lparr>q_tick := q_tick q +
        length (line_text (request_items ''START'' [name]))\<rparr>)" "k\<lparr>sc_ctx := ctx\<rparr>" name]
    by simp
  show "sched_conf_arg F [''AT'', sx_notify_type c, ''*'', ''START-TIMER'', name] c = Inl Fatal_exit"
    using send_tries_refused [OF assms(8) request_not_Nil] assms(9-11)
    by (auto simp: sched_conf_arg_def parse_at_def sendcmd_def)
qed

lemma start_without_interval_is_fatal_witness:
  "sched_conf_arg (sched_peer (Some (''ERR UNKNOWN'' @ [NL])))
     [''AT'', sx_notify_type sched_caller, ''*'', ''START-TIMER'', ''off''] sched_caller = Inl Fatal_exit"
proof -
  let ?req = "request_text ''START'' ''off'' None"
  have chars: "list_all bare_char ''START''" "list_all word_char ''off''" by code_simp+
  have fits: "line_fits (sc_ctx \<lparr>sc_addr = 7, sc_fd = 5, sc_ctx = pconf_init empty_ctx\<rparr>) (request_items ''START'' [''off''])"
    using chars by (simp add: line_fits_def request_items_def item_ok_def pconf_init_def
        PCONF_DEFAULT_WORDLEN_LIMIT_def PCONF_DEFAULT_ARG_LIMIT_def)
  have "sched_ok (timer_daemon [])" by (rule timer_daemon_ok) simp
  from start_without_interval_is_fatal [OF this sched_demo(1) _ fits, of "sched_world ?req"
      "sched_peer (Some (''ERR UNKNOWN'' @ [NL]))" sched_caller]
  show ?thesis
    by (simp add: sched_demo sched_peer_answers [of "''ERR UNKNOWN'' @ [NL]", simplified] pconf_escape_def sched_caller_def)
qed



text \<open>CANCEL without a name, as the first line of a connection, makes the daemon read behind
  the array of words.\<close>

theorem cancel_without_name_reads_beyond:
  assumes "deref_conn a q = Inr k" "pc_numargs (sc_ctx k) = 1" "pc_maxargs (sc_ctx k) = 1"
    "pc_arglist (sc_ctx k) = [''CANCEL'']"
  shows "sock_command E a q = Inl Stray_read"
  using assms by (simp add: sock_command_def sched_sock_arg_def ctx_word_def Let_def)

text \<open>An interval near the largest number overflows the time of the timer: it lies in the past,
  and the next pass runs the script.\<close>

theorem huge_interval_fires_at_once:
  assumes "sched_ok q" "0 < se_time E (q_tick q)" "se_time E (q_tick q) < 2 ^ 62" "0 \<le> se_time E (Suc (q_tick q))"
    "fst (strtol secs 10) = LONG_MAX"
  shows "\<exists>q'. checktimers E (start_timer E name secs q) = Inr (q', False) \<and>
    script_line (q_cmdscript q) name \<in> set (q_ran q')"
proof -
  define now where "now = se_time E (q_tick q)"
  define t where "t = \<lparr>t_addr = q_fresh q, t_name = name, t_etime = c_time (now + LONG_MAX)\<rparr>"
  define q1 where "q1 = start_timer E name secs q"
  have now: "0 < now" "now < 2 ^ 62" using assms(2,3) by (simp_all add: now_def)
  have wrap: "(word_of_int (now + LONG_MAX) :: 64 word) = word_of_int (now + LONG_MAX - 2 ^ 64)" by simp
  have "c_time (now + LONG_MAX) = now + LONG_MAX - 2 ^ 64"
    unfolding c_time_def wrap sint_sbintrunc' using now
    by (intro signed_take_bit_int_eq_self) (simp_all add: LONG_MAX_def)
  then have late: "t_etime t < 0" using now by (simp add: t_def LONG_MAX_def)
  have q1: "q_thead q1 = q_thead q @ [t]" "q_tick q1 = Suc (q_tick q)" "q_cmdscript q1 = q_cmdscript q"
    using assms(5) by (simp_all add: q1_def t_def now_def start_timer_def LONG_MAX_def Let_def)
  have "sched_ok q1"
    using assms(1) timers_ok_start [of 0 q E name secs]
    by (auto simp: q1_def sched_ok_def timers_ok_def start_timer_def Let_def intro: addresses_ok_later)
  then have "checktimers E q1 = Inr (after_due (se_time E (q_tick q1)) [] (q_thead q1)
      (q1\<lparr>q_emptyctr := 0, q_tick := Suc (q_tick q1)\<rparr>), False)"
    using q1(1) by (intro checktimers_runs) simp_all
  moreover have "due (se_time E (Suc (q_tick q))) t" using late assms(4) by (simp add: due_def)
  ultimately show ?thesis
    unfolding q1_def [symmetric] by (simp add: after_due_def q1 t_def)
qed

end
