(* ===== verification/Spec2Isabelle.thy ===== *)
theory Spec2Isabelle
  imports ParseProps StateProps ServerProps DriverProps UpsmonProps SchedProps
begin

text \<open>
  Network UPS Tools: the data server upsd, the driver side of its sockets, the client
  library, the monitor upsmon, the timer program upssched, and the library code they share.

  The program.  Drivers (drivers/) talk to the hardware and keep the variables and commands
  of a device in a state tree.  upsd (server/) connects to the drivers' sockets, keeps a
  copy of every tree, and serves it to network clients by a line protocol: GET and LIST
  read, SET and INSTCMD are passed on to the driver, LOGIN, FSD, USERNAME, PASSWORD concern
  the session and the shutdown of the load.  Clients (clients/) reach upsd through
  upsclient.c; upsmon polls the status of every UPS, tells the administrator of changes and
  shuts the system down when the power no longer suffices; upssched delays its notifications
  by timers.  All connections and all configuration files use one parser
  (common/parseconf.c), upsd and the drivers one tree (common/state.c).

  Theories, by layer.
  NutPrelude: C strings and integers at their width, the libc functions used (strcasecmp,
    strtol, snprintf), snprintfcat() of common/common.c, linked lists as HOL lists.
  ParseConf: common/parseconf.c.  The context PCONF_CTX_t is the record pconf_ctx; one
    definition per function; pconf_wf is what keeps every buffer access in bounds.
  LineSpec: the abstract tokenizer (tok_step) and the proof that the context refines it;
    items of a line, escaping; the locale line_reader, the byte loop that upsd runs on
    drivers and on clients, interpreted in SState and ServerInv.
  ConfFile, UpsConf: the loops over configuration files (upsconf.c with its callback).
  StateTree: common/state.c.  st_tree_t is a record st_node in a HOL tree; tree_wf is the
    search-tree and buffer invariant, tree_step the relation of all operations; the locale
    info_store is the interface the daemons use, interpreted there on state.c itself.
  StrLib: common/str.c (trimming, strict number conversions).
  UserDb, DescTab: server/user.c and server/desc.c.
  UpsdState: the records of upstype.h, nut_ctype.h and stype.h, one record upsd for all
    global variables of the server, and the helpers of server/upsd.c.
  SState: server/sstate.c.   NetGet, NetList, NetSet, NetUser: the request handlers
    (netget.c; netlist.c; netset.c and netinstcmd.c; netuser.c, netmisc.c, netssl.c).
  UpsdConf: server/conf.c.   Upsd: the request table, client_readline() and mainloop().
  Session: three locales, answer_closed, session_closed and switch_closed, under which all
    requests that need no permission are treated once for every relation between states;
    interpreted on confinement here and on the invariant, the FSD flags and the parser
    contexts in ServerInv and ServerFacts.
  ServerInv, ServerRun: the invariant of the server, kept by a turn of the main loop.
  Delivery, DriverSync, ServerFacts: what arrives at clients, drivers and copies.
  Demo: a concrete server for the witnesses.
  StrTokens: the lists of words behind ups.status (str_contains_token() and
    str_add_unique_token() of common/common.c) against the list of words of a string.
  DriverState, DriverSock: drivers/dstate.c.  The record drv holds the static variables,
    the connections and everything written (d_wire).  A connection is reached through its
    address; going through the address of a freed connection is the fault Freed_access,
    so that use after free is a result of the model.  DriverMain: the part of
    drivers/main.c that answers requests; the handlers of a device are the record device.
  DummyUps: drivers/dummy-ups.c in its dummy modes, a complete device.
  DriverFacts, DriverSafe, DriverStatus: the invariant drv_inv, and the contract good
    (no endless loop; no freed access while writes succeed) of every operation; the locale
    device_code is what dstate.c relies on from a device, interpreted in DummyFacts.
  DriverLink: what readers receive while writes succeed.  Replica: the protocol between
    driver and upsd as an abstract machine (dmsg, msg_fx, replays) and the proof that the
    byte loop of upsd implements it.  ReplicaSync, DumpSync: DUMPALL rebuilds the driver's
    state.  BcastSync: every dstate operation is simulated by the messages it sends, as long
    as these arrive as meant (plain_op) and the visible flags do not all go (ops_keep).
    DriverSet: a SET from upsd to the device and back; the driver's reader as an
    interpretation of line_scanner.
  UpsClient: clients/upsclient.c.  A connection is the record upsconn, the network the
    record net of functions on a state of its own; a look at a word that was not received
    is the result CliBeyond.  ClientFacts: what the routines keep; the locale reply_stream
    is what reading a line needs from a network.  ClientLink: upsd as that network, so
    that a request of the client is answered by parse_net() and read back.
  UpsmonTokens, UpsmonState, UpsmonLogic, UpsmonPoll, UpsmonConf: clients/upsmon.c.  A UPS
    is the record utype, the other variables and all that is sent out the record mon.
    Logic has the notifications, the criticality of a UPS, recalc() and the shutdown; Poll
    the status words and a poll; Conf upsmon.conf, reload, the flag file, the loop and the
    start, with its check of the power values.  Of what goes to syslog the notices and the
    reports of failed polls are recorded, with their levels (mn_actions).
  UpsmonFacts: the locale status_change, which all notification routines that only set
    or clear their flag share.  UpsmonSpec: flags and lines after a status as functions of
    its words, the power value as a sum, and the proofs that the code computes them; rows
    of failed polls and which of them are reported; words that upsmon does not know.
    UpsmonLink: upsmon on a connection to upsd.
  UpsSched, UpsSchedCmd: clients/upssched.c, the timer daemon (record sched) and the
    program that upsmon starts (record schedcmd).  SchedFacts: the invariant sched_ok and
    the turns of the daemon.  SchedLink: requests from one to the other,
    read through another interpretation of line_scanner.
  ParseProps, StateProps, ServerProps, DriverProps, UpsmonProps, SchedProps and this theory:
    the properties C1 to C40.

  Modelling.  A pointer into a linked list is an index; handlers that wait while a client
  is removed are retargeted (client_gone).  A char is a byte, machine integers that matter
  for overflow are computed at their width (c_int, size_pred, words for flags).  System
  calls are the record os: the n-th call gets its result from a function of n, and n is
  counted in the state; every write() is recorded in sd_wire (d_wire in
  a driver, whose system calls are the record denv; upssched has senv and cenv), so that a
  statement on it is a statement on what reaches a socket.  fatalx() is the result None, or
  the fault Fatal_exit where faults are results.  The build is POSIX without SSL,
  tcp-wrappers and DEBUG.  Loops that delete what they visit, the main loop's scans and the
  configuration loops are total functions with termination proofs.

  The nested calls of send_to_all() and the walks over the connections carry bounds, the
  number of connections at the start; the properties on poll rounds and on the timer
  daemon show that they are never used up.  The loops of upssched that the code limits
  (MAX_TRIES, US_MAX_READ) recurse on the number of tries left; its wait for an answer that
  never comes is the fault Endless.  The wait of upsmon for its secondaries takes the
  readings of the clock from a list and is None when they run out before it ends.

  Not modelled: other logging and debug output, memory exhaustion, signal handlers, main()
  (but for the start of upsmon and the main loops) and the set-up of sockets, Windows code, SSL and the certificate tables, the default connect
  timeout of the client library, dstate_detect_phasecount() and the *_dynamic variants of
  dstate.c, the repeater mode of dummy-ups, the variable tables and ups.conf callbacks of
  drivers/main.c (v_read_upsconf stands for that pass), the privileged parent of upsmon and
  its sleep inhibitor, the fork and the throttling sleep of upssched, the drivers of real
  hardware (protocols of single devices, USB and SNMP libraries), the scanner, the C++
  client and configuration tools, and the clients that only print what the library returns.
\<close>

section \<open>The server as a whole\<close>

text \<open>A number of turns of the main loop; None when the process has ended.\<close>

fun turns :: "nat \<Rightarrow> os \<Rightarrow> pconf_ctx \<Rightarrow> upsd \<Rightarrow> upsd option" where
  "turns 0 E ctx0 S = Some S"
| "turns (Suc n) E ctx0 S =
     (case mainloop E ctx0 S of None \<Rightarrow> None | Some S' \<Rightarrow> turns n E ctx0 S')"

text \<open>C1. Whatever drivers and clients send, however connections fail and the configuration
  is reloaded, through any number of turns of the main loop: the login counter of every UPS
  is the number of clients logged into it, UPS names and account names stay unique, every
  variable tree and command list stays well formed and every parser in use in bounds.\<close>

theorem server_invariant:
  assumes "server_inv S" "turns n E ctx0 S = Some S'"
  shows "server_inv S'"
  using assms
proof (induction n arbitrary: S)
  case (Suc n)
  then show ?case by (auto split: option.splits dest: inv_mainloop)
qed simp

definition idle_server :: upsd where
  "idle_server = (demo_server [] [])\<lparr>sd_firstups := [], sd_firstclient := []\<rparr>"

lemma server_invariant_witness:
  "\<exists>S'. turns 1 demo_os (demo_ctx []) idle_server = Some S' \<and> server_inv S'"
proof -
  have inv: "server_inv idle_server"
    using demo_inv [of "[]"] by (simp add: idle_server_def server_inv_def logins_ok_def login_list_def)
  have "mainloop demo_os (demo_ctx []) idle_server = Some (idle_server\<lparr>sd_tick := 2\<rparr>)"
    by (simp add: mainloop_def do_time_def mainloop_reload_def mainloop_scan_def tracking_cleanup_def
        idle_server_def demo_server_def demo_os_def scan_clients.simps Let_def)
  then have "turns 1 demo_os (demo_ctx []) idle_server = Some (idle_server\<lparr>sd_tick := 2\<rparr>)"
    by simp
  then show ?thesis using server_invariant [OF inv] by blast
qed

text \<open>C2. A request line without the permission it needs, from any client in any state of its
  session, changes nothing but that client's own session data and writes to that client's
  socket only: no driver hears of it, no counter, flag, tree, account, setting or other client
  changes.  There is one exception: SET TRACKING ON, which no action guards, also turns on the
  switch for the tracking of commands that all clients share, and nothing else.  Only LOGIN,
  FSD, SET VAR and INSTCMD can reach further, each with its permission.\<close>

theorem unpermitted_requests_are_confined:
  assumes "\<not> permitted S c (pconf_args (c_ctx (the_client S c)))"
  shows "confined c S (parse_net E c S) \<or>
    (strcasecmp ''SET'' (hd (pconf_args (c_ctx (the_client S c)))) = 0 \<and>
     tracking_on (tl (pconf_args (c_ctx (the_client S c)))) \<and>
     confined c (S\<lparr>sd_tracking_enabled := True\<rparr>) (parse_net E c S))"
  using parse_net_confined [OF assms, of E] by (simp add: confined_or_switch_def)

lemma unpermitted_requests_are_confined_witness:
  "confined 0 (demo_server [] [''FSD'', ''rack'']) (parse_net demo_os 0 (demo_server [] [''FSD'', ''rack'']))"
proof -
  have v: "strcasecmp ''LOGIN'' ''FSD'' \<noteq> 0" "strcasecmp ''SET'' ''FSD'' \<noteq> 0" "strcasecmp ''INSTCMD'' ''FSD'' \<noteq> 0"
    by (simp_all add: ci_simps c_tolower_def)
  then have "\<not> permitted (demo_server [] [''FSD'', ''rack'']) 0
      (pconf_args (c_ctx (the_client (demo_server [] [''FSD'', ''rack'']) 0)))"
    by (simp add: permitted_def demo_may)
  from unpermitted_requests_are_confined [OF this, of demo_os] v(2) show ?thesis by simp
qed

section \<open>The drivers' data\<close>

text \<open>A driver's dump is replicated: when its SETINFO lines for distinct new variables are
  read byte by byte from the socket, the copy in upsd has every one of them with exactly
  the value the driver sent.\<close>

theorem dump_is_replicated:
  assumes "i < length (sd_firstups S)" "line_start (u_sock_ctx (the_ups S i))"
    "tree_wf (u_inforoot (the_ups S i))"
    "\<forall>upd\<in>set upds. line_fits (u_sock_ctx (the_ups S i)) (setinfo_items upd)"
    "distinct (map (\<lambda>(var, val). ci_key var) upds)"
    "\<forall>(var, val)\<in>set upds. sstate_getnode (the_ups S i) var = None"
    "(var, val) \<in> set upds"
  shows "\<exists>n. sstate_getnode (the_ups (sstate_read_loop E i S (dump_text upds)) i) var = Some n \<and> n_raw n = val"
  by (rule dump_replicates) (use assms in \<open>simp_all add: state_tree.upd_keys_def\<close>)

lemma dump_is_replicated_witness:
  "\<exists>n. sstate_getnode (the_ups (sstate_read_loop demo_os 0 (demo_server [] [])
       (dump_text [(''ups.status'', ''OL''), (''ups.load'', [QUOTE])])) 0) ''ups.load'' = Some n \<and> n_raw n = [QUOTE]"
proof (rule dump_is_replicated)
  show "line_start (u_sock_ctx (the_ups (demo_server [] []) 0))" using demo_set(3) by simp
  have "list_all bare_char ''SETINFO''" "list_all bare_char ''ups.status''" "list_all bare_char ''ups.load''"
    "list_all word_char ''OL''" "list_all word_char [QUOTE]"
    by code_simp+
  then show "\<forall>upd\<in>set [(''ups.status'', ''OL''), (''ups.load'', [QUOTE])].
      line_fits (u_sock_ctx (the_ups (demo_server [] []) 0)) (setinfo_items upd)"
    by (simp add: line_fits_def setinfo_items_def item_ok_def demo_ctx_def PCONF_DEFAULT_WORDLEN_LIMIT_def
        PCONF_DEFAULT_ARG_LIMIT_def)
  show "tree_wf (u_inforoot (the_ups (demo_server [] []) 0))" using demo_tree_wf by simp
  show "\<forall>(var, val)\<in>set [(''ups.status'', ''OL''), (''ups.load'', [QUOTE])].
      sstate_getnode (the_ups (demo_server [] []) 0) var = None"
    by (simp add: sstate_getnode_def ci_simps c_tolower_def)
qed (simp_all add: c_tolower_def)

text \<open>C31. A line from a driver, whatever it says, leaves every other UPS, all clients and all
  sockets alone; on its own UPS it keeps the identity, the connection, the login counter,
  the FSD flag and the staleness, and a well-formed entry well formed.\<close>

theorem driver_line_is_local:
  "sd_firstclient (driver_line E i S) = sd_firstclient S \<and> sd_wire (driver_line E i S) = sd_wire S \<and>
   (\<forall>j. j \<noteq> i \<longrightarrow> the_ups (driver_line E i S) j = the_ups S j) \<and>
   (i < length (sd_firstups S) \<longrightarrow>
      ups_frame (the_ups S i) (the_ups (driver_line E i S) i) \<and>
      (ups_wf (the_ups S i) \<longrightarrow> ups_wf (the_ups (driver_line E i S) i)))"
  using driver_line_effect [of i S E] by (simp add: line_effect_def)

lemma driver_line_is_local_witness:
  "u_numlogins (the_ups (driver_line demo_os 0 (demo_server [] [])) 0) = 0"
  using driver_line_is_local [of demo_os 0 "demo_server [] []"] by (simp add: ups_frame_def)

text \<open>A UPS counts as dead exactly when it has no connection, has been silent for longer
  than MAXAGE, or has finished its dump without data that is OK; the ping that may be sent
  meanwhile does not matter.\<close>

theorem dead_means_silent_or_stale:
  "snd (sstate_dead E i age S) \<longleftrightarrow>
     \<not> valid_fd (u_sock_fd (the_ups S i)) \<or>
     age < os_time E (sd_tick S) - u_last_heard (the_ups S i) \<or>
     (u_dumpdone (the_ups S i) \<and> \<not> u_data_ok (the_ups S i))"
  by (rule sstate_dead_iff)

lemma dead_means_silent_or_stale_witness:
  "snd (sstate_dead demo_os 0 15 (demo_server [] [])) \<longleftrightarrow> \<not> valid_fd (u_sock_fd (the_ups (demo_server [] []) 0)) \<or>
     15 < os_time demo_os 0 - u_last_heard (the_ups (demo_server [] []) 0) \<or>
     (u_dumpdone (the_ups (demo_server [] []) 0) \<and> \<not> u_data_ok (the_ups (demo_server [] []) 0))"
  using dead_means_silent_or_stale [of demo_os 0 15 "demo_server [] []"] by simp

section \<open>Reload and tracking\<close>

text \<open>The end of a reload drops exactly the UPSes that the new configuration no longer
  names and keeps the others in their order.\<close>

theorem reload_drops_unnamed:
  "map u_name (sd_firstups (purge_loop 0 S)) = map u_name (filter u_retain (sd_firstups S))"
proof -
  have "name_retain (purge_loop 0 S) = filter snd (name_retain S)"
    using purge_loop_retain [of 0 S] by simp
  then have "map fst (name_retain (purge_loop 0 S)) = map fst (filter snd (name_retain S))" by simp
  then show ?thesis by (simp add: name_retain_def filter_map o_def)
qed

text \<open>A TRACKING line from a driver with a status code of the protocol is what GET TRACKING
  reports from then on for that identifier.\<close>

theorem tracking_reports_driver_status:
  assumes "find_idx (tk_match tid) (sd_tracking_list S) = Some k" "status_text (atoi val) = Some txt"
  shows "tracking_get (fst (parse_args E i [''TRACKING'', tid, val] S)) tid = txt"
proof -
  have "fst (parse_args E i [''TRACKING'', tid, val] S) = fst (tracking_set tid val S)"
    by (simp add: parse_args_def Let_def ci_simps c_tolower_def)
  then show ?thesis using tracking_set_get [OF assms] by simp
qed

lemma tracking_reports_driver_status_witness:
  "tracking_get (fst (parse_args demo_os 0 [''TRACKING'', ''id1'', ''0'']
     ((demo_server [] [])\<lparr>sd_tracking_list := [\<lparr>tk_id = ''id1'', tk_status = -1, tk_request_time = 5\<rparr>]\<rparr>))) ''id1'' =
   ''SUCCESS''"
proof (rule tracking_reports_driver_status)
  show "find_idx (tk_match ''id1'') (sd_tracking_list ((demo_server [] [])
      \<lparr>sd_tracking_list := [\<lparr>tk_id = ''id1'', tk_status = -1, tk_request_time = 5\<rparr>]\<rparr>)) = Some 0"
    by (simp add: tk_match_def)
  show "status_text (atoi ''0'') = Some ''SUCCESS''" by code_simp
qed

text \<open>SET TRACKING OFF by the last client that tracks switches the tracking off for that
  client only: the general flag stays on.\<close>

theorem tracking_stays_enabled:
  assumes "all_written E" "c < length (sd_firstclient S)"
  shows "sd_tracking_enabled (net_set E c [''TRACKING'', ''OFF''] S) = sd_tracking_enabled S \<and>
    \<not> c_tracking (the_client (net_set E c [''TRACKING'', ''OFF''] S) c)"
proof -
  have "net_set E c [''TRACKING'', ''OFF''] S =
      reply E c (''OK'' @ [NL]) (with_client c (\<lambda>k. k\<lparr>c_tracking := False\<rparr>) S)"
    by (simp add: net_set_def tracking_disable_def Let_def ci_simps c_tolower_def)
  then show ?thesis
    using assms by (simp add: reply_sent with_client_def sent_def)
qed

lemma tracking_stays_enabled_witness:
  "sd_tracking_enabled (net_set demo_os 0 [''TRACKING'', ''OFF''] ((demo_server [] [])\<lparr>sd_tracking_enabled := True\<rparr>))"
  using tracking_stays_enabled [OF demo_os_written, of 0 "(demo_server [] [])\<lparr>sd_tracking_enabled := True\<rparr>"]
  by simp

end
